(* ===== verification/Prelude.thy ===== *)
theory Prelude
  imports Main "HOL-Library.Sublist" "HOL-Library.AList" "HOL-Library.List_Lexorder"
    "HOL-Library.Char_ord"
begin

text \<open>
  Shared vocabulary of the development: the results of fallible operations, the lemma
  collections the component theories fill, and generic facts on lists and association lists.

  A Go function that returns \<open>(T, error)\<close> is a value of the sum \<open>'e + 'a\<close>: \<open>Inl\<close> is the
  branch \<open>err != nil\<close>, \<open>Inr\<close> the other one. A function with effects takes the state
  and returns the pair of its result and the new state.
\<close>

section \<open>Results\<close>

type_synonym ('e, 'a) result = "'e + 'a"

abbreviation is_ok :: "('e, 'a) result \<Rightarrow> bool" where
  "is_ok r \<equiv> \<not> isl r"

text \<open>
  Sequencing: \<open>after m k\<close> runs \<open>m\<close> and hands its result, error or not, to \<open>k\<close>; \<open>give r\<close>
  returns \<open>r\<close> and leaves the state alone.
\<close>

definition after :: "('w \<Rightarrow> 'r \<times> 'w) \<Rightarrow> ('r \<Rightarrow> 'w \<Rightarrow> 's) \<Rightarrow> 'w \<Rightarrow> 's" where
  "after m k w = (case m w of (r, w1) \<Rightarrow> k r w1)"

definition give :: "'r \<Rightarrow> 'w \<Rightarrow> 'r \<times> 'w" where
  "give r w = (r, w)"

text \<open>
  A reflexive and transitive relation that every step of a program keeps is kept by the
  program; the steps may rely on an invariant they preserve.
\<close>

locale frame =
  fixes inv :: "'w \<Rightarrow> bool" and rel :: "'w \<Rightarrow> 'w \<Rightarrow> bool"
  assumes frame_refl: "rel w w"
    and frame_trans: "rel w w1 \<Longrightarrow> rel w1 w2 \<Longrightarrow> rel w w2"
begin

definition keeps :: "('w \<Rightarrow> 'r \<times> 'w) \<Rightarrow> bool" where
  "keeps m \<longleftrightarrow> (\<forall>w r w'. inv w \<longrightarrow> m w = (r, w') \<longrightarrow> inv w' \<and> rel w w')"

lemma keepsI: "(\<And>w r w'. inv w \<Longrightarrow> m w = (r, w') \<Longrightarrow> inv w' \<and> rel w w') \<Longrightarrow> keeps m"
  by (simp add: keeps_def)

lemma keepsD: "keeps m \<Longrightarrow> inv w \<Longrightarrow> m w = (r, w') \<Longrightarrow> inv w' \<and> rel w w'"
  by (simp add: keeps_def)

lemma keeps_give: "keeps (give r)"
  by (simp add: keeps_def give_def frame_refl)

lemma keeps_after_range:
  assumes "keeps m" "\<And>r w w'. inv w \<Longrightarrow> m w = (r, w') \<Longrightarrow> keeps (k r)"
  shows "keeps (after m k)"
proof (rule keepsI)
  fix w r w' assume w: "inv w" "after m k w = (r, w')"
  obtain r1 w1 where m: "m w = (r1, w1)" by (cases "m w")
  with keepsD [OF assms(1) w(1) m] keepsD [OF assms(2) [OF w(1) m], of w1 r w'] w
  show "inv w' \<and> rel w w'" using frame_trans by (auto simp: after_def)
qed

lemma keeps_after: "keeps m \<Longrightarrow> (\<And>r. keeps (k r)) \<Longrightarrow> keeps (after m k)"
  by (rule keeps_after_range)

lemma keeps_if: "(b \<Longrightarrow> keeps m) \<Longrightarrow> (\<not> b \<Longrightarrow> keeps n) \<Longrightarrow> keeps (if b then m else n)"
  by simp

lemma keeps_case_option:
  "(r = None \<Longrightarrow> keeps m) \<Longrightarrow> (\<And>x. r = Some x \<Longrightarrow> keeps (k x)) \<Longrightarrow> keeps (case r of None \<Rightarrow> m | Some x \<Rightarrow> k x)"
  by (cases r) simp_all

lemma keeps_case_sum:
  "(\<And>e. r = Inl e \<Longrightarrow> keeps (f e)) \<Longrightarrow> (\<And>x. r = Inr x \<Longrightarrow> keeps (g x)) \<Longrightarrow>
   keeps (case r of Inl e \<Rightarrow> f e | Inr x \<Rightarrow> g x)"
  by (cases r) simp_all

lemmas keeps_rules = keeps_give keeps_after keeps_if keeps_case_option keeps_case_sum

end

section \<open>Lemma collections\<close>

named_theorems path_simps "rewriting of lexical path operations"
named_theorems os_simps "effects of the system calls on the name space"
named_theorems frame_simps "what an operation leaves unchanged"

section \<open>Lists\<close>

lemma list_ex_eq_any: "list_ex (\<lambda>c. c = x) xs \<longleftrightarrow> x \<in> set xs"
  by (auto simp: list_ex_iff)

lemma prefix_append_iff_cases:
  "prefix xs (ys @ zs) \<longleftrightarrow> prefix xs ys \<or> (\<exists>us. xs = ys @ us \<and> prefix us zs)"
  by (simp add: prefix_append)

lemma butlast_append_snoc [simp]: "butlast (xs @ [x]) = xs"
  by simp

lemma prefix_imp_drop: "prefix xs ys \<Longrightarrow> xs @ drop (length xs) ys = ys"
  by (auto simp: prefix_def)

lemma strict_prefix_Cons_ex: "strict_prefix xs ys \<longleftrightarrow> (\<exists>z zs. ys = xs @ z # zs)"
  by (metis strict_prefixE' strict_prefixI')

section \<open>Association lists as finite maps\<close>

text \<open>
  Finite tables (directory entries, database rows) are association lists, so that they
  can be enumerated; they are read through \<^const>\<open>map_of\<close>.
\<close>

lemma map_of_update [simp]: "map_of (AList.update k v t) = (map_of t)(k \<mapsto> v)"
  by (rule update_conv')

lemma map_of_delete [simp]: "map_of (AList.delete k t) = (map_of t)(k := None)"
  by (rule delete_conv')

lemma map_of_filter_key: "map_of (filter (\<lambda>kv. P (fst kv)) t) k = (if P k then map_of t k else None)"
  by (induction t) auto

lemma distinct_filter_keys: "distinct (map fst t) \<Longrightarrow> distinct (map fst (filter P t))"
  by (rule distinct_map_filter)

lemma map_of_rekey_inj:
  assumes "\<And>x. x \<in> fst ` set t \<Longrightarrow> f x = f k \<Longrightarrow> x = k"
  shows "map_of (map (\<lambda>(x, v). (f x, v)) t) (f k) = map_of t k"
  using assms by (induction t) force+

lemma map_of_rekey_None:
  "k \<notin> f ` fst ` set t \<Longrightarrow> map_of (map (\<lambda>(x, v). (f x, v)) t) k = None"
  by (induction t) auto

end
