(* ===== verification/GoStrings.thy ===== *)
theory GoStrings
  imports Prelude
begin

text \<open>
  The functions of Go's package \<open>strings\<close> that the service uses, on byte strings: a Go string
  is a sequence of bytes and a \<^typ>\<open>char\<close> is a byte, so \<^typ>\<open>string\<close> is Go's \<open>string\<close>.
  \<open>TrimSpace\<close> removes the Unicode white space of UTF-8 encoded text, as Go does.
\<close>

section \<open>Prefixes, suffixes, membership\<close>

definition has_prefix :: "string \<Rightarrow> string \<Rightarrow> bool" where
  "has_prefix s p = prefix p s"

definition has_suffix :: "string \<Rightarrow> string \<Rightarrow> bool" where
  "has_suffix s x = suffix x s"

definition trim_prefix :: "string \<Rightarrow> string \<Rightarrow> string" where
  "trim_prefix s p = (if has_prefix s p then drop (length p) s else s)"

definition trim_suffix :: "string \<Rightarrow> string \<Rightarrow> string" where
  "trim_suffix s x = (if has_suffix s x then take (length s - length x) s else s)"

definition contains_any :: "string \<Rightarrow> string \<Rightarrow> bool" where
  "contains_any s cs = list_ex (\<lambda>c. c \<in> set cs) s"

definition replace_slash :: "string \<Rightarrow> string \<Rightarrow> string" where
  \<comment> \<open>\<open>strings.ReplaceAll(s, "/", r)\<close>\<close>
  "replace_slash s r = concat (map (\<lambda>c. if c = CHR ''/'' then r else [c]) s)"

fun join_with :: "string \<Rightarrow> string list \<Rightarrow> string" where
  \<comment> \<open>\<open>strings.Join\<close>\<close>
  "join_with sep [] = []"
| "join_with sep [x] = x"
| "join_with sep (x # y # zs) = x @ sep @ join_with sep (y # zs)"

fun split_on :: "char \<Rightarrow> string \<Rightarrow> string list" where
  \<comment> \<open>\<open>strings.Split\<close> on a one-byte separator\<close>
  "split_on c [] = [[]]"
| "split_on c (x # xs) =
     (if x = c then [] # split_on c xs
      else (case split_on c xs of [] \<Rightarrow> [[x]] | y # ys \<Rightarrow> (x # y) # ys))"

lemma split_on_not_Nil [simp]: "split_on c s \<noteq> []"
  by (induction s) (auto split: list.splits)

lemma split_on_append: "split_on c (a @ c # b) = split_on c a @ split_on c b"
  by (induction a) (auto split: list.splits)

lemma split_on_no_sep: "c \<notin> set s \<Longrightarrow> split_on c s = [s]"
  by (induction s) auto

lemma split_on_parts: "x \<in> set (split_on c s) \<Longrightarrow> c \<notin> set x"
proof (induction s arbitrary: x)
  case Nil
  then show ?case by simp
next
  case (Cons a s)
  obtain y ys where y: "split_on c s = y # ys" by (cases "split_on c s") auto
  show ?case
  proof (cases "a = c")
    case True
    with Cons show ?thesis by auto
  next
    case False
    with Cons.prems y have "x = a # y \<or> x \<in> set ys" by simp
    with Cons.IH [of y] Cons.IH [of x] y False show ?thesis by auto
  qed
qed

lemma join_split: "join_with [c] (split_on c s) = s"
proof (induction s)
  case Nil
  then show ?case by simp
next
  case (Cons a s)
  obtain y ys where y: "split_on c s = y # ys" by (cases "split_on c s") auto
  with Cons show ?case by (cases ys) auto
qed

lemma join_with_append:
  "xs \<noteq> [] \<Longrightarrow> ys \<noteq> [] \<Longrightarrow> join_with sep (xs @ ys) = join_with sep xs @ sep @ join_with sep ys"
proof (induction sep xs rule: join_with.induct)
  case (2 sep x)
  then show ?case by (cases ys) auto
qed auto

lemma split_join:
  "xs \<noteq> [] \<Longrightarrow> \<forall>x \<in> set xs. c \<notin> set x \<Longrightarrow> split_on c (join_with [c] xs) = xs"
proof (induction "[c]" xs rule: join_with.induct)
  case (3 x y zs)
  then show ?case by (simp add: split_on_append split_on_no_sep)
qed (auto simp: split_on_no_sep)

lemma join_with_eq_Nil:
  "\<forall>x \<in> set xs. x \<noteq> [] \<Longrightarrow> join_with sep xs = [] \<longleftrightarrow> xs = []"
  by (induction sep xs rule: join_with.induct) auto

section \<open>White space\<close>

text \<open>The UTF-8 encodings of the runes \<open>unicode.IsSpace\<close> accepts.\<close>

definition space_seqs :: "string list" where
  "space_seqs =
     [[CHR 0x09], [CHR 0x0A], [CHR 0x0B], [CHR 0x0C], [CHR 0x0D], [CHR 0x20],
      [CHR 0xC2, CHR 0x85], [CHR 0xC2, CHR 0xA0], [CHR 0xE1, CHR 0x9A, CHR 0x80],
      [CHR 0xE2, CHR 0x80, CHR 0x80], [CHR 0xE2, CHR 0x80, CHR 0x81],
      [CHR 0xE2, CHR 0x80, CHR 0x82], [CHR 0xE2, CHR 0x80, CHR 0x83],
      [CHR 0xE2, CHR 0x80, CHR 0x84], [CHR 0xE2, CHR 0x80, CHR 0x85],
      [CHR 0xE2, CHR 0x80, CHR 0x86], [CHR 0xE2, CHR 0x80, CHR 0x87],
      [CHR 0xE2, CHR 0x80, CHR 0x88], [CHR 0xE2, CHR 0x80, CHR 0x89],
      [CHR 0xE2, CHR 0x80, CHR 0x8A], [CHR 0xE2, CHR 0x80, CHR 0xA8],
      [CHR 0xE2, CHR 0x80, CHR 0xA9], [CHR 0xE2, CHR 0x80, CHR 0xAF],
      [CHR 0xE2, CHR 0x81, CHR 0x9F], [CHR 0xE3, CHR 0x80, CHR 0x80]]"

text \<open>Remove a leading sequence of the list as often as one is found.\<close>

function strip_left :: "string list \<Rightarrow> string \<Rightarrow> string" where
  "strip_left qs s =
     (case List.find (\<lambda>q. q \<noteq> [] \<and> prefix q s) qs of
        None \<Rightarrow> s
      | Some q \<Rightarrow> strip_left qs (drop (length q) s))"
  by pat_completeness auto
termination
proof (relation "measure (\<lambda>(qs, s). length s)", goal_cases)
  case 1
  show ?case by simp
next
  case (2 qs s q)
  then have "q \<noteq> []" and "prefix q s" by (auto simp: find_Some_iff)
  then show ?case by (cases q; cases s) auto
qed

declare strip_left.simps [simp del]

definition trim_left :: "string \<Rightarrow> string" where
  "trim_left s = strip_left space_seqs s"

definition trim_right :: "string \<Rightarrow> string" where
  "trim_right s = rev (strip_left (map rev space_seqs) (rev s))"

definition trim_space :: "string \<Rightarrow> string" where
  "trim_space s = trim_right (trim_left s)"

definition stripped :: "string list \<Rightarrow> string \<Rightarrow> bool" where
  "stripped qs s \<longleftrightarrow> (\<forall>q \<in> set qs. q \<noteq> [] \<longrightarrow> \<not> prefix q s)"

lemma strip_left_stripped: "stripped qs (strip_left qs s)"
proof (induction qs s rule: strip_left.induct)
  case (1 qs s)
  show ?case
  proof (cases "List.find (\<lambda>q. q \<noteq> [] \<and> prefix q s) qs")
    case None
    then have "strip_left qs s = s" by (subst strip_left.simps) simp
    with None show ?thesis by (auto simp: stripped_def find_None_iff)
  next
    case (Some q)
    with 1 show ?thesis by (subst strip_left.simps) simp
  qed
qed

lemma strip_left_id: "stripped qs s \<Longrightarrow> strip_left qs s = s"
proof -
  assume "stripped qs s"
  then have "List.find (\<lambda>q. q \<noteq> [] \<and> prefix q s) qs = None"
    by (auto simp: stripped_def find_None_iff)
  then show ?thesis by (subst strip_left.simps) simp
qed

lemma strip_left_suffix: "suffix (strip_left qs s) s"
proof (induction qs s rule: strip_left.induct)
  case (1 qs s)
  show ?case
  proof (cases "List.find (\<lambda>q. q \<noteq> [] \<and> prefix q s) qs")
    case None
    then show ?thesis by (subst strip_left.simps) simp
  next
    case (Some q)
    with 1 show ?thesis
      by (subst strip_left.simps) (auto intro: suffix_order.trans suffix_drop)
  qed
qed

lemma trim_right_prefix: "prefix (trim_right s) s"
  using strip_left_suffix [of "map rev space_seqs" "rev s"]
  by (simp add: trim_right_def suffix_to_prefix)

lemma stripped_prefix: "stripped qs s \<Longrightarrow> prefix t s \<Longrightarrow> stripped qs t"
  by (auto simp: stripped_def intro: prefix_order.trans)

lemma trim_space_stripped:
  "stripped space_seqs (trim_space s)" "stripped (map rev space_seqs) (rev (trim_space s))"
  unfolding trim_space_def
  by (rule stripped_prefix [OF _ trim_right_prefix])
    (simp_all add: trim_left_def trim_right_def strip_left_stripped)

lemma trim_space_idem [simp]: "trim_space (trim_space s) = trim_space s"
  using trim_space_stripped [of s]
  by (simp add: trim_space_def [of "trim_space s"] trim_left_def trim_right_def strip_left_id)

lemma trim_space_Nil [simp]: "trim_space [] = []"
  by (simp add: trim_space_def trim_left_def trim_right_def strip_left_id stripped_def)

text \<open>
  A string is trimmed when \<^const>\<open>trim_space\<close> does not change it; \<^const>\<open>stripped\<close> on both ends
  decides it.
\<close>

lemma trim_space_id:
  "stripped space_seqs s \<Longrightarrow> stripped (map rev space_seqs) (rev s) \<Longrightarrow> trim_space s = s"
  by (simp add: trim_space_def trim_left_def trim_right_def strip_left_id)

section \<open>Lower case\<close>

text \<open>
  \<open>strings.ToLower\<close>. Apart from the letters A to Z, two runes have an ASCII lower case:
  U+0130 and the Kelvin sign U+212A. Other runes beyond ASCII keep their bytes here: Go may
  map them to another rune beyond ASCII. The service only compares the result with ASCII
  constants (as a whole or as a suffix), which cannot tell the two apart.
\<close>

definition lower_char :: "char \<Rightarrow> char" where
  "lower_char c =
     (if 65 \<le> (of_char c :: nat) \<and> (of_char c :: nat) \<le> 90 then char_of (of_char c + 32 :: nat) else c)"

fun to_lower :: "string \<Rightarrow> string" where
  "to_lower [] = []"
| "to_lower (a # s) =
     (case s of
        b # c # t \<Rightarrow>
          (if a = CHR 0xC4 \<and> b = CHR 0xB0 then CHR ''i'' # to_lower (c # t)
           else if a = CHR 0xE2 \<and> b = CHR 0x84 \<and> c = CHR 0xAA then CHR ''k'' # to_lower t
           else lower_char a # to_lower s)
      | [b] \<Rightarrow> (if a = CHR 0xC4 \<and> b = CHR 0xB0 then ''i'' else lower_char a # to_lower s)
      | [] \<Rightarrow> [lower_char a])"

text \<open>An equation with one recursive call, for evaluation.\<close>

definition lower_step :: "char \<Rightarrow> string \<Rightarrow> char \<times> string" where
  "lower_step a s =
     (if a = CHR 0xC4 \<and> take 1 s = [CHR 0xB0] then (CHR ''i'', drop 1 s)
      else if a = CHR 0xE2 \<and> take 2 s = [CHR 0x84, CHR 0xAA] then (CHR ''k'', drop 2 s)
      else (lower_char a, s))"

lemma to_lower_code [code]:
  "to_lower s = (case s of [] \<Rightarrow> [] | a # t \<Rightarrow> (case lower_step a t of (x, u) \<Rightarrow> x # to_lower u))"
proof (cases s)
  case (Cons a t)
  show ?thesis
  proof (cases t)
    case b: (Cons b u)
    show ?thesis
    proof (cases u)
      case Nil
      with Cons b show ?thesis by (simp add: lower_step_def)
    next
      case c: (Cons c v)
      with Cons b show ?thesis by (simp add: lower_step_def take_Cons')
    qed
  qed (simp add: Cons lower_step_def)
qed simp

section \<open>Decimal numbers\<close>

text \<open>\<open>strconv.FormatUint(n, 10)\<close> and \<open>strconv.Itoa\<close> on numbers that are not negative.\<close>

fun decimal :: "nat \<Rightarrow> string" where
  "decimal n =
     (if n < 10 then [''0123456789'' ! n] else decimal (n div 10) @ [''0123456789'' ! (n mod 10)])"

lemma nth_digit: "n < 10 \<Longrightarrow> ''0123456789'' ! n \<in> set ''0123456789''"
  by (rule nth_mem) simp

lemma decimal_digits: "set (decimal n) \<subseteq> set ''0123456789''"
proof (induction n rule: decimal.induct)
  case (1 n)
  have "''0123456789'' ! (n mod 10) \<in> set ''0123456789''" by (rule nth_digit) simp
  moreover have "n < 10 \<Longrightarrow> ''0123456789'' ! n \<in> set ''0123456789''" by (rule nth_digit)
  ultimately show ?case using 1 by (subst decimal.simps) (auto simp del: decimal.simps)
qed

declare decimal.simps [simp del]

end
