(* ===== verification/GoPath.thy ===== *)
theory GoPath
  imports GoStrings
begin

text \<open>
  Go's package \<open>path/filepath\<close> on Unix: \<open>Clean\<close>, \<open>Join\<close>, \<open>Dir\<close>, \<open>Base\<close>, \<open>IsAbs\<close> and
  \<open>Rel\<close>, with their theory on element lists. The service decides every access question on
  cleaned path strings; the lemmas here turn those string tests into statements on the
  lists of path elements.
\<close>

section \<open>Operations\<close>

definition is_abs :: "string \<Rightarrow> bool" where
  "is_abs s = has_prefix s ''/''"

definition elems :: "string \<Rightarrow> string list" where
  "elems s = filter (\<lambda>x. x \<noteq> [] \<and> x \<noteq> ''.'') (split_on CHR ''/'' s)"

text \<open>
  Elements are processed from the left with a stack of kept ones: \<open>..\<close> drops the element
  before it, is dropped at the root and is kept at the front of a relative path.
\<close>

fun clean_elems :: "bool \<Rightarrow> string list \<Rightarrow> string list \<Rightarrow> string list" where
  "clean_elems rooted acc [] = rev acc"
| "clean_elems rooted acc (x # xs) =
     (if x = ''..'' then
        (case acc of
           [] \<Rightarrow> if rooted then clean_elems rooted [] xs else clean_elems rooted [''..''] xs
         | a # as \<Rightarrow>
             if a = ''..'' then clean_elems rooted (''..'' # acc) xs
             else clean_elems rooted as xs)
      else clean_elems rooted (x # acc) xs)"

definition path_elems :: "string \<Rightarrow> string list" where
  "path_elems s = clean_elems (is_abs s) [] (elems s)"

definition abs_path :: "string list \<Rightarrow> string" where
  "abs_path es = CHR ''/'' # join_with ''/'' es"

definition clean :: "string \<Rightarrow> string" where
  "clean s =
     (let es = path_elems s
      in if is_abs s then abs_path es
         else if es = [] then ''.'' else join_with ''/'' es)"

definition join_path :: "string list \<Rightarrow> string" where
  "join_path ps =
     (case dropWhile (\<lambda>p. p = []) ps of [] \<Rightarrow> [] | qs \<Rightarrow> clean (join_with ''/'' qs))"

definition dir_path :: "string \<Rightarrow> string" where
  "dir_path p = clean (rev (dropWhile (\<lambda>c. c \<noteq> CHR ''/'') (rev p)))"

definition base_path :: "string \<Rightarrow> string" where
  "base_path p =
     (if p = [] then ''.''
      else let q = rev (dropWhile (\<lambda>c. c = CHR ''/'') (rev p))
           in if q = [] then ''/'' else rev (takeWhile (\<lambda>c. c \<noteq> CHR ''/'') (rev q)))"

definition segs :: "string \<Rightarrow> string list" where
  "segs s = (if s = [] \<or> s = ''/'' then [] else split_on CHR ''/'' (if is_abs s then tl s else s))"

fun drop_common :: "'a list \<Rightarrow> 'a list \<Rightarrow> 'a list \<times> 'a list" where
  "drop_common (x # xs) (y # ys) = (if x = y then drop_common xs ys else (x # xs, y # ys))"
| "drop_common xs ys = (xs, ys)"

definition rel_path :: "string \<Rightarrow> string \<Rightarrow> (string, string) result" where
  "rel_path base targ =
     (let b = clean base; t = clean targ
      in if t = b then Inr ''.''
         else
           let b' = (if b = ''.'' then [] else b); msg = ''Rel: can't make '' @ targ @ '' relative to '' @ base
           in if is_abs b' \<noteq> is_abs t then Inl msg
              else
                (case drop_common (segs b') (segs t) of
                   (bs, ts) \<Rightarrow>
                     if bs \<noteq> [] \<and> ts \<noteq> [] \<and> hd bs = ''..'' then Inl msg
                     else Inr (join_with ''/'' (replicate (length bs) ''..'' @ ts))))"

section \<open>Plain element lists\<close>

definition plain_elem :: "string \<Rightarrow> bool" where
  "plain_elem x \<longleftrightarrow> x \<noteq> [] \<and> x \<noteq> ''.'' \<and> x \<noteq> ''..'' \<and> CHR ''/'' \<notin> set x"

definition plain :: "string list \<Rightarrow> bool" where
  "plain es \<longleftrightarrow> (\<forall>e \<in> set es. plain_elem e)"

lemma plain_simps [simp]:
  "plain []" "plain (x # xs) \<longleftrightarrow> plain_elem x \<and> plain xs"
  "plain (xs @ ys) \<longleftrightarrow> plain xs \<and> plain ys" "plain (rev xs) = plain xs"
  by (auto simp: plain_def)

lemma plain_butlast: "plain es \<Longrightarrow> plain (butlast es)"
  by (auto simp: plain_def dest: in_set_butlastD)

lemma plain_prefix: "plain fs \<Longrightarrow> prefix es fs \<Longrightarrow> plain es"
  by (auto elim: prefixE)

lemma is_abs_simps [path_simps, simp]:
  "is_abs (abs_path es)" "is_abs (CHR ''/'' # s)" "\<not> is_abs []"
  by (auto simp: is_abs_def abs_path_def has_prefix_def)

lemma is_abs_iff: "is_abs s \<longleftrightarrow> (\<exists>t. s = CHR ''/'' # t)"
  by (auto simp: is_abs_def has_prefix_def prefix_def)

lemma elems_append [path_simps]: "elems (a @ CHR ''/'' # b) = elems a @ elems b"
  by (simp add: elems_def split_on_append)

lemma elems_slash [path_simps]: "elems (CHR ''/'' # s) = elems s"
  by (simp add: elems_def)

lemma elems_Nil [path_simps]: "elems [] = []"
  by (simp add: elems_def)

lemma elems_join [path_simps]: "plain es \<Longrightarrow> elems (join_with ''/'' es) = es"
proof (cases "es = []")
  case False
  moreover assume p: "plain es"
  ultimately have "split_on CHR ''/'' (join_with ''/'' es) = es"
    by (intro split_join) (auto simp: plain_def plain_elem_def)
  with p show ?thesis
    by (auto simp: elems_def plain_def plain_elem_def intro!: filter_True)
qed (simp add: elems_Nil)

lemma elems_abs_path [path_simps]: "plain es \<Longrightarrow> elems (abs_path es) = es"
  by (simp add: abs_path_def path_simps)

lemma elems_single: "plain_elem e \<Longrightarrow> elems e = [e]"
  using elems_join [of "[e]"] by simp

lemma elems_elem: "x \<in> set (elems s) \<Longrightarrow> x \<noteq> [] \<and> x \<noteq> ''.'' \<and> CHR ''/'' \<notin> set x"
  by (auto simp: elems_def dest: split_on_parts)

lemma join_plain_Nil: "plain es \<Longrightarrow> join_with ''/'' es = [] \<longleftrightarrow> es = []"
  by (rule join_with_eq_Nil) (auto simp: plain_def plain_elem_def)

lemma join_plain_not_abs: "plain es \<Longrightarrow> \<not> is_abs (join_with ''/'' es)"
proof (cases es)
  case (Cons x xs)
  assume "plain es"
  with Cons obtain c cs where "x = c # cs" "c \<noteq> CHR ''/''"
    by (cases x) (auto simp: plain_elem_def)
  with Cons show ?thesis by (cases xs) (auto simp: is_abs_def has_prefix_def)
qed simp

lemma join_plain_inj:
  "plain es \<Longrightarrow> plain fs \<Longrightarrow> join_with ''/'' es = join_with ''/'' fs \<longleftrightarrow> es = fs"
  by (metis elems_join)

lemma abs_path_inj [path_simps]: "plain es \<Longrightarrow> plain fs \<Longrightarrow> abs_path es = abs_path fs \<longleftrightarrow> es = fs"
  by (metis elems_abs_path)

section \<open>Cleaning\<close>

lemma clean_elems_plain_append [path_simps]:
  "plain es \<Longrightarrow> clean_elems r acc (es @ xs) = clean_elems r (rev es @ acc) xs"
  by (induction es arbitrary: acc) (auto simp: plain_elem_def)

lemma clean_elems_plain [path_simps]: "plain es \<Longrightarrow> clean_elems r acc es = rev acc @ es"
  using clean_elems_plain_append [of es r acc "[]"] by simp

lemma clean_elems_rooted_plain:
  "plain acc \<Longrightarrow> \<forall>x \<in> set xs. x \<noteq> [] \<and> x \<noteq> ''.'' \<and> CHR ''/'' \<notin> set x \<Longrightarrow>
   plain (clean_elems True acc xs)"
proof (induction xs arbitrary: acc)
  case Nil
  then show ?case by simp
next
  case (Cons x xs)
  then show ?case by (cases acc) (auto simp: plain_elem_def)
qed

lemma plain_path_elems: "is_abs s \<Longrightarrow> plain (path_elems s)"
  by (simp add: path_elems_def clean_elems_rooted_plain elems_elem)

text \<open>A rooted path cleans to the path of a plain element list; such a path is clean.\<close>

lemma clean_rooted: "is_abs s \<Longrightarrow> clean s = abs_path (path_elems s)"
  by (simp add: clean_def)

lemma path_elems_abs_path [path_simps]: "plain es \<Longrightarrow> path_elems (abs_path es) = es"
  by (simp add: path_elems_def path_simps)

lemma clean_abs_path [path_simps]: "plain es \<Longrightarrow> clean (abs_path es) = abs_path es"
  by (simp add: clean_def path_simps)

lemma clean_idem_rooted: "is_abs s \<Longrightarrow> clean (clean s) = clean s"
  by (simp add: clean_rooted path_elems_abs_path plain_path_elems)

text \<open>A relative path cleans to some \<open>..\<close> followed by plain elements.\<close>

lemma clean_elems_relative_shape:
  assumes "\<forall>x \<in> set xs. x \<noteq> [] \<and> x \<noteq> ''.'' \<and> CHR ''/'' \<notin> set x" "plain bs"
  shows "\<exists>k es. clean_elems False (bs @ replicate n ''..'') xs = replicate k ''..'' @ es \<and> plain es"
  using assms
proof (induction xs arbitrary: bs n)
  case Nil
  then show ?case by (auto intro!: exI [of _ n] exI [of _ "rev bs"])
next
  case (Cons x xs)
  show ?case
  proof (cases "x = ''..''")
    case False
    with Cons.IH [of "x # bs" n] Cons.prems show ?thesis by (simp add: plain_elem_def)
  next
    case dd: True
    show ?thesis
    proof (cases bs)
      case Nil
      with dd Cons.IH [of "[]" "Suc n"] Cons.prems show ?thesis by (cases n) auto
    next
      case (Cons b cs)
      with dd Cons.IH [of cs n] Cons.prems show ?thesis by (auto simp: plain_elem_def)
    qed
  qed
qed

lemma path_elems_relative:
  assumes "\<not> is_abs s"
  obtains k es where "path_elems s = replicate k ''..'' @ es" "plain es"
proof -
  have "\<exists>k es. clean_elems False ([] @ replicate 0 ''..'') (elems s) = replicate k ''..'' @ es \<and> plain es"
    by (rule clean_elems_relative_shape) (auto dest: elems_elem)
  with assms that show ?thesis by (auto simp: path_elems_def)
qed

text \<open>
  A relative path that, once cleaned, is neither \<open>.\<close> nor \<open>..\<close> nor starts with \<open>../\<close>
  has plain elements only.
\<close>

lemma clean_relative_inside:
  assumes "\<not> is_abs s" "clean s \<noteq> ''.''" "clean s \<noteq> ''..''" "\<not> has_prefix (clean s) ''../''"
  shows "plain (path_elems s) \<and> path_elems s \<noteq> [] \<and> clean s = join_with ''/'' (path_elems s)"
proof -
  from assms(1) obtain k es where s: "path_elems s = replicate k ''..'' @ es" "plain es"
    by (rule path_elems_relative)
  with assms(1,2) have ne: "path_elems s \<noteq> []" and c: "clean s = join_with ''/'' (path_elems s)"
    by (auto simp: clean_def Let_def split: if_splits)
  have "k = 0"
  proof (rule ccontr)
    assume "k \<noteq> 0"
    then obtain m where "k = Suc m" by (cases k) auto
    with s(1) obtain rest where "path_elems s = ''..'' # rest" by simp
    with c assms(3,4) show False
      by (cases rest) (auto simp: has_prefix_def)
  qed
  with s ne c show ?thesis by simp
qed

lemma clean_relative: "\<not> is_abs s \<Longrightarrow> \<not> is_abs (clean s)"
proof (cases "path_elems s")
  case Nil
  assume "\<not> is_abs s"
  with Nil show ?thesis by (simp add: clean_def is_abs_def has_prefix_def)
next
  case (Cons x xs)
  assume s: "\<not> is_abs s"
  then obtain k es where e: "path_elems s = replicate k ''..'' @ es" "plain es" by (rule path_elems_relative)
  have "x = ''..'' \<or> plain_elem x" using e Cons by (cases k) auto
  then obtain c cs where "x = c # cs" "c \<noteq> CHR ''/''" by (cases x) (auto simp: plain_elem_def)
  with s Cons show ?thesis by (cases xs) (auto simp: clean_def Let_def is_abs_def has_prefix_def)
qed

section \<open>Joining\<close>

lemma join_path_abs [path_simps]:
  "plain es \<Longrightarrow> join_path [abs_path es, s] = abs_path (clean_elems True (rev es) (elems s))"
  by (simp add: join_path_def clean_def abs_path_def path_elems_def path_simps
      del: join_with.simps(1))

lemma join_path_abs_plain:
  "plain es \<Longrightarrow> plain fs \<Longrightarrow> join_path [abs_path es, join_with ''/'' fs] = abs_path (es @ fs)"
  by (simp add: path_simps)

lemma join_path_abs_elem [path_simps]:
  "plain es \<Longrightarrow> plain_elem e \<Longrightarrow> join_path [abs_path es, e] = abs_path (es @ [e])"
  using join_path_abs_plain [of es "[e]"] by simp

text \<open>The same facts for relative paths of plain elements.\<close>

lemma path_elems_join [path_simps]: "plain es \<Longrightarrow> path_elems (join_with ''/'' es) = es"
  by (simp add: path_elems_def join_plain_not_abs path_simps)

lemma clean_join_plain [path_simps]:
  "plain es \<Longrightarrow> es \<noteq> [] \<Longrightarrow> clean (join_with ''/'' es) = join_with ''/'' es"
  by (simp add: clean_def join_plain_not_abs path_elems_join)

lemma join_path_plain [path_simps]: "plain es \<Longrightarrow> es \<noteq> [] \<Longrightarrow> join_path es = join_with ''/'' es"
proof -
  assume p: "plain es" "es \<noteq> []"
  then have "dropWhile (\<lambda>p. p = []) es = es" by (cases es) (auto simp: plain_elem_def)
  with p show ?thesis
    using clean_join_plain [OF p] by (cases es) (simp_all add: join_path_def)
qed

lemma join_path_rel_plain [path_simps]:
  assumes "plain es" "es \<noteq> []" "plain fs" "fs \<noteq> []"
  shows "join_path [join_with ''/'' es, join_with ''/'' fs] = join_with ''/'' (es @ fs)"
proof -
  from assms have "join_with ''/'' es \<noteq> []" by (simp add: join_plain_Nil)
  moreover from assms have
    "join_with ''/'' [join_with ''/'' es, join_with ''/'' fs] = join_with ''/'' (es @ fs)"
    by (simp add: join_with_append)
  ultimately show ?thesis
    using assms by (simp add: join_path_def clean_join_plain del: join_with.simps)
qed

section \<open>Prefix tests on path strings\<close>

lemma join_prefix_slash:
  assumes "plain es" "plain fs" "es \<noteq> []"
  shows "has_prefix (join_with ''/'' fs) (join_with ''/'' es @ ''/'') \<longleftrightarrow> strict_prefix es fs"
proof
  assume "has_prefix (join_with ''/'' fs) (join_with ''/'' es @ ''/'')"
  then obtain r where r: "join_with ''/'' fs = join_with ''/'' es @ CHR ''/'' # r"
    by (auto simp: has_prefix_def prefix_def)
  then have fs: "fs \<noteq> []" by auto
  have "split_on CHR ''/'' (join_with ''/'' fs) = fs"
    using assms fs by (intro split_join) (auto simp: plain_def plain_elem_def)
  moreover have "split_on CHR ''/'' (join_with ''/'' es) = es"
    using assms by (intro split_join) (auto simp: plain_def plain_elem_def)
  ultimately have "fs = es @ split_on CHR ''/'' r"
    by (simp add: r split_on_append)
  then show "strict_prefix es fs"
    by (cases "split_on CHR ''/'' r") (auto intro: strict_prefixI')
next
  assume "strict_prefix es fs"
  then obtain z zs where "fs = es @ z # zs" by (auto elim: strict_prefixE')
  with assms(3) show "has_prefix (join_with ''/'' fs) (join_with ''/'' es @ ''/'')"
    by (simp add: join_with_append has_prefix_def)
qed

lemma abs_prefix_slash [path_simps]:
  assumes "plain es" "plain fs" "es \<noteq> []"
  shows "has_prefix (abs_path fs) (abs_path es @ ''/'') \<longleftrightarrow> strict_prefix es fs"
  using join_prefix_slash [OF assms] by (simp add: abs_path_def has_prefix_def)

lemma abs_prefix_root: "plain fs \<Longrightarrow> \<not> has_prefix (abs_path fs) (abs_path [] @ ''/'')"
  using join_plain_not_abs [of fs]
  by (auto simp: abs_path_def has_prefix_def is_abs_def)

section \<open>Last element and parent\<close>

lemma takeWhile_not_slash: "CHR ''/'' \<notin> set s \<Longrightarrow> takeWhile (\<lambda>c. c \<noteq> CHR ''/'') (s @ CHR ''/'' # t) = s"
  by (induction s) auto

lemma dropWhile_not_slash:
  "CHR ''/'' \<notin> set s \<Longrightarrow> dropWhile (\<lambda>c. c \<noteq> CHR ''/'') (s @ CHR ''/'' # t) = CHR ''/'' # t"
  by (induction s) auto

lemma abs_path_snoc: "\<exists>pre. abs_path (es @ [e]) = pre @ CHR ''/'' # e \<and> elems pre = elems (join_with ''/'' es) \<and> (pre = [] \<or> is_abs pre)"
proof (cases "es = []")
  case True
  then show ?thesis by (auto simp: abs_path_def intro!: exI [of _ "[]"])
next
  case False
  then show ?thesis
    by (auto simp: abs_path_def join_with_append elems_slash
        intro!: exI [of _ "CHR ''/'' # join_with ''/'' es"])
qed

lemma base_abs_path [path_simps]: "plain (es @ [e]) \<Longrightarrow> base_path (abs_path (es @ [e])) = e"
proof -
  assume p: "plain (es @ [e])"
  then have e: "e \<noteq> []" "CHR ''/'' \<notin> set (rev e)" by (auto simp: plain_elem_def)
  obtain pre where pre: "abs_path (es @ [e]) = pre @ CHR ''/'' # e"
    using abs_path_snoc [of es e] by blast
  have "dropWhile (\<lambda>c. c = CHR ''/'') (rev e @ CHR ''/'' # rev pre) = rev e @ CHR ''/'' # rev pre"
    using e by (cases "rev e") auto
  with e show ?thesis
    by (simp add: base_path_def pre takeWhile_not_slash [OF e(2)])
qed

lemma base_abs_root [simp]: "base_path (abs_path []) = ''/''"
  by (simp add: base_path_def abs_path_def)

lemma dir_abs_path [path_simps]: "plain (es @ [e]) \<Longrightarrow> dir_path (abs_path (es @ [e])) = abs_path es"
proof -
  assume p: "plain (es @ [e])"
  then have e: "CHR ''/'' \<notin> set (rev e)" by (auto simp: plain_elem_def)
  obtain pre where pre: "abs_path (es @ [e]) = pre @ CHR ''/'' # e"
    "elems pre = elems (join_with ''/'' es)" "pre = [] \<or> is_abs pre"
    using abs_path_snoc [of es e] by blast
  have "dir_path (abs_path (es @ [e])) = clean (pre @ [CHR ''/''])"
    by (simp add: dir_path_def pre(1) dropWhile_not_slash [OF e])
  moreover from pre(3) have "is_abs (pre @ [CHR ''/''])"
    by (auto simp: is_abs_def has_prefix_def)
  moreover have "elems (pre @ [CHR ''/'']) = es"
    using p pre(2) elems_append [of pre "[]"] by (simp add: path_simps)
  ultimately show ?thesis using p by (simp add: clean_def path_elems_def path_simps)
qed

lemma dir_abs_root [simp]: "dir_path (abs_path []) = abs_path []"
  by (simp add: dir_path_def abs_path_def clean_def path_elems_def path_simps)

end
