(* ===== verification/GoErrors.thy ===== *)
theory GoErrors
  imports GoStrings
begin

text \<open>
  Go errors. The service tells errors apart with \<open>errors.Is\<close> against the sentinel values
  its packages declare, and reports \<open>err.Error()\<close>. An error is therefore the list of the
  sentinels found in its tree of wrapped errors, and its text. The wrapping forms of
  \<open>fmt.Errorf\<close> in the source are one definition each.
\<close>

datatype sentinel =
    ErrInvalidContext
  | ErrNotFound
  | ErrAlreadyExists
  | ErrNotAFile
  | ErrNotADirectory
  | ErrFileTooLarge
  | ErrInvalidRequest
  | ErrInvalidFileRequest
  | ErrInvalidCloneReq
  | ErrInvalidGitRequest

fun sentinel_text :: "sentinel \<Rightarrow> string" where
  "sentinel_text ErrInvalidContext = ''invalid request context''"
| "sentinel_text ErrNotFound = ''path not found''"
| "sentinel_text ErrAlreadyExists = ''path already exists''"
| "sentinel_text ErrNotAFile = ''not a file''"
| "sentinel_text ErrNotADirectory = ''not a directory''"
| "sentinel_text ErrFileTooLarge = ''file too large for inline read''"
| "sentinel_text ErrInvalidRequest = ''invalid file request''"
| "sentinel_text ErrInvalidFileRequest = ''invalid file request''"
| "sentinel_text ErrInvalidCloneReq = ''invalid git clone request''"
| "sentinel_text ErrInvalidGitRequest = ''invalid git request''"

datatype go_error = GoError (err_sentinels: "sentinel list") (err_text: string)

definition errors_is :: "go_error \<Rightarrow> sentinel \<Rightarrow> bool" where
  "errors_is e s = List.member (err_sentinels e) s"

definition sentinel_error :: "sentinel \<Rightarrow> go_error" where
  "sentinel_error s = GoError [s] (sentinel_text s)"

definition text_error :: "string \<Rightarrow> go_error" where
  \<comment> \<open>\<open>errors.New(msg)\<close> or \<open>fmt.Errorf(msg)\<close> with nothing wrapped\<close>
  "text_error msg = GoError [] msg"

definition detail_error :: "sentinel \<Rightarrow> string \<Rightarrow> go_error" where
  \<comment> \<open>\<open>fmt.Errorf("%w: msg", s)\<close>, also \<open>fmt.Errorf("%w: %v", s, err)\<close> with the text of \<open>err\<close>\<close>
  "detail_error s msg = GoError [s] (sentinel_text s @ '': '' @ msg)"

definition wrap_error :: "string \<Rightarrow> go_error \<Rightarrow> go_error" where
  \<comment> \<open>\<open>fmt.Errorf("pre: %w", err)\<close>\<close>
  "wrap_error pre e = GoError (err_sentinels e) (pre @ '': '' @ err_text e)"

definition wrap_both :: "sentinel \<Rightarrow> go_error \<Rightarrow> go_error" where
  \<comment> \<open>\<open>fmt.Errorf("%w: %w", s, err)\<close>\<close>
  "wrap_both s e = GoError (s # err_sentinels e) (sentinel_text s @ '': '' @ err_text e)"

lemma errors_is_simps [simp]:
  "errors_is (sentinel_error s) t \<longleftrightarrow> s = t"
  "\<not> errors_is (text_error m) t"
  "errors_is (detail_error s m) t \<longleftrightarrow> s = t"
  "errors_is (wrap_error p e) t = errors_is e t"
  "errors_is (wrap_both s e) t \<longleftrightarrow> s = t \<or> errors_is e t"
  by (auto simp: errors_is_def sentinel_error_def text_error_def detail_error_def
      wrap_error_def wrap_both_def)

end
