(* ===== verification/Identity.thy ===== *)
theory Identity
  imports GoPath GoErrors
begin

text \<open>
  \<open>internal/domain/identity/context.go\<close>: the caller of a request and the mapping of the
  paths it sends to paths relative to the mount root.
\<close>

section \<open>The request context\<close>

record request_context =
  rc_owner_uin :: string
  rc_uin :: string
  rc_app_id :: string
  rc_workspace_id :: string

definition empty_context :: request_context where
  "empty_context = \<lparr>rc_owner_uin = [], rc_uin = [], rc_app_id = [], rc_workspace_id = []\<rparr>"

definition validate :: "request_context \<Rightarrow> go_error option" where
  "validate r =
     (if trim_space (rc_owner_uin r) = [] then Some (detail_error ErrInvalidContext ''owner_uin is required'')
      else if trim_space (rc_uin r) = [] then Some (detail_error ErrInvalidContext ''uin is required'')
      else if trim_space (rc_app_id r) = [] then Some (detail_error ErrInvalidContext ''app_id is required'')
      else if trim_space (rc_workspace_id r) = []
      then Some (detail_error ErrInvalidContext ''workspace_id is required'')
      else None)"

definition normalize :: "request_context \<Rightarrow> request_context" where
  "normalize r0 =
     (let r1 = \<lparr>rc_owner_uin = trim_space (rc_owner_uin r0), rc_uin = trim_space (rc_uin r0),
                rc_app_id = trim_space (rc_app_id r0), rc_workspace_id = trim_space (rc_workspace_id r0)\<rparr>;
          r2 = (if rc_uin r1 = [] then r1\<lparr>rc_uin := rc_owner_uin r1\<rparr> else r1)
      in if rc_owner_uin r2 = [] then r2\<lparr>rc_owner_uin := rc_uin r2\<rparr> else r2)"

definition user_path_prefix :: "request_context \<Rightarrow> string" where
  "user_path_prefix r = join_path [rc_app_id r, rc_workspace_id r, ''users'', rc_uin r]"

definition resolve_relative_path :: "request_context \<Rightarrow> string \<Rightarrow> (go_error, string) result" where
  "resolve_relative_path r user_path =
     (let p = trim_space user_path
      in if p = [] then Inl (detail_error ErrInvalidContext ''path is required'')
         else if is_abs p
         then Inl (detail_error ErrInvalidContext ''path must be relative to workspace mount root'')
         else
           let cp = clean p
           in if cp = ''.'' \<or> cp = ''..'' \<or> has_prefix cp ''../''
              then Inl (detail_error ErrInvalidContext ''path escapes workspace mount root'')
              else
                let pre = user_path_prefix r
                in if cp = pre \<or> has_prefix cp (pre @ ''/'') then Inr cp
                   else Inr (join_path [pre, cp]))"

section \<open>Normalisation and validation\<close>

text \<open>A context is normal when \<open>Normalize\<close> leaves it as it is.\<close>

lemma normalize_fields:
  "rc_app_id (normalize r) = trim_space (rc_app_id r)"
  "rc_workspace_id (normalize r) = trim_space (rc_workspace_id r)"
  "rc_uin (normalize r) =
     (if trim_space (rc_uin r) = [] then trim_space (rc_owner_uin r) else trim_space (rc_uin r))"
  "rc_owner_uin (normalize r) =
     (if trim_space (rc_owner_uin r) = [] then trim_space (rc_uin r) else trim_space (rc_owner_uin r))"
  by (auto simp: normalize_def Let_def)

lemma normalize_idem [simp]: "normalize (normalize r) = normalize r"
  by (simp add: normalize_def [of "normalize r"] normalize_fields Let_def)

lemma validate_normalize:
  "validate (normalize r) = None \<longleftrightarrow>
     (trim_space (rc_owner_uin r) \<noteq> [] \<or> trim_space (rc_uin r) \<noteq> []) \<and>
     trim_space (rc_app_id r) \<noteq> [] \<and> trim_space (rc_workspace_id r) \<noteq> []"
  by (auto simp: validate_def normalize_fields)

lemma validate_is_invalid_context: "validate r = Some e \<Longrightarrow> errors_is e ErrInvalidContext"
  by (auto simp: validate_def split: if_splits)

lemma resolve_error_is_invalid_context:
  "resolve_relative_path r p = Inl e \<Longrightarrow> errors_is e ErrInvalidContext"
  by (auto simp: resolve_relative_path_def Let_def split: if_splits)

section \<open>Confinement of resolved paths\<close>

text \<open>
  The fields that go into the prefix are single path elements. \<^const>\<open>validate\<close> does not check
  this: it is a hypothesis of the confinement facts, and without it they fail.
\<close>

definition element_context :: "request_context \<Rightarrow> bool" where
  "element_context r \<longleftrightarrow> plain_elem (rc_app_id r) \<and> plain_elem (rc_workspace_id r) \<and> plain_elem (rc_uin r)"

definition prefix_elems :: "request_context \<Rightarrow> string list" where
  "prefix_elems r = [rc_app_id r, rc_workspace_id r, ''users'', rc_uin r]"

lemma plain_users [simp]: "plain_elem ''users''"
  by (simp add: plain_elem_def)

lemma plain_prefix_elems: "element_context r \<Longrightarrow> plain (prefix_elems r)"
  by (simp add: element_context_def prefix_elems_def)

lemma prefix_elems_not_Nil [simp]: "prefix_elems r \<noteq> []"
  by (simp add: prefix_elems_def)

lemma user_path_prefix_elems:
  "element_context r \<Longrightarrow> user_path_prefix r = join_with ''/'' (prefix_elems r)"
  using join_path_plain [of "prefix_elems r"] plain_prefix_elems [of r]
  by (simp add: user_path_prefix_def prefix_elems_def)

lemma resolve_confined:
  assumes ok: "resolve_relative_path r p = Inr res" and r: "element_context r"
  obtains es where "plain es" "res = join_with ''/'' (prefix_elems r @ es)"
proof -
  define cp where "cp = clean (trim_space p)"
  define pre where "pre = join_with ''/'' (prefix_elems r)"
  from ok have ne: "\<not> is_abs (trim_space p)" "cp \<noteq> ''.''" "cp \<noteq> ''..''" "\<not> has_prefix cp ''../''"
    by (auto simp: resolve_relative_path_def Let_def cp_def split: if_splits)
  from ok r have res: "res = (if cp = pre \<or> has_prefix cp (pre @ ''/'') then cp else join_path [pre, cp])"
    by (auto simp: resolve_relative_path_def Let_def cp_def pre_def user_path_prefix_elems split: if_splits)
  obtain fs where fs: "plain fs" "fs \<noteq> []" "cp = join_with ''/'' fs"
    using clean_relative_inside [of "trim_space p"] ne by (auto simp: cp_def)
  have pl: "plain (prefix_elems r)" using r by (rule plain_prefix_elems)
  show thesis
  proof (cases "cp = pre \<or> has_prefix cp (pre @ ''/'')")
    case True
    then have "prefix (prefix_elems r) fs"
      using fs pl join_prefix_slash [OF pl fs(1)] by (auto simp: pre_def join_plain_inj)
    then obtain es where "fs = prefix_elems r @ es" by (auto elim: prefixE)
    with that fs True res show thesis by auto
  next
    case False
    with res fs pl have "res = join_with ''/'' (prefix_elems r @ fs)"
      by (simp add: pre_def join_path_rel_plain)
    with that fs show thesis by blast
  qed
qed

text \<open>Both accepted spellings of a path, with and without the prefix, resolve alike.\<close>

lemma resolve_join:
  assumes "element_context r" "plain fs" "fs \<noteq> []" "trim_space (join_with ''/'' fs) = join_with ''/'' fs"
  shows "resolve_relative_path r (join_with ''/'' fs) =
    Inr (join_with ''/'' (if prefix (prefix_elems r) fs then fs else prefix_elems r @ fs))"
proof -
  have c: "clean (join_with ''/'' fs) = join_with ''/'' fs" using assms by (simp add: clean_join_plain)
  have pl: "plain (prefix_elems r)" using assms by (simp add: plain_prefix_elems)
  obtain x xs where x: "fs = x # xs" "plain_elem x" using assms by (cases fs) auto
  have pre_eq: "join_with ''/'' fs = join_with ''/'' (prefix_elems r) \<longleftrightarrow> fs = prefix_elems r"
    using assms pl by (simp add: join_plain_inj)
  have ne: "join_with ''/'' fs \<noteq> []" "\<not> is_abs (join_with ''/'' fs)"
    "join_with ''/'' fs \<noteq> ''.''" "join_with ''/'' fs \<noteq> ''..''" "\<not> has_prefix (join_with ''/'' fs) ''../''"
  proof -
    have p: "split_on CHR ''/'' (join_with ''/'' fs) = fs"
      using assms by (intro split_join) (auto simp: plain_def plain_elem_def)
    show "join_with ''/'' fs \<noteq> []" "\<not> is_abs (join_with ''/'' fs)"
      using assms by (simp_all add: join_plain_Nil join_plain_not_abs)
    show "join_with ''/'' fs \<noteq> ''.''" "join_with ''/'' fs \<noteq> ''..''"
      using p x by (auto simp: plain_elem_def)
    show "\<not> has_prefix (join_with ''/'' fs) ''../''"
    proof
      assume "has_prefix (join_with ''/'' fs) ''../''"
      then obtain t where "join_with ''/'' fs = ''..'' @ CHR ''/'' # t"
        by (auto simp: has_prefix_def prefix_def)
      with p have "fs = split_on CHR ''/'' ''..'' @ split_on CHR ''/'' t"
        by (metis split_on_append)
      with x show False by (auto simp: plain_elem_def)
    qed
  qed
  show ?thesis
    using assms ne pre_eq pl
    by (auto simp: resolve_relative_path_def Let_def c user_path_prefix_elems join_path_rel_plain
        join_prefix_slash prefix_order.le_less)
qed

end
