(* ===== verification/FileDomain.thy ===== *)
theory FileDomain
  imports Identity "HOL-Library.Word"
begin

text \<open>
  \<open>internal/domain/file\<close>: the rows of \<open>ws_file_node\<close>, the node types, and the write-ahead
  intents with their life cycle. \<open>CreatedAt\<close> and \<open>UpdatedAt\<close> are left out: the service only
  writes them.
\<close>

type_synonym uint64 = "64 word"

section \<open>Nodes\<close>

record node_actor =
  na_owner_uin :: string
  na_uin :: string
  na_app_id :: string
  na_workspace_id :: string

record node_mutation =
  nm_inode_id :: uint64
  nm_actor :: node_actor
  nm_node_type :: string

record node_record =
  nr_inode_id :: uint64
  nr_owner_uin :: string
  nr_uin :: string
  nr_app_id :: string
  nr_workspace_id :: string
  nr_node_type :: string

definition new_node_actor :: "string \<Rightarrow> string \<Rightarrow> string \<Rightarrow> string \<Rightarrow> node_actor" where
  "new_node_actor owner_uin uin app_id workspace_id =
     \<lparr>na_owner_uin = owner_uin, na_uin = uin, na_app_id = app_id, na_workspace_id = workspace_id\<rparr>"

section \<open>Node types\<close>

abbreviation "NodeTypeFile \<equiv> ''file''"
abbreviation "NodeTypeDirectory \<equiv> ''directory''"
abbreviation "NodeTypeGitFolder \<equiv> ''git_folder''"
abbreviation "NodeTypeNotebook \<equiv> ''notebook''"

definition normalize_node_type :: "string \<Rightarrow> string" where
  "normalize_node_type raw =
     (let t = to_lower (trim_space raw)
      in if t = NodeTypeFile then NodeTypeFile
         else if t = NodeTypeDirectory then NodeTypeDirectory
         else if t = NodeTypeGitFolder then NodeTypeGitFolder
         else if t = NodeTypeNotebook then NodeTypeNotebook
         else [])"

definition node_type_from_dir :: "bool \<Rightarrow> string" where
  "node_type_from_dir is_dir = (if is_dir then NodeTypeDirectory else NodeTypeFile)"

definition infer_node_type_from_name :: "string \<Rightarrow> bool \<Rightarrow> string" where
  "infer_node_type_from_name name is_dir =
     (if is_dir then NodeTypeDirectory
      else if has_suffix (to_lower (trim_space name)) ''.ipynb'' then NodeTypeNotebook
      else NodeTypeFile)"

definition known_node_type :: "string \<Rightarrow> bool" where
  "known_node_type t \<longleftrightarrow> t \<in> {NodeTypeFile, NodeTypeDirectory, NodeTypeGitFolder, NodeTypeNotebook}"

lemma lower_letters [simp]:
  "lower_char CHR ''f'' = CHR ''f''" "lower_char CHR ''i'' = CHR ''i''" "lower_char CHR ''l'' = CHR ''l''"
  "lower_char CHR ''e'' = CHR ''e''" "lower_char CHR ''d'' = CHR ''d''" "lower_char CHR ''r'' = CHR ''r''"
  "lower_char CHR ''c'' = CHR ''c''" "lower_char CHR ''t'' = CHR ''t''" "lower_char CHR ''o'' = CHR ''o''"
  "lower_char CHR ''y'' = CHR ''y''" "lower_char CHR ''g'' = CHR ''g''" "lower_char CHR ''_'' = CHR ''_''"
  "lower_char CHR ''n'' = CHR ''n''" "lower_char CHR ''b'' = CHR ''b''" "lower_char CHR ''k'' = CHR ''k''"
  by code_simp+

lemma normalize_known [simp]: "known_node_type t \<Longrightarrow> normalize_node_type t = t"
proof -
  have "trim_space s = s \<and> to_lower s = s" if "known_node_type s" for s
    using that
    by (auto simp: known_node_type_def stripped_def space_seqs_def intro!: trim_space_id)
  then show "known_node_type t \<Longrightarrow> normalize_node_type t = t"
    by (auto simp: normalize_node_type_def Let_def known_node_type_def)
qed

lemma normalize_node_type_range: "normalize_node_type t = [] \<or> known_node_type (normalize_node_type t)"
  by (simp add: normalize_node_type_def Let_def known_node_type_def)

lemma normalize_node_type_idem: "normalize_node_type (normalize_node_type t) = normalize_node_type t"
  using normalize_node_type_range [of t] normalize_known [of "normalize_node_type t"]
  by (auto simp: normalize_node_type_def [of "[]"] Let_def)

lemma known_simps [simp]:
  "known_node_type NodeTypeFile" "known_node_type NodeTypeDirectory"
  "known_node_type NodeTypeGitFolder" "known_node_type NodeTypeNotebook" "\<not> known_node_type []"
  "known_node_type (node_type_from_dir b)"
  "known_node_type (infer_node_type_from_name n b)"
  by (auto simp: known_node_type_def node_type_from_dir_def infer_node_type_from_name_def)

section \<open>Intents\<close>

datatype intent_status = IntentPending | IntentDone | IntentAborted

datatype intent_op = IntentOpCreateFolder | IntentOpCreateFile | IntentOpWriteFile | IntentOpCreateNotebook

record intent =
  it_id :: string
  it_op :: intent_op
  it_abs_path :: string
  it_actor :: node_actor
  it_node_type :: string
  it_status :: intent_status
  it_attempts :: int
  it_last_error :: string

text \<open>
  The life cycle as an order: an intent starts pending and is settled as done or aborted.
\<close>

instantiation intent_status :: order
begin

definition less_eq_intent_status :: "intent_status \<Rightarrow> intent_status \<Rightarrow> bool" where
  "less_eq_intent_status a b \<longleftrightarrow> a = b \<or> a = IntentPending"

definition less_intent_status :: "intent_status \<Rightarrow> intent_status \<Rightarrow> bool" where
  "less_intent_status a b \<longleftrightarrow> a \<noteq> b \<and> a = IntentPending"

instance
  by standard (auto simp: less_eq_intent_status_def less_intent_status_def)

end

end
