(* ===== verification/Stores.thy ===== *)
theory Stores
  imports FileDomain
begin

text \<open>
  The ports \<open>domain/file.NodeStore\<close> and \<open>domain/file.IntentStore\<close>. A Go interface value is a
  record of its methods, over a state type \<open>'w\<close> the methods act on; a nil interface is \<open>None\<close>.
  The locales state what the callers rely on: each fixes the methods and a view of the state
  (the live rows by inode, the intents by id), and assumes how a successful call changes the
  view and that a failing one leaves it alone.
\<close>

section \<open>Interface values\<close>

record 'w node_store_ops =
  ns_upsert :: "node_mutation \<Rightarrow> 'w \<Rightarrow> go_error option \<times> 'w"
  ns_mark_deleted :: "node_mutation \<Rightarrow> 'w \<Rightarrow> go_error option \<times> 'w"
  ns_lookup :: "uint64 list \<Rightarrow> 'w \<Rightarrow> (go_error, (uint64 \<times> node_record) list) result \<times> 'w"

record 'w intent_store_ops =
  is_enqueue :: "intent \<Rightarrow> 'w \<Rightarrow> go_error option \<times> 'w"
  is_mark_done :: "string \<Rightarrow> 'w \<Rightarrow> go_error option \<times> 'w"
  is_mark_aborted :: "string \<Rightarrow> string \<Rightarrow> 'w \<Rightarrow> go_error option \<times> 'w"
  is_increment_attempt :: "string \<Rightarrow> string \<Rightarrow> 'w \<Rightarrow> go_error option \<times> 'w"
  is_list_pending :: "int \<Rightarrow> 'w \<Rightarrow> (go_error, intent list) result \<times> 'w"

section \<open>The node store contract\<close>

text \<open>The row an upsert of a known node type leaves.\<close>

definition record_of_mutation :: "node_mutation \<Rightarrow> node_record" where
  "record_of_mutation m =
     \<lparr>nr_inode_id = nm_inode_id m, nr_owner_uin = na_owner_uin (nm_actor m),
      nr_uin = na_uin (nm_actor m), nr_app_id = na_app_id (nm_actor m),
      nr_workspace_id = na_workspace_id (nm_actor m), nr_node_type = nm_node_type m\<rparr>"

locale node_store =
  fixes ops :: "'w node_store_ops"
    and rows :: "'w \<Rightarrow> uint64 \<Rightarrow> node_record option"
  assumes upsert_ok: "ns_upsert ops m w = (None, w') \<Longrightarrow> known_node_type (nm_node_type m) \<Longrightarrow>
      rows w' = (rows w)(nm_inode_id m \<mapsto> record_of_mutation m)"
    and upsert_err: "ns_upsert ops m w = (Some e, w') \<Longrightarrow> rows w' = rows w"
    and mark_deleted_ok: "ns_mark_deleted ops m w = (None, w') \<Longrightarrow> rows w' = (rows w)(nm_inode_id m := None)"
    and mark_deleted_err: "ns_mark_deleted ops m w = (Some e, w') \<Longrightarrow> rows w' = rows w"
    and lookup_ok: "ns_lookup ops ids w = (Inr recs, w') \<Longrightarrow>
      map_of recs = (\<lambda>i. if i \<in> set ids then rows w i else None)"
    and lookup_rows: "ns_lookup ops ids w = (lr, w') \<Longrightarrow> rows w' = rows w"
begin

lemma upsert_rows_cases:
  assumes "ns_upsert ops m w = (r, w')" "known_node_type (nm_node_type m)"
  shows "rows w' = (if r = None then (rows w)(nm_inode_id m \<mapsto> record_of_mutation m) else rows w)"
  using assms by (cases r) (auto dest: upsert_ok upsert_err)

text \<open>An upsert, whatever it returns, keeps the rows of the other inodes.\<close>

lemma upsert_other:
  "ns_upsert ops m w = (r, w') \<Longrightarrow> known_node_type (nm_node_type m) \<Longrightarrow> i \<noteq> nm_inode_id m \<Longrightarrow>
   rows w' i = rows w i"
  by (drule (1) upsert_rows_cases) simp

lemma upsert_keeps_dom:
  "ns_upsert ops m w = (r, w') \<Longrightarrow> known_node_type (nm_node_type m) \<Longrightarrow> rows w i \<noteq> None \<Longrightarrow> rows w' i \<noteq> None"
  by (drule (1) upsert_rows_cases) auto

end

section \<open>The intent store contract\<close>

text \<open>What \<open>Enqueue\<close> preserves of the intent it is given; a store may normalise the node type.\<close>

definition same_target :: "intent \<Rightarrow> intent \<Rightarrow> bool" where
  "same_target i j \<longleftrightarrow> it_id i = it_id j \<and> it_op i = it_op j \<and> it_abs_path i = it_abs_path j \<and>
     it_actor i = it_actor j \<and> (known_node_type (it_node_type i) \<longrightarrow> it_node_type j = it_node_type i)"

lemma same_target_refl [simp]: "same_target i i"
  by (simp add: same_target_def)

lemma same_target_trans: "same_target i j \<Longrightarrow> same_target j k \<Longrightarrow> same_target i k"
  by (auto simp: same_target_def)

lemma same_target_status [simp]:
  "same_target i (j\<lparr>it_status := x\<rparr>) = same_target i j"
  "same_target i (j\<lparr>it_attempts := n\<rparr>) = same_target i j"
  "same_target i (j\<lparr>it_last_error := e\<rparr>) = same_target i j"
  by (simp_all add: same_target_def)

text \<open>
  \<open>touched S k J J'\<close>: from journal \<open>J\<close> to \<open>J'\<close> only the intent \<open>k\<close> may have changed, its
  target did not, and its status is the old one or one of \<open>S\<close>.
\<close>

definition touched ::
  "intent_status set \<Rightarrow> string \<Rightarrow> (string \<Rightarrow> intent option) \<Rightarrow> (string \<Rightarrow> intent option) \<Rightarrow> bool" where
  "touched S k J J' \<longleftrightarrow>
     (\<exists>f. J' = J(k := map_option f (J k)) \<and>
          (\<forall>j. same_target j (f j) \<and> (it_status (f j) = it_status j \<or> it_status (f j) \<in> S)))"

lemma touched_id: "touched S k J J"
  unfolding touched_def by (rule exI [of _ id]) (auto simp: fun_eq_iff option.map_id)

lemma touched_upd:
  assumes "J' = J(k := map_option f (J k))" "\<And>j. same_target j (f j)" "\<And>j. it_status (f j) \<in> S \<or> it_status (f j) = it_status j"
  shows "touched S k J J'"
  using assms unfolding touched_def by blast

lemma touched_mono: "touched S k J J' \<Longrightarrow> S \<subseteq> T \<Longrightarrow> touched T k J J'"
  unfolding touched_def by blast

lemma touched_other: "touched S k J J' \<Longrightarrow> k' \<noteq> k \<Longrightarrow> J' k' = J k'"
  by (auto simp: touched_def)

lemma touched_dom: "touched S k J J' \<Longrightarrow> dom J' = dom J"
  by (auto simp: touched_def split: if_splits)

lemma touched_at:
  assumes "touched S k J J'" "J k' = Some j"
  shows "\<exists>j'. J' k' = Some j' \<and> same_target j j' \<and> (it_status j' = it_status j \<or> it_status j' \<in> S)"
  using assms by (cases "k' = k") (auto simp: touched_def)

locale intent_store =
  fixes ops :: "'w intent_store_ops"
    and intents :: "'w \<Rightarrow> string \<Rightarrow> intent option"
    and good :: "'w \<Rightarrow> bool"
    and key_ok :: "string \<Rightarrow> bool"
  assumes enqueue_ok: "good w \<Longrightarrow> key_ok (it_id i) \<Longrightarrow> is_enqueue ops i w = (None, w') \<Longrightarrow> intents w (it_id i) = None \<Longrightarrow>
      \<exists>j. intents w' = (intents w)(it_id i \<mapsto> j) \<and> same_target i j \<and> it_status j = IntentPending \<and>
          (it_attempts i = 0 \<longrightarrow> it_attempts j = 0)"
    and enqueue_err: "good w \<Longrightarrow> is_enqueue ops i w = (Some e, w') \<Longrightarrow> intents w' = intents w"
    and mark_done_ok: "good w \<Longrightarrow> key_ok k \<Longrightarrow> is_mark_done ops k w = (None, w') \<Longrightarrow>
      intents w' = (intents w)(k := map_option (it_status_update (\<lambda>_. IntentDone)) (intents w k))"
    and mark_done_err: "good w \<Longrightarrow> is_mark_done ops k w = (Some e, w') \<Longrightarrow> intents w' = intents w"
    and mark_aborted_ok: "good w \<Longrightarrow> key_ok k \<Longrightarrow> is_mark_aborted ops k r w = (None, w') \<Longrightarrow>
      \<exists>r'. intents w' = (intents w)(k := map_option (\<lambda>j. j\<lparr>it_status := IntentAborted, it_last_error := r'\<rparr>) (intents w k))"
    and mark_aborted_err: "good w \<Longrightarrow> is_mark_aborted ops k r w = (Some e, w') \<Longrightarrow> intents w' = intents w"
    and increment_ok: "good w \<Longrightarrow> key_ok k \<Longrightarrow> is_increment_attempt ops k r w = (None, w') \<Longrightarrow>
      \<exists>r'. intents w' = (intents w)(k := map_option (\<lambda>j. j\<lparr>it_attempts := it_attempts j + 1, it_last_error := r'\<rparr>) (intents w k))"
    and increment_err: "good w \<Longrightarrow> is_increment_attempt ops k r w = (Some e, w') \<Longrightarrow> intents w' = intents w"
    and list_ok: "good w \<Longrightarrow> 0 < n \<Longrightarrow> is_list_pending ops n w = (Inr xs, w') \<Longrightarrow>
      distinct (map it_id xs) \<and> length xs \<le> nat n \<and>
      (\<forall>x \<in> set xs. intents w (it_id x) = Some x \<and> it_status x = IntentPending) \<and>
      (length xs < nat n \<longrightarrow> (\<forall>k j. intents w k = Some j \<and> it_status j = IntentPending \<longrightarrow> j \<in> set xs))"
    and list_intents: "good w \<Longrightarrow> is_list_pending ops n w = (lr, w') \<Longrightarrow> intents w' = intents w"
    and good_ops:
      "good w \<Longrightarrow> key_ok (it_id i) \<Longrightarrow> is_enqueue ops i w = (r1, w1) \<Longrightarrow> good w1"
      "good w \<Longrightarrow> is_mark_done ops k w = (r1, w1) \<Longrightarrow> good w1"
      "good w \<Longrightarrow> is_mark_aborted ops k s w = (r1, w1) \<Longrightarrow> good w1"
      "good w \<Longrightarrow> is_increment_attempt ops k s w = (r1, w1) \<Longrightarrow> good w1"
      "good w \<Longrightarrow> is_list_pending ops n w = (lr, w1) \<Longrightarrow> good w1"
    and finite_intents: "good w \<Longrightarrow> finite (dom (intents w))"
    and intents_id: "good w \<Longrightarrow> intents w k = Some j \<Longrightarrow> it_id j = k"
    and intents_key: "good w \<Longrightarrow> intents w k = Some j \<Longrightarrow> key_ok k"
begin

text \<open>
  Each of the three methods touches the named intent only, and moves its status, if at all,
  to the one it stands for. On an error nothing moves.
\<close>

lemma touched_done:
  assumes "good w" "key_ok k" "is_mark_done ops k w = (r, w')"
  shows "touched {IntentDone} k (intents w) (intents w')"
proof (cases r)
  case None
  with assms have "intents w' = (intents w)(k := map_option (it_status_update (\<lambda>_. IntentDone)) (intents w k))"
    using mark_done_ok [of w k w'] by simp
  then show ?thesis by (rule touched_upd) simp_all
next
  case (Some e)
  with assms mark_done_err [of w k e w'] show ?thesis by (simp add: touched_id)
qed

lemma touched_aborted:
  assumes "good w" "key_ok k" "is_mark_aborted ops k s w = (r, w')"
  shows "touched {IntentAborted} k (intents w) (intents w')"
proof (cases r)
  case None
  with assms obtain r' where
    "intents w' = (intents w)(k := map_option (\<lambda>j. j\<lparr>it_status := IntentAborted, it_last_error := r'\<rparr>) (intents w k))"
    using mark_aborted_ok [of w k s w'] by auto
  then show ?thesis by (rule touched_upd) simp_all
next
  case (Some e)
  with assms mark_aborted_err [of w k s e w'] show ?thesis by (simp add: touched_id)
qed

lemma touched_increment:
  assumes "good w" "key_ok k" "is_increment_attempt ops k s w = (r, w')"
  shows "touched {} k (intents w) (intents w')"
proof (cases r)
  case None
  with assms obtain r' where
    "intents w' = (intents w)(k := map_option (\<lambda>j. j\<lparr>it_attempts := it_attempts j + 1, it_last_error := r'\<rparr>) (intents w k))"
    using increment_ok [of w k s w'] by auto
  then show ?thesis by (rule touched_upd) simp_all
next
  case (Some e)
  with assms increment_err [of w k s e w'] show ?thesis by (simp add: touched_id)
qed

end

end
