(* ===== verification/MemoryStores.thy ===== *)
theory MemoryStores
  imports Stores
begin

text \<open>
  \<open>internal/infra/persistence/memory\<close>: the in-memory node and intent stores, and the proof
  that they meet the contracts of \<open>Stores\<close>. Go maps are association lists; the mutexes make
  each method atomic, so a method is one function on the state.
\<close>

section \<open>FileNodeStore\<close>

type_synonym mem_nodes = "(uint64 \<times> node_record) list"

definition mem_upsert :: "node_mutation \<Rightarrow> mem_nodes \<Rightarrow> go_error option \<times> mem_nodes" where
  "mem_upsert m s =
     (let t = normalize_node_type (nm_node_type m);
          node_type = (if t = [] then NodeTypeFile else t)
      in (None, AList.update (nm_inode_id m)
            \<lparr>nr_inode_id = nm_inode_id m, nr_owner_uin = na_owner_uin (nm_actor m),
             nr_uin = na_uin (nm_actor m), nr_app_id = na_app_id (nm_actor m),
             nr_workspace_id = na_workspace_id (nm_actor m), nr_node_type = node_type\<rparr> s))"

definition mem_mark_deleted :: "node_mutation \<Rightarrow> mem_nodes \<Rightarrow> go_error option \<times> mem_nodes" where
  "mem_mark_deleted m s = (None, AList.delete (nm_inode_id m) s)"

fun mem_lookup_loop :: "mem_nodes \<Rightarrow> uint64 list \<Rightarrow> (uint64 \<times> node_record) list \<Rightarrow> (uint64 \<times> node_record) list" where
  "mem_lookup_loop s [] out = out"
| "mem_lookup_loop s (i # ids) out =
     (case map_of s i of
        Some rec \<Rightarrow> mem_lookup_loop s ids (AList.update i rec out)
      | None \<Rightarrow> mem_lookup_loop s ids out)"

definition mem_lookup :: "uint64 list \<Rightarrow> mem_nodes \<Rightarrow> (go_error, (uint64 \<times> node_record) list) result \<times> mem_nodes" where
  "mem_lookup ids s = (Inr (mem_lookup_loop s ids []), s)"

definition mem_node_store :: "mem_nodes node_store_ops" where
  "mem_node_store = \<lparr>ns_upsert = mem_upsert, ns_mark_deleted = mem_mark_deleted, ns_lookup = mem_lookup\<rparr>"

lemma map_of_mem_lookup_loop:
  "map_of (mem_lookup_loop s ids out) i =
     (if i \<in> set ids \<and> map_of s i \<noteq> None then map_of s i else map_of out i)"
  by (induction s ids out rule: mem_lookup_loop.induct) (auto split: option.splits)

lemma mem_node_store_simps [simp]:
  "ns_upsert mem_node_store = mem_upsert" "ns_mark_deleted mem_node_store = mem_mark_deleted"
  "ns_lookup mem_node_store = mem_lookup"
  by (simp_all add: mem_node_store_def)

interpretation mem_nodes: node_store mem_node_store map_of
proof (unfold_locales, goal_cases)
  case (1 m w w')
  then have "normalize_node_type (nm_node_type m) \<noteq> []" by auto
  with 1 show ?case by (auto simp: mem_upsert_def Let_def record_of_mutation_def)
next
  case (5 ids w recs w')
  then show ?case by (auto simp: mem_lookup_def map_of_mem_lookup_loop fun_eq_iff)
qed (auto simp: mem_upsert_def mem_mark_deleted_def mem_lookup_def Let_def)

section \<open>FileIntentStore\<close>

record mem_intents =
  mi_seq :: int
  mi_order :: "(string \<times> int) list"
  mi_intents :: "(string \<times> intent) list"
  mi_enqueue_err :: "go_error option"

definition new_mem_intents :: mem_intents where
  "new_mem_intents = \<lparr>mi_seq = 0, mi_order = [], mi_intents = [], mi_enqueue_err = None\<rparr>"

definition mem_enqueue :: "intent \<Rightarrow> mem_intents \<Rightarrow> go_error option \<times> mem_intents" where
  "mem_enqueue i0 s =
     (case mi_enqueue_err s of
        Some e \<Rightarrow> (Some e, s)
      | None \<Rightarrow>
          let i = i0\<lparr>it_status := IntentPending, it_last_error := []\<rparr>;
              s1 = (if map_of (mi_intents s) (it_id i) = None
                    then s\<lparr>mi_seq := mi_seq s + 1, mi_order := AList.update (it_id i) (mi_seq s + 1) (mi_order s)\<rparr>
                    else s)
          in (None, s1\<lparr>mi_intents := AList.update (it_id i) i (mi_intents s1)\<rparr>))"

text \<open>The shape of the three updates: nothing happens for an unknown id.\<close>

definition mem_modify :: "string \<Rightarrow> (intent \<Rightarrow> intent) \<Rightarrow> mem_intents \<Rightarrow> go_error option \<times> mem_intents" where
  "mem_modify k f s =
     (case map_of (mi_intents s) k of
        Some i \<Rightarrow> (None, s\<lparr>mi_intents := AList.update k (f i) (mi_intents s)\<rparr>)
      | None \<Rightarrow> (None, s))"

definition mem_mark_done :: "string \<Rightarrow> mem_intents \<Rightarrow> go_error option \<times> mem_intents" where
  "mem_mark_done k s = mem_modify k (\<lambda>i. i\<lparr>it_status := IntentDone\<rparr>) s"

definition mem_mark_aborted :: "string \<Rightarrow> string \<Rightarrow> mem_intents \<Rightarrow> go_error option \<times> mem_intents" where
  "mem_mark_aborted k reason s =
     mem_modify k (\<lambda>i. i\<lparr>it_status := IntentAborted, it_last_error := reason\<rparr>) s"

definition mem_increment_attempt :: "string \<Rightarrow> string \<Rightarrow> mem_intents \<Rightarrow> go_error option \<times> mem_intents" where
  "mem_increment_attempt k last_err s =
     mem_modify k (\<lambda>i. i\<lparr>it_attempts := it_attempts i + 1, it_last_error := last_err\<rparr>) s"

definition mem_order_of :: "mem_intents \<Rightarrow> intent \<Rightarrow> int" where
  "mem_order_of s i = (case map_of (mi_order s) (it_id i) of Some n \<Rightarrow> n | None \<Rightarrow> 0)"

definition mem_pending :: "mem_intents \<Rightarrow> intent list" where
  "mem_pending s =
     sort_key (mem_order_of s) (filter (\<lambda>i. it_status i = IntentPending) (map snd (mi_intents s)))"

definition mem_list_pending :: "int \<Rightarrow> mem_intents \<Rightarrow> (go_error, intent list) result \<times> mem_intents" where
  "mem_list_pending limit s =
     (let pending = mem_pending s
      in (Inr (if 0 < limit \<and> limit < int (length pending) then take (nat limit) pending else pending), s))"

definition mem_get :: "string \<Rightarrow> mem_intents \<Rightarrow> intent option" where
  "mem_get k s = map_of (mi_intents s) k"

definition mem_intent_store :: "mem_intents intent_store_ops" where
  "mem_intent_store =
     \<lparr>is_enqueue = mem_enqueue, is_mark_done = mem_mark_done, is_mark_aborted = mem_mark_aborted,
      is_increment_attempt = mem_increment_attempt, is_list_pending = mem_list_pending\<rparr>"

lemma mem_intent_store_simps [simp]:
  "is_enqueue mem_intent_store = mem_enqueue" "is_mark_done mem_intent_store = mem_mark_done"
  "is_mark_aborted mem_intent_store = mem_mark_aborted"
  "is_increment_attempt mem_intent_store = mem_increment_attempt"
  "is_list_pending mem_intent_store = mem_list_pending"
  by (simp_all add: mem_intent_store_def)

text \<open>
  The representation invariant: ids are unique, an intent is stored under its own id, and
  every stored intent has its own place in the enqueue order, not after the last one given.
\<close>

definition mem_intents_ok :: "mem_intents \<Rightarrow> bool" where
  "mem_intents_ok s \<longleftrightarrow>
     distinct (map fst (mi_intents s)) \<and>
     (\<forall>k i. map_of (mi_intents s) k = Some i \<longrightarrow> it_id i = k) \<and>
     (\<forall>k n. map_of (mi_order s) k = Some n \<longrightarrow> 0 < n \<and> n \<le> mi_seq s) \<and>
     (\<forall>a b n. map_of (mi_order s) a = Some n \<longrightarrow> map_of (mi_order s) b = Some n \<longrightarrow> a = b) \<and>
     (\<forall>k i. map_of (mi_intents s) k = Some i \<longrightarrow> map_of (mi_order s) k \<noteq> None) \<and> 0 \<le> mi_seq s"

lemma new_mem_intents_ok: "mem_intents_ok new_mem_intents"
  by (simp add: mem_intents_ok_def new_mem_intents_def)

lemma mem_modify_ok:
  assumes "mem_intents_ok s" "\<And>i. it_id (f i) = it_id i" "mem_modify k f s = (r, s')"
  shows "mem_intents_ok s'"
proof (cases "map_of (mi_intents s) k")
  case None
  with assms show ?thesis by (simp add: mem_modify_def)
next
  case (Some i)
  with assms have "s' = s\<lparr>mi_intents := AList.update k (f i) (mi_intents s)\<rparr>"
    by (simp add: mem_modify_def)
  with assms(1,2) Some show ?thesis
    unfolding mem_intents_ok_def by (simp add: distinct_update)
qed

lemma mem_enqueue_ok:
  assumes ok: "mem_intents_ok s" and run: "mem_enqueue i s = (r, s')"
  shows "mem_intents_ok s'"
proof (cases "mi_enqueue_err s")
  case (Some e)
  with assms show ?thesis by (simp add: mem_enqueue_def)
next
  case None
  let ?i = "i\<lparr>it_status := IntentPending, it_last_error := []\<rparr>"
  show ?thesis
  proof (cases "map_of (mi_intents s) (it_id i)")
    case (Some j)
    with run None have "s' = s\<lparr>mi_intents := AList.update (it_id i) ?i (mi_intents s)\<rparr>"
      by (simp add: mem_enqueue_def Let_def)
    with ok Some show ?thesis
      unfolding mem_intents_ok_def by (simp add: distinct_update del: map_of_eq_Some_iff)
  next
    case new: None
    with run None have s': "s' = s\<lparr>mi_seq := mi_seq s + 1,
        mi_order := AList.update (it_id i) (mi_seq s + 1) (mi_order s),
        mi_intents := AList.update (it_id i) ?i (mi_intents s)\<rparr>"
      by (simp add: mem_enqueue_def Let_def)
    have le: "map_of (mi_order s) k = Some n \<Longrightarrow> 0 < n \<and> n \<le> mi_seq s" for k n
      using ok by (simp add: mem_intents_ok_def)
    have ord: "map_of (mi_order s') k = Some n \<Longrightarrow> 0 < n \<and> n \<le> mi_seq s'" for k n
    proof (cases "k = it_id i")
      case True
      assume "map_of (mi_order s') k = Some n"
      with True ok show ?thesis by (simp add: s' mem_intents_ok_def)
    next
      case False
      assume "map_of (mi_order s') k = Some n"
      with False le [of k n] show ?thesis by (simp add: s')
    qed
    have inj: "a = b" if "map_of (mi_order s') a = Some n" "map_of (mi_order s') b = Some n" for a b n
    proof -
      have "map_of (mi_order s) a = Some n \<Longrightarrow> map_of (mi_order s) b = Some n \<Longrightarrow> a = b"
        using ok by (simp add: mem_intents_ok_def)
      with that le [of a n] le [of b n] show ?thesis
        by (cases "a = it_id i"; cases "b = it_id i") (simp_all add: s')
    qed
    show ?thesis
      unfolding mem_intents_ok_def
    proof (intro conjI allI impI)
      show "distinct (map fst (mi_intents s'))" "0 \<le> mi_seq s'"
        using ok by (simp_all add: s' mem_intents_ok_def distinct_update)
      show "it_id j = k" if "map_of (mi_intents s') k = Some j" for k j
        using ok that by (cases "k = it_id i") (auto simp: s' mem_intents_ok_def)
      show "map_of (mi_order s') k \<noteq> None" if "map_of (mi_intents s') k = Some j" for k j
        using ok that by (cases "k = it_id i") (auto simp: s' mem_intents_ok_def)
      show "0 < n" "n \<le> mi_seq s'" if "map_of (mi_order s') k = Some n" for k n
        using ord [OF that] by simp_all
      show "a = b" if "map_of (mi_order s') a = Some n" "map_of (mi_order s') b = Some n" for a b n
        using that by (rule inj)
    qed
  qed
qed

lemma mem_pending_set:
  assumes "mem_intents_ok s"
  shows "set (mem_pending s) = {i. map_of (mi_intents s) (it_id i) = Some i \<and> it_status i = IntentPending}"
proof -
  have d: "distinct (map fst (mi_intents s))" using assms by (simp add: mem_intents_ok_def)
  have "i \<in> snd ` set (mi_intents s) \<longleftrightarrow> map_of (mi_intents s) (it_id i) = Some i" for i
  proof
    assume "i \<in> snd ` set (mi_intents s)"
    then obtain k where "(k, i) \<in> set (mi_intents s)" by auto
    then have "map_of (mi_intents s) k = Some i" by (rule map_of_is_SomeI [OF d])
    moreover from this assms have "it_id i = k" unfolding mem_intents_ok_def by metis
    ultimately show "map_of (mi_intents s) (it_id i) = Some i" by simp
  next
    assume "map_of (mi_intents s) (it_id i) = Some i"
    then have "(it_id i, i) \<in> set (mi_intents s)" by (rule map_of_SomeD)
    then show "i \<in> snd ` set (mi_intents s)" by force
  qed
  then show ?thesis by (auto simp: mem_pending_def)
qed

lemma mem_pending_distinct:
  assumes ok: "mem_intents_ok s"
  shows "distinct (map it_id (mem_pending s))"
proof -
  have "it_id (snd ki) = fst ki" if "ki \<in> set (mi_intents s)" for ki
    using ok that by (cases ki) (simp add: mem_intents_ok_def)
  then have "map it_id (map snd (mi_intents s)) = map fst (mi_intents s)"
    by simp
  with ok have "distinct (map it_id (map snd (mi_intents s)))"
    unfolding mem_intents_ok_def by metis
  then have "distinct (map it_id (filter (\<lambda>i. it_status i = IntentPending) (map snd (mi_intents s))))"
    by (rule distinct_map_filter)
  moreover have "distinct (map f (sort_key g xs)) \<longleftrightarrow> distinct (map f xs)"
    for f :: "intent \<Rightarrow> string" and g :: "intent \<Rightarrow> int" and xs
    by (simp add: distinct_map)
  ultimately show ?thesis by (simp add: mem_pending_def)
qed

lemma mem_list_pending_take:
  "0 < n \<Longrightarrow> fst (mem_list_pending n s) = Inr (take (nat n) (mem_pending s))"
  by (simp add: mem_list_pending_def Let_def)

interpretation mem_intents: intent_store mem_intent_store "\<lambda>s k. mem_get k s" mem_intents_ok "\<lambda>k. True"
proof (unfold_locales, goal_cases)
  case (1 w i w')
  then show ?case
    by (auto simp: mem_enqueue_def mem_get_def Let_def same_target_def fun_eq_iff split: option.splits
        intro!: exI [of _ "i\<lparr>it_status := IntentPending, it_last_error := []\<rparr>"])
next
  case (9 w n xs w')
  then have xs: "xs = take (nat n) (mem_pending w)"
    using mem_list_pending_take [of n w] by simp
  have "length xs < nat n \<Longrightarrow> xs = mem_pending w" using xs by simp
  moreover have "set xs \<subseteq> set (mem_pending w)" using xs by (simp add: set_take_subset)
  moreover have "it_id j = k" if "mem_get k w = Some j" for k j
    using 9(1) that by (simp add: mem_intents_ok_def mem_get_def)
  ultimately show ?case
    using 9(1) mem_pending_set [of w] mem_pending_distinct [of w]
    by (auto simp: xs mem_get_def take_map [symmetric])
next
  case 17
  then show ?case by (simp add: mem_intents_ok_def mem_get_def)
next
  case (11 w i r1 w1)
  then show ?case using mem_enqueue_ok [of w i r1 w1] by simp
next
  case (12 w k r1 w1)
  then show ?case by (auto simp: mem_mark_done_def elim!: mem_modify_ok [rotated 2])
next
  case (13 w k s r1 w1)
  then show ?case by (auto simp: mem_mark_aborted_def elim!: mem_modify_ok [rotated 2])
next
  case (14 w k s r1 w1)
  then show ?case by (auto simp: mem_increment_attempt_def elim!: mem_modify_ok [rotated 2])
qed (auto simp: mem_enqueue_def mem_mark_done_def mem_mark_aborted_def mem_increment_attempt_def
      mem_modify_def mem_list_pending_def mem_get_def Let_def fun_eq_iff finite_dom_map_of
    split: option.splits)

end
