(* ===== verification/FsDomain.thy ===== *)
theory FsDomain
  imports FileDomain
begin

text \<open>
  \<open>internal/domain/fs/fs.go\<close>: the file information, the requests of the storage port and the
  port \<open>WorkspaceFS\<close> itself. As for the stores, an interface value is the record of its
  methods over a state type \<open>'w\<close>. A modification time is the number the storage reports;
  file contents are byte strings. The methods that walk the tree return an option, \<open>None\<close> for a
  call that does not return.
\<close>

type_synonym actor = request_context

record file_info =
  fi_name :: string
  fi_path :: string
  fi_is_dir :: bool
  fi_size :: int
  fi_modify_time :: int
  fi_inode_id :: uint64
  fi_owner_uin :: string
  fi_creator_uin :: string
  fi_node_type :: string
  fi_is_git_folder :: bool
  fi_in_recycle :: bool
  fi_origin_path :: string

record create_folder_req =
  cd_actor :: actor
  cd_path :: string

record create_file_req =
  cf_actor :: actor
  cf_path :: string
  cf_content :: string
  cf_overwrite :: bool

record create_notebook_req =
  cn_actor :: actor
  cn_path :: string
  cn_kernel_name :: string
  cn_overwrite :: bool

record delete_path_req =
  dp_actor :: actor
  dp_path :: string
  dp_soft_delete :: bool
  dp_permanent :: bool

record move_path_req =
  mp_actor :: actor
  mp_src_path :: string
  mp_dest_path :: string
  mp_overwrite :: bool

record copy_path_req =
  cp_actor :: actor
  cp_src_path :: string
  cp_dest_path :: string
  cp_overwrite :: bool

record rename_path_req =
  rn_actor :: actor
  rn_path :: string
  rn_new_name :: string
  rn_overwrite :: bool

record list_files_req =
  lf_actor :: actor
  lf_path :: string
  lf_recursive :: bool

record validate_path_req =
  vp_actor :: actor
  vp_parent_path :: string
  vp_name :: string

record folder_node_path_req =
  fn_actor :: actor
  fn_path :: string

record restore_path_req =
  rp_actor :: actor
  rp_trash_path :: string
  rp_target_parent :: string

record read_file_req =
  rf_actor :: actor
  rf_path :: string

record write_file_req =
  wf_actor :: actor
  wf_path :: string
  wf_content :: string
  wf_overwrite :: bool

text \<open>The requests of \<open>ListRecycleBin\<close> and \<open>EmptyRecycleBin\<close> hold an actor and nothing else.\<close>

record 'w workspace_fs =
  wfs_create_folder :: "create_folder_req \<Rightarrow> 'w \<Rightarrow> (go_error, file_info) result \<times> 'w"
  wfs_create_file :: "create_file_req \<Rightarrow> 'w \<Rightarrow> (go_error, file_info) result \<times> 'w"
  wfs_create_notebook :: "create_notebook_req \<Rightarrow> 'w \<Rightarrow> (go_error, file_info) result \<times> 'w"
  wfs_delete_path :: "delete_path_req \<Rightarrow> 'w \<Rightarrow> go_error option \<times> 'w"
  wfs_move_path :: "move_path_req \<Rightarrow> 'w \<Rightarrow> (go_error, file_info) result \<times> 'w"
  wfs_copy_path :: "copy_path_req \<Rightarrow> 'w \<Rightarrow> ((go_error, file_info) result \<times> 'w) option"
  wfs_rename_path :: "rename_path_req \<Rightarrow> 'w \<Rightarrow> (go_error, file_info) result \<times> 'w"
  wfs_list_files :: "list_files_req \<Rightarrow> 'w \<Rightarrow> ((go_error, file_info list) result \<times> 'w) option"
  wfs_validate_path :: "validate_path_req \<Rightarrow> 'w \<Rightarrow> (go_error, bool) result \<times> 'w"
  wfs_get_folder_node_path :: "folder_node_path_req \<Rightarrow> 'w \<Rightarrow> ((go_error, file_info list) result \<times> 'w) option"
  wfs_list_recycle_bin :: "actor \<Rightarrow> 'w \<Rightarrow> ((go_error, file_info list) result \<times> 'w) option"
  wfs_restore_path :: "restore_path_req \<Rightarrow> 'w \<Rightarrow> (go_error, file_info) result \<times> 'w"
  wfs_empty_recycle_bin :: "actor \<Rightarrow> 'w \<Rightarrow> go_error option \<times> 'w"
  wfs_get_file_info :: "actor \<Rightarrow> string \<Rightarrow> 'w \<Rightarrow> (go_error, file_info) result \<times> 'w"
  wfs_read_file :: "read_file_req \<Rightarrow> 'w \<Rightarrow> (go_error, file_info \<times> string) result \<times> 'w"
  wfs_write_file :: "write_file_req \<Rightarrow> 'w \<Rightarrow> (go_error, file_info) result \<times> 'w"

text \<open>
  \<open>GetFileInfo\<close> takes its actor from the request context stored in \<open>ctx\<close>
  (\<open>ctxmeta.RequestContextFrom\<close>); here it is the first argument.
\<close>

end
