(* ===== verification/Journal.thy ===== *)
theory Journal
  imports MemoryStores FsDomain
begin

text \<open>
  \<open>internal/usecase/fs/recorder.go\<close>: a create or write operation is journalled. An intent is
  enqueued before the storage is touched, the action runs, and then the metadata row is
  written and the intent marked done, or the intent is marked aborted.
\<close>

section \<open>The recorder\<close>

record 'w node_recorder =
  rec_nodes :: "'w node_store_ops option"
  rec_intents :: "'w intent_store_ops option"

text \<open>A nil recorder is \<open>None\<close>.\<close>

definition new_node_recorder ::
  "'w node_store_ops option \<Rightarrow> 'w intent_store_ops option \<Rightarrow> 'w node_recorder option" where
  "new_node_recorder nodes intents =
     (if nodes = None \<and> intents = None then None
      else Some \<lparr>rec_nodes = nodes, rec_intents = intents\<rparr>)"

definition to_node_actor :: "actor \<Rightarrow> node_actor" where
  "to_node_actor a = new_node_actor (rc_owner_uin a) (rc_uin a) (rc_app_id a) (rc_workspace_id a)"

text \<open>
  \<open>NewIntentID\<close> draws a random identifier; it is the argument \<open>new_id\<close>. A zero \<open>Intent\<close> field
  is its default: status and error empty, no attempt made.
\<close>

definition recorder_enqueue ::
  "'w node_recorder \<Rightarrow> string \<Rightarrow> intent_op \<Rightarrow> string \<Rightarrow> actor \<Rightarrow> string \<Rightarrow> 'w \<Rightarrow> string \<times> 'w" where
  "recorder_enqueue r new_id op abs_p a node_type w =
     (case rec_intents r of
        None \<Rightarrow> ([], w)
      | Some store \<Rightarrow>
          let i = \<lparr>it_id = new_id, it_op = op, it_abs_path = abs_p, it_actor = to_node_actor a,
                   it_node_type = node_type, it_status = IntentPending, it_attempts = 0,
                   it_last_error = []\<rparr>
          in (case is_enqueue store i w of
                (Some e, w') \<Rightarrow> ([], w')
              | (None, w') \<Rightarrow> (new_id, w')))"

definition recorder_finalize ::
  "'w node_recorder \<Rightarrow> string \<Rightarrow> uint64 \<Rightarrow> actor \<Rightarrow> string \<Rightarrow> 'w \<Rightarrow> 'w" where
  "recorder_finalize r intent_id inode a node_type w =
     (let mark = (\<lambda>w. if intent_id \<noteq> []
                      then (case rec_intents r of Some store \<Rightarrow> snd (is_mark_done store intent_id w) | None \<Rightarrow> w)
                      else w)
      in (case rec_nodes r of
            None \<Rightarrow> mark w
          | Some nodes \<Rightarrow>
              if inode = 0 then w
              else (case ns_upsert nodes
                          \<lparr>nm_inode_id = inode, nm_actor = to_node_actor a, nm_node_type = node_type\<rparr> w of
                      (Some e, w') \<Rightarrow> w'
                    | (None, w') \<Rightarrow> mark w')))"

definition recorder_run ::
  "'w node_recorder option \<Rightarrow> string \<Rightarrow> intent_op \<Rightarrow> string \<Rightarrow> actor \<Rightarrow> string \<Rightarrow>
   ('w \<Rightarrow> (go_error, file_info) result \<times> 'w) \<Rightarrow> 'w \<Rightarrow> (go_error, file_info) result \<times> 'w" where
  "recorder_run ro new_id op abs_p a node_type action w =
     (case ro of
        None \<Rightarrow> action w
      | Some r \<Rightarrow>
          (case recorder_enqueue r new_id op abs_p a node_type w of
             (intent_id, w1) \<Rightarrow>
               (case action w1 of
                  (Inl err, w2) \<Rightarrow>
                    (Inl err,
                     if intent_id \<noteq> []
                     then (case rec_intents r of
                             Some store \<Rightarrow> snd (is_mark_aborted store intent_id (err_text err) w2)
                           | None \<Rightarrow> w2)
                     else w2)
                | (Inr info, w2) \<Rightarrow>
                    (Inr info, recorder_finalize r intent_id (fi_inode_id info) a node_type w2))))"

section \<open>Both stores together\<close>

text \<open>
  The journal and the node table are separate: no method of one store touches the view of
  the other.
\<close>

locale journal =
  I: intent_store iops intents good key_ok + N: node_store nops rows
  for iops :: "'w intent_store_ops" and intents :: "'w \<Rightarrow> string \<Rightarrow> intent option" and good :: "'w \<Rightarrow> bool"
    and key_ok :: "string \<Rightarrow> bool" and nops :: "'w node_store_ops" and rows :: "'w \<Rightarrow> uint64 \<Rightarrow> node_record option" +
  assumes intent_ops_rows:
      "is_enqueue iops i w = (r, w') \<Longrightarrow> rows w' = rows w"
      "is_mark_done iops k w = (r, w') \<Longrightarrow> rows w' = rows w"
      "is_mark_aborted iops k s w = (r, w') \<Longrightarrow> rows w' = rows w"
      "is_increment_attempt iops k s w = (r, w') \<Longrightarrow> rows w' = rows w"
      "is_list_pending iops n w = (lr, w') \<Longrightarrow> rows w' = rows w"
    and node_ops_intents:
      "ns_upsert nops m w = (r, w') \<Longrightarrow> intents w' = intents w"
      "ns_mark_deleted nops m w = (r, w') \<Longrightarrow> intents w' = intents w"
    and node_ops_good:
      "ns_upsert nops m w = (r, w') \<Longrightarrow> good w \<Longrightarrow> good w'"
      "ns_mark_deleted nops m w = (r, w') \<Longrightarrow> good w \<Longrightarrow> good w'"
begin

abbreviation recorder :: "'w node_recorder" where
  "recorder \<equiv> \<lparr>rec_nodes = Some nops, rec_intents = Some iops\<rparr>"

text \<open>The journal entry an operation starts with, when the store accepted it.\<close>

lemma enqueue_cases:
  assumes "good w" "intents w k = None" "k \<noteq> []" "key_ok k"
    and run: "recorder_enqueue recorder k op p a t w = (k', w1)"
  shows "good w1" "rows w1 = rows w"
    "k' = [] \<and> intents w1 = intents w \<or>
     k' = k \<and> (\<exists>j. intents w1 = (intents w)(k \<mapsto> j) \<and> it_id j = k \<and> it_abs_path j = p \<and>
       it_actor j = to_node_actor a \<and> (known_node_type t \<longrightarrow> it_node_type j = t) \<and>
       it_status j = IntentPending \<and> it_attempts j = 0)"
proof -
  let ?i = "\<lparr>it_id = k, it_op = op, it_abs_path = p, it_actor = to_node_actor a, it_node_type = t,
             it_status = IntentPending, it_attempts = 0, it_last_error = []\<rparr>"
  obtain r w' where e: "is_enqueue iops ?i w = (r, w')" by (cases "is_enqueue iops ?i w") auto
  with run have w1: "w1 = w'" and k': "k' = (if r = None then k else [])"
    by (auto simp: recorder_enqueue_def Let_def split: option.splits)
  from I.good_ops(1) [OF assms(1) _ e] assms(4) show "good w1" by (simp add: w1)
  from e show "rows w1 = rows w" by (auto simp: w1 intro: intent_ops_rows)
  show "k' = [] \<and> intents w1 = intents w \<or>
     k' = k \<and> (\<exists>j. intents w1 = (intents w)(k \<mapsto> j) \<and> it_id j = k \<and> it_abs_path j = p \<and>
       it_actor j = to_node_actor a \<and> (known_node_type t \<longrightarrow> it_node_type j = t) \<and>
       it_status j = IntentPending \<and> it_attempts j = 0)"
  proof (cases r)
    case None
    with I.enqueue_ok [of w ?i w'] e assms w1 k' show ?thesis by (auto simp: same_target_def)
  next
    case (Some x)
    with I.enqueue_err [of w ?i x w'] e assms w1 k' show ?thesis by auto
  qed
qed

text \<open>Finalising writes at most the row of the inode and settles at most the named intent.\<close>

lemma finalize_effect:
  assumes "good w" "known_node_type t" "recorder_finalize recorder k ino a t w = w'" "k = [] \<or> key_ok k"
  shows "good w' \<and>
    (\<forall>i. i \<noteq> ino \<longrightarrow> rows w' i = rows w i) \<and>
    (\<forall>k'. k' \<noteq> k \<longrightarrow> intents w' k' = intents w k') \<and>
    (intents w' k = intents w k \<or>
     ino \<noteq> 0 \<and>
     intents w' k = map_option (it_status_update (\<lambda>_. IntentDone)) (intents w k) \<and>
     rows w' ino = Some (record_of_mutation
       \<lparr>nm_inode_id = ino, nm_actor = to_node_actor a, nm_node_type = t\<rparr>))"
proof (cases "ino = 0")
  case True
  with assms show ?thesis by (simp add: recorder_finalize_def Let_def)
next
  case ino: False
  let ?m = "\<lparr>nm_inode_id = ino, nm_actor = to_node_actor a, nm_node_type = t\<rparr>"
  obtain r w1 where u: "ns_upsert nops ?m w = (r, w1)" by (cases "ns_upsert nops ?m w") auto
  have w1: "good w1" "intents w1 = intents w" "\<forall>i. i \<noteq> ino \<longrightarrow> rows w1 i = rows w i"
    using u assms(1,2) N.upsert_other [OF u] by (auto intro: node_ops_good node_ops_intents)
  show ?thesis
  proof (cases "r = None \<and> k \<noteq> []")
    case False
    with assms(3) u ino have "w' = w1"
      by (auto simp: recorder_finalize_def Let_def split: option.splits)
    with w1 show ?thesis by simp
  next
    case True
    obtain r' w2 where d: "is_mark_done iops k w1 = (r', w2)" by (cases "is_mark_done iops k w1") auto
    with True assms(3) u ino have w': "w' = w2" by (simp add: recorder_finalize_def Let_def)
    have "rows w1 ino = Some (record_of_mutation ?m)"
      using N.upsert_ok [of ?m w w1] True u assms(2) by simp
    moreover have "rows w2 = rows w1" using d by (rule intent_ops_rows)
    moreover have "good w2" using I.good_ops(2) [OF w1(1) d] .
    ultimately show ?thesis
      using w1 ino True assms(4) I.mark_done_ok [OF w1(1), of k w2] I.mark_done_err [OF w1(1), of k _ w2] d
      by (cases r') (auto simp: w')
  qed
qed

text \<open>
  A journalled operation as a whole: its result is that of the action, it settles its own
  intent only, and a settled intent tells the truth.
\<close>

lemma run_effect:
  assumes "good w" "intents w k = None" "k \<noteq> []" "known_node_type t" "key_ok k"
    and act: "\<And>v r v'. action v = (r, v') \<Longrightarrow> intents v' = intents v \<and> (good v \<longrightarrow> good v')"
    and run: "recorder_run (Some recorder) k op p a t action w = (res, w')"
  shows "\<exists>w1 w2. action w1 = (res, w2) \<and> rows w1 = rows w \<and> good w' \<and>
    (\<forall>k'. k' \<noteq> k \<longrightarrow> intents w' k' = intents w k') \<and>
    (\<forall>j. intents w' k = Some j \<longrightarrow> it_abs_path j = p) \<and>
    (case res of
       Inl e \<Rightarrow> rows w' = rows w2 \<and>
         (\<forall>j. intents w' k = Some j \<longrightarrow> it_status j \<in> {IntentPending, IntentAborted})
     | Inr info \<Rightarrow> (\<forall>i. i \<noteq> fi_inode_id info \<longrightarrow> rows w' i = rows w2 i) \<and>
         (\<forall>j. intents w' k = Some j \<longrightarrow> it_status j = IntentPending \<or> it_status j = IntentDone \<and>
            rows w' (fi_inode_id info) = Some (record_of_mutation
              \<lparr>nm_inode_id = fi_inode_id info, nm_actor = to_node_actor a, nm_node_type = t\<rparr>)))"
proof -
  obtain k' w1 where e: "recorder_enqueue recorder k op p a t w = (k', w1)"
    by (cases "recorder_enqueue recorder k op p a t w")
  note enq = enqueue_cases [OF assms(1-3,5) e]
  obtain res' w2 where x: "action w1 = (res', w2)" by (cases "action w1")
  then have w2: "intents w2 = intents w1" "good w2" using act enq(1) by blast+
  have k1: "\<forall>j. intents w2 k = Some j \<longrightarrow> it_abs_path j = p \<and> it_status j = IntentPending"
    "\<forall>i. i \<noteq> k \<longrightarrow> intents w2 i = intents w i"
    using enq(3) assms(2) w2(1) by auto
  have res: "res' = res" using run e x by (auto simp: recorder_run_def split: sum.splits)
  show ?thesis
  proof (cases res)
    case (Inr info)
    have w': "w' = recorder_finalize recorder k' (fi_inode_id info) a t w2"
      using run e x res Inr by (simp add: recorder_run_def)
    have "k' = k \<or> k' = [] \<and> intents w1 = intents w" using enq(3) by blast
    then show ?thesis
    proof
      assume "k' = k"
      with w' have "recorder_finalize recorder k (fi_inode_id info) a t w2 = w'" by simp
      note fin = finalize_effect [OF w2(2) assms(4) this disjI2 [OF assms(5)]]
      with k1 have "\<forall>j. intents w' k = Some j \<longrightarrow> it_abs_path j = p \<and> (it_status j = IntentPending \<or>
          it_status j = IntentDone \<and> rows w' (fi_inode_id info) = Some (record_of_mutation
              \<lparr>nm_inode_id = fi_inode_id info, nm_actor = to_node_actor a, nm_node_type = t\<rparr>))"
        by auto
      with fin k1 x res Inr enq(2) show ?thesis by auto
    next
      assume none: "k' = [] \<and> intents w1 = intents w"
      with w' have "recorder_finalize recorder [] (fi_inode_id info) a t w2 = w'" by simp
      note fin = finalize_effect [OF w2(2) assms(4) this disjI1 [OF refl]]
      have "intents w' = intents w" using fin none w2(1) w'
        by (auto simp: recorder_finalize_def Let_def fun_eq_iff node_ops_intents split: option.splits prod.splits)
      with fin none x res Inr enq(2) assms(2) show ?thesis by auto
    qed
  next
    case (Inl err)
    show ?thesis
    proof (cases "k' = []")
      case True
      with run e x res Inl have "w' = w2" by (simp add: recorder_run_def)
      with k1 w2 x res Inl enq(2) show ?thesis by auto
    next
      case False
      with enq(3) have kk: "k' = k" by blast
      obtain r w3 where m: "is_mark_aborted iops k (err_text err) w2 = (r, w3)"
        by (cases "is_mark_aborted iops k (err_text err) w2")
      with run e x res Inl False kk have w': "w' = w3" by (simp add: recorder_run_def)
      note t = I.touched_aborted [OF w2(2) assms(5) m]
      have st: "it_abs_path j = p \<and> it_status j \<in> {IntentPending, IntentAborted}" if "intents w3 k = Some j" for j
      proof -
        have "k \<in> dom (intents w2)" using that touched_dom [OF t] by auto
        then obtain i where i: "intents w2 k = Some i" by auto
        with touched_at [OF t i] that k1(1) show ?thesis by (auto simp: same_target_def)
      qed
      show ?thesis
        using st m x res Inl enq(2) k1 touched_other [OF t] I.good_ops(3) [OF w2(2) m] intent_ops_rows(3) [OF m]
        by (auto simp: w')
    qed
  qed
qed

end

end
