(* ===== verification/Recovery.thy ===== *)
theory Recovery
  imports Journal
begin

text \<open>
  \<open>internal/usecase/fs/recovery.go\<close>: after a restart the pending intents are reconciled with
  the storage. The target of an intent is looked at again; if it exists its row is written
  and the intent is done, if it is absent the intent is aborted, and an error counts an
  attempt until none is left.
\<close>

section \<open>The recoverer\<close>

record 'w recoverer =
  rv_intents :: "'w intent_store_ops option"
  rv_nodes :: "'w node_store_ops option"
  rv_inspector :: "(string \<Rightarrow> 'w \<Rightarrow> (go_error, uint64 \<times> bool) result \<times> 'w) option"
  rv_batch_size :: int
  rv_max_tries :: int

record recovery_stats =
  rs_scanned :: int
  rs_completed :: int
  rs_aborted :: int
  rs_retried :: int

definition zero_stats :: recovery_stats where
  "zero_stats = \<lparr>rs_scanned = 0, rs_completed = 0, rs_aborted = 0, rs_retried = 0\<rparr>"

definition default_recovery_batch :: int where "default_recovery_batch = 200"
definition default_recovery_max_tries :: int where "default_recovery_max_tries = 5"

definition new_recoverer ::
  "'w intent_store_ops option \<Rightarrow> 'w node_store_ops option \<Rightarrow>
   (string \<Rightarrow> 'w \<Rightarrow> (go_error, uint64 \<times> bool) result \<times> 'w) option \<Rightarrow> 'w recoverer" where
  "new_recoverer intents nodes inspector =
     \<lparr>rv_intents = intents, rv_nodes = nodes, rv_inspector = inspector,
      rv_batch_size = default_recovery_batch, rv_max_tries = default_recovery_max_tries\<rparr>"

datatype recover_outcome = OutcomeCompleted | OutcomeAborted | OutcomeRetried

definition retry_or_abort ::
  "'w intent_store_ops \<Rightarrow> int \<Rightarrow> intent \<Rightarrow> string \<Rightarrow> 'w \<Rightarrow> recover_outcome \<times> 'w" where
  "retry_or_abort store max_tries i reason w =
     (if max_tries \<le> it_attempts i + 1
      then (OutcomeAborted, snd (is_mark_aborted store (it_id i) (''max attempts exceeded: '' @ reason) w))
      else (OutcomeRetried, snd (is_increment_attempt store (it_id i) reason w)))"

text \<open>\<open>Recover\<close> calls \<open>reconcile\<close> only when the intent store and the inspector are not nil.\<close>

definition reconcile ::
  "'w intent_store_ops \<Rightarrow> 'w node_store_ops option \<Rightarrow>
   (string \<Rightarrow> 'w \<Rightarrow> (go_error, uint64 \<times> bool) result \<times> 'w) \<Rightarrow> int \<Rightarrow> intent \<Rightarrow> 'w \<Rightarrow> recover_outcome \<times> 'w" where
  "reconcile store nodes stat_inode max_tries i w =
     (case stat_inode (it_abs_path i) w of
        (Inl err, w1) \<Rightarrow> retry_or_abort store max_tries i (''stat target: '' @ err_text err) w1
      | (Inr (inode, exists), w1) \<Rightarrow>
          if \<not> exists
          then (OutcomeAborted, snd (is_mark_aborted store (it_id i) ''target path absent on storage'' w1))
          else if inode = 0
          then retry_or_abort store max_tries i ''inode unresolved for existing path'' w1
          else
            (case nodes of
               None \<Rightarrow> (OutcomeCompleted, snd (is_mark_done store (it_id i) w1))
             | Some ns \<Rightarrow>
                 (case ns_upsert ns \<lparr>nm_inode_id = inode, nm_actor = it_actor i, nm_node_type = it_node_type i\<rparr> w1 of
                    (Some up_err, w2) \<Rightarrow>
                      retry_or_abort store max_tries i (''upsert node: '' @ err_text up_err) w2
                  | (None, w2) \<Rightarrow> (OutcomeCompleted, snd (is_mark_done store (it_id i) w2)))))"

definition count_outcome :: "recover_outcome \<Rightarrow> recovery_stats \<Rightarrow> recovery_stats" where
  "count_outcome out st =
     (case out of
        OutcomeCompleted \<Rightarrow> st\<lparr>rs_scanned := rs_scanned st + 1, rs_completed := rs_completed st + 1\<rparr>
      | OutcomeAborted \<Rightarrow> st\<lparr>rs_scanned := rs_scanned st + 1, rs_aborted := rs_aborted st + 1\<rparr>
      | OutcomeRetried \<Rightarrow> st\<lparr>rs_scanned := rs_scanned st + 1, rs_retried := rs_retried st + 1\<rparr>)"

text \<open>
  One batch: the intents in order, stopping when the context has ended. \<open>step\<close> is the call of
  \<open>reconcile\<close> and \<open>ctx_err\<close> is \<open>ctx.Err\<close>.
\<close>

fun recover_batch ::
  "(intent \<Rightarrow> 'w \<Rightarrow> recover_outcome \<times> 'w) \<Rightarrow> ('w \<Rightarrow> go_error option) \<Rightarrow> intent list \<Rightarrow>
   recovery_stats \<Rightarrow> bool \<Rightarrow> 'w \<Rightarrow> go_error option \<times> recovery_stats \<times> bool \<times> 'w" where
  "recover_batch step ctx_err [] st progressed w = (None, st, progressed, w)"
| "recover_batch step ctx_err (i # is) st progressed w =
     (case step i w of
        (out, w1) \<Rightarrow>
          let st1 = count_outcome out st;
              progressed1 = (progressed \<or> out \<noteq> OutcomeRetried)
          in (case ctx_err w1 of
                Some e \<Rightarrow> (Some e, st1, progressed1, w1)
              | None \<Rightarrow> recover_batch step ctx_err is st1 progressed1 w1))"

text \<open>
  The loop over batches. It may run forever when a store never settles what it is told to
  settle, so it is a partial function: \<open>None\<close> is no return.
\<close>

partial_function (option) recover_loop ::
  "'w intent_store_ops \<Rightarrow> (intent \<Rightarrow> 'w \<Rightarrow> recover_outcome \<times> 'w) \<Rightarrow> int \<Rightarrow> ('w \<Rightarrow> go_error option) \<Rightarrow>
   recovery_stats \<Rightarrow> 'w \<Rightarrow> (recovery_stats \<times> go_error option \<times> 'w) option" where
  "recover_loop store step batch_size ctx_err st w =
     (case is_list_pending store batch_size w of
        (Inl e, w1) \<Rightarrow> Some (st, Some e, w1)
      | (Inr pending, w1) \<Rightarrow>
          if pending = [] then Some (st, None, w1)
          else
            (case recover_batch step ctx_err pending st False w1 of
               (Some e, st1, progressed, w2) \<Rightarrow> Some (st1, Some e, w2)
             | (None, st1, progressed, w2) \<Rightarrow>
                 if \<not> progressed \<or> int (length pending) < batch_size then Some (st1, None, w2)
                 else recover_loop store step batch_size ctx_err st1 w2))"

declare recover_loop.simps [code]

definition recover ::
  "'w recoverer option \<Rightarrow> ('w \<Rightarrow> go_error option) \<Rightarrow> 'w \<Rightarrow> (recovery_stats \<times> go_error option \<times> 'w) option" where
  "recover ro ctx_err w =
     (case ro of
        None \<Rightarrow> Some (zero_stats, None, w)
      | Some r \<Rightarrow>
          (case (rv_intents r, rv_inspector r) of
             (Some store, Some stat_inode) \<Rightarrow>
               recover_loop store (reconcile store (rv_nodes r) stat_inode (rv_max_tries r))
                 (rv_batch_size r) ctx_err zero_stats w
           | _ \<Rightarrow> Some (zero_stats, None, w)))"

section \<open>One intent\<close>

text \<open>
  The inspector looks at the storage, which neither store touches: \<open>on_disk w p\<close> is the
  inode of the file at \<open>p\<close>, \<open>None\<close> when there is none.
\<close>

locale recovery = journal iops intents good key_ok nops rows
  for iops :: "'w intent_store_ops" and intents :: "'w \<Rightarrow> string \<Rightarrow> intent option" and good :: "'w \<Rightarrow> bool"
    and key_ok :: "string \<Rightarrow> bool" and nops :: "'w node_store_ops" and rows :: "'w \<Rightarrow> uint64 \<Rightarrow> node_record option" +
  fixes stat_inode :: "string \<Rightarrow> 'w \<Rightarrow> (go_error, uint64 \<times> bool) result \<times> 'w"
    and on_disk :: "'w \<Rightarrow> string \<Rightarrow> uint64 option"
  assumes stat_inode_frame: "stat_inode p w = (sr, w') \<Longrightarrow>
      intents w' = intents w \<and> rows w' = rows w \<and> on_disk w' = on_disk w \<and> (good w \<longrightarrow> good w')"
    and stat_inode_ok: "stat_inode p w = (Inr (ino, ex), w') \<Longrightarrow>
      ex = (on_disk w p \<noteq> None) \<and> (ino \<noteq> 0 \<longrightarrow> on_disk w p = Some ino)"
    and store_ops_disk:
      "is_mark_done iops k w = (r, w') \<Longrightarrow> on_disk w' = on_disk w"
      "is_mark_aborted iops k s w = (r, w') \<Longrightarrow> on_disk w' = on_disk w"
      "is_increment_attempt iops k s w = (r, w') \<Longrightarrow> on_disk w' = on_disk w"
      "is_list_pending iops n w = (lr, w') \<Longrightarrow> on_disk w' = on_disk w"
      "ns_upsert nops m w = (r, w') \<Longrightarrow> on_disk w' = on_disk w"
begin

abbreviation step :: "int \<Rightarrow> intent \<Rightarrow> 'w \<Rightarrow> recover_outcome \<times> 'w" where
  "step max_tries \<equiv> reconcile iops (Some nops) stat_inode max_tries"

lemma retry_or_abort_effect:
  assumes "good w" "key_ok (it_id i)" "retry_or_abort iops mt i reason w = (out, w')"
  shows "good w' \<and> rows w' = rows w \<and> on_disk w' = on_disk w \<and>
    touched {IntentAborted} (it_id i) (intents w) (intents w') \<and> out \<noteq> OutcomeCompleted"
proof (cases "mt \<le> it_attempts i + 1")
  case True
  let ?s = "''max attempts exceeded: '' @ reason"
  obtain r w1 where m: "is_mark_aborted iops (it_id i) ?s w = (r, w1)"
    by (cases "is_mark_aborted iops (it_id i) ?s w") auto
  with True assms(3) have "w' = w1" "out = OutcomeAborted" by (simp_all add: retry_or_abort_def)
  then show ?thesis
    using I.good_ops(3) [OF assms(1) m] intent_ops_rows(3) [OF m] store_ops_disk(2) [OF m]
      I.touched_aborted [OF assms(1,2) m] by simp
next
  case False
  obtain r w1 where m: "is_increment_attempt iops (it_id i) reason w = (r, w1)"
    by (cases "is_increment_attempt iops (it_id i) reason w") auto
  with False assms(3) have "w' = w1" "out = OutcomeRetried" by (simp_all add: retry_or_abort_def)
  then show ?thesis
    using I.good_ops(4) [OF assms(1) m] intent_ops_rows(4) [OF m] store_ops_disk(3) [OF m]
      touched_mono [OF I.touched_increment [OF assms(1,2) m]] by simp
qed

text \<open>
  What one call of \<open>reconcile\<close> does, whatever fails: only its own intent and the row of its own
  target change; \<open>completed\<close> means that the row was written, and so does a status that has
  become done.
\<close>

lemma reconcile_effect:
  assumes "good w" "step mt i w = (out, w')" "known_node_type (it_node_type i)" "key_ok (it_id i)"
  defines "row ino \<equiv> record_of_mutation \<lparr>nm_inode_id = ino, nm_actor = it_actor i, nm_node_type = it_node_type i\<rparr>"
  shows "good w' \<and> on_disk w' = on_disk w \<and>
    touched {IntentDone, IntentAborted} (it_id i) (intents w) (intents w') \<and>
    (rows w' = rows w \<and> out \<noteq> OutcomeCompleted \<and>
       touched {IntentAborted} (it_id i) (intents w) (intents w') \<or>
     (\<exists>ino. on_disk w (it_abs_path i) = Some ino \<and> ino \<noteq> 0 \<and> out = OutcomeCompleted \<and>
       touched {IntentDone} (it_id i) (intents w) (intents w') \<and>
       rows w' = (rows w)(ino \<mapsto> row ino)))"
proof -
  obtain sr w1 where s: "stat_inode (it_abs_path i) w = (sr, w1)"
    by (cases "stat_inode (it_abs_path i) w") auto
  have f1: "good w1" "intents w1 = intents w" "rows w1 = rows w" "on_disk w1 = on_disk w"
    using stat_inode_frame [OF s] assms(1) by simp_all
  have retry: ?thesis if "retry_or_abort iops mt i reason w2 = (out, w')"
    "good w2" "intents w2 = intents w" "rows w2 = rows w" "on_disk w2 = on_disk w" for reason w2
    using retry_or_abort_effect [OF that(2) assms(4) that(1)] that touched_mono [of "{IntentAborted}" _ _ _ "{IntentDone, IntentAborted}"]
    by auto
  show ?thesis
  proof (cases sr)
    case (Inl err)
    with assms(2) s retry [OF _ f1] show ?thesis by (simp add: reconcile_def)
  next
    case (Inr ie)
    obtain ino ex where ie: "ie = (ino, ex)" by (cases ie) auto
    note look = stat_inode_ok [OF s [unfolded Inr ie]]
    consider (absent) "\<not> ex" | (unresolved) "ex" "ino = 0" | (present) "ex" "ino \<noteq> 0" by blast
    then show ?thesis
    proof cases
      case absent
      let ?r = "''target path absent on storage''"
      obtain r w2 where m: "is_mark_aborted iops (it_id i) ?r w1 = (r, w2)"
        by (cases "is_mark_aborted iops (it_id i) ?r w1") auto
      with assms(2) s Inr ie absent have "w' = w2" "out = OutcomeAborted" by (simp_all add: reconcile_def)
      then show ?thesis
        using f1 I.good_ops(3) [OF f1(1) m] intent_ops_rows(3) [OF m] store_ops_disk(2) [OF m]
          I.touched_aborted [OF f1(1) assms(4) m] touched_mono [of "{IntentAborted}" _ _ _ "{IntentDone, IntentAborted}"]
        by simp
    next
      case unresolved
      with assms(2) s Inr ie retry [OF _ f1] show ?thesis by (simp add: reconcile_def)
    next
      case present
      let ?m = "\<lparr>nm_inode_id = ino, nm_actor = it_actor i, nm_node_type = it_node_type i\<rparr>"
      obtain u w2 where u: "ns_upsert nops ?m w1 = (u, w2)" by (cases "ns_upsert nops ?m w1") auto
      have f2: "good w2" "intents w2 = intents w" "on_disk w2 = on_disk w"
        using node_ops_good(1) [OF u f1(1)] node_ops_intents(1) [OF u] store_ops_disk(5) [OF u] f1 by simp_all
      show ?thesis
      proof (cases u)
        case (Some e)
        with u have "rows w2 = rows w" using f1 N.upsert_err by metis
        with assms(2) s Inr ie present u Some retry [OF _ f2(1,2) _ f2(3)] show ?thesis
          by (simp add: reconcile_def)
      next
        case None
        obtain r w3 where m: "is_mark_done iops (it_id i) w2 = (r, w3)"
          by (cases "is_mark_done iops (it_id i) w2") auto
        with assms(2) s Inr ie present u None have "w' = w3" "out = OutcomeCompleted"
          by (simp_all add: reconcile_def)
        moreover have "rows w3 = (rows w)(ino \<mapsto> row ino)"
          using N.upsert_ok [of ?m w1 w2] u None assms(3) f1 intent_ops_rows(2) [OF m] by (simp add: row_def)
        ultimately show ?thesis
          using f2 present look I.good_ops(2) [OF f2(1) m] store_ops_disk(1) [OF m]
            I.touched_done [OF f2(1) assms(4) m] touched_mono [of "{IntentDone}" _ _ _ "{IntentDone, IntentAborted}"]
          by auto
      qed
    qed
  qed
qed

text \<open>An outcome other than a retry settles the intent when the store does what it is told.\<close>

definition marks_work :: bool where
  "marks_work \<longleftrightarrow> (\<forall>w k s. good w \<longrightarrow> fst (is_mark_done iops k w) = None \<and> fst (is_mark_aborted iops k s w) = None)"

lemma marked_settles:
  assumes "marks_work" "good w" "key_ok k"
    and "w' = snd (is_mark_done iops k w) \<or> (\<exists>s. w' = snd (is_mark_aborted iops k s w))"
    and "intents w' k = Some j"
  shows "it_status j \<noteq> IntentPending"
  using assms(4)
proof
  assume "w' = snd (is_mark_done iops k w)"
  with assms(1,2) have "is_mark_done iops k w = (None, w')"
    by (auto simp: marks_work_def prod_eq_iff)
  with assms(2,3,5) I.mark_done_ok show ?thesis by force
next
  assume "\<exists>s. w' = snd (is_mark_aborted iops k s w)"
  with assms(1,2) obtain s where "is_mark_aborted iops k s w = (None, w')"
    by (auto simp: marks_work_def prod_eq_iff)
  with assms(2,3,5) I.mark_aborted_ok show ?thesis by force
qed

lemma reconcile_settles:
  assumes "marks_work" "good w" "step mt i w = (out, w')" "out \<noteq> OutcomeRetried"
    "intents w' (it_id i) = Some j" "key_ok (it_id i)"
  shows "it_status j \<noteq> IntentPending"
proof -
  obtain sr w1 where s: "stat_inode (it_abs_path i) w = (sr, w1)" by (cases "stat_inode (it_abs_path i) w")
  have g1: "good w1" using stat_inode_frame [OF s] assms(2) by simp
  have retry: "\<exists>s. w' = snd (is_mark_aborted iops (it_id i) s w2)"
    if "retry_or_abort iops mt i r w2 = (out, w')" for r w2
    using that assms(4) by (auto simp: retry_or_abort_def split: if_splits)
  have "\<exists>w2. good w2 \<and> (w' = snd (is_mark_done iops (it_id i) w2) \<or> (\<exists>s. w' = snd (is_mark_aborted iops (it_id i) s w2)))"
  proof (cases sr)
    case (Inl e)
    with assms(3) s g1 retry show ?thesis unfolding reconcile_def by fastforce
  next
    case (Inr ie)
    obtain ino ex where ie: "ie = (ino, ex)" by (cases ie)
    show ?thesis
    proof (cases "ex \<and> ino \<noteq> 0")
      case False
      with assms(3) s Inr ie g1 retry show ?thesis
        by (cases ex) (auto simp: reconcile_def)
    next
      case True
      let ?m = "\<lparr>nm_inode_id = ino, nm_actor = it_actor i, nm_node_type = it_node_type i\<rparr>"
      obtain u w2 where u: "ns_upsert nops ?m w1 = (u, w2)" by (cases "ns_upsert nops ?m w1")
      have "good w2" using node_ops_good(1) [OF u g1] .
      with assms(3) s Inr ie True u retry show ?thesis
        by (cases u) (auto simp: reconcile_def)
    qed
  qed
  with marked_settles [OF assms(1) _ assms(6) _ assms(5)] show ?thesis by blast
qed

section \<open>A whole scan\<close>

definition typed :: "'w \<Rightarrow> bool" where
  "typed w \<longleftrightarrow> (\<forall>k j. intents w k = Some j \<longrightarrow> known_node_type (it_node_type j))"

definition row_of :: "intent \<Rightarrow> uint64 \<Rightarrow> node_record" where
  "row_of j ino = record_of_mutation \<lparr>nm_inode_id = ino, nm_actor = it_actor j, nm_node_type = it_node_type j\<rparr>"

text \<open>
  What any number of steps of a scan does: the storage is only looked at, no row is lost, no
  intent appears, disappears or changes its target, a settled one stays as it is, one that
  becomes done has its target on the storage and in the table, and every row that changed was
  written for a pending intent whose target has that inode.
\<close>

definition reconciled :: "'w \<Rightarrow> 'w \<Rightarrow> bool" where
  "reconciled w w' \<longleftrightarrow>
     good w' \<and> on_disk w' = on_disk w \<and>
     (\<forall>i. rows w i \<noteq> None \<longrightarrow> rows w' i \<noteq> None) \<and>
     (\<forall>k. intents w k = None \<longrightarrow> intents w' k = None) \<and>
     (\<forall>k j. intents w k = Some j \<longrightarrow>
        (\<exists>j'. intents w' k = Some j' \<and> same_target j j' \<and>
           (it_status j \<noteq> IntentPending \<longrightarrow> it_status j' = it_status j) \<and>
           (it_status j = IntentPending \<and> it_status j' = IntentDone \<longrightarrow>
              (\<exists>ino. on_disk w (it_abs_path j) = Some ino \<and> rows w' ino \<noteq> None)))) \<and>
     (\<forall>ino. rows w' ino = rows w ino \<or>
        (\<exists>k j. intents w k = Some j \<and> it_status j = IntentPending \<and> on_disk w (it_abs_path j) = Some ino \<and>
           rows w' ino = Some (row_of j ino)))"

lemma reconciledD:
  assumes "reconciled w w'"
  shows "good w'" "on_disk w' = on_disk w" "rows w i \<noteq> None \<Longrightarrow> rows w' i \<noteq> None"
    "intents w k = None \<Longrightarrow> intents w' k = None"
    "intents w k = Some j \<Longrightarrow> \<exists>j'. intents w' k = Some j' \<and> same_target j j' \<and>
           (it_status j \<noteq> IntentPending \<longrightarrow> it_status j' = it_status j) \<and>
           (it_status j = IntentPending \<and> it_status j' = IntentDone \<longrightarrow>
              (\<exists>ino. on_disk w (it_abs_path j) = Some ino \<and> rows w' ino \<noteq> None))"
    "rows w' ino = rows w ino \<or>
        (\<exists>k j. intents w k = Some j \<and> it_status j = IntentPending \<and> on_disk w (it_abs_path j) = Some ino \<and>
           rows w' ino = Some (row_of j ino))"
  using assms unfolding reconciled_def by blast+

lemma reconciled_refl: "good w \<Longrightarrow> reconciled w w"
  unfolding reconciled_def by (auto intro!: same_target_refl)

lemma reconciled_back:
  assumes "reconciled w w'" "intents w' k = Some j'"
  shows "\<exists>j. intents w k = Some j \<and> same_target j j' \<and> (it_status j' = IntentPending \<longrightarrow> it_status j = IntentPending)"
proof (cases "intents w k")
  case None
  with assms reconciledD(4) show ?thesis by fastforce
next
  case (Some j)
  with reconciledD(5) [OF assms(1) Some] assms(2) show ?thesis by (cases "it_status j = IntentPending") auto
qed

lemma reconciled_typed:
  assumes "reconciled w w'" "typed w"
  shows "typed w'"
  unfolding typed_def
proof (intro allI impI)
  fix k j' assume "intents w' k = Some j'"
  with reconciled_back [OF assms(1)] obtain j where "intents w k = Some j" "same_target j j'" by blast
  with assms(2) show "known_node_type (it_node_type j')" by (auto simp: typed_def same_target_def)
qed

lemma reconciled_trans:
  assumes "reconciled w w1" "reconciled w1 w2" "typed w"
  shows "reconciled w w2"
  unfolding reconciled_def
proof (intro conjI allI impI)
  note a = reconciledD [OF assms(1)] and b = reconciledD [OF assms(2)]
  show "good w2" "on_disk w2 = on_disk w" using a b by auto
  show "rows w2 i \<noteq> None" if "rows w i \<noteq> None" for i using that a(3) b(3) by blast
  show "intents w2 k = None" if "intents w k = None" for k using that a(4) b(4) by blast
  show "\<exists>j'. intents w2 k = Some j' \<and> same_target j j' \<and>
           (it_status j \<noteq> IntentPending \<longrightarrow> it_status j' = it_status j) \<and>
           (it_status j = IntentPending \<and> it_status j' = IntentDone \<longrightarrow>
              (\<exists>ino. on_disk w (it_abs_path j) = Some ino \<and> rows w2 ino \<noteq> None))"
    if j: "intents w k = Some j" for k j
  proof -
    from a(5) [OF j] obtain j1 where j1: "intents w1 k = Some j1" "same_target j j1"
      "it_status j \<noteq> IntentPending \<longrightarrow> it_status j1 = it_status j"
      "it_status j = IntentPending \<and> it_status j1 = IntentDone \<longrightarrow>
              (\<exists>ino. on_disk w (it_abs_path j) = Some ino \<and> rows w1 ino \<noteq> None)" by blast
    from b(5) [OF j1(1)] obtain j2 where j2: "intents w2 k = Some j2" "same_target j1 j2"
      "it_status j1 \<noteq> IntentPending \<longrightarrow> it_status j2 = it_status j1"
      "it_status j1 = IntentPending \<and> it_status j2 = IntentDone \<longrightarrow>
              (\<exists>ino. on_disk w1 (it_abs_path j1) = Some ino \<and> rows w2 ino \<noteq> None)" by blast
    have p: "it_abs_path j1 = it_abs_path j" using j1(2) by (simp add: same_target_def)
    have "same_target j j2" using j1(2) j2(2) by (rule same_target_trans)
    moreover have "it_status j2 = it_status j" if "it_status j \<noteq> IntentPending"
      using that j1(3) j2(3) by simp
    moreover have "\<exists>ino. on_disk w (it_abs_path j) = Some ino \<and> rows w2 ino \<noteq> None"
      if d: "it_status j = IntentPending" "it_status j2 = IntentDone"
    proof (cases "it_status j1 = IntentPending")
      case True
      with d(2) j2(4) p a(2) show ?thesis by simp
    next
      case False
      with d(2) j2(3) have "it_status j1 = IntentDone" by simp
      with d(1) j1(4) b(3) show ?thesis by blast
    qed
    ultimately show ?thesis using j2(1) by blast
  qed
  show "rows w2 ino = rows w ino \<or>
        (\<exists>k j. intents w k = Some j \<and> it_status j = IntentPending \<and> on_disk w (it_abs_path j) = Some ino \<and>
           rows w2 ino = Some (row_of j ino))" for ino
    using b(6) [of ino]
  proof
    assume "rows w2 ino = rows w1 ino"
    with a(6) [of ino] show ?thesis by simp
  next
    assume "\<exists>k j. intents w1 k = Some j \<and> it_status j = IntentPending \<and> on_disk w1 (it_abs_path j) = Some ino \<and>
           rows w2 ino = Some (row_of j ino)"
    then obtain k j1 where j1: "intents w1 k = Some j1" "it_status j1 = IntentPending"
      "on_disk w1 (it_abs_path j1) = Some ino" "rows w2 ino = Some (row_of j1 ino)" by blast
    from reconciled_back [OF assms(1) j1(1)] j1(2) obtain j where
      j: "intents w k = Some j" "same_target j j1" "it_status j = IntentPending" by blast
    moreover from j assms(3) have "row_of j1 ino = row_of j ino" "it_abs_path j1 = it_abs_path j"
      by (auto simp: same_target_def typed_def row_of_def)
    ultimately show ?thesis using j1 a(2) by auto
  qed
qed

lemma reconcile_reconciled:
  assumes "good w" "typed w" "intents w (it_id i) = Some i" "it_status i = IntentPending" "step mt i w = (out, w')"
  shows "reconciled w w' \<and> (\<forall>k. k \<noteq> it_id i \<longrightarrow> intents w' k = intents w k)"
proof -
  have t: "known_node_type (it_node_type i)" using assms(2,3) by (simp add: typed_def)
  note eff = reconcile_effect [OF assms(1) assms(5) t I.intents_key [OF assms(1,3)]]
  then have tch: "touched {IntentDone, IntentAborted} (it_id i) (intents w) (intents w')" by blast
  have other: "intents w' k = intents w k" if "k \<noteq> it_id i" for k using touched_other [OF tch that] .
  have cases: "rows w' = rows w \<and> touched {IntentAborted} (it_id i) (intents w) (intents w') \<or>
     (\<exists>ino. on_disk w (it_abs_path i) = Some ino \<and> rows w' = (rows w)(ino \<mapsto> row_of i ino))"
    using eff unfolding row_of_def by blast
  have "reconciled w w'"
    unfolding reconciled_def
  proof (intro conjI allI impI)
    show "good w'" "on_disk w' = on_disk w" using eff by blast+
    show "rows w' x \<noteq> None" if "rows w x \<noteq> None" for x using that cases by auto
    show "intents w' k = None" if "intents w k = None" for k
      using that other [of k] assms(3) by (cases "k = it_id i") auto
    show "\<exists>j'. intents w' k = Some j' \<and> same_target j j' \<and>
           (it_status j \<noteq> IntentPending \<longrightarrow> it_status j' = it_status j) \<and>
           (it_status j = IntentPending \<and> it_status j' = IntentDone \<longrightarrow>
              (\<exists>ino. on_disk w (it_abs_path j) = Some ino \<and> rows w' ino \<noteq> None))"
      if j: "intents w k = Some j" for k j
    proof (cases "k = it_id i")
      case False
      with other [of k] j show ?thesis by auto
    next
      case True
      with j assms(3,4) have "j = i" by simp
      from touched_at [OF tch j] obtain j' where j': "intents w' k = Some j'" "same_target j j'" by blast
      have "\<exists>ino. on_disk w (it_abs_path j) = Some ino \<and> rows w' ino \<noteq> None" if "it_status j' = IntentDone"
        using cases
      proof
        assume "rows w' = rows w \<and> touched {IntentAborted} (it_id i) (intents w) (intents w')"
        with touched_at [of "{IntentAborted}" "it_id i" "intents w" "intents w'" k j] j j' that assms(4) \<open>j = i\<close>
        show ?thesis by auto
      next
        assume "\<exists>ino. on_disk w (it_abs_path i) = Some ino \<and> rows w' = (rows w)(ino \<mapsto> row_of i ino)"
        with \<open>j = i\<close> show ?thesis by auto
      qed
      with j' assms(4) \<open>j = i\<close> show ?thesis by blast
    qed
    show "rows w' ino = rows w ino \<or>
        (\<exists>k j. intents w k = Some j \<and> it_status j = IntentPending \<and> on_disk w (it_abs_path j) = Some ino \<and>
           rows w' ino = Some (row_of j ino))" for ino
      using cases
    proof
      assume "\<exists>x. on_disk w (it_abs_path i) = Some x \<and> rows w' = (rows w)(x \<mapsto> row_of i x)"
      then obtain x where x: "on_disk w (it_abs_path i) = Some x" "rows w' = (rows w)(x \<mapsto> row_of i x)" by blast
      show ?thesis
      proof (cases "ino = x")
        case True
        with x have "rows w' ino = Some (row_of i ino)" "on_disk w (it_abs_path i) = Some ino" by simp_all
        with assms(3,4) show ?thesis by blast
      qed (use x in simp)
    qed simp
  qed
  with other show ?thesis by blast
qed

text \<open>The pending intents a batch starts with stay what they are until it is their turn.\<close>

definition batch_ok :: "'w \<Rightarrow> intent list \<Rightarrow> bool" where
  "batch_ok w is \<longleftrightarrow> distinct (map it_id is) \<and>
     (\<forall>x \<in> set is. intents w (it_id x) = Some x \<and> it_status x = IntentPending)"

lemma batch_ok_step:
  assumes "batch_ok w (i # is)" "\<forall>k. k \<noteq> it_id i \<longrightarrow> intents w' k = intents w k"
  shows "batch_ok w' is"
  unfolding batch_ok_def
proof (intro conjI ballI)
  fix x assume x: "x \<in> set is"
  with assms(1) have "it_id x \<noteq> it_id i" 
    unfolding batch_ok_def by (metis distinct.simps(2) image_eqI list.simps(9) set_map)
  with assms x show "intents w' (it_id x) = Some x" "it_status x = IntentPending"
    by (simp_all add: batch_ok_def)
qed (use assms(1) in \<open>simp add: batch_ok_def\<close>)

lemma recover_batch_reconciled:
  "good w \<Longrightarrow> typed w \<Longrightarrow> batch_ok w is \<Longrightarrow> recover_batch (step mt) cx is st pr w = (e, st', pr', w') \<Longrightarrow>
   reconciled w w'"
proof (induction "is" arbitrary: st pr w)
  case Nil
  then show ?case by (simp add: reconciled_refl)
next
  case (Cons i "is")
  obtain out w1 where s: "step mt i w = (out, w1)" by (cases "step mt i w")
  from Cons.prems(3) have i: "intents w (it_id i) = Some i" "it_status i = IntentPending"
    by (simp_all add: batch_ok_def)
  note r = reconcile_reconciled [OF Cons.prems(1,2) i s]
  show ?case
  proof (cases "cx w1")
    case (Some x)
    with Cons.prems(4) s r show ?thesis by (simp add: Let_def)
  next
    case None
    have "batch_ok w1 is" using Cons.prems(3) r by (blast intro: batch_ok_step)
    moreover have "good w1" "typed w1" using r reconciledD(1) reconciled_typed Cons.prems(2) by blast+
    moreover have "recover_batch (step mt) cx is (count_outcome out st) (pr \<or> out \<noteq> OutcomeRetried) w1 = (e, st', pr', w')"
      using Cons.prems(4) s None by (simp add: Let_def)
    ultimately have "reconciled w1 w'" using Cons.IH by blast
    with r Cons.prems(2) reconciled_trans show ?thesis by blast
  qed
qed

lemma listed_batch:
  assumes "good w" "0 < n" "is_list_pending iops n w = (Inr xs, w1)"
  shows "reconciled w w1 \<and> batch_ok w1 xs \<and> length xs \<le> nat n"
proof -
  have "intents w1 = intents w" "rows w1 = rows w" "good w1" "on_disk w1 = on_disk w"
    using I.list_intents [OF assms(1,3)] intent_ops_rows(5) [OF assms(3)] I.good_ops(5) [OF assms(1,3)]
      store_ops_disk(4) [OF assms(3)] by blast+
  moreover from this have "reconciled w w1" unfolding reconciled_def by (auto intro!: same_target_refl)
  ultimately show ?thesis using I.list_ok [OF assms] by (auto simp: batch_ok_def)
qed

lemma recover_loop_reconciled:
  assumes "0 < n" "good w" "typed w" "recover_loop iops (step mt) n cx st w = Some (st', e, w')"
  shows "reconciled w w'"
proof -
  define P where "P store stp m c s v out \<longleftrightarrow> (store = iops \<and> stp = step mt \<and> m = n \<and> c = cx \<and> good v \<and> typed v \<longrightarrow>
      reconciled v (snd (snd out)))"
    for store and stp :: "intent \<Rightarrow> 'w \<Rightarrow> recover_outcome \<times> 'w" and m and c :: "'w \<Rightarrow> go_error option"
      and s :: recovery_stats and v and out :: "recovery_stats \<times> go_error option \<times> 'w"
  have "P iops (step mt) n cx st w (st', e, w')"
  proof (rule recover_loop.raw_induct [of P, OF _ assms(4)])
    fix rec store stp m c s v out
    assume ih: "\<And>store stp m c s v out. rec store stp m c s v = Some out \<Longrightarrow> P store stp m c s v out"
      and body: "(case is_list_pending store m v of
          (Inl e, w1) \<Rightarrow> Some (s, Some e, w1)
        | (Inr pending, w1) \<Rightarrow>
            if pending = [] then Some (s, None, w1)
            else case recover_batch stp c pending s False w1 of
                 (None, st1, progressed, w2) \<Rightarrow>
                   if \<not> progressed \<or> int (length pending) < m then Some (st1, None, w2)
                   else rec store stp m c st1 w2
               | (Some e, st1, progressed, w2) \<Rightarrow> Some (st1, Some e, w2)) = Some out"
    show "P store stp m c s v out"
      unfolding P_def
    proof (intro impI, elim conjE)
      assume eqs: "store = iops" "stp = step mt" "m = n" "c = cx" and v: "good v" "typed v"
      obtain lr w1 where l: "is_list_pending iops n v = (lr, w1)" by (cases "is_list_pending iops n v")
      show "reconciled v (snd (snd out))"
      proof (cases lr)
        case (Inl x)
        have "reconciled v w1"
          using I.list_intents [OF v(1) l] intent_ops_rows(5) [OF l] I.good_ops(5) [OF v(1) l]
            store_ops_disk(4) [OF l] unfolding reconciled_def by (auto intro!: same_target_refl)
        with Inl body l eqs show ?thesis by auto
      next
        case (Inr xs)
        note b = listed_batch [OF v(1) assms(1) l [unfolded Inr]]
        have w1: "good w1" "typed w1" using b reconciledD(1) reconciled_typed v(2) by blast+
        obtain x st1 pr w2 where r: "recover_batch (step mt) cx xs s False w1 = (x, st1, pr, w2)"
          by (cases "recover_batch (step mt) cx xs s False w1")
        have "reconciled w1 w2" using recover_batch_reconciled [OF w1 _ r] b by blast
        with b v(2) have vw2: "reconciled v w2" using reconciled_trans by blast
        have w2: "good w2" "typed w2" using vw2 reconciledD(1) reconciled_typed v(2) by blast+
        consider "snd (snd out) = w1" | "snd (snd out) = w2" | "rec iops (step mt) n cx st1 w2 = Some out"
          using body Inr l r eqs by (cases x) (auto split: if_splits)
        then show ?thesis
        proof cases
          case 3
          then have "reconciled w2 (snd (snd out))" using ih w2 by (auto simp: P_def)
          with vw2 v(2) show ?thesis using reconciled_trans by blast
        qed (use b vw2 in simp_all)
      qed
    qed
  qed
  with assms(2,3) show ?thesis by (simp add: P_def)
qed

text \<open>
  When marking works, a batch that made progress leaves fewer intents pending, so the scan
  comes to an end.
\<close>

definition pending_count :: "'w \<Rightarrow> nat" where
  "pending_count w = card {k. \<exists>j. intents w k = Some j \<and> it_status j = IntentPending}"

lemma finite_pending: "good w \<Longrightarrow> finite {k. \<exists>j. intents w k = Some j \<and> it_status j = IntentPending}"
  by (rule finite_subset [OF _ I.finite_intents]) auto

lemma pending_antimono: "reconciled w w' \<Longrightarrow> good w \<Longrightarrow> pending_count w' \<le> pending_count w"
  unfolding pending_count_def
  by (rule card_mono) (auto intro: finite_pending dest: reconciled_back)

lemma pending_less:
  assumes "reconciled w w'" "good w" "intents w k = Some i" "it_status i = IntentPending"
    and "\<And>j. intents w' k = Some j \<Longrightarrow> it_status j \<noteq> IntentPending"
  shows "pending_count w' < pending_count w"
  unfolding pending_count_def
proof (rule psubset_card_mono [OF finite_pending [OF assms(2)]])
  have "{k. \<exists>j. intents w' k = Some j \<and> it_status j = IntentPending} \<subseteq>
      {k. \<exists>j. intents w k = Some j \<and> it_status j = IntentPending}"
    using assms(1) by (auto dest: reconciled_back)
  with assms(3-5) show "{k. \<exists>j. intents w' k = Some j \<and> it_status j = IntentPending} \<subset>
      {k. \<exists>j. intents w k = Some j \<and> it_status j = IntentPending}" by blast
qed

lemma recover_batch_progress:
  "marks_work \<Longrightarrow> good w \<Longrightarrow> typed w \<Longrightarrow> batch_ok w is \<Longrightarrow>
   recover_batch (step mt) cx is st pr w = (e, st', pr', w') \<Longrightarrow> pr' \<and> \<not> pr \<Longrightarrow>
   pending_count w' < pending_count w"
proof (induction "is" arbitrary: st pr w)
  case (Cons i "is")
  obtain out w1 where s: "step mt i w = (out, w1)" by (cases "step mt i w")
  from Cons.prems(4) have i: "intents w (it_id i) = Some i" "it_status i = IntentPending"
    by (simp_all add: batch_ok_def)
  note r = reconcile_reconciled [OF Cons.prems(2,3) i s]
  have w1: "good w1" "typed w1" using r reconciledD(1) reconciled_typed Cons.prems(3) by blast+
  have less: "pending_count w1 < pending_count w" if "out \<noteq> OutcomeRetried"
    using pending_less [OF conjunct1 [OF r] Cons.prems(2) i] reconcile_settles [OF Cons.prems(1,2) s that]
      I.intents_key [OF Cons.prems(2) i(1)] by blast
  show ?case
  proof (cases "cx w1")
    case (Some x)
    with Cons.prems(5,6) s less show ?thesis by (auto simp: Let_def)
  next
    case None
    have b1: "batch_ok w1 is" using Cons.prems(4) r by (blast intro: batch_ok_step)
    have run: "recover_batch (step mt) cx is (count_outcome out st) (pr \<or> out \<noteq> OutcomeRetried) w1 = (e, st', pr', w')"
      using Cons.prems(5) s None by (simp add: Let_def)
    show ?thesis
    proof (cases "out = OutcomeRetried")
      case True
      have "pending_count w' < pending_count w1"
        using Cons.IH [OF Cons.prems(1) w1 b1 run] Cons.prems(6) True by simp
      also have "\<dots> \<le> pending_count w" using pending_antimono r Cons.prems(2) by blast
      finally show ?thesis .
    next
      case False
      have "pending_count w' \<le> pending_count w1"
        using pending_antimono [OF recover_batch_reconciled [OF w1 b1 run] w1(1)] .
      with less [OF False] show ?thesis by simp
    qed
  qed
qed simp

lemma recover_loop_returns:
  assumes "marks_work" "0 < n"
  shows "good w \<Longrightarrow> typed w \<Longrightarrow> recover_loop iops (step mt) n cx st w \<noteq> None"
proof (induction "pending_count w" arbitrary: st w rule: less_induct)
  case less
  obtain lr w1 where l: "is_list_pending iops n w = (lr, w1)" by (cases "is_list_pending iops n w")
  show ?case
  proof (cases lr)
    case (Inl x)
    with l show ?thesis by (subst recover_loop.simps) simp
  next
    case (Inr xs)
    note b = listed_batch [OF less.prems(1) assms(2) l [unfolded Inr]]
    have w1: "good w1" "typed w1" using b reconciledD(1) reconciled_typed less.prems(2) by blast+
    obtain x st1 pr w2 where r: "recover_batch (step mt) cx xs st False w1 = (x, st1, pr, w2)"
      by (cases "recover_batch (step mt) cx xs st False w1")
    have rc: "reconciled w1 w2" using recover_batch_reconciled [OF w1 _ r] b by blast
    have w2: "good w2" "typed w2" using rc reconciledD(1) reconciled_typed w1(2) by blast+
    have "recover_loop iops (step mt) n cx st1 w2 \<noteq> None" if "pr"
    proof (rule less.hyps [OF _ w2])
      have "pending_count w2 < pending_count w1"
        using recover_batch_progress [OF assms(1) w1 _ r] b that by blast
      also have "\<dots> \<le> pending_count w" using pending_antimono b less.prems(1) by blast
      finally show "pending_count w2 < pending_count w" .
    qed
    with l Inr r show ?thesis by (subst recover_loop.simps) (cases x; simp)
  qed
qed

end

text \<open>The four numbers of the statistics agree.\<close>

definition stats_ok :: "recovery_stats \<Rightarrow> bool" where
  "stats_ok st \<longleftrightarrow> rs_scanned st = rs_completed st + rs_aborted st + rs_retried st"

lemma stats_ok_count: "stats_ok st \<Longrightarrow> stats_ok (count_outcome out st)"
  by (cases out) (simp_all add: stats_ok_def count_outcome_def)

lemma stats_ok_batch:
  "stats_ok st \<Longrightarrow> recover_batch stp cx is st pr w = (e, st', pr', w') \<Longrightarrow> stats_ok st'"
  by (induction stp cx "is" st pr w rule: recover_batch.induct)
    (auto simp: Let_def stats_ok_count split: prod.splits option.splits)

lemma stats_ok_loop:
  assumes "recover_loop store stp n cx st w = Some out" "stats_ok st"
  shows "stats_ok (fst out)"
proof -
  have "stats_ok st \<longrightarrow> stats_ok (fst out)"
    by (rule recover_loop.raw_induct [of "\<lambda>_ _ _ _ st _ out. stats_ok st \<longrightarrow> stats_ok (fst out)", OF _ assms(1)])
      (auto split: prod.splits sum.splits option.splits if_splits dest: stats_ok_batch)
  with assms(2) show ?thesis by simp
qed

end
