(* ===== verification/Posix.thy ===== *)
theory Posix
  imports FsDomain
begin

text \<open>
  The part of Go's package \<open>os\<close> the storage client uses, on a file system of directories and
  regular files without links: path resolution, the system calls, and the library functions
  built from them (\<open>MkdirAll\<close>, \<open>RemoveAll\<close>, \<open>CreateTemp\<close>, \<open>ReadDir\<close>, \<open>WalkDir\<close>).

  A schedule of faults decides which system calls fail: each call takes one entry, \<open>None\<close> lets
  it run and \<open>Some n\<close> makes it fail with an input/output error, a write after \<open>n\<close> bytes. The
  empty schedule is the fault-free machine, and one that fails for ever after \<open>k\<close> calls leaves
  the storage as a crash after \<open>k\<close> calls does.
\<close>

section \<open>The file system\<close>

datatype fnode = FDir (fn_ino: uint64) | FFile (fn_ino: uint64) (fn_content: string)

text \<open>
  Nodes are keyed by their element lists from the root. \<open>fs_ino\<close> gives the inode numbers in the
  order they are drawn, \<open>fs_rand\<close> the random numbers in temporary names, \<open>fs_mtime\<close> and
  \<open>fs_dir_size\<close> what the storage reports as modification time and as size of a directory;
  \<open>fs_now\<close> is the time of day as text, and \<open>fs_has_stat\<close> tells whether \<open>FileInfo.Sys\<close> is a
  \<open>Stat_t\<close>.
\<close>

record fsys =
  fs_tab :: "(string list \<times> fnode) list"
  fs_faults :: "nat option list"
  fs_next :: nat
  fs_draws :: nat
  fs_clock :: nat
  fs_cwd :: "string list"
  fs_has_stat :: bool
  fs_ino :: "nat \<Rightarrow> uint64"
  fs_rand :: "nat \<Rightarrow> nat"
  fs_mtime :: "nat \<Rightarrow> string list \<Rightarrow> int"
  fs_dir_size :: "nat \<Rightarrow> string list \<Rightarrow> int"
  fs_now :: "nat \<Rightarrow> string"

abbreviation fs_map :: "fsys \<Rightarrow> string list \<Rightarrow> fnode option" where
  "fs_map s \<equiv> map_of (fs_tab s)"

fun is_dir_node :: "fnode \<Rightarrow> bool" where
  "is_dir_node (FDir i) = True"
| "is_dir_node (FFile i c) = False"

section \<open>Errors\<close>

datatype errno = ENOENT | ENOTDIR | EEXIST | EISDIR | ENOTEMPTY | EINVAL | EBUSY | EIO

fun errno_text :: "errno \<Rightarrow> string" where
  "errno_text ENOENT = ''no such file or directory''"
| "errno_text ENOTDIR = ''not a directory''"
| "errno_text EEXIST = ''file exists''"
| "errno_text EISDIR = ''is a directory''"
| "errno_text ENOTEMPTY = ''directory not empty''"
| "errno_text EINVAL = ''invalid argument''"
| "errno_text EBUSY = ''device or resource busy''"
| "errno_text EIO = ''input/output error''"

text \<open>\<open>PathError\<close> and \<open>LinkError\<close>: operation, path or paths, cause.\<close>

datatype os_error = OsError (oe_op: string) (oe_path: string) (oe_errno: errno)

definition os_go_error :: "os_error \<Rightarrow> go_error" where
  "os_go_error e = GoError [] (oe_op e @ '' '' @ oe_path e @ '': '' @ errno_text (oe_errno e))"

definition os_is_not_exist :: "os_error \<Rightarrow> bool" where
  "os_is_not_exist e \<longleftrightarrow> oe_errno e = ENOENT"

lemma os_go_error_sentinels [simp]: "err_sentinels (os_go_error e) = []"
  by (simp add: os_go_error_def)

lemma os_go_error_is [simp]: "\<not> errors_is (os_go_error e) s"
  by (simp add: errors_is_def)

section \<open>Path resolution\<close>

definition fs_path :: "fsys \<Rightarrow> string \<Rightarrow> string list" where
  "fs_path s p = clean_elems True [] ((if is_abs p then [] else fs_cwd s) @ elems p)"

fun walk_path :: "(string list \<Rightarrow> fnode option) \<Rightarrow> string list \<Rightarrow> string list \<Rightarrow> (errno, fnode) result" where
  "walk_path m cur [] = (case m cur of None \<Rightarrow> Inl ENOENT | Some n \<Rightarrow> Inr n)"
| "walk_path m cur (e # es) =
     (case m cur of
        None \<Rightarrow> Inl ENOENT
      | Some (FFile i c) \<Rightarrow> Inl ENOTDIR
      | Some (FDir i) \<Rightarrow> walk_path m (cur @ [e]) es)"

definition fs_find :: "fsys \<Rightarrow> string list \<Rightarrow> (errno, fnode) result" where
  "fs_find s es = walk_path (fs_map s) [] es"

definition fs_lookup :: "fsys \<Rightarrow> string \<Rightarrow> (errno, fnode) result" where
  "fs_lookup s p = (if p = [] then Inl ENOENT else fs_find s (fs_path s p))"

section \<open>System calls\<close>

definition fault_tick :: "fsys \<Rightarrow> nat option \<times> fsys" where
  "fault_tick s = (case fs_faults s of [] \<Rightarrow> (None, s) | f # fs \<Rightarrow> (f, s\<lparr>fs_faults := fs\<rparr>))"

definition fs_put :: "string list \<Rightarrow> fnode \<Rightarrow> fsys \<Rightarrow> fsys" where
  "fs_put es n s = s\<lparr>fs_tab := AList.update es n (fs_tab s), fs_clock := Suc (fs_clock s)\<rparr>"

definition fs_new :: "string list \<Rightarrow> (uint64 \<Rightarrow> fnode) \<Rightarrow> fsys \<Rightarrow> fsys" where
  "fs_new es mk s = fs_put es (mk (fs_ino s (fs_next s))) (s\<lparr>fs_next := Suc (fs_next s)\<rparr>)"

definition fs_cut :: "string list \<Rightarrow> fsys \<Rightarrow> fsys" where
  "fs_cut es s = s\<lparr>fs_tab := AList.delete es (fs_tab s), fs_clock := Suc (fs_clock s)\<rparr>"

definition fs_children :: "fsys \<Rightarrow> string list \<Rightarrow> string list" where
  "fs_children s es = map last (filter (\<lambda>k. k \<noteq> [] \<and> butlast k = es) (map fst (fs_tab s)))"

text \<open>The directory a new entry goes to; its last element must not be the root.\<close>

definition fs_parent_ok :: "fsys \<Rightarrow> string list \<Rightarrow> errno option" where
  "fs_parent_ok s es =
     (case fs_find s (butlast es) of
        Inl e \<Rightarrow> Some e
      | Inr n \<Rightarrow> if is_dir_node n then None else Some ENOTDIR)"

record os_file_info =
  oi_name :: string
  oi_is_dir :: bool
  oi_size :: int
  oi_mtime :: int
  oi_ino :: "uint64 option"

definition node_info :: "fsys \<Rightarrow> string \<Rightarrow> string list \<Rightarrow> fnode \<Rightarrow> os_file_info" where
  "node_info s p es n =
     \<lparr>oi_name = base_path p, oi_is_dir = is_dir_node n,
      oi_size = (case n of FDir i \<Rightarrow> fs_dir_size s (fs_clock s) es | FFile i c \<Rightarrow> int (length c)),
      oi_mtime = fs_mtime s (fs_clock s) es,
      oi_ino = (if fs_has_stat s then Some (fn_ino n) else None)\<rparr>"

definition os_stat_op :: "string \<Rightarrow> string \<Rightarrow> fsys \<Rightarrow> (os_error, os_file_info) result \<times> fsys" where
  "os_stat_op op p s0 =
     (case fault_tick s0 of
        (Some n, s) \<Rightarrow> (Inl (OsError op p EIO), s)
      | (None, s) \<Rightarrow>
          (case fs_lookup s p of
             Inl e \<Rightarrow> (Inl (OsError op p e), s)
           | Inr n \<Rightarrow> (Inr (node_info s p (fs_path s p) n), s)))"

text \<open>Without symbolic links the two ways of looking at a path differ in the error text only.\<close>

abbreviation "os_stat \<equiv> os_stat_op ''stat''"
abbreviation "os_lstat \<equiv> os_stat_op ''lstat''"

text \<open>\<open>Mkdir\<close> on an element list.\<close>

definition sys_mkdir :: "string list \<Rightarrow> fsys \<Rightarrow> errno option \<times> fsys" where
  "sys_mkdir es s0 =
     (case fault_tick s0 of
        (Some n, s) \<Rightarrow> (Some EIO, s)
      | (None, s) \<Rightarrow>
          (if fs_map s es \<noteq> None then (Some EEXIST, s)
           else (case fs_parent_ok s es of
                   Some e \<Rightarrow> (Some e, s)
                 | None \<Rightarrow> (None, fs_new es FDir s))))"

text \<open>
  \<open>MkdirAll\<close> goes up to the first existing ancestor and creates the directories below it. The
  element list is reversed, so that its tail is the parent.
\<close>

fun mkdir_all_rev :: "string list \<Rightarrow> fsys \<Rightarrow> errno option \<times> fsys" where
  "mkdir_all_rev [] s = (case fs_map s [] of Some (FDir i) \<Rightarrow> (None, s) | _ \<Rightarrow> (Some ENOTDIR, s))"
| "mkdir_all_rev (e # es) s =
     (case fs_map s (rev (e # es)) of
        Some n \<Rightarrow> if is_dir_node n then (None, s) else (Some ENOTDIR, s)
      | None \<Rightarrow>
          (case mkdir_all_rev es s of
             (Some x, s1) \<Rightarrow> (Some x, s1)
           | (None, s1) \<Rightarrow> sys_mkdir (rev (e # es)) s1))"

definition os_mkdir_all :: "string \<Rightarrow> fsys \<Rightarrow> os_error option \<times> fsys" where
  "os_mkdir_all p s =
     (if p = [] then (Some (OsError ''mkdir'' p ENOENT), s)
      else (case mkdir_all_rev (rev (fs_path s p)) s of
              (None, s1) \<Rightarrow> (None, s1)
            | (Some e, s1) \<Rightarrow> (Some (OsError ''mkdir'' p e), s1)))"

text \<open>
  \<open>Rename\<close>: Go refuses an existing directory as the new name, then the system call moves the
  node and everything below it, replacing a file at the new name. (With Go's check in front
  the system call meets a directory at the new name in no run.)
\<close>

definition rekey :: "string list \<Rightarrow> string list \<Rightarrow> string list \<Rightarrow> string list" where
  "rekey old new k = (if prefix old k then new @ drop (length old) k else k)"

definition fs_move :: "string list \<Rightarrow> string list \<Rightarrow> fsys \<Rightarrow> fsys" where
  "fs_move old new s =
     s\<lparr>fs_tab := map (\<lambda>(k, n). (rekey old new k, n)) (filter (\<lambda>kn. fst kn \<noteq> new) (fs_tab s)),
       fs_clock := Suc (fs_clock s)\<rparr>"

definition sys_rename :: "string list \<Rightarrow> string list \<Rightarrow> fsys \<Rightarrow> errno option \<times> fsys" where
  "sys_rename old new s0 =
     (case fault_tick s0 of
        (Some n, s) \<Rightarrow> (Some EIO, s)
      | (None, s) \<Rightarrow>
          (case fs_find s old of
             Inl e \<Rightarrow> (Some e, s)
           | Inr on \<Rightarrow>
               (case fs_parent_ok s new of
                  Some e \<Rightarrow> (Some e, s)
                | None \<Rightarrow>
                    if old = new then (None, s)
                    else if old = [] \<or> new = [] then (Some EBUSY, s)
                    else if strict_prefix old new then (Some EINVAL, s)
                    else (case fs_map s new of
                            Some (FDir i) \<Rightarrow> (Some (if is_dir_node on then ENOTEMPTY else EISDIR), s)
                          | Some (FFile i c) \<Rightarrow>
                              if is_dir_node on then (Some ENOTDIR, s) else (None, fs_move old new s)
                          | None \<Rightarrow> (None, fs_move old new s)))))"

definition rename_refused :: "string \<Rightarrow> string \<Rightarrow> fsys \<Rightarrow> bool" where
  "rename_refused old new s \<longleftrightarrow>
     (case fs_lookup s new of
        Inr (FDir i) \<Rightarrow> is_ok (fs_lookup s old) \<and> (old = new \<or> fs_path s old \<noteq> fs_path s new)
      | _ \<Rightarrow> False)"

definition os_rename :: "string \<Rightarrow> string \<Rightarrow> fsys \<Rightarrow> os_error option \<times> fsys" where
  "os_rename old new s =
     (let err = OsError ''rename'' (old @ '' '' @ new)
      in if old = [] \<or> new = [] then (Some (err ENOENT), s)
         else if rename_refused old new s then (Some (err EEXIST), s)
         else (case sys_rename (fs_path s old) (fs_path s new) s of
                 (None, s1) \<Rightarrow> (None, s1)
               | (Some e, s1) \<Rightarrow> (Some (err e), s1)))"

definition sys_remove :: "string list \<Rightarrow> fsys \<Rightarrow> errno option \<times> fsys" where
  "sys_remove es s0 =
     (case fault_tick s0 of
        (Some n, s) \<Rightarrow> (Some EIO, s)
      | (None, s) \<Rightarrow>
          (case fs_find s es of
             Inl e \<Rightarrow> (Some e, s)
           | Inr n \<Rightarrow>
               if es = [] then (Some EBUSY, s)
               else if fs_children s es \<noteq> [] then (Some ENOTEMPTY, s)
               else (None, fs_cut es s)))"

definition os_remove :: "string \<Rightarrow> fsys \<Rightarrow> os_error option \<times> fsys" where
  "os_remove p s =
     (if p = [] then (Some (OsError ''remove'' p ENOENT), s)
      else (case sys_remove (fs_path s p) s of
              (None, s1) \<Rightarrow> (None, s1)
            | (Some e, s1) \<Rightarrow> (Some (OsError ''remove'' p e), s1)))"

text \<open>\<open>RemoveAll\<close> removes the entries leaf first, goes on after an error and reports the first.\<close>

fun remove_each :: "string list list \<Rightarrow> errno option \<Rightarrow> fsys \<Rightarrow> errno option \<times> fsys" where
  "remove_each [] e s = (e, s)"
| "remove_each (k # ks) e s =
     (case sys_remove k s of
        (None, s1) \<Rightarrow> remove_each ks e s1
      | (Some x, s1) \<Rightarrow> remove_each ks (if e = None then Some x else e) s1)"

definition subtree :: "fsys \<Rightarrow> string list \<Rightarrow> string list list" where
  "subtree s es = rev (sort_key length (filter (prefix es) (map fst (fs_tab s))))"

definition os_remove_all :: "string \<Rightarrow> fsys \<Rightarrow> os_error option \<times> fsys" where
  "os_remove_all p s =
     (if p = [] then (None, s)
      else (case fs_lookup s p of
              Inl ENOENT \<Rightarrow> (None, s)
            | Inl e \<Rightarrow> (Some (OsError ''unlinkat'' p e), s)
            | Inr n \<Rightarrow>
                (case remove_each (subtree s (fs_path s p)) None s of
                   (None, s1) \<Rightarrow> (None, s1)
                 | (Some e, s1) \<Rightarrow> (Some (OsError ''unlinkat'' p e), s1))))"

section \<open>Files\<close>

definition os_read_file :: "string \<Rightarrow> fsys \<Rightarrow> (os_error, string) result \<times> fsys" where
  "os_read_file p s0 =
     (case fault_tick s0 of
        (Some n, s) \<Rightarrow> (Inl (OsError ''open'' p EIO), s)
      | (None, s) \<Rightarrow>
          (case fs_lookup s p of
             Inl e \<Rightarrow> (Inl (OsError ''open'' p e), s)
           | Inr (FDir i) \<Rightarrow> (Inl (OsError ''read'' p EISDIR), s)
           | Inr (FFile i c) \<Rightarrow> (Inr c, s)))"

text \<open>\<open>Create\<close>: a new empty file, or an existing one truncated.\<close>

definition os_create :: "string \<Rightarrow> fsys \<Rightarrow> os_error option \<times> fsys" where
  "os_create p s0 =
     (case fault_tick s0 of
        (Some n, s) \<Rightarrow> (Some (OsError ''open'' p EIO), s)
      | (None, s) \<Rightarrow>
          if p = [] then (Some (OsError ''open'' p ENOENT), s)
          else
            (case fs_map s (fs_path s p) of
               Some (FDir i) \<Rightarrow> (Some (OsError ''open'' p EISDIR), s)
             | Some (FFile i c) \<Rightarrow> (None, fs_put (fs_path s p) (FFile i []) s)
             | None \<Rightarrow>
                 (case fs_parent_ok s (fs_path s p) of
                    Some e \<Rightarrow> (Some (OsError ''open'' p e), s)
                  | None \<Rightarrow> (None, fs_new (fs_path s p) (\<lambda>i. FFile i []) s))))"

text \<open>A write to an open file, named by its path, appends; a fault lets a part through.\<close>

definition os_append :: "string \<Rightarrow> string \<Rightarrow> fsys \<Rightarrow> os_error option \<times> fsys" where
  "os_append p content s0 =
     (case fault_tick s0 of
        (f, s) \<Rightarrow>
          (case fs_map s (fs_path s p) of
             Some (FFile i c) \<Rightarrow>
               (case f of
                  None \<Rightarrow> (None, fs_put (fs_path s p) (FFile i (c @ content)) s)
                | Some n \<Rightarrow> (Some (OsError ''write'' p EIO), fs_put (fs_path s p) (FFile i (c @ take n content)) s))
           | _ \<Rightarrow> (Some (OsError ''write'' p EIO), s)))"

definition os_write_file :: "string \<Rightarrow> string \<Rightarrow> fsys \<Rightarrow> os_error option \<times> fsys" where
  "os_write_file p content s =
     (case os_create p s of
        (Some e, s1) \<Rightarrow> (Some e, s1)
      | (None, s1) \<Rightarrow> os_append p content s1)"

text \<open>
  \<open>Open\<close> for reading, and \<open>io.Copy\<close> between two open files named by their paths: what is read
  is what the source holds at that moment.
\<close>

definition os_open :: "string \<Rightarrow> fsys \<Rightarrow> os_error option \<times> fsys" where
  "os_open p s0 =
     (case fault_tick s0 of
        (Some n, s) \<Rightarrow> (Some (OsError ''open'' p EIO), s)
      | (None, s) \<Rightarrow>
          (case fs_lookup s p of
             Inl e \<Rightarrow> (Some (OsError ''open'' p e), s)
           | Inr n \<Rightarrow> (None, s)))"

definition os_io_copy :: "string \<Rightarrow> string \<Rightarrow> fsys \<Rightarrow> os_error option \<times> fsys" where
  "os_io_copy src dst s =
     (case fs_map s (fs_path s src) of
        Some (FFile i c) \<Rightarrow> os_append dst c s
      | _ \<Rightarrow> (Some (OsError ''read'' src EISDIR), s))"

text \<open>\<open>Sync\<close>, \<open>Close\<close> and \<open>Chmod\<close> may fail and change neither name space nor contents.\<close>

definition os_settle :: "string \<Rightarrow> string \<Rightarrow> fsys \<Rightarrow> os_error option \<times> fsys" where
  "os_settle op p s0 =
     (case fault_tick s0 of
        (Some n, s) \<Rightarrow> (Some (OsError op p EIO), s)
      | (None, s) \<Rightarrow> (None, s))"

abbreviation "os_sync \<equiv> os_settle ''sync''"
abbreviation "os_close \<equiv> os_settle ''close''"
abbreviation "os_chmod \<equiv> os_settle ''chmod''"

text \<open>
  \<open>CreateTemp\<close> draws names until one is free, ten thousand times at most; the pattern is given
  by what stands before and after its last star.
\<close>

fun create_temp_try :: "nat \<Rightarrow> string \<Rightarrow> string \<Rightarrow> string \<Rightarrow> fsys \<Rightarrow> (os_error, string) result \<times> fsys" where
  "create_temp_try 0 dir pre suf s = (Inl (OsError ''createtemp'' (dir @ ''/'' @ pre @ ''*'' @ suf) EEXIST), s)"
| "create_temp_try (Suc k) dir pre suf s0 =
     (let name = dir @ ''/'' @ pre @ decimal (fs_rand s0 (fs_draws s0)) @ suf;
          es = fs_path s0 name;
          s1 = s0\<lparr>fs_draws := Suc (fs_draws s0)\<rparr>
      in (case fault_tick s1 of
            (Some n, s) \<Rightarrow> (Inl (OsError ''open'' name EIO), s)
          | (None, s) \<Rightarrow>
              if fs_map s es \<noteq> None then create_temp_try k dir pre suf s
              else
                (case fs_parent_ok s es of
                   Some e \<Rightarrow> (Inl (OsError ''open'' name e), s)
                 | None \<Rightarrow> (Inr name, fs_new es (\<lambda>i. FFile i []) s))))"

definition os_create_temp :: "string \<Rightarrow> string \<Rightarrow> fsys \<Rightarrow> (os_error, string) result \<times> fsys" where
  "os_create_temp dir pattern s =
     (if list_ex (\<lambda>c. c = CHR ''/'') pattern
      then (Inl (OsError ''createtemp'' pattern EINVAL), s)
      else if list_ex (\<lambda>c. c = CHR ''*'') pattern
      then create_temp_try 10000 dir
             (butlast (rev (dropWhile (\<lambda>c. c \<noteq> CHR ''*'') (rev pattern))))
             (rev (takeWhile (\<lambda>c. c \<noteq> CHR ''*'') (rev pattern))) s
      else create_temp_try 10000 dir pattern [] s)"

section \<open>Directories\<close>

text \<open>\<open>ReadDir\<close>: the entries with their types, sorted by name.\<close>

definition os_read_dir :: "string \<Rightarrow> fsys \<Rightarrow> (os_error, (string \<times> bool) list) result \<times> fsys" where
  "os_read_dir p s0 =
     (case fault_tick s0 of
        (Some n, s) \<Rightarrow> (Inl (OsError ''open'' p EIO), s)
      | (None, s) \<Rightarrow>
          (case fs_lookup s p of
             Inl e \<Rightarrow> (Inl (OsError ''open'' p e), s)
           | Inr (FFile i c) \<Rightarrow> (Inl (OsError ''readdirent'' p ENOTDIR), s)
           | Inr (FDir i) \<Rightarrow>
               (Inr (map (\<lambda>x. (x, case fs_map s (fs_path s p @ [x]) of Some n \<Rightarrow> is_dir_node n | None \<Rightarrow> False))
                       (sort (remdups (fs_children s (fs_path s p))))), s)))"

section \<open>Well-formed file systems\<close>

text \<open>
  The root is a directory, every other node lies in a directory, names are plain elements and
  no path occurs twice.
\<close>

definition fs_wf :: "fsys \<Rightarrow> bool" where
  "fs_wf s \<longleftrightarrow>
     distinct (map fst (fs_tab s)) \<and> plain (fs_cwd s) \<and>
     (case fs_map s [] of Some n \<Rightarrow> is_dir_node n | None \<Rightarrow> False) \<and>
     list_all (\<lambda>(k, n). plain k \<and>
       (k = [] \<or> (case fs_map s (butlast k) of Some d \<Rightarrow> is_dir_node d | None \<Rightarrow> False))) (fs_tab s)"

lemma is_dir_node_iff: "is_dir_node n \<longleftrightarrow> (\<exists>i. n = FDir i)"
  by (cases n) auto

text \<open>The same in terms of the map the table stands for.\<close>

lemma fs_wf_iff:
  "fs_wf s \<longleftrightarrow>
     distinct (map fst (fs_tab s)) \<and> plain (fs_cwd s) \<and> (\<exists>i. fs_map s [] = Some (FDir i)) \<and>
     (\<forall>k. fs_map s k \<noteq> None \<longrightarrow> plain k \<and> (k \<noteq> [] \<longrightarrow> (\<exists>i. fs_map s (butlast k) = Some (FDir i))))"
proof -
  have d: "(case x of Some d \<Rightarrow> is_dir_node d | None \<Rightarrow> False) \<longleftrightarrow> (\<exists>i. x = Some (FDir i))" for x
    by (cases x) (auto simp: is_dir_node_iff)
  have "list_all (\<lambda>(k, n). Q k) (fs_tab s) \<longleftrightarrow> (\<forall>k. fs_map s k \<noteq> None \<longrightarrow> Q k)" for Q
    by (force simp: list_all_iff map_of_eq_None_iff)
  then show ?thesis unfolding fs_wf_def d by auto
qed

lemma fs_wfD:
  assumes "fs_wf s"
  shows "distinct (map fst (fs_tab s))" "plain (fs_cwd s)" "\<exists>i. fs_map s [] = Some (FDir i)"
    "fs_map s k = Some n \<Longrightarrow> plain k" "fs_map s k = Some n \<Longrightarrow> k \<noteq> [] \<Longrightarrow> \<exists>i. fs_map s (butlast k) = Some (FDir i)"
  using assms unfolding fs_wf_iff by blast+

lemma fs_wf_above:
  assumes "fs_wf s" "fs_map s (k @ ks) = Some n" "ks \<noteq> []"
  shows "\<exists>i. fs_map s k = Some (FDir i)"
  using assms(2,3)
proof (induction ks arbitrary: n rule: rev_induct)
  case (snoc x xs)
  then obtain i where "fs_map s (k @ xs) = Some (FDir i)"
    using fs_wfD(5) [OF assms(1) snoc.prems(1)] by (auto simp: butlast_append)
  with snoc.IH show ?case by (cases "xs = []") auto
qed simp

lemma fs_wf_prefix:
  "fs_wf s \<Longrightarrow> fs_map s k = Some n \<Longrightarrow> strict_prefix j k \<Longrightarrow> \<exists>i. fs_map s j = Some (FDir i)"
  by (auto elim!: strict_prefixE' dest: fs_wf_above)

lemma plain_fs_path: "fs_wf s \<Longrightarrow> plain (fs_path s p)"
  unfolding fs_path_def
  by (rule clean_elems_rooted_plain)
    (auto dest!: fs_wfD(2) elems_elem simp: plain_def plain_elem_def)

lemma fs_path_abs [path_simps]: "plain es \<Longrightarrow> fs_path s (abs_path es) = es"
  by (simp add: fs_path_def path_simps)

lemma walk_path_found: "walk_path m cur es = Inr n \<Longrightarrow> m (cur @ es) = Some n"
  by (induction es arbitrary: cur) (fastforce split: option.splits fnode.splits)+

lemma walk_path_error: "walk_path m cur es = Inl e \<Longrightarrow> e = ENOENT \<or> e = ENOTDIR"
  by (induction es arbitrary: cur) (auto split: option.splits fnode.splits)

lemma walk_path_complete:
  assumes "fs_wf s" "fs_map s (cur @ es) = Some n"
  shows "walk_path (fs_map s) cur es = Inr n"
  using assms(2)
proof (induction es arbitrary: cur)
  case (Cons e es)
  then obtain i where "fs_map s cur = Some (FDir i)"
    using fs_wf_above [OF assms(1)] by blast
  with Cons show ?case by simp
qed simp

text \<open>In a well-formed file system, resolving a path is reading the map.\<close>

lemma fs_find_iff [os_simps]: "fs_wf s \<Longrightarrow> fs_find s es = Inr n \<longleftrightarrow> fs_map s es = Some n"
  using walk_path_found [of "fs_map s" "[]" es n] walk_path_complete [of s "[]" es n]
  by (auto simp: fs_find_def)

lemma fs_find_cases:
  assumes "fs_wf s"
  obtains (found) n where "fs_find s es = Inr n" "fs_map s es = Some n"
  | (missing) e where "fs_find s es = Inl e" "fs_map s es = None" "e = ENOENT \<or> e = ENOTDIR"
proof (cases "fs_find s es")
  case (Inl e)
  then have "fs_map s es = None"
    using fs_find_iff [OF assms, of es] by (cases "fs_map s es") auto
  with Inl show ?thesis using walk_path_error that(2) by (auto simp: fs_find_def)
next
  case (Inr n)
  with assms that(1) show ?thesis by (simp add: fs_find_iff)
qed

lemma fs_parent_ok_None:
  "fs_wf s \<Longrightarrow> fs_parent_ok s es = None \<longleftrightarrow> (\<exists>i. fs_map s (butlast es) = Some (FDir i))"
  by (rule fs_find_cases [of s "butlast es"]) (auto simp: fs_parent_ok_def is_dir_node_iff)

section \<open>What a step may change\<close>

text \<open>
  \<open>fs_step R s s'\<close>: the configuration stays, well-formedness is kept, and below \<open>R\<close> anything
  may change but elsewhere only missing directories on the way to \<open>R\<close> may appear.
\<close>

definition fs_config ::
  "fsys \<Rightarrow> string list \<times> bool \<times> (nat \<Rightarrow> uint64) \<times> (nat \<Rightarrow> nat) \<times> (nat \<Rightarrow> string)" where
  "fs_config s = (fs_cwd s, fs_has_stat s, fs_ino s, fs_rand s, fs_now s)"

definition confined :: "string list \<Rightarrow> fsys \<Rightarrow> fsys \<Rightarrow> bool" where
  "confined R s s' \<longleftrightarrow>
     (\<forall>k. prefix R k \<or> fs_map s' k = fs_map s k \<or>
        strict_prefix k R \<and> fs_map s k = None \<and> (\<exists>i. fs_map s' k = Some (FDir i)))"

definition fs_step :: "string list \<Rightarrow> fsys \<Rightarrow> fsys \<Rightarrow> bool" where
  "fs_step R s s' \<longleftrightarrow> fs_config s' = fs_config s \<and> (fs_wf s \<longrightarrow> fs_wf s') \<and> confined R s s'"

lemma fs_step_refl [simp, intro]: "fs_step R s s"
  by (simp add: fs_step_def confined_def)

lemma confined_trans: "confined R s s' \<Longrightarrow> confined R s' s'' \<Longrightarrow> confined R s s''"
  unfolding confined_def by (metis option.distinct(1))

lemma fs_step_trans [trans]: "fs_step R s s' \<Longrightarrow> fs_step R s' s'' \<Longrightarrow> fs_step R s s''"
  using confined_trans by (auto simp: fs_step_def)

lemma fs_step_config: "fs_step R s s' \<Longrightarrow> fs_path s' = fs_path s \<and> fs_has_stat s' = fs_has_stat s"
  by (auto simp: fs_step_def fs_config_def fs_path_def fun_eq_iff)

lemma fs_step_path [simp]: "fs_step R s s' \<Longrightarrow> fs_path s' = fs_path s"
  by (simp add: fs_step_config)

lemma fs_step_wf: "fs_step R s s' \<Longrightarrow> fs_wf s \<Longrightarrow> fs_wf s'"
  by (simp add: fs_step_def)

lemma fs_step_up: "fs_step R s s' \<Longrightarrow> prefix Q R \<Longrightarrow> fs_step Q s s'"
  unfolding fs_step_def confined_def
  by (metis prefix_order.order_trans prefix_order.le_less prefix_order.less_le_trans prefix_same_cases)

text \<open>Steps that leave the table alone.\<close>

lemma fs_step_same_tab:
  "fs_tab s' = fs_tab s \<Longrightarrow> fs_config s' = fs_config s \<Longrightarrow> fs_step R s s'"
  by (simp add: fs_step_def confined_def fs_wf_def fs_config_def)

lemma fault_tick_facts:
  "fault_tick s = (f, s') \<Longrightarrow> fs_tab s' = fs_tab s \<and> fs_config s' = fs_config s \<and> fs_step R s s'"
  by (auto simp: fault_tick_def fs_config_def intro!: fs_step_same_tab split: list.splits)

section \<open>The primitive updates\<close>

lemma fs_put_map [os_simps]: "fs_map (fs_put es n s) = (fs_map s)(es \<mapsto> n)"
  by (simp add: fs_put_def)

lemma fs_new_map [os_simps]: "fs_map (fs_new es mk s) = (fs_map s)(es \<mapsto> mk (fs_ino s (fs_next s)))"
  by (simp add: fs_new_def fs_put_map)

lemma fs_cut_map [os_simps]: "fs_map (fs_cut es s) = (fs_map s)(es := None)"
  by (simp add: fs_cut_def)

lemma fs_update_config [simp]:
  "fs_config (fs_put es n s) = fs_config s" "fs_config (fs_new es mk s) = fs_config s"
  "fs_config (fs_cut es s) = fs_config s" "fs_config (fs_move old new s) = fs_config s"
  by (simp_all add: fs_config_def fs_put_def fs_new_def fs_cut_def fs_move_def)

text \<open>
  A node may be written where its parent is a directory, unless a directory would turn into
  a file.
\<close>

lemma fs_wf_put:
  assumes wf: "fs_wf s" and es: "es \<noteq> []" "plain es" "\<exists>i. fs_map s (butlast es) = Some (FDir i)"
    and keep: "\<And>i. fs_map s es = Some (FDir i) \<Longrightarrow> is_dir_node n"
    and s': "fs_map s' = (fs_map s)(es \<mapsto> n)" "fs_cwd s' = fs_cwd s" "distinct (map fst (fs_tab s'))"
  shows "fs_wf s'"
proof -
  have "\<exists>i. fs_map s' k = Some (FDir i)" if "fs_map s k = Some (FDir j)" for k j
    using that keep by (cases "k = es") (auto simp: s' is_dir_node_iff)
  note dirs = this
  show ?thesis
    unfolding fs_wf_iff
  proof (intro conjI allI impI)
    show "distinct (map fst (fs_tab s'))" "plain (fs_cwd s')"
      using fs_wfD(2) [OF wf] s' by simp_all
    show "\<exists>i. fs_map s' [] = Some (FDir i)" using fs_wfD(3) [OF wf] dirs by blast
    fix k assume k: "fs_map s' k \<noteq> None"
    show "plain k" using k es fs_wfD(4) [OF wf, of k] by (cases "k = es") (auto simp: s')
    show "\<exists>i. fs_map s' (butlast k) = Some (FDir i)" if "k \<noteq> []"
    proof (rule dirs [OF someI_ex])
      show "\<exists>j. fs_map s (butlast k) = Some (FDir j)"
        using k es that fs_wfD(5) [OF wf, of k] by (cases "k = es") (auto simp: s')
    qed
  qed
qed

lemma fs_wf_fs_put:
  "fs_wf s \<Longrightarrow> es \<noteq> [] \<Longrightarrow> plain es \<Longrightarrow> \<exists>i. fs_map s (butlast es) = Some (FDir i) \<Longrightarrow>
   (\<And>i. fs_map s es = Some (FDir i) \<Longrightarrow> is_dir_node n) \<Longrightarrow> fs_wf (fs_put es n s)"
  by (rule fs_wf_put [of s es n]) (auto simp: fs_put_def distinct_update dest: fs_wfD(1))

lemma fs_wf_fs_new:
  "fs_wf s \<Longrightarrow> es \<noteq> [] \<Longrightarrow> plain es \<Longrightarrow> \<exists>i. fs_map s (butlast es) = Some (FDir i) \<Longrightarrow>
   fs_map s es = None \<Longrightarrow> fs_wf (fs_new es mk s)"
  by (rule fs_wf_put [of s es "mk (fs_ino s (fs_next s))"])
    (auto simp: fs_new_def fs_put_def distinct_update dest: fs_wfD(1))

lemma confined_put: "prefix R es \<Longrightarrow> confined R s (fs_put es n s)"
  by (auto simp: confined_def fs_put_map)

lemma confined_new: "prefix R es \<Longrightarrow> confined R s (fs_new es mk s)"
  by (auto simp: confined_def fs_new_map)

lemma fs_children_iff:
  "x \<in> set (fs_children s es) \<longleftrightarrow> fs_map s (es @ [x]) \<noteq> None"
proof -
  have "k \<noteq> [] \<and> butlast k = es \<and> last k = x \<longleftrightarrow> k = es @ [x]" for k
    by (cases k rule: rev_cases) auto
  then show ?thesis
    unfolding fs_children_def by (force simp: map_of_eq_None_iff)
qed

lemma fs_children_Nil: "fs_children s es = [] \<longleftrightarrow> (\<forall>x. fs_map s (es @ [x]) = None)"
  using fs_children_iff [of _ s es] by (metis list.set_intros(1) list.exhaust not_Some_eq empty_iff list.set(1))

lemma fs_wf_cut:
  assumes wf: "fs_wf s" and es: "es \<noteq> []" "fs_children s es = []"
  shows "fs_wf (fs_cut es s)"
proof -
  have ne: "butlast k \<noteq> es" if "k \<noteq> []" "fs_map s k \<noteq> None" for k
    using that es(2) by (auto simp: fs_children_Nil dest: spec [of _ "last k"])
  show ?thesis
    unfolding fs_wf_iff
  proof (intro conjI allI impI)
    show "distinct (map fst (fs_tab (fs_cut es s)))"
      using fs_wfD(1) [OF wf] by (simp add: fs_cut_def distinct_delete)
    show "plain (fs_cwd (fs_cut es s))" using fs_wfD(2) [OF wf] by (simp add: fs_cut_def)
    show "\<exists>i. fs_map (fs_cut es s) [] = Some (FDir i)"
      using fs_wfD(3) [OF wf] es by (simp add: fs_cut_map)
    fix k assume k: "fs_map (fs_cut es s) k \<noteq> None"
    then show "plain k" using fs_wfD(4) [OF wf, of k] by (auto simp: fs_cut_map split: if_splits)
    show "\<exists>i. fs_map (fs_cut es s) (butlast k) = Some (FDir i)" if "k \<noteq> []"
      using k that ne [of k] fs_wfD(5) [OF wf, of k] by (auto simp: fs_cut_map split: if_splits)
  qed
qed

lemma confined_cut: "prefix R es \<Longrightarrow> confined R s (fs_cut es s)"
  by (auto simp: confined_def fs_cut_map)

text \<open>
  Moving: below the new name stands what stood below the old one, which is gone; the rest
  stays. This holds when neither name is below the other and nothing lies below the new one.
\<close>

lemma rekey_prefix: "prefix old k \<Longrightarrow> rekey old new k = new @ drop (length old) k"
  by (simp add: rekey_def)

lemma fs_move_map:
  assumes "\<not> prefix old new" "\<not> prefix new old" "\<And>k. strict_prefix new k \<Longrightarrow> fs_map s k = None"
  shows "fs_map (fs_move old new s) k =
    (if prefix new k then fs_map s (old @ drop (length new) k)
     else if prefix old k then None else fs_map s k)"
proof -
  let ?t = "filter (\<lambda>kn. fst kn \<noteq> new) (fs_tab s)"
  have t: "map_of ?t j = (if j = new then None else fs_map s j)" for j
    using map_of_filter_key [of "\<lambda>k. k \<noteq> new" "fs_tab s" j] by auto
  have keys: "\<not> prefix new j" if "j \<in> fst ` set ?t" for j
  proof
    assume "prefix new j"
    moreover from that have "j \<noteq> new" "j \<in> fst ` set (fs_tab s)" by auto
    then have "j \<noteq> new" "fs_map s j \<noteq> None" by (simp_all add: map_of_eq_None_iff)
    ultimately show False using assms(3) [of j] by (auto simp: strict_prefix_def)
  qed
  have tab: "fs_map (fs_move old new s) = map_of (map (\<lambda>(x, v). (rekey old new x, v)) ?t)"
    by (simp add: fs_move_def)
  show ?thesis
  proof (cases "prefix new k")
    case True
    define j where "j = old @ drop (length new) k"
    from True have kj: "k = rekey old new j" by (auto simp: j_def rekey_def prefix_imp_drop)
    have inj: "x = j" if "x \<in> fst ` set ?t" "rekey old new x = rekey old new j" for x
    proof -
      from that(2) True kj have "prefix new (rekey old new x)" by simp
      with keys [OF that(1)] have "prefix old x" by (auto simp: rekey_def split: if_splits)
      with that(2) have "drop (length old) x = drop (length old) j"
        by (simp add: rekey_def j_def)
      with \<open>prefix old x\<close> prefix_imp_drop [of old x] show ?thesis
        by (simp add: j_def)
    qed
    have "j \<noteq> new" using assms(1) by (metis j_def prefixI)
    then show ?thesis
      using True map_of_rekey_inj [of ?t "rekey old new" j] inj t [of j]
      by (simp add: tab kj [symmetric]) (simp add: j_def)
  next
    case False
    show ?thesis
    proof (cases "prefix old k")
      case True
      have "k \<notin> rekey old new ` fst ` set ?t"
        using True False by (auto simp: rekey_def split: if_splits)
      with True False show ?thesis by (simp add: tab map_of_rekey_None)
    next
      case nold: False
      then have "rekey old new k = k" by (simp add: rekey_def)
      moreover have "x = k" if "rekey old new x = rekey old new k" for x
        using that False nold by (auto simp: rekey_def split: if_splits)
      moreover have "k \<noteq> new" using False by auto
      ultimately show ?thesis
        using False nold map_of_rekey_inj [of ?t "rekey old new" k] t [of k] by (simp add: tab)
    qed
  qed
qed

lemma distinct_fs_move:
  assumes "distinct (map fst (fs_tab s))" "\<not> prefix new old" "\<And>k. strict_prefix new k \<Longrightarrow> fs_map s k = None"
  shows "distinct (map fst (fs_tab (fs_move old new s)))"
proof -
  let ?t = "filter (\<lambda>kn. fst kn \<noteq> new) (fs_tab s)"
  have keys: "\<not> prefix new j" if "j \<in> fst ` set ?t" for j
  proof
    assume "prefix new j"
    moreover from that have "j \<noteq> new" "j \<in> fst ` set (fs_tab s)" by auto
    then have "j \<noteq> new" "fs_map s j \<noteq> None" by (simp_all add: map_of_eq_None_iff)
    ultimately show False using assms(3) [of j] by (auto simp: strict_prefix_def)
  qed
  have "inj_on (rekey old new) (fst ` set ?t)"
  proof (rule inj_onI)
    fix x y assume xy: "x \<in> fst ` set ?t" "y \<in> fst ` set ?t" "rekey old new x = rekey old new y"
    show "x = y"
    proof (cases "prefix old x \<and> prefix old y")
      case True
      with xy(3) have "drop (length old) x = drop (length old) y" by (simp add: rekey_def)
      with True show ?thesis by (metis prefix_imp_drop)
    next
      case False
      with xy keys [OF xy(1)] keys [OF xy(2)] show ?thesis
        by (cases "prefix old x"; cases "prefix old y") (simp_all add: rekey_def, metis prefixI)
    qed
  qed
  moreover have "map fst (fs_tab (fs_move old new s)) = map (rekey old new) (map fst ?t)"
    by (simp add: fs_move_def split_def)
  moreover have "distinct (map fst ?t)" using assms(1) by (rule distinct_filter_keys)
  ultimately show ?thesis by (metis distinct_map set_map)
qed

lemma fs_wf_move:
  assumes wf: "fs_wf s" and old: "fs_map s old \<noteq> None" "old \<noteq> []"
    and new: "plain new" "new \<noteq> []" "\<exists>i. fs_map s (butlast new) = Some (FDir i)"
    and apart: "\<not> prefix old new" "\<not> prefix new old" and below: "\<And>k. strict_prefix new k \<Longrightarrow> fs_map s k = None"
  shows "fs_wf (fs_move old new s)"
proof -
  note mp = fs_move_map [OF apart below, of k for k]
  have dirs: "\<exists>i. fs_map (fs_move old new s) k = Some (FDir i)"
    if "\<exists>i. fs_map s k = Some (FDir i)" "\<not> prefix old k" "\<not> prefix new k" for k
    using that by (simp add: mp)
  show ?thesis
    unfolding fs_wf_iff
  proof (intro conjI allI impI)
    show "distinct (map fst (fs_tab (fs_move old new s)))"
      using fs_wfD(1) [OF wf] apart(2) below by (rule distinct_fs_move)
    show "plain (fs_cwd (fs_move old new s))" using fs_wfD(2) [OF wf] by (simp add: fs_move_def)
    show "\<exists>i. fs_map (fs_move old new s) [] = Some (FDir i)"
      using fs_wfD(3) [OF wf] old new by (intro dirs) auto
    fix k assume k: "fs_map (fs_move old new s) k \<noteq> None"
    show "plain k"
    proof (cases "prefix new k")
      case True
      with k obtain n where "fs_map s (old @ drop (length new) k) = Some n" by (auto simp: mp)
      then have "plain (drop (length new) k)" using fs_wfD(4) [OF wf] by force
      with new(1) True show ?thesis by (metis plain_simps(3) prefix_imp_drop)
    next
      case False
      with k show ?thesis using fs_wfD(4) [OF wf, of k] by (auto simp: mp split: if_splits)
    qed
    show "\<exists>i. fs_map (fs_move old new s) (butlast k) = Some (FDir i)" if "k \<noteq> []"
    proof (cases "k = new")
      case True
      have "\<not> prefix old (butlast new)"
        using apart(1) prefix_order.order_trans [OF _ prefixeq_butlast] by auto
      moreover have "\<not> prefix new (butlast new)"
        using new(2) by (cases new rule: rev_cases) (auto dest: prefix_length_le)
      ultimately show ?thesis using new(3) True by (auto intro: dirs)
    next
      case kn: False
      show ?thesis
      proof (cases "prefix new k")
        case True
        with kn obtain x xs where ks: "k = new @ x # xs"
          by (metis strict_prefixI strict_prefix_Cons_ex)
        with k obtain n where "fs_map s (old @ x # xs) = Some n" by (auto simp: mp)
        then have "\<exists>i. fs_map s (butlast (old @ x # xs)) = Some (FDir i)"
          using fs_wfD(5) [OF wf] by blast
        then show ?thesis by (simp add: ks mp butlast_append)
      next
        case False
        with k have o: "\<not> prefix old k" "fs_map s k \<noteq> None" by (auto simp: mp split: if_splits)
        with that have "\<exists>i. fs_map s (butlast k) = Some (FDir i)" using fs_wfD(5) [OF wf] by blast
        moreover have "\<not> prefix old (butlast k)" "\<not> prefix new (butlast k)"
          using o(1) False prefix_order.order_trans [OF _ prefixeq_butlast] by auto
        ultimately show ?thesis by (rule dirs)
      qed
    qed
  qed
qed

lemma confined_move:
  assumes "prefix R old" "prefix R new"
  shows "confined R s (fs_move old new s)"
proof -
  let ?t = "filter (\<lambda>kn. fst kn \<noteq> new) (fs_tab s)"
  have "fs_map (fs_move old new s) k = fs_map s k" if k: "\<not> prefix R k" for k
  proof -
    have r: "rekey old new k = k" using assms k by (auto simp: rekey_def)
    moreover have "x = k" if "rekey old new x = rekey old new k" for x
    proof -
      have "\<not> prefix old x"
      proof
        assume "prefix old x"
        with that r have "k = new @ drop (length old) x" by (simp add: rekey_def)
        with assms(2) k show False by (metis prefix_prefix)
      qed
      with that r show "x = k" by (simp add: rekey_def)
    qed
    moreover have "k \<noteq> new" using assms k by auto
    ultimately show ?thesis
      using map_of_rekey_inj [of ?t "rekey old new" k] map_of_filter_key [of "\<lambda>k. k \<noteq> new" "fs_tab s" k]
      by (simp add: fs_move_def)
  qed
  then show ?thesis by (auto simp: confined_def)
qed

section \<open>The effect of each call\<close>

lemma fault_tickE:
  assumes "fault_tick s0 = (f, s)"
  obtains "fs_map s = fs_map s0" "fs_config s = fs_config s0" "fs_wf s = fs_wf s0"
    "fs_path s = fs_path s0" "\<And>R. fs_step R s0 s" "fs_find s = fs_find s0" "fs_lookup s = fs_lookup s0"
    "fs_parent_ok s = fs_parent_ok s0" "fs_children s = fs_children s0"
    "fs_faults s0 = [] \<Longrightarrow> f = None \<and> s = s0"
proof -
  note f = fault_tick_facts [OF assms]
  then have p: "fs_path s = fs_path s0" "fs_cwd s = fs_cwd s0"
    by (auto simp: fs_config_def fs_path_def fun_eq_iff)
  have "fs_find s = fs_find s0" using f by (simp add: fs_find_def fun_eq_iff)
  moreover from this p have "fs_lookup s = fs_lookup s0" "fs_parent_ok s = fs_parent_ok s0"
    by (simp_all add: fs_lookup_def fs_parent_ok_def fun_eq_iff)
  moreover have "fs_faults s0 = [] \<Longrightarrow> f = None \<and> s = s0" using assms by (auto simp: fault_tick_def)
  ultimately show ?thesis
    using that f p by (simp add: fs_wf_def fs_children_def fun_eq_iff)
qed

text \<open>Directories appeared on the way to \<open>es\<close>, nothing else changed.\<close>

definition dirs_added :: "string list \<Rightarrow> fsys \<Rightarrow> fsys \<Rightarrow> bool" where
  "dirs_added es s s' \<longleftrightarrow> fs_config s' = fs_config s \<and> fs_wf s' \<and>
     (\<forall>k. fs_map s' k = fs_map s k \<or>
        prefix k es \<and> fs_map s k = None \<and> (\<exists>i. fs_map s' k = Some (FDir i)))"

lemma dirs_added_step: "dirs_added es s s' \<Longrightarrow> prefix R es \<Longrightarrow> fs_step R s s'"
  unfolding dirs_added_def fs_step_def confined_def
  by (metis prefix_order.le_less prefix_same_cases)

lemma dirs_added_mono: "dirs_added es s s' \<Longrightarrow> prefix es fs \<Longrightarrow> dirs_added fs s s'"
  unfolding dirs_added_def by (metis prefix_order.order_trans)

lemma dirs_added_trans: "dirs_added es s s' \<Longrightarrow> dirs_added es s' s'' \<Longrightarrow> dirs_added es s s''"
  unfolding dirs_added_def by (metis option.distinct(1))

lemma dirs_added_old: "dirs_added es s s' \<Longrightarrow> fs_map s k = Some n \<Longrightarrow> fs_map s' k = Some n"
  unfolding dirs_added_def by (metis option.distinct(1))

lemma sys_mkdir_effect:
  assumes "fs_wf s" "plain es" "es \<noteq> []" "sys_mkdir es s = (r, s')"
  shows "dirs_added es s s' \<and> (r = None \<longrightarrow> (\<exists>i. fs_map s' es = Some (FDir i)))"
proof -
  obtain f s1 where t: "fault_tick s = (f, s1)" by (cases "fault_tick s")
  note [simp] = assms(1)
  from t show ?thesis
  proof (rule fault_tickE)
    assume e: "fs_map s1 = fs_map s" "fs_config s1 = fs_config s" "fs_wf s1 = fs_wf s"
    have keep: "dirs_added es s s1" using e by (simp add: dirs_added_def)
    show ?thesis
    proof (cases "f = None \<and> fs_map s1 es = None \<and> fs_parent_ok s1 es = None")
      case True
      then have "s' = fs_new es FDir s1" "r = None" using assms(4) t by (simp_all add: sys_mkdir_def)
      moreover have "fs_wf (fs_new es FDir s1)"
        using True assms e by (intro fs_wf_fs_new) (auto simp: fs_parent_ok_None)
      ultimately show ?thesis using True e by (simp add: dirs_added_def fs_new_map)
    next
      case False
      then have "s' = s1 \<and> r \<noteq> None"
        using assms(4) t
        by (cases f; cases "fs_map s1 es"; cases "fs_parent_ok s1 es") (auto simp: sys_mkdir_def)
      with keep show ?thesis by auto
    qed
  qed
qed

lemma mkdir_all_rev_effect:
  "fs_wf s \<Longrightarrow> plain es \<Longrightarrow> mkdir_all_rev es s = (r, s') \<Longrightarrow>
   dirs_added (rev es) s s' \<and> (r = None \<longrightarrow> (\<exists>i. fs_map s' (rev es) = Some (FDir i)))"
proof (induction es arbitrary: r s')
  case Nil
  then have "s' = s" "r = None \<longrightarrow> (\<exists>i. fs_map s [] = Some (FDir i))"
    by (auto split: option.splits fnode.splits)
  with Nil show ?case by (simp add: dirs_added_def)
next
  case (Cons e es)
  show ?case
  proof (cases "fs_map s (rev (e # es))")
    case (Some n)
    with Cons.prems have "s' = s" "r = None \<longrightarrow> is_dir_node n" by (auto split: if_splits)
    with Cons.prems Some show ?thesis by (auto simp: dirs_added_def is_dir_node_iff)
  next
    case None
    obtain r1 s1 where up: "mkdir_all_rev es s = (r1, s1)" by (cases "mkdir_all_rev es s")
    with Cons.IH Cons.prems have ih: "dirs_added (rev es) s s1" by simp
    then have d1: "dirs_added (rev (e # es)) s s1" by (rule dirs_added_mono) simp
    show ?thesis
    proof (cases r1)
      case (Some x)
      with None up Cons.prems d1 show ?thesis by auto
    next
      case r1: None
      with None up Cons.prems have "sys_mkdir (rev (e # es)) s1 = (r, s')" by simp
      with sys_mkdir_effect [of s1 "rev (e # es)" r s'] Cons.prems d1 show ?thesis
        using dirs_added_trans [OF d1] by (auto simp: dirs_added_def)
    qed
  qed
qed

lemma os_mkdir_all_effect:
  assumes "fs_wf s" "os_mkdir_all p s = (r, s')"
  shows "dirs_added (fs_path s p) s s' \<and> (r = None \<longrightarrow> (\<exists>i. fs_map s' (fs_path s p) = Some (FDir i)))"
proof (cases "p = []")
  case True
  with assms show ?thesis by (auto simp: os_mkdir_all_def dirs_added_def)
next
  case False
  obtain r1 s1 where m: "mkdir_all_rev (rev (fs_path s p)) s = (r1, s1)"
    by (cases "mkdir_all_rev (rev (fs_path s p)) s")
  with False assms(2) have "s' = s1" "r = None \<longleftrightarrow> r1 = None"
    by (auto simp: os_mkdir_all_def split: option.splits)
  with mkdir_all_rev_effect [OF assms(1) _ m] plain_fs_path [OF assms(1)] show ?thesis by simp
qed

lemma os_mkdir_all_step:
  "fs_wf s \<Longrightarrow> os_mkdir_all p s = (r, s') \<Longrightarrow> prefix R (fs_path s p) \<Longrightarrow> fs_step R s s'"
  using os_mkdir_all_effect dirs_added_step by blast

text \<open>Reading and looking: no change at all, apart from the schedule of faults.\<close>

definition fs_same :: "fsys \<Rightarrow> fsys \<Rightarrow> bool" where
  "fs_same s s' \<longleftrightarrow> (\<exists>fs. s' = s\<lparr>fs_faults := fs\<rparr>)"

lemma fs_same_refl [simp, intro]: "fs_same s s"
  by (simp add: fs_same_def) (metis fsys.surjective fsys.update_convs(2))

lemma fs_same_trans: "fs_same s s' \<Longrightarrow> fs_same s' s'' \<Longrightarrow> fs_same s s''"
  by (auto simp: fs_same_def)

lemma fault_tick_same: "fault_tick s = (f, s') \<Longrightarrow> fs_same s s'"
  by (auto simp: fault_tick_def split: list.splits) (auto simp: fs_same_def)

lemma fs_sameD:
  assumes "fs_same s s'"
  shows "fs_tab s' = fs_tab s" "fs_config s' = fs_config s" "fs_wf s' = fs_wf s" "fs_path s' = fs_path s"
    "fs_find s' = fs_find s" "fs_lookup s' = fs_lookup s" "fs_children s' = fs_children s" "fs_step R s s'"
  using assms
  by (auto simp: fs_same_def fs_config_def fs_wf_def fs_path_def fs_find_def fs_lookup_def fs_children_def
      fun_eq_iff intro!: fs_step_same_tab)

lemma os_stat_same: "os_stat_op op p s = (r, s') \<Longrightarrow> fs_same s s'"
  by (auto simp: os_stat_op_def dest: fault_tick_same split: prod.splits option.splits sum.splits)

lemma os_read_file_same: "os_read_file p s = (r, s') \<Longrightarrow> fs_same s s'"
  by (auto simp: os_read_file_def dest: fault_tick_same split: prod.splits option.splits sum.splits fnode.splits)

lemma os_open_same: "os_open p s = (r, s') \<Longrightarrow> fs_same s s'"
  by (auto simp: os_open_def dest: fault_tick_same split: prod.splits option.splits sum.splits)

lemma os_read_dir_same: "os_read_dir p s = (r, s') \<Longrightarrow> fs_same s s'"
  by (auto simp: os_read_dir_def dest: fault_tick_same split: prod.splits option.splits sum.splits fnode.splits)

lemma os_settle_same: "os_settle op p s = (r, s') \<Longrightarrow> fs_same s s'"
  by (auto simp: os_settle_def dest: fault_tick_same split: prod.splits option.splits)

text \<open>Renaming and removing.\<close>

lemma sys_rename_effect:
  assumes "fs_wf s" "plain new" "sys_rename old new s = (r, s')"
  obtains (moved) s1 where "r = None" "fs_same s s1" "s' = fs_move old new s1" "fs_wf s'"
      "fs_map s old \<noteq> None" "old \<noteq> []" "new \<noteq> []" "\<not> prefix old new" "\<not> prefix new old"
      "\<And>k. strict_prefix new k \<Longrightarrow> fs_map s k = None" "\<And>i. fs_map s new \<noteq> Some (FDir i)"
      "\<And>i. fs_map s old = Some (FDir i) \<Longrightarrow> fs_map s new = None"
    | (same) "r = None" "old = new" "fs_same s s'" "fs_map s old \<noteq> None"
    | (failed) "r \<noteq> None" "fs_same s s'"
proof -
  obtain f s1 where t: "fault_tick s = (f, s1)" by (cases "fault_tick s")
  have sm: "fs_same s s1" using t by (rule fault_tick_same)
  note eq = fs_sameD [OF sm]
  have wf1: "fs_wf s1" using eq assms(1) by simp
  show ?thesis
  proof (cases "r = None")
    case False
    with assms(3) t sm failed show ?thesis
      by (auto simp: sys_rename_def Let_def split: option.splits sum.splits fnode.splits if_splits)
  next
    case ok: True
    with assms(3) t obtain on where f: "f = None" "fs_find s1 old = Inr on" "fs_parent_ok s1 new = None"
      by (auto simp: sys_rename_def split: option.splits sum.splits)
    then have on: "fs_map s1 old = Some on" using wf1 by (simp add: fs_find_iff)
    show ?thesis
    proof (cases "old = new")
      case True
      with assms(3) t f have "s' = s1" by (simp add: sys_rename_def)
      with True same sm ok on eq show ?thesis by simp
    next
      case ne: False
      with assms(3) t f ok have g: "old \<noteq> []" "new \<noteq> []" "\<not> strict_prefix old new"
        by (auto simp: sys_rename_def split: if_splits)
      with assms(3) t f ok ne have h: "s' = fs_move old new s1" "\<And>i. fs_map s1 new \<noteq> Some (FDir i)"
        "is_dir_node on \<Longrightarrow> fs_map s1 new = None"
        by (auto simp: sys_rename_def split: option.splits fnode.splits if_splits)
      have below: "fs_map s1 k = None" if "strict_prefix new k" for k
        using fs_wf_prefix [OF wf1 _ that] h(2) by (cases "fs_map s1 k") auto
      have apart: "\<not> prefix old new" "\<not> prefix new old"
        using g(3) ne below [of old] on by (auto simp: strict_prefix_def)
      have par: "\<exists>i. fs_map s1 (butlast new) = Some (FDir i)"
        using f(3) wf1 by (simp add: fs_parent_ok_None)
      have "fs_wf s'"
        unfolding h(1) using wf1 on g(1) assms(2) g(2) par apart below by (intro fs_wf_move) auto
      with moved [OF ok sm h(1)] g apart below h on eq show ?thesis by auto
    qed
  qed
qed

lemma os_rename_effect:
  assumes "fs_wf s" "os_rename old new s = (r, s')"
  defines "a \<equiv> fs_path s old" and "b \<equiv> fs_path s new"
  obtains (moved) s1 where "r = None" "fs_same s s1" "s' = fs_move a b s1" "fs_wf s'"
      "fs_map s a \<noteq> None" "a \<noteq> []" "b \<noteq> []" "\<not> prefix a b" "\<not> prefix b a"
      "\<And>k. strict_prefix b k \<Longrightarrow> fs_map s k = None" "\<And>i. fs_map s b \<noteq> Some (FDir i)"
      "\<And>i. fs_map s a = Some (FDir i) \<Longrightarrow> fs_map s b = None"
    | (same) "r = None" "a = b" "fs_same s s'" "fs_map s a \<noteq> None"
    | (failed) "r \<noteq> None" "fs_same s s'"
proof (cases "old = [] \<or> new = [] \<or> rename_refused old new s")
  case True
  with assms(2) failed show ?thesis by (auto simp: os_rename_def Let_def split: if_splits)
next
  case False
  obtain r1 s1 where m: "sys_rename a b s = (r1, s1)" by (cases "sys_rename a b s")
  with False assms(2) have r: "s' = s1" "r = None \<longleftrightarrow> r1 = None"
    by (auto simp: os_rename_def Let_def a_def b_def split: option.splits)
  have "plain b" unfolding b_def using assms(1) by (rule plain_fs_path)
  from assms(1) this m show ?thesis
    by (rule sys_rename_effect) (use moved same failed r in auto)
qed

lemma fs_same_move: "fs_same s s1 \<Longrightarrow> fs_map (fs_move a b s1) = fs_map (fs_move a b s)"
  by (auto simp: fs_same_def fs_move_def)

lemma fs_same_step: "fs_same s s' \<Longrightarrow> fs_step R s s'"
  by (rule fs_sameD)

lemma os_rename_step:
  assumes "fs_wf s" "os_rename old new s = (r, s')" "prefix R (fs_path s old)" "prefix R (fs_path s new)"
  shows "fs_step R s s'"
proof -
  from assms(1,2) show ?thesis
  proof (rule os_rename_effect)
    fix s1 assume m: "fs_same s s1" "s' = fs_move (fs_path s old) (fs_path s new) s1" "fs_wf s'"
    then have "fs_step R s1 s'"
      using confined_move [OF assms(3,4), of s1] by (simp add: fs_step_def)
    with m(1) show ?thesis using fs_same_step fs_step_trans by blast
  qed (simp_all add: fs_same_step)
qed

lemma sys_remove_effect:
  assumes "fs_wf s" "sys_remove es s = (r, s')"
  obtains (removed) s1 where "r = None" "fs_same s s1" "s' = fs_cut es s1" "fs_wf s'" "fs_map s es \<noteq> None"
      "es \<noteq> []" "fs_children s es = []"
    | (failed) "r \<noteq> None" "fs_same s s'"
proof -
  obtain f s1 where t: "fault_tick s = (f, s1)" by (cases "fault_tick s")
  have sm: "fs_same s s1" using t by (rule fault_tick_same)
  note eq = fs_sameD [OF sm]
  show ?thesis
  proof (cases "r = None")
    case False
    with assms(2) t sm failed show ?thesis
      by (auto simp: sys_remove_def split: option.splits sum.splits if_splits)
  next
    case True
    with assms(2) t obtain n where f: "f = None" "fs_find s1 es = Inr n"
      by (auto simp: sys_remove_def split: option.splits sum.splits)
    with assms(2) t True have g: "es \<noteq> []" "fs_children s1 es = []" "s' = fs_cut es s1"
      by (auto simp: sys_remove_def split: if_splits)
    with removed [OF True sm] f eq assms(1) fs_wf_cut [of s1 es] show ?thesis
      by (simp add: fs_find_iff)
  qed
qed

lemma sys_remove_step:
  assumes "fs_wf s" "sys_remove es s = (r, s')" "prefix R es"
  shows "fs_step R s s'"
  using assms(1,2)
proof (cases rule: sys_remove_effect)
  case (removed s1)
  then have "fs_step R s1 s'" using confined_cut [OF assms(3), of s1] by (simp add: fs_step_def)
  with removed(2) show ?thesis using fs_same_step fs_step_trans by blast
qed (simp add: fs_same_step)

lemma os_remove_step:
  "fs_wf s \<Longrightarrow> os_remove p s = (r, s') \<Longrightarrow> prefix R (fs_path s p) \<Longrightarrow> fs_step R s s'"
  by (auto simp: os_remove_def intro: sys_remove_step split: if_splits prod.splits option.splits)

lemma remove_each_step:
  "fs_wf s \<Longrightarrow> remove_each ks e s = (r, s') \<Longrightarrow> \<forall>k \<in> set ks. prefix R k \<Longrightarrow> fs_step R s s'"
proof (induction ks e s rule: remove_each.induct)
  case (2 k ks e s)
  obtain r1 s1 where m: "sys_remove k s = (r1, s1)" by (cases "sys_remove k s")
  with 2 have st: "fs_step R s s1" using sys_remove_step by simp
  then have wf: "fs_wf s1" using 2 fs_step_wf by blast
  have "fs_step R s1 s'" using 2 m wf by (cases r1) simp_all
  with st show ?case by (rule fs_step_trans)
qed simp

lemma os_remove_all_step:
  "fs_wf s \<Longrightarrow> os_remove_all p s = (r, s') \<Longrightarrow> prefix R (fs_path s p) \<Longrightarrow> fs_step R s s'"
  by (auto simp: os_remove_all_def subtree_def intro!: remove_each_step
      split: if_splits prod.splits option.splits sum.splits errno.splits)

lemma remove_each_ok:
  "fs_wf s \<Longrightarrow> remove_each ks e s = (None, s') \<Longrightarrow>
   e = None \<and> fs_map s' = (\<lambda>k. if k \<in> set ks then None else fs_map s k)"
proof (induction ks e s rule: remove_each.induct)
  case (2 k ks e s)
  obtain r1 s1 where m: "sys_remove k s = (r1, s1)" by (cases "sys_remove k s")
  have "fs_step [] s s1" using sys_remove_step [OF 2(3) m, of "[]"] by simp
  then have wf: "fs_wf s1" using 2(3) by (rule fs_step_wf)
  from 2(3) m show ?case
  proof (cases rule: sys_remove_effect)
    case (removed t)
    have "remove_each ks e s1 = (None, s')" using 2(4) m removed(1) by simp
    then have "e = None \<and> fs_map s' = (\<lambda>j. if j \<in> set ks then None else fs_map s1 j)"
      using 2(1) [OF m [symmetric] removed(1) wf] by blast
    with removed fs_sameD(1) [OF removed(2)] show ?thesis by (auto simp: fs_cut_map fun_eq_iff)
  next
    case failed
    with 2(2) [OF m [symmetric]] 2(4) m wf show ?thesis by (auto split: if_splits)
  qed
qed simp

text \<open>When \<open>RemoveAll\<close> reports success, nothing is left at the path or below it.\<close>

lemma os_remove_all_ok:
  assumes "fs_wf s" "os_remove_all p s = (None, s')" "p \<noteq> []"
  shows "fs_map s' = (\<lambda>k. if prefix (fs_path s p) k then None else fs_map s k)"
proof -
  consider (absent) "fs_lookup s p = Inl ENOENT" "s' = s"
    | (there) "remove_each (subtree s (fs_path s p)) None s = (None, s')"
    using assms(2,3)
    by (auto simp: os_remove_all_def split: sum.splits errno.splits prod.splits option.splits)
  then show ?thesis
  proof cases
    case absent
    have "fs_map s k = None" if "prefix (fs_path s p) k" for k
    proof (rule ccontr)
      assume "fs_map s k \<noteq> None"
      then obtain n where "fs_map s k = Some n" by auto
      with that have "\<exists>m. fs_map s (fs_path s p) = Some m"
        using fs_wf_prefix [OF assms(1), of k n "fs_path s p"] by (cases "fs_path s p = k") (auto simp: strict_prefix_def)
      with absent(1) assms(1,3) show False
        using fs_find_iff [OF assms(1)] by (auto simp: fs_lookup_def) (metis Inl_Inr_False)
    qed
    with absent(2) show ?thesis by (auto simp: fun_eq_iff)
  next
    case there
    have "k \<in> set (subtree s (fs_path s p)) \<longleftrightarrow> prefix (fs_path s p) k \<and> fs_map s k \<noteq> None" for k
      by (auto simp: subtree_def map_of_eq_None_iff)
    with remove_each_ok [OF assms(1) there] show ?thesis by (auto simp: fun_eq_iff)
  qed
qed

text \<open>Files: creation, writing, temporary names.\<close>

lemma os_create_effect:
  assumes "fs_wf s" "os_create p s = (r, s')"
  obtains (created) i where "r = None" "fs_wf s'" "fs_config s' = fs_config s"
      "fs_map s' = (fs_map s)(fs_path s p \<mapsto> FFile i [])" "fs_path s p \<noteq> []"
      "\<And>j. fs_map s (fs_path s p) \<noteq> Some (FDir j)"
    | (failed) "r \<noteq> None" "fs_same s s'"
proof -
  obtain f s1 where t: "fault_tick s = (f, s1)" by (cases "fault_tick s")
  have sm: "fs_same s s1" using t by (rule fault_tick_same)
  note eq = fs_sameD [OF sm]
  have wf1: "fs_wf s1" using eq assms(1) by simp
  let ?es = "fs_path s p"
  have p1: "fs_path s1 = fs_path s" by (rule eq)
  have pl: "plain ?es" using assms(1) by (rule plain_fs_path)
  show ?thesis
  proof (cases "r = None")
    case False
    with assms(2) t sm failed show ?thesis
      by (auto simp: os_create_def split: option.splits fnode.splits if_splits)
  next
    case True
    with assms(2) t have g: "f = None" "p \<noteq> []" by (auto simp: os_create_def split: option.splits if_splits)
    show ?thesis
    proof (cases "fs_map s1 ?es")
      case (Some n)
      with assms(2) t True g obtain i c where n: "n = FFile i c" "s' = fs_put ?es (FFile i []) s1"
        by (cases n) (auto simp: os_create_def p1)
      have ne: "?es \<noteq> []" using fs_wfD(3) [OF wf1] Some n by auto
      have "fs_wf s'"
        unfolding n(2) using wf1 ne pl fs_wfD(5) [OF wf1 Some ne] Some n(1) by (intro fs_wf_fs_put) auto
      with created [of i] True n Some eq ne show ?thesis by (simp add: fs_put_map)
    next
      case None
      with assms(2) t True g have n: "fs_parent_ok s1 ?es = None" "s' = fs_new ?es (\<lambda>i. FFile i []) s1"
        by (auto simp: os_create_def p1 split: option.splits)
      have ne: "?es \<noteq> []" using fs_wfD(3) [OF wf1] None by auto
      have "fs_wf s'"
        unfolding n(2) using wf1 ne pl n(1) None by (intro fs_wf_fs_new) (auto simp: fs_parent_ok_None)
      with created True n None eq ne show ?thesis by (simp add: fs_new_map)
    qed
  qed
qed

lemma os_create_step:
  assumes "fs_wf s" "os_create p s = (r, s')" "prefix R (fs_path s p)"
  shows "fs_step R s s'"
  using assms(1,2)
proof (cases rule: os_create_effect)
  case failed
  then show ?thesis by (simp add: fs_same_step)
qed (use assms(3) in \<open>auto simp: fs_step_def confined_def\<close>)

lemma os_append_effect:
  assumes "fs_wf s" "os_append p content s = (r, s')"
  obtains (appended) i c n where "fs_wf s'" "fs_config s' = fs_config s" "fs_map s (fs_path s p) = Some (FFile i c)"
      "fs_map s' = (fs_map s)(fs_path s p \<mapsto> FFile i (c @ (if r = None then content else take n content)))"
    | (failed) "r \<noteq> None" "fs_same s s'"
proof -
  obtain f s1 where t: "fault_tick s = (f, s1)" by (cases "fault_tick s")
  have sm: "fs_same s s1" using t by (rule fault_tick_same)
  note eq = fs_sameD [OF sm]
  have wf1: "fs_wf s1" using eq assms(1) by simp
  let ?es = "fs_path s1 p"
  show ?thesis
  proof (cases "\<exists>i c. fs_map s1 ?es = Some (FFile i c)")
    case False
    with assms(2) t sm failed show ?thesis
      by (auto simp: os_append_def split: option.splits fnode.splits)
  next
    case True
    then obtain i c where ic: "fs_map s1 ?es = Some (FFile i c)" by blast
    have ne: "?es \<noteq> []" using fs_wfD(3) [OF wf1] ic by auto
    have put: "fs_wf (fs_put ?es (FFile i c') s1)" for c'
      using wf1 ne plain_fs_path [OF wf1] fs_wfD(5) [OF wf1 ic ne] ic by (intro fs_wf_fs_put) auto
    show ?thesis
    proof (cases f)
      case None
      with assms(2) t ic have "r = None" "s' = fs_put ?es (FFile i (c @ content)) s1"
        by (simp_all add: os_append_def)
      with appended [of i c] put ic eq show ?thesis by (simp add: fs_put_map)
    next
      case (Some n)
      with assms(2) t ic have "r \<noteq> None" "s' = fs_put ?es (FFile i (c @ take n content)) s1"
        by (auto simp: os_append_def)
      with appended [of i c n] put ic eq show ?thesis by (simp add: fs_put_map)
    qed
  qed
qed

lemma os_append_step:
  assumes "fs_wf s" "os_append p c s = (r, s')" "prefix R (fs_path s p)"
  shows "fs_step R s s'"
  using assms(1,2)
proof (cases rule: os_append_effect)
  case failed
  then show ?thesis by (simp add: fs_same_step)
qed (use assms(3) in \<open>auto simp: fs_step_def confined_def\<close>)

lemma os_write_file_step:
  assumes "fs_wf s" "os_write_file p c s = (r, s')" "prefix R (fs_path s p)"
  shows "fs_step R s s'"
proof -
  obtain r1 s1 where m: "os_create p s = (r1, s1)" by (cases "os_create p s")
  have s1: "fs_step R s s1" using assms(1) m assms(3) by (rule os_create_step)
  show ?thesis
  proof (cases r1)
    case None
    then have "os_append p c s1 = (r, s')" using assms(2) m by (simp add: os_write_file_def)
    then have "fs_step R s1 s'"
      using os_append_step [of s1 p c r s' R] s1 fs_step_wf assms(1,3) by simp
    with s1 show ?thesis by (rule fs_step_trans)
  qed (use assms(2) m s1 in \<open>simp add: os_write_file_def\<close>)
qed

text \<open>A temporary file is new and empty, and lies in the directory it was asked for.\<close>

lemma create_temp_try_effect:
  assumes "fs_wf s" "create_temp_try k dir pre suf s = (r, s')"
  shows "fs_config s' = fs_config s \<and> fs_wf s' \<and>
    (case r of
       Inl e \<Rightarrow> fs_map s' = fs_map s
     | Inr name \<Rightarrow> (\<exists>x i. name = dir @ ''/'' @ pre @ decimal x @ suf \<and> fs_map s (fs_path s name) = None \<and>
         fs_path s name \<noteq> [] \<and> fs_map s' = (fs_map s)(fs_path s name \<mapsto> FFile i [])))"
  using assms
proof (induction k arbitrary: s)
  case 0
  then show ?case by auto
next
  case (Suc k)
  define name where "name = dir @ ''/'' @ pre @ decimal (fs_rand s (fs_draws s)) @ suf"
  define s1 where "s1 = s\<lparr>fs_draws := Suc (fs_draws s)\<rparr>"
  obtain f s2 where t: "fault_tick s1 = (f, s2)" by (cases "fault_tick s1")
  note eq = fs_sameD [OF fault_tick_same [OF t]]
  have s12: "fs_map s1 = fs_map s" "fs_config s1 = fs_config s" "fs_path s1 = fs_path s" "fs_wf s1 = fs_wf s"
    by (simp_all add: s1_def fs_config_def fs_path_def fs_wf_def fun_eq_iff)
  have wf2: "fs_wf s2" using eq s12 Suc.prems by simp
  let ?es = "fs_path s name"
  show ?case
  proof (cases f)
    case (Some n)
    with Suc.prems t have "isl r" "s' = s2" by (auto simp: Let_def name_def s1_def)
    with wf2 eq s12 show ?thesis by (cases r) auto
  next
    case None
    show ?thesis
    proof (cases "fs_map s2 ?es = None")
      case False
      with None Suc.prems(2) t eq s12 have "create_temp_try k dir pre suf s2 = (r, s')"
        by (simp add: Let_def name_def s1_def)
      then show ?thesis using Suc.IH [OF wf2] s12 by (cases r) (simp_all add: eq)
    next
      case True
      show ?thesis
      proof (cases "fs_parent_ok s2 ?es")
        case (Some e)
        with True None Suc.prems t eq s12 have "isl r" "s' = s2" by (auto simp: Let_def name_def s1_def)
        with wf2 eq s12 show ?thesis by (cases r) auto
      next
        case par: None
        with True None Suc.prems(2) t eq s12 have "r = Inr name" "s' = fs_new ?es (\<lambda>i. FFile i []) s2"
          by (simp_all add: Let_def name_def s1_def)
        moreover have ne: "?es \<noteq> []" using fs_wfD(3) [OF wf2] True by auto
        moreover have "fs_wf (fs_new ?es (\<lambda>i. FFile i []) s2)"
          using wf2 ne plain_fs_path [OF Suc.prems(1)] par True
          by (intro fs_wf_fs_new) (auto simp: fs_parent_ok_None)
        ultimately show ?thesis using True eq s12 by (auto simp: fs_new_map name_def)
      qed
    qed
  qed
qed

lemma create_temp_try_step:
  assumes "fs_wf s" "create_temp_try k dir pre suf s = (r, s')"
    and "\<And>x. prefix R (fs_path s (dir @ ''/'' @ pre @ decimal x @ suf))"
  shows "fs_step R s s'"
proof (cases r)
  case (Inl e)
  with create_temp_try_effect [OF assms(1,2)] show ?thesis by (auto simp: fs_step_def confined_def)
next
  case (Inr name)
  with create_temp_try_effect [OF assms(1,2)] assms(3) obtain i where
    n: "prefix R (fs_path s name)" "fs_map s' = (fs_map s)(fs_path s name \<mapsto> FFile i [])"
    and "fs_config s' = fs_config s" "fs_wf s'"
    by auto
  moreover have "prefix R k \<or> fs_map s' k = fs_map s k" for k
    using n by (cases "k = fs_path s name") simp_all
  ultimately show ?thesis unfolding fs_step_def confined_def by blast
qed

lemma os_io_copy_step:
  "fs_wf s \<Longrightarrow> os_io_copy src dst s = (r, s') \<Longrightarrow> prefix R (fs_path s dst) \<Longrightarrow> fs_step R s s'"
  by (auto simp: os_io_copy_def intro: os_append_step split: option.splits fnode.splits)

end
