(* ===== verification/Json.thy ===== *)
theory Json
  imports GoStrings
begin

text \<open>
  The part of Go's \<open>encoding/json\<close> the service uses on strings of bytes: compact encoding
  of a document tree and decoding of a text. The metadata of a deleted file and the default
  notebook are such documents. Numbers are kept as their text.
\<close>

section \<open>UTF-8\<close>

definition byte_in :: "char \<Rightarrow> nat \<Rightarrow> nat \<Rightarrow> bool" where
  "byte_in c lo hi \<longleftrightarrow> lo \<le> of_char c \<and> of_char c \<le> hi"

text \<open>The length of the valid encoding a byte string starts with, 0 when it starts with none.\<close>

definition utf8_tail :: "nat \<Rightarrow> nat \<Rightarrow> nat \<Rightarrow> string \<Rightarrow> bool" where
  "utf8_tail lo hi k cs \<longleftrightarrow>
     k \<le> length cs \<and> byte_in (hd cs) lo hi \<and> list_all (\<lambda>c. byte_in c 0x80 0xBF) (take k cs)"

definition utf8_len :: "string \<Rightarrow> nat" where
  "utf8_len s =
     (case s of
        [] \<Rightarrow> 0
      | a # cs \<Rightarrow>
          if byte_in a 0 0x7F then 1
          else if byte_in a 0xC2 0xDF \<and> utf8_tail 0x80 0xBF 1 cs then 2
          else if byte_in a 0xE0 0xEF \<and>
            utf8_tail (if a = CHR 0xE0 then 0xA0 else 0x80) (if a = CHR 0xED then 0x9F else 0xBF) 2 cs then 3
          else if byte_in a 0xF0 0xF4 \<and>
            utf8_tail (if a = CHR 0xF0 then 0x90 else 0x80) (if a = CHR 0xF4 then 0x8F else 0xBF) 3 cs then 4
          else 0)"

lemma utf8_len_le: "utf8_len s \<le> length s"
  by (cases s) (auto simp: utf8_len_def utf8_tail_def)

abbreviation "rune_error \<equiv> [CHR 0xEF, CHR 0xBF, CHR 0xBD]"

definition utf8_encode :: "nat \<Rightarrow> string" where
  "utf8_encode r =
     (if r < 0x80 then [char_of r]
      else if r < 0x800 then [char_of (0xC0 + r div 64), char_of (0x80 + r mod 64)]
      else if 0xD800 \<le> r \<and> r \<le> 0xDFFF \<or> 0x10FFFF < r then rune_error
      else if r < 0x10000
      then [char_of (0xE0 + r div 4096), char_of (0x80 + r div 64 mod 64), char_of (0x80 + r mod 64)]
      else [char_of (0xF0 + r div 262144), char_of (0x80 + r div 4096 mod 64),
            char_of (0x80 + r div 64 mod 64), char_of (0x80 + r mod 64)])"

section \<open>Strings\<close>

definition hex_digit :: "nat \<Rightarrow> char" where
  "hex_digit n = ''0123456789abcdef'' ! (n mod 16)"

definition escape_char :: "char \<Rightarrow> string" where
  "escape_char c =
     (if c = CHR 0x22 then [CHR 0x5C, CHR 0x22]
      else if c = CHR 0x5C then [CHR 0x5C, CHR 0x5C]
      else if c = CHR 0x08 then CHR 0x5C # ''b''
      else if c = CHR 0x0C then CHR 0x5C # ''f''
      else if c = CHR 0x0A then CHR 0x5C # ''n''
      else if c = CHR 0x0D then CHR 0x5C # ''r''
      else if c = CHR 0x09 then CHR 0x5C # ''t''
      else if of_char c < (0x20 :: nat) \<or> c = CHR ''<'' \<or> c = CHR ''>'' \<or> c = CHR ''&''
      then CHR 0x5C # ''u00'' @ [hex_digit (of_char c div 16), hex_digit (of_char c)]
      else [c])"

function escape_chars :: "string \<Rightarrow> string" where
  "escape_chars [] = []"
| "escape_chars (c # cs) =
     (if byte_in c 0 0x7F then escape_char c @ escape_chars cs
      else if utf8_len (c # cs) = 0 then CHR 0x5C # ''ufffd'' @ escape_chars cs
      else if take 3 (c # cs) = [CHR 0xE2, CHR 0x80, CHR 0xA8] then CHR 0x5C # ''u2028'' @ escape_chars (drop 3 (c # cs))
      else if take 3 (c # cs) = [CHR 0xE2, CHR 0x80, CHR 0xA9] then CHR 0x5C # ''u2029'' @ escape_chars (drop 3 (c # cs))
      else take (utf8_len (c # cs)) (c # cs) @ escape_chars (drop (utf8_len (c # cs)) (c # cs)))"
  by pat_completeness auto
termination by (relation "measure length") auto

definition hex_val :: "char \<Rightarrow> nat option" where
  "hex_val c =
     (if byte_in c 0x30 0x39 then Some (of_char c - 0x30)
      else if byte_in c 0x61 0x66 then Some (of_char c - 0x61 + 10)
      else if byte_in c 0x41 0x46 then Some (of_char c - 0x41 + 10)
      else None)"

definition hex4 :: "string \<Rightarrow> nat option" where
  "hex4 s =
     (case s of
        a # b # c # d # _ \<Rightarrow>
          (case (hex_val a, hex_val b, hex_val c, hex_val d) of
             (Some w, Some x, Some y, Some z) \<Rightarrow> Some (((w * 16 + x) * 16 + y) * 16 + z)
           | _ \<Rightarrow> None)
      | _ \<Rightarrow> None)"

definition unescape_simple :: "char \<Rightarrow> char option" where
  "unescape_simple c =
     map_of [(CHR 0x22, CHR 0x22), (CHR 0x5C, CHR 0x5C), (CHR ''/'', CHR ''/''), (CHR ''b'', CHR 0x08),
             (CHR ''f'', CHR 0x0C), (CHR ''n'', CHR 0x0A), (CHR ''r'', CHR 0x0D), (CHR ''t'', CHR 0x09)] c"

definition map_fst :: "(string \<Rightarrow> string) \<Rightarrow> (string \<times> string) option \<Rightarrow> (string \<times> string) option" where
  "map_fst f = map_option (\<lambda>(a, b). (f a, b))"

text \<open>
  The characters of a string literal up to its closing quote, and the text after it. A
  surrogate escape counts with the low surrogate that follows it, or as a replacement.
\<close>

function parse_chars :: "string \<Rightarrow> (string \<times> string) option" where
  "parse_chars [] = None"
| "parse_chars (c # cs) =
     (if c = CHR 0x22 then Some ([], cs)
      else if c = CHR 0x5C then
        (case cs of
           [] \<Rightarrow> None
         | e # ds \<Rightarrow>
             if e = CHR ''u'' then
               (case hex4 ds of
                  None \<Rightarrow> None
                | Some r \<Rightarrow>
                    if 0xD800 \<le> r \<and> r < 0xDC00 \<and> take 2 (drop 4 ds) = CHR 0x5C # ''u'' \<and>
                       (case hex4 (drop 6 ds) of Some q \<Rightarrow> 0xDC00 \<le> q \<and> q < 0xE000 | None \<Rightarrow> False)
                    then map_fst (\<lambda>s. utf8_encode ((r - 0xD800) * 1024 + (the (hex4 (drop 6 ds)) - 0xDC00) + 0x10000) @ s)
                           (parse_chars (drop 10 ds))
                    else map_fst (\<lambda>s. utf8_encode r @ s) (parse_chars (drop 4 ds)))
             else
               (case unescape_simple e of
                  None \<Rightarrow> None
                | Some x \<Rightarrow> map_fst ((#) x) (parse_chars ds)))
      else if byte_in c 0 0x1F then None
      else if byte_in c 0 0x7F then map_fst ((#) c) (parse_chars cs)
      else if utf8_len (c # cs) = 0 then map_fst ((@) rune_error) (parse_chars cs)
      else map_fst ((@) (take (utf8_len (c # cs)) (c # cs))) (parse_chars (drop (utf8_len (c # cs)) (c # cs))))"
  by pat_completeness auto
termination by (relation "measure length") (auto simp: less_Suc_eq_le intro: le_trans [OF diff_le_self])

section \<open>Documents\<close>

datatype json = JNull | JBool bool | JNum string | JStr string | JArr "json list" | JObj "(string \<times> json) list"

definition json_string :: "string \<Rightarrow> string" where
  "json_string s = CHR 0x22 # escape_chars s @ [CHR 0x22]"

fun json_text :: "json \<Rightarrow> string" where
  "json_text JNull = ''null''"
| "json_text (JBool b) = (if b then ''true'' else ''false'')"
| "json_text (JNum n) = n"
| "json_text (JStr s) = json_string s"
| "json_text (JArr xs) = ''['' @ join_with '','' (map json_text xs) @ '']''"
| "json_text (JObj kvs) = ''{'' @ join_with '','' (map (\<lambda>kv. json_string (fst kv) @ '':'' @ json_text (snd kv)) kvs) @ ''}''"

section \<open>Parsing\<close>

definition skip_ws :: "string \<Rightarrow> string" where
  "skip_ws = dropWhile (\<lambda>c. c = CHR '' '' \<or> c = CHR 0x09 \<or> c = CHR 0x0A \<or> c = CHR 0x0D)"

definition is_digit :: "char \<Rightarrow> bool" where
  "is_digit c \<longleftrightarrow> byte_in c 0x30 0x39"

text \<open>An optional minus, digits without leading zero, a fraction and an exponent.\<close>

definition parse_number :: "string \<Rightarrow> (string \<times> string) option" where
  "parse_number s =
     (let (sign, s1) = (case s of c # r \<Rightarrow> if c = CHR ''-'' then ([c], r) else ([], s) | [] \<Rightarrow> ([], s));
          int_part = (case s1 of c # r \<Rightarrow> if c = CHR ''0'' then [c] else takeWhile is_digit s1 | [] \<Rightarrow> []);
          s2 = drop (length int_part) s1;
          frac = (case s2 of c # r \<Rightarrow> if c = CHR ''.'' then c # takeWhile is_digit r else [] | [] \<Rightarrow> []);
          s3 = drop (length frac) s2;
          esign = (case s3 of
                     c # d # r \<Rightarrow> if c \<in> set ''eE'' then (if d \<in> set ''+-'' then [c, d] else [c]) else []
                   | [c] \<Rightarrow> if c \<in> set ''eE'' then [c] else []
                   | [] \<Rightarrow> []);
          edigits = (if esign = [] then [] else takeWhile is_digit (drop (length esign) s3));
          s4 = drop (length esign + length edigits) s3
      in if int_part = [] \<or> length frac = 1 \<or> (esign \<noteq> [] \<and> edigits = []) then None
         else Some (sign @ int_part @ frac @ esign @ edigits, s4))"

text \<open>
  A value, the rest of an array and the rest of an object. Every call gives up one unit of
  fuel and consumes text, so the length of the text is fuel enough.
\<close>

fun parse_value :: "nat \<Rightarrow> string \<Rightarrow> (json \<times> string) option"
  and parse_array :: "nat \<Rightarrow> string \<Rightarrow> (json list \<times> string) option"
  and parse_object :: "nat \<Rightarrow> string \<Rightarrow> ((string \<times> json) list \<times> string) option" where
  "parse_value 0 s = None"
| "parse_value (Suc n) s =
     (case skip_ws s of
        [] \<Rightarrow> None
      | c # r \<Rightarrow>
          if c = CHR 0x22 then map_option (\<lambda>(x, t). (JStr x, t)) (parse_chars r)
          else if c = CHR ''{'' then
            (case skip_ws r of
               d # t \<Rightarrow> if d = CHR ''}'' then Some (JObj [], t)
                         else map_option (\<lambda>(x, u). (JObj x, u)) (parse_object n (d # t))
             | [] \<Rightarrow> None)
          else if c = CHR ''['' then
            (case skip_ws r of
               d # t \<Rightarrow> if d = CHR '']'' then Some (JArr [], t)
                         else map_option (\<lambda>(x, u). (JArr x, u)) (parse_array n (d # t))
             | [] \<Rightarrow> None)
          else if take 4 (c # r) = ''null'' then Some (JNull, drop 3 r)
          else if take 4 (c # r) = ''true'' then Some (JBool True, drop 3 r)
          else if take 5 (c # r) = ''false'' then Some (JBool False, drop 4 r)
          else map_option (\<lambda>(x, t). (JNum x, t)) (parse_number (c # r)))"
| "parse_array 0 s = None"
| "parse_array (Suc n) s =
     (case parse_value n s of
        None \<Rightarrow> None
      | Some (v, r) \<Rightarrow>
          (case skip_ws r of
             [] \<Rightarrow> None
           | c # t \<Rightarrow> if c = CHR '','' then map_option (\<lambda>(vs, u). (v # vs, u)) (parse_array n t)
                       else if c = CHR '']'' then Some ([v], t) else None))"
| "parse_object 0 s = None"
| "parse_object (Suc n) s =
     (case skip_ws s of
        [] \<Rightarrow> None
      | q # s1 \<Rightarrow>
          if q \<noteq> CHR 0x22 then None
          else
            (case parse_chars s1 of
               None \<Rightarrow> None
             | Some (k, s2) \<Rightarrow>
                 (case skip_ws s2 of
                    [] \<Rightarrow> None
                  | c # s3 \<Rightarrow>
                      if c \<noteq> CHR '':'' then None
                      else
                        (case parse_value n s3 of
                           None \<Rightarrow> None
                         | Some (v, s4) \<Rightarrow>
                             (case skip_ws s4 of
                                [] \<Rightarrow> None
                              | d # s5 \<Rightarrow>
                                  if d = CHR '','' then map_option (\<lambda>(kvs, u). ((k, v) # kvs, u)) (parse_object n s5)
                                  else if d = CHR ''}'' then Some ([(k, v)], s5) else None)))))"

definition json_parse :: "string \<Rightarrow> json option" where
  "json_parse s =
     (case parse_value (2 * length s + 2) s of
        Some (v, r) \<Rightarrow> if skip_ws r = [] then Some v else None
      | None \<Rightarrow> None)"

section \<open>Round trip of strings\<close>

text \<open>A string of valid UTF-8; another one comes back with replacement characters.\<close>

function valid_utf8 :: "string \<Rightarrow> bool" where
  "valid_utf8 [] = True"
| "valid_utf8 (c # cs) =
     (if utf8_len (c # cs) = 0 then False else valid_utf8 (drop (utf8_len (c # cs)) (c # cs)))"
  by pat_completeness auto
termination by (relation "measure length") auto

lemma utf8_tail_take: "utf8_tail lo hi (Suc k) cs \<Longrightarrow> utf8_tail lo hi (Suc k) (take (Suc k) cs @ t)"
  by (cases cs) (auto simp: utf8_tail_def)

lemma utf8_lead:
  "byte_in c 0xC2 0xDF \<Longrightarrow> \<not> byte_in c 0 0x7F \<and> \<not> byte_in c 0xE0 0xEF \<and> \<not> byte_in c 0xF0 0xF4"
  "byte_in c 0xE0 0xEF \<Longrightarrow> \<not> byte_in c 0 0x7F \<and> \<not> byte_in c 0xC2 0xDF \<and> \<not> byte_in c 0xF0 0xF4"
  "byte_in c 0xF0 0xF4 \<Longrightarrow> \<not> byte_in c 0 0x7F \<and> \<not> byte_in c 0xC2 0xDF \<and> \<not> byte_in c 0xE0 0xEF"
  by (auto simp: byte_in_def)

lemma utf8_len_Suc:
  assumes "utf8_len (c # cs) = Suc k"
  shows "utf8_len (c # take k cs @ t) = Suc k"
proof -
  consider "byte_in c 0 0x7F" | "byte_in c 0xC2 0xDF" | "byte_in c 0xE0 0xEF" | "byte_in c 0xF0 0xF4"
    using assms by (auto simp: utf8_len_def split: if_splits)
  then show ?thesis
  proof cases
    case 1
    with assms show ?thesis by (simp add: utf8_len_def)
  next
    case 2
    note l = utf8_lead(1) [OF 2]
    with 2 assms have "k = 1" "utf8_tail 0x80 0xBF 1 cs" by (simp_all add: utf8_len_def split: if_splits)
    with l 2 utf8_tail_take [of "0x80" "0xBF" 0 cs t] show ?thesis by (simp add: utf8_len_def)
  next
    case 3
    note l = utf8_lead(2) [OF 3]
    define lo hi where "lo = (if c = CHR 0xE0 then 0xA0 else 0x80 :: nat)" "hi = (if c = CHR 0xED then 0x9F else 0xBF :: nat)"
    from l 3 assms have "k = 2" "utf8_tail lo hi 2 cs" by (simp_all add: utf8_len_def lo_hi_def split: if_splits)
    with l 3 utf8_tail_take [of lo hi 1 cs t] show ?thesis
      by (simp add: utf8_len_def lo_hi_def [symmetric] numeral_2_eq_2)
  next
    case 4
    note l = utf8_lead(3) [OF 4]
    define lo hi where "lo = (if c = CHR 0xF0 then 0x90 else 0x80 :: nat)" "hi = (if c = CHR 0xF4 then 0x8F else 0xBF :: nat)"
    from l 4 assms have "k = 3" "utf8_tail lo hi 3 cs" by (simp_all add: utf8_len_def lo_hi_def split: if_splits)
    with l 4 utf8_tail_take [of lo hi 2 cs t] show ?thesis
      by (simp add: utf8_len_def lo_hi_def [symmetric] numeral_3_eq_3)
  qed
qed

lemma byte_in_code: "byte_in c lo hi \<longleftrightarrow> lo \<le> (of_char c :: nat) \<and> (of_char c :: nat) \<le> hi"
  by (simp add: byte_in_def)

lemma hex_val_digit: "hex_val (hex_digit n) = Some (n mod 16)"
proof -
  define k where "k = n mod 16"
  have "k < 16" by (simp add: k_def)
  then have "k \<in> {0, 1, 2, 3, 4, 5, 6, 7, 8, 9, 10, 11, 12, 13, 14, 15}"
    unfolding insert_iff empty_iff by presburger
  then have "hex_val (''0123456789abcdef'' ! k) = Some k" by (auto simp: hex_val_def byte_in_def)
  then show ?thesis by (simp add: hex_digit_def k_def)
qed

lemma append_one: "(@) [c] = (#) c"
  by (simp add: fun_eq_iff)

lemma hex_val_zero: "hex_val CHR ''0'' = Some 0"
  by (simp add: hex_val_def byte_in_def)

lemma map_fst_simps [simp]:
  "map_fst f None = None" "map_fst f (Some (a, b)) = Some (f a, b)"
  by (simp_all add: map_fst_def)

declare parse_chars.simps(2) [simp del]

lemma parse_escape_char:
  assumes "byte_in c 0 0x7F"
  shows "parse_chars (escape_char c @ r) = map_fst ((#) c) (parse_chars r)"
proof -
  define S where "S = {CHR 0x22, CHR 0x5C, CHR 0x08, CHR 0x0C, CHR 0x0A, CHR 0x0D, CHR 0x09}"
  define H where "H \<longleftrightarrow> of_char c < (0x20 :: nat) \<or> c = CHR ''<'' \<or> c = CHR ''>'' \<or> c = CHR ''&''"
  consider "c \<in> S" | (hex) "c \<notin> S" "H" | (raw) "c \<notin> S" "\<not> H" by blast
  then show ?thesis
  proof cases
    case 1
    then show ?thesis by (auto simp: S_def escape_char_def parse_chars.simps unescape_simple_def)
  next
    case hex
    have n: "of_char c < (128 :: nat)" using assms by (simp add: byte_in_def)
    have h: "hex4 (CHR ''0'' # CHR ''0'' # hex_digit (of_char c div 16) # hex_digit (of_char c) # r) =
        Some (of_char c)"
      using n hex_val_zero by (simp add: hex4_def hex_val_digit)
    have "utf8_encode (of_char c) = [c]" using n by (simp add: utf8_encode_def)
    moreover have "escape_char c = CHR 0x5C # ''u00'' @ [hex_digit (of_char c div 16), hex_digit (of_char c)]"
      using hex by (simp add: escape_char_def S_def H_def)
    ultimately show ?thesis
      using n h by (simp add: parse_chars.simps append_one)
  next
    case raw
    with assms show ?thesis by (simp add: S_def H_def escape_char_def parse_chars.simps byte_in_def)
  qed
qed

lemma utf8_first: "utf8_len (c # cs) \<noteq> 0 \<Longrightarrow> byte_in c 0 0x7F \<or> byte_in c 0xC2 0xF4"
  by (auto simp: utf8_len_def byte_in_def split: if_splits)

lemma parse_multi:
  assumes "utf8_len (c # cs) = Suc k" "\<not> byte_in c 0 0x7F"
  shows "parse_chars (c # take k cs @ r) = map_fst ((@) (c # take k cs)) (parse_chars r)"
proof -
  have l: "utf8_len (c # take k cs @ r) = Suc k" using assms(1) by (rule utf8_len_Suc)
  have "k \<le> length cs" using utf8_len_le [of "c # cs"] assms(1) by simp
  moreover have "c \<noteq> CHR 0x22" "c \<noteq> CHR 0x5C" "\<not> byte_in c 0 0x1F" using assms(2) by (auto simp: byte_in_def)
  ultimately show ?thesis using l assms(2) by (simp add: parse_chars.simps)
qed

lemma sep_chars:
  "char_of (226 :: nat) = CHR 0xE2" "char_of (128 :: nat) = CHR 0x80"
  "char_of (168 :: nat) = CHR 0xA8" "char_of (169 :: nat) = CHR 0xA9"
  using char_of_char [where 'a = nat, of "CHR 0xE2"] char_of_char [where 'a = nat, of "CHR 0x80"]
    char_of_char [where 'a = nat, of "CHR 0xA8"] char_of_char [where 'a = nat, of "CHR 0xA9"]
  by simp_all

lemma parse_escape_chars:
  "valid_utf8 s \<Longrightarrow> parse_chars (escape_chars s @ CHR 0x22 # t) = Some (s, t)"
proof (induction s rule: valid_utf8.induct)
  case 1
  then show ?case by (simp add: parse_chars.simps)
next
  case (2 c cs)
  from 2 obtain k where k: "utf8_len (c # cs) = Suc k"
    by (cases "utf8_len (c # cs)") auto
  with 2 have ih: "parse_chars (escape_chars (drop k cs) @ CHR 0x22 # t) = Some (drop k cs, t)" by simp
  show ?case
  proof (cases "byte_in c 0 0x7F")
    case True
    then have "k = 0" using k by (simp add: utf8_len_def)
    with True ih show ?thesis by (simp add: parse_escape_char)
  next
    case False
    have sep: "parse_chars (CHR 0x5C # CHR ''u'' # CHR ''2'' # CHR ''0'' # CHR ''2'' # d # r) = map_fst ((@) u) (parse_chars r)"
      if "d = CHR ''8'' \<and> u = [CHR 0xE2, CHR 0x80, CHR 0xA8] \<or> d = CHR ''9'' \<and> u = [CHR 0xE2, CHR 0x80, CHR 0xA9]" for d u r
      using that
      by (auto simp: parse_chars.simps hex4_def hex_val_def byte_in_def utf8_encode_def sep_chars)
    have three: "k = 2" if "take 3 (c # cs) = [CHR 0xE2, CHR 0x80, x]" for x
      using that k by (auto simp: utf8_len_def byte_in_def utf8_tail_def split: if_splits)
    show ?thesis
    proof (cases "take 3 (c # cs) = [CHR 0xE2, CHR 0x80, CHR 0xA8] \<or> take 3 (c # cs) = [CHR 0xE2, CHR 0x80, CHR 0xA9]")
      case True
      then obtain d x where d: "take 3 (c # cs) = [CHR 0xE2, CHR 0x80, x]"
        "escape_chars (c # cs) = CHR 0x5C # CHR ''u'' # CHR ''2'' # CHR ''0'' # CHR ''2'' # d # escape_chars (drop 3 (c # cs))"
        "d = CHR ''8'' \<and> x = CHR 0xA8 \<or> d = CHR ''9'' \<and> x = CHR 0xA9"
        using False k by fastforce
      with three have "k = 2" by blast
      moreover from d(1) this have "c # cs = [CHR 0xE2, CHR 0x80, x] @ drop 2 cs"
        by (metis append_take_drop_id drop_Suc_Cons numeral_3_eq_3 numeral_2_eq_2)
      ultimately show ?thesis
        using ih d sep [of d "[CHR 0xE2, CHR 0x80, x]"] by (auto simp: numeral_3_eq_3 numeral_2_eq_2)
    next
      case rest: False
      then have "escape_chars (c # cs) = c # take k cs @ escape_chars (drop k cs)"
        using False k by simp
      with parse_multi [OF k False] ih show ?thesis by simp
    qed
  qed
qed

end
