(* ===== verification/Notebook.thy ===== *)
theory Notebook
  imports Json
begin

text \<open>
  \<open>internal/domain/notebook/template.go\<close>: the document a new notebook starts with. Go encodes a
  map with its keys in order, so the document is an object with sorted keys.
\<close>

definition default_kernel_name :: string where "default_kernel_name = ''python3''"

definition notebook_doc :: "string \<Rightarrow> json" where
  "notebook_doc kernel_name0 =
     (let trimmed = trim_space kernel_name0;
          kernel_name = (if trimmed = [] then default_kernel_name else trimmed);
          display_name = (if kernel_name \<noteq> default_kernel_name then kernel_name else ''Python 3'')
      in JObj
           [(''cells'', JArr [JObj
               [(''cell_type'', JStr ''code''), (''execution_count'', JNull), (''metadata'', JObj []),
                (''outputs'', JArr []), (''source'', JArr [])]]),
            (''metadata'', JObj
               [(''kernelspec'', JObj
                   [(''display_name'', JStr display_name), (''language'', JStr ''python''),
                    (''name'', JStr kernel_name)]),
                (''language_info'', JObj [(''name'', JStr ''python''), (''version'', JStr ''3.10.0'')])]),
            (''nbformat'', JNum ''4''), (''nbformat_minor'', JNum ''5'')])"

definition default_notebook :: "string \<Rightarrow> string" where
  "default_notebook kernel_name = json_text (notebook_doc kernel_name)"

end
