(* ===== verification/MountFS.thy ===== *)
theory MountFS
  imports Recovery Posix Notebook
begin

text \<open>
  \<open>internal/infra/fs\<close>: the storage client on the mounted file system, with the recycle bin
  (\<open>trash.go\<close>), the enrichment of file information (\<open>enrich.go\<close>), the recording of inodes
  (\<open>inode_record.go\<close>) and the inspector of the recovery scan (\<open>inspector.go\<close>).

  The state is the file system together with the state of the metadata stores.
\<close>

section \<open>The world\<close>

record 'x world =
  w_os :: fsys
  w_db :: 'x

definition on_os :: "(fsys \<Rightarrow> 'r \<times> fsys) \<Rightarrow> 'x world \<Rightarrow> 'r \<times> 'x world" where
  "on_os f w = (case f (w_os w) of (r, s) \<Rightarrow> (r, w\<lparr>w_os := s\<rparr>))"

definition on_db :: "('x \<Rightarrow> 'r \<times> 'x) \<Rightarrow> 'x world \<Rightarrow> 'r \<times> 'x world" where
  "on_db f w = (case f (w_db w) of (r, d) \<Rightarrow> (r, w\<lparr>w_db := d\<rparr>))"

section \<open>The client\<close>

record 'x fs_client =
  fc_store :: "'x world node_store_ops option"
  fc_mount_root :: string

text \<open>
  \<open>home\<close> is the result of \<open>os.UserHomeDir\<close>. The client and the file service each have a copy of
  this function.
\<close>

definition clean_mount_root :: "string option \<Rightarrow> string \<Rightarrow> string" where
  "clean_mount_root home root0 =
     (let root = trim_space root0
      in if root = [] then []
         else if root = ''~'' then (case home of Some h \<Rightarrow> h | None \<Rightarrow> root)
         else if has_prefix root ''~/''
         then (case home of Some h \<Rightarrow> join_path [h, trim_prefix root ''~/''] | None \<Rightarrow> clean root)
         else clean root)"

definition new_workspace_fs_client ::
  "string option \<Rightarrow> 'x world node_store_ops option \<Rightarrow> string \<Rightarrow> 'x fs_client" where
  "new_workspace_fs_client home store root =
     \<lparr>fc_store = store, fc_mount_root = clean_mount_root home root\<rparr>"

section \<open>Inodes\<close>

definition node_actor :: "actor \<Rightarrow> node_actor" where
  "node_actor a = new_node_actor (rc_owner_uin a) (rc_uin a) (rc_app_id a) (rc_workspace_id a)"

text \<open>The pair \<open>(id, ok)\<close> is an option.\<close>

definition inode_from_file_info :: "os_file_info \<Rightarrow> uint64 option" where
  "inode_from_file_info info = oi_ino info"

definition record_inode ::
  "'x world node_store_ops option \<Rightarrow> actor \<Rightarrow> string \<Rightarrow> string \<Rightarrow> 'x world \<Rightarrow> unit \<times> 'x world" where
  "record_inode store a abs_p node_type =
     (case store of
        None \<Rightarrow> give ()
      | Some ns \<Rightarrow>
          after (on_os (os_stat abs_p)) (\<lambda>r. case r of
            Inl e \<Rightarrow> give ()
          | Inr info \<Rightarrow>
              (case inode_from_file_info info of
                 None \<Rightarrow> give ()
               | Some inode \<Rightarrow>
                   after (ns_upsert ns
                            \<lparr>nm_inode_id = inode, nm_actor = node_actor a,
                             nm_node_type = (if node_type = [] then node_type_from_dir (oi_is_dir info) else node_type)\<rparr>)
                     (\<lambda>err. give ()))))"

definition record_upsert :: "'x world node_store_ops option \<Rightarrow> actor \<Rightarrow> string \<Rightarrow> 'x world \<Rightarrow> unit \<times> 'x world" where
  "record_upsert store a abs_p = record_inode store a abs_p []"

definition inode_from_path :: "string \<Rightarrow> 'x world \<Rightarrow> uint64 option \<times> 'x world" where
  "inode_from_path abs_p =
     after (on_os (os_stat abs_p)) (\<lambda>r. give (case r of Inl e \<Rightarrow> None | Inr info \<Rightarrow> inode_from_file_info info))"

definition is_git_folder_path :: "string \<Rightarrow> 'x world \<Rightarrow> bool \<times> 'x world" where
  "is_git_folder_path abs_p =
     after (on_os (os_stat (join_path [abs_p, ''.git'']))) (\<lambda>r. give (is_ok r))"

text \<open>The inspector of the recovery scan.\<close>

definition stat_inode :: "string \<Rightarrow> 'x world \<Rightarrow> (go_error, uint64 \<times> bool) result \<times> 'x world" where
  "stat_inode abs_p =
     after (on_os (os_stat abs_p)) (\<lambda>r. give (case r of
        Inl e \<Rightarrow> if os_is_not_exist e then Inr (0, False) else Inl (os_go_error e)
      | Inr info \<Rightarrow> (case inode_from_file_info info of None \<Rightarrow> Inr (0, True) | Some i \<Rightarrow> Inr (i, True))))"

section \<open>The recycle bin\<close>

abbreviation "trash_dir_name \<equiv> ''trash''"

definition client_user_root :: "'x fs_client \<Rightarrow> actor \<Rightarrow> string" where
  "client_user_root c a =
     (if fc_mount_root c \<noteq> [] then join_path [fc_mount_root c, user_path_prefix a]
      else clean (user_path_prefix a))"

definition user_trash_dir :: "'x fs_client \<Rightarrow> actor \<Rightarrow> string" where
  "user_trash_dir c a = join_path [client_user_root c a, trash_dir_name]"

definition user_trash_meta_dir :: "'x fs_client \<Rightarrow> actor \<Rightarrow> string" where
  "user_trash_meta_dir c a = join_path [user_trash_dir c a, ''_meta'']"

definition trash_entry_name :: "string \<Rightarrow> string" where
  "trash_entry_name rel = replace_slash rel ''__''"

definition trash_meta_path :: "'x fs_client \<Rightarrow> actor \<Rightarrow> string \<Rightarrow> string" where
  "trash_meta_path c a entry = join_path [user_trash_meta_dir c a, entry @ ''.json'']"

text \<open>
  A deletion time in RFC 3339, as \<open>time.Time\<close> encodes itself and demands on decoding.
\<close>

definition two_digits :: "string \<Rightarrow> nat option" where
  "two_digits s =
     (case s of a # b # _ \<Rightarrow> if is_digit a \<and> is_digit b then Some ((of_char a - 48) * 10 + (of_char b - 48)) else None
      | _ \<Rightarrow> None)"

definition days_in_month :: "nat \<Rightarrow> nat \<Rightarrow> nat" where
  "days_in_month y m =
     (if m = 2 then (if y mod 4 = 0 \<and> (y mod 100 \<noteq> 0 \<or> y mod 400 = 0) then 29 else 28)
      else if m \<in> {4, 6, 9, 11} then 30 else 31)"

definition in_range :: "nat option \<Rightarrow> nat \<Rightarrow> nat \<Rightarrow> bool" where
  "in_range x lo hi \<longleftrightarrow> (case x of Some n \<Rightarrow> lo \<le> n \<and> n \<le> hi | None \<Rightarrow> False)"

definition zone_ok :: "string \<Rightarrow> bool" where
  "zone_ok z \<longleftrightarrow>
     z = ''Z'' \<or>
     length z = 6 \<and> hd z \<in> set ''+-'' \<and> in_range (two_digits (drop 1 z)) 0 23 \<and> z ! 3 = CHR '':'' \<and>
     in_range (two_digits (drop 4 z)) 0 59"

definition is_rfc3339 :: "string \<Rightarrow> bool" where
  "is_rfc3339 t \<longleftrightarrow>
     20 \<le> length t \<and> t ! 4 = CHR ''-'' \<and> t ! 7 = CHR ''-'' \<and> t ! 10 = CHR ''T'' \<and> t ! 13 = CHR '':'' \<and>
     t ! 16 = CHR '':'' \<and>
     (case (two_digits t, two_digits (drop 2 t), two_digits (drop 5 t)) of
        (Some c, Some y, Some m) \<Rightarrow>
          1 \<le> m \<and> m \<le> 12 \<and> in_range (two_digits (drop 8 t)) 1 (days_in_month (c * 100 + y) m)
      | _ \<Rightarrow> False) \<and>
     in_range (two_digits (drop 11 t)) 0 23 \<and> in_range (two_digits (drop 14 t)) 0 59 \<and>
     in_range (two_digits (drop 17 t)) 0 59 \<and>
     (let r = drop 19 t
      in if hd r = CHR ''.''
         then takeWhile is_digit (tl r) \<noteq> [] \<and> zone_ok (dropWhile is_digit (tl r))
         else zone_ok r)"

definition trash_meta_text :: "string \<Rightarrow> string \<Rightarrow> string" where
  "trash_meta_text original now = json_text (JObj [(''original_path'', JStr original), (''deleted_at'', JStr now)])"

text \<open>
  Decoding into the struct: the fields are matched without regard to case, \<open>null\<close> leaves a field
  alone, the last of several wins, unknown fields are skipped. (Go refuses an escape in the
  time text and a document nested ten thousand deep; both are read here.)
\<close>

fun meta_fields :: "(string \<times> json) list \<Rightarrow> string \<Rightarrow> string option" where
  "meta_fields [] original = Some original"
| "meta_fields ((k, v) # kvs) original =
     (if to_lower k = ''original_path'' then
        (case v of
           JStr s \<Rightarrow> meta_fields kvs s
         | JNull \<Rightarrow> meta_fields kvs original
         | _ \<Rightarrow> None)
      else if to_lower k = ''deleted_at'' then
        (case v of
           JStr s \<Rightarrow> if is_rfc3339 s then meta_fields kvs original else None
         | JNull \<Rightarrow> meta_fields kvs original
         | _ \<Rightarrow> None)
      else meta_fields kvs original)"

definition trash_meta_decode :: "string \<Rightarrow> string option" where
  "trash_meta_decode data =
     (case json_parse data of
        Some (JObj kvs) \<Rightarrow> meta_fields kvs []
      | Some JNull \<Rightarrow> Some []
      | _ \<Rightarrow> None)"

definition write_trash_meta ::
  "'x fs_client \<Rightarrow> actor \<Rightarrow> string \<Rightarrow> string \<Rightarrow> 'x world \<Rightarrow> go_error option \<times> 'x world" where
  "write_trash_meta c a entry original =
     after (on_os (os_mkdir_all (user_trash_meta_dir c a))) (\<lambda>r. case r of
       Some e \<Rightarrow> give (Some (os_go_error e))
     | None \<Rightarrow>
         (\<lambda>w. after (on_os (os_write_file (trash_meta_path c a entry)
                              (trash_meta_text original (fs_now (w_os w) (fs_clock (w_os w))))))
                (\<lambda>r. give (map_option os_go_error r)) w))"

text \<open>The callers of \<open>readTrashMeta\<close> only ask whether there was an error: \<open>None\<close>.\<close>

definition read_trash_meta :: "'x fs_client \<Rightarrow> actor \<Rightarrow> string \<Rightarrow> 'x world \<Rightarrow> string option \<times> 'x world" where
  "read_trash_meta c a entry =
     after (on_os (os_read_file (trash_meta_path c a entry))) (\<lambda>r. give (case r of
        Inl e \<Rightarrow> None
      | Inr data \<Rightarrow> trash_meta_decode data))"

definition remove_trash_meta :: "'x fs_client \<Rightarrow> actor \<Rightarrow> string \<Rightarrow> 'x world \<Rightarrow> go_error option \<times> 'x world" where
  "remove_trash_meta c a entry =
     after (on_os (os_remove (trash_meta_path c a entry))) (\<lambda>r. give (case r of
        None \<Rightarrow> None
      | Some e \<Rightarrow> if os_is_not_exist e then None else Some (os_go_error e)))"

definition is_under_trash :: "'x fs_client \<Rightarrow> actor \<Rightarrow> string \<Rightarrow> bool" where
  "is_under_trash c a abs_p =
     (let trash = user_trash_dir c a; cp = clean abs_p
      in cp = trash \<or> has_prefix cp (trash @ ''/''))"

definition skip_list_entry :: "string \<Rightarrow> bool" where
  "skip_list_entry name \<longleftrightarrow> name = ''_meta'' \<or> has_prefix name ''.''"

definition user_rel_path :: "'x fs_client \<Rightarrow> actor \<Rightarrow> string \<Rightarrow> (go_error, string) result" where
  "user_rel_path c a abs_p =
     (let cp = clean abs_p; root = client_user_root c a
      in if cp = root then Inr []
         else if has_prefix cp (root @ ''/'') then Inr (trim_prefix cp (root @ ''/''))
         else Inl (text_error ''path not under user prefix''))"

section \<open>File information\<close>

definition build_file_info :: "string \<Rightarrow> 'x world \<Rightarrow> (go_error, file_info) result \<times> 'x world" where
  "build_file_info abs_p =
     after (on_os (os_stat abs_p)) (\<lambda>r. give (case r of
        Inl e \<Rightarrow> Inl (os_go_error e)
      | Inr info \<Rightarrow> Inr
          \<lparr>fi_name = oi_name info, fi_path = abs_p, fi_is_dir = oi_is_dir info, fi_size = oi_size info,
           fi_modify_time = oi_mtime info,
           fi_inode_id = (case inode_from_file_info info of Some i \<Rightarrow> i | None \<Rightarrow> 0),
           fi_owner_uin = [], fi_creator_uin = [], fi_node_type = [], fi_is_git_folder = False,
           fi_in_recycle = False, fi_origin_path = []\<rparr>))"

definition apply_node_record :: "node_record \<Rightarrow> file_info \<Rightarrow> file_info" where
  "apply_node_record rec info0 =
     (let info = info0\<lparr>fi_owner_uin := nr_owner_uin rec, fi_creator_uin := nr_uin rec\<rparr>
      in if nr_node_type rec \<noteq> []
         then info\<lparr>fi_node_type := nr_node_type rec, fi_is_git_folder := nr_node_type rec = NodeTypeGitFolder\<rparr>
         else info)"

text \<open>
  The stages \<open>enrichFileInfo\<close> and \<open>enrichMany\<close> have in common: a missing inode is looked up, a
  missing type inferred, the git folder recognised and the origin of a deleted file read.
\<close>

definition fill_inode :: "file_info \<Rightarrow> 'x world \<Rightarrow> file_info \<times> 'x world" where
  "fill_inode info =
     (if fi_inode_id info = 0
      then after (inode_from_path (fi_path info))
             (\<lambda>r. give (case r of Some i \<Rightarrow> info\<lparr>fi_inode_id := i\<rparr> | None \<Rightarrow> info))
      else give info)"

definition fill_type :: "file_info \<Rightarrow> file_info" where
  "fill_type info =
     (if fi_node_type info = []
      then info\<lparr>fi_node_type := infer_node_type_from_name (fi_name info) (fi_is_dir info)\<rparr> else info)"

definition fill_git :: "file_info \<Rightarrow> 'x world \<Rightarrow> file_info \<times> 'x world" where
  "fill_git info =
     (if fi_is_git_folder info then give info
      else if fi_node_type info = NodeTypeGitFolder then give (info\<lparr>fi_is_git_folder := True\<rparr>)
      else after (is_git_folder_path (fi_path info)) (\<lambda>b. give (info\<lparr>fi_is_git_folder := b\<rparr>)))"

definition fill_trash :: "'x fs_client \<Rightarrow> actor \<Rightarrow> bool \<Rightarrow> file_info \<Rightarrow> 'x world \<Rightarrow> file_info \<times> 'x world" where
  "fill_trash c a skip_own info0 =
     (if is_under_trash c a (fi_path info0)
      then
        (let info = info0\<lparr>fi_in_recycle := True\<rparr>; entry = base_path (fi_path info)
         in if skip_own \<and> (entry = trash_dir_name \<or> entry = ''_meta'') then give info
            else after (read_trash_meta c a entry)
                   (\<lambda>r. give (case r of Some original \<Rightarrow> info\<lparr>fi_origin_path := original\<rparr> | None \<Rightarrow> info)))
      else give info0)"

definition enrich_file_info :: "'x fs_client \<Rightarrow> actor \<Rightarrow> file_info \<Rightarrow> 'x world \<Rightarrow> file_info \<times> 'x world" where
  "enrich_file_info c a info0 =
     after (fill_inode info0) (\<lambda>info1.
     after (case fc_store c of
              Some ns \<Rightarrow>
                if fi_inode_id info1 \<noteq> 0
                then after (ns_lookup ns [fi_inode_id info1]) (\<lambda>r. give (case r of
                       Inl e \<Rightarrow> info1
                     | Inr records \<Rightarrow>
                         (case map_of records (fi_inode_id info1) of
                            Some rec \<Rightarrow> apply_node_record rec info1
                          | None \<Rightarrow> info1)))
                else give info1
            | None \<Rightarrow> give info1) (\<lambda>info2.
     after (fill_git (fill_type info2)) (\<lambda>info3. fill_trash c a True info3)))"

text \<open>A loop over the files that rewrites each in place.\<close>

fun each_file :: "(file_info \<Rightarrow> 'w \<Rightarrow> file_info \<times> 'w) \<Rightarrow> file_info list \<Rightarrow> 'w \<Rightarrow> file_info list \<times> 'w" where
  "each_file f [] w = ([], w)"
| "each_file f (x # xs) w = (case f x w of (y, w1) \<Rightarrow> (case each_file f xs w1 of (ys, w2) \<Rightarrow> (y # ys, w2)))"

definition enrich_many :: "'x fs_client \<Rightarrow> actor \<Rightarrow> file_info list \<Rightarrow> 'x world \<Rightarrow> file_info list \<times> 'x world" where
  "enrich_many c a files0 =
     after (each_file fill_inode files0) (\<lambda>files1.
       let inode_ids = filter (\<lambda>i. i \<noteq> 0) (map fi_inode_id files1)
       in after (case fc_store c of
                   Some ns \<Rightarrow>
                     if inode_ids \<noteq> []
                     then after (ns_lookup ns inode_ids) (\<lambda>r. give (case r of Inl e \<Rightarrow> [] | Inr records \<Rightarrow> records))
                     else give []
                 | None \<Rightarrow> give []) (\<lambda>records.
            each_file (\<lambda>info.
              let info1 = (case map_of records (fi_inode_id info) of
                             Some rec \<Rightarrow> apply_node_record rec info
                           | None \<Rightarrow> info)
              in after (fill_git (fill_type info1)) (\<lambda>info2. fill_trash c a False info2)) files1))"

definition build_enriched_file_info ::
  "'x fs_client \<Rightarrow> actor \<Rightarrow> string \<Rightarrow> 'x world \<Rightarrow> (go_error, file_info) result \<times> 'x world" where
  "build_enriched_file_info c a abs_p =
     after (build_file_info abs_p) (\<lambda>r. case r of
        Inl e \<Rightarrow> give (Inl e)
      | Inr fi \<Rightarrow> after (enrich_file_info c a fi) (\<lambda>fi'. give (Inr fi')))"

section \<open>Creating\<close>

definition client_create_folder :: "'x fs_client \<Rightarrow> create_folder_req \<Rightarrow> 'x world \<Rightarrow> (go_error, file_info) result \<times> 'x world" where
  "client_create_folder c req =
     after (on_os (os_mkdir_all (cd_path req))) (\<lambda>r. case r of
        Some e \<Rightarrow> give (Inl (wrap_error ''create folder'' (os_go_error e)))
      | None \<Rightarrow> build_enriched_file_info c (cd_actor req) (cd_path req))"

text \<open>
  \<open>atomicWriteFile\<close>: the steps from \<open>Write\<close> on, and what each does when it fails. \<open>cleanup\<close>
  closes and removes, later failures only remove.
\<close>

definition atomic_write_file :: "string \<Rightarrow> string \<Rightarrow> fsys \<Rightarrow> os_error option \<times> fsys" where
  "atomic_write_file dst content =
     after (os_create_temp (dir_path dst) (''.'' @ base_path dst @ ''.wstmp-*'')) (\<lambda>r. case r of
       Inl e \<Rightarrow> give (Some e)
     | Inr tmp \<Rightarrow>
         (let cleanup = (\<lambda>e. after (os_close tmp) (\<lambda>_. after (os_remove tmp) (\<lambda>_. give (Some e))));
              discard = (\<lambda>e. after (os_remove tmp) (\<lambda>_. give (Some e)))
          in after (os_append tmp content) (\<lambda>r. case r of Some e \<Rightarrow> cleanup e | None \<Rightarrow>
             after (os_sync tmp) (\<lambda>r. case r of Some e \<Rightarrow> cleanup e | None \<Rightarrow>
             after (os_close tmp) (\<lambda>r. case r of Some e \<Rightarrow> discard e | None \<Rightarrow>
             after (os_chmod tmp) (\<lambda>r. case r of Some e \<Rightarrow> discard e | None \<Rightarrow>
             after (os_rename tmp dst) (\<lambda>r. case r of Some e \<Rightarrow> discard e | None \<Rightarrow>
             give None)))))))"

definition client_create_file :: "'x fs_client \<Rightarrow> create_file_req \<Rightarrow> 'x world \<Rightarrow> (go_error, file_info) result \<times> 'x world" where
  "client_create_file c req =
     (let write =
            after (on_os (atomic_write_file (cf_path req) (cf_content req))) (\<lambda>r. case r of
               Some e \<Rightarrow> give (Inl (wrap_error ''write file'' (os_go_error e)))
             | None \<Rightarrow> build_enriched_file_info c (cf_actor req) (cf_path req))
      in after (on_os (os_mkdir_all (dir_path (cf_path req)))) (\<lambda>r. case r of
            Some e \<Rightarrow> give (Inl (wrap_error ''create parent dir'' (os_go_error e)))
          | None \<Rightarrow>
              after (on_os (os_stat (cf_path req))) (\<lambda>r. case r of
                 Inr info \<Rightarrow>
                   if oi_is_dir info then give (Inl (sentinel_error ErrNotAFile))
                   else if \<not> cf_overwrite req then give (Inl (sentinel_error ErrAlreadyExists))
                   else write
               | Inl e \<Rightarrow> if \<not> os_is_not_exist e then give (Inl (os_go_error e)) else write)))"

definition client_create_notebook ::
  "'x fs_client \<Rightarrow> create_notebook_req \<Rightarrow> 'x world \<Rightarrow> (go_error, file_info) result \<times> 'x world" where
  "client_create_notebook c req =
     after (client_create_file c
              \<lparr>cf_actor = cn_actor req, cf_path = cn_path req, cf_content = default_notebook (cn_kernel_name req),
               cf_overwrite = cn_overwrite req\<rparr>) (\<lambda>r. case r of
        Inl e \<Rightarrow> give (Inl e)
      | Inr _ \<Rightarrow>
          after (build_enriched_file_info c (cn_actor req) (cn_path req)) (\<lambda>r. give (case r of
             Inl e \<Rightarrow> Inl e
           | Inr info \<Rightarrow> Inr (info\<lparr>fi_node_type := NodeTypeNotebook\<rparr>))))"

definition client_write_file :: "'x fs_client \<Rightarrow> write_file_req \<Rightarrow> 'x world \<Rightarrow> (go_error, file_info) result \<times> 'x world" where
  "client_write_file c req =
     client_create_file c
       \<lparr>cf_actor = wf_actor req, cf_path = wf_path req, cf_content = wf_content req, cf_overwrite = wf_overwrite req\<rparr>"

section \<open>Deleting\<close>

text \<open>\<open>MarkDeleted\<close> for a path that was looked at, its error dropped.\<close>

definition mark_deleted :: "'x fs_client \<Rightarrow> actor \<Rightarrow> os_file_info \<Rightarrow> 'x world \<Rightarrow> unit \<times> 'x world" where
  "mark_deleted c a info =
     (case (inode_from_file_info info, fc_store c) of
        (Some inode, Some ns) \<Rightarrow>
          after (ns_mark_deleted ns \<lparr>nm_inode_id = inode, nm_actor = node_actor a, nm_node_type = []\<rparr>)
            (\<lambda>err. give ())
      | _ \<Rightarrow> give ())"

definition soft_delete :: "'x fs_client \<Rightarrow> actor \<Rightarrow> string \<Rightarrow> 'x world \<Rightarrow> go_error option \<times> 'x world" where
  "soft_delete c a abs_p =
     (case user_rel_path c a abs_p of
        Inl e \<Rightarrow> give (Some (sentinel_error ErrInvalidRequest))
      | Inr user_rel \<Rightarrow>
          if user_rel = [] \<or> user_rel = trash_dir_name \<or> has_prefix user_rel (trash_dir_name @ ''/'')
          then give (Some (sentinel_error ErrInvalidRequest))
          else
            (let entry = trash_entry_name user_rel;
                 dest = join_path [user_trash_dir c a, entry]
             in after (on_os (os_mkdir_all (user_trash_dir c a))) (\<lambda>r. case r of
                  Some e \<Rightarrow> give (Some (os_go_error e))
                | None \<Rightarrow>
                    after (on_os (os_stat dest)) (\<lambda>r. case r of
                      Inr _ \<Rightarrow> give (Some (sentinel_error ErrAlreadyExists))
                    | Inl _ \<Rightarrow>
                        after (on_os (os_rename abs_p dest)) (\<lambda>r. case r of
                          Some e \<Rightarrow> give (Some (wrap_error ''move to trash'' (os_go_error e)))
                        | None \<Rightarrow>
                            after (write_trash_meta c a entry user_rel) (\<lambda>r. case r of
                              Some e \<Rightarrow> after (on_os (os_rename dest abs_p)) (\<lambda>_. give (Some e))
                            | None \<Rightarrow> after (record_upsert (fc_store c) a dest) (\<lambda>_. give None)))))))"

definition client_delete_path :: "'x fs_client \<Rightarrow> delete_path_req \<Rightarrow> 'x world \<Rightarrow> go_error option \<times> 'x world" where
  "client_delete_path c req =
     after (on_os (os_stat (dp_path req))) (\<lambda>r. case r of
        Inl e \<Rightarrow> give (Some (if os_is_not_exist e then sentinel_error ErrNotFound else os_go_error e))
      | Inr info \<Rightarrow>
          if dp_soft_delete req \<and> \<not> dp_permanent req then soft_delete c (dp_actor req) (dp_path req)
          else
            after (mark_deleted c (dp_actor req) info) (\<lambda>_.
              if oi_is_dir info
              then after (on_os (os_remove_all (dp_path req)))
                     (\<lambda>r. give (map_option (\<lambda>e. wrap_error ''delete folder'' (os_go_error e)) r))
              else after (on_os (os_remove (dp_path req)))
                     (\<lambda>r. give (map_option (\<lambda>e. wrap_error ''delete file'' (os_go_error e)) r))))"

section \<open>Moving and copying\<close>

definition same_path :: "string \<Rightarrow> string \<Rightarrow> bool" where
  "same_path a b \<longleftrightarrow> clean a = clean b"

text \<open>
  What \<open>renameOrMove\<close> and \<open>CopyPath\<close> ask of the destination: an existing one must be of the
  same kind and may only be replaced on request, for a missing one the parent is created.
\<close>

definition check_dest :: "os_file_info \<Rightarrow> string \<Rightarrow> bool \<Rightarrow> 'x world \<Rightarrow> go_error option \<times> 'x world" where
  "check_dest src_info dest overwrite =
     after (on_os (os_stat dest)) (\<lambda>r. case r of
        Inr dest_info \<Rightarrow>
          if oi_is_dir src_info \<noteq> oi_is_dir dest_info then give (Some (sentinel_error ErrInvalidRequest))
          else if \<not> overwrite then give (Some (sentinel_error ErrAlreadyExists))
          else give None
      | Inl e \<Rightarrow>
          if \<not> os_is_not_exist e then give (Some (os_go_error e))
          else after (on_os (os_mkdir_all (dir_path dest))) (\<lambda>r. give (map_option os_go_error r)))"

definition rename_or_move ::
  "'x fs_client \<Rightarrow> actor \<Rightarrow> string \<Rightarrow> string \<Rightarrow> bool \<Rightarrow> 'x world \<Rightarrow> (go_error, file_info) result \<times> 'x world" where
  "rename_or_move c a src dest overwrite =
     after (on_os (os_stat src)) (\<lambda>r. case r of
        Inl e \<Rightarrow> give (Inl (if os_is_not_exist e then sentinel_error ErrNotFound else os_go_error e))
      | Inr src_info \<Rightarrow>
          if same_path src dest then build_enriched_file_info c a src
          else
            after (check_dest src_info dest overwrite) (\<lambda>r. case r of
               Some e \<Rightarrow> give (Inl e)
             | None \<Rightarrow>
                 after (mark_deleted c a src_info) (\<lambda>_.
                 after (on_os (os_rename src dest)) (\<lambda>r. case r of
                    Some e \<Rightarrow> give (Inl (wrap_error ''move'' (os_go_error e)))
                  | None \<Rightarrow>
                      after (record_upsert (fc_store c) a dest) (\<lambda>_. build_enriched_file_info c a dest)))))"

definition client_move_path :: "'x fs_client \<Rightarrow> move_path_req \<Rightarrow> 'x world \<Rightarrow> (go_error, file_info) result \<times> 'x world" where
  "client_move_path c req =
     rename_or_move c (mp_actor req) (mp_src_path req) (mp_dest_path req) (mp_overwrite req)"

definition client_rename_path :: "'x fs_client \<Rightarrow> rename_path_req \<Rightarrow> 'x world \<Rightarrow> (go_error, file_info) result \<times> 'x world" where
  "client_rename_path c req =
     rename_or_move c (rn_actor req) (rn_path req) (join_path [dir_path (rn_path req), rn_new_name req]) (rn_overwrite req)"

text \<open>
  \<open>filepath.WalkDir\<close>: the stack holds the entries still to visit, with their kinds. A directory
  is read when it is visited, after the callback has run on it, so entries the callbacks create
  in directories not yet read are visited too and the walk may go on for ever.
\<close>

partial_function (option) walk_loop ::
  "(string \<Rightarrow> 'w \<Rightarrow> (os_error, (string \<times> bool) list) result \<times> 'w) \<Rightarrow>
   (string \<Rightarrow> bool \<Rightarrow> os_error option \<Rightarrow> 'w \<Rightarrow> go_error option \<times> 'w) \<Rightarrow>
   (string \<times> bool) list \<Rightarrow> 'w \<Rightarrow> (go_error option \<times> 'w) option" where
  "walk_loop read_dir fn stack w =
     (case stack of
        [] \<Rightarrow> Some (None, w)
      | pd # rest \<Rightarrow>
          (case fn (fst pd) (snd pd) None w of
             (Some e, w1) \<Rightarrow> Some (Some e, w1)
           | (None, w1) \<Rightarrow>
               if \<not> snd pd then walk_loop read_dir fn rest w1
               else
                 (case read_dir (fst pd) w1 of
                    (Inl e, w2) \<Rightarrow>
                      (case fn (fst pd) True (Some e) w2 of
                         (Some x, w3) \<Rightarrow> Some (Some x, w3)
                       | (None, w3) \<Rightarrow> walk_loop read_dir fn rest w3)
                  | (Inr entries, w2) \<Rightarrow>
                      walk_loop read_dir fn (map (\<lambda>(x, d). (join_path [fst pd, x], d)) entries @ rest) w2)))"

declare walk_loop.simps [code]

definition walk_dir ::
  "(string \<Rightarrow> 'w \<Rightarrow> (os_error, os_file_info) result \<times> 'w) \<Rightarrow>
   (string \<Rightarrow> 'w \<Rightarrow> (os_error, (string \<times> bool) list) result \<times> 'w) \<Rightarrow>
   (string \<Rightarrow> bool \<Rightarrow> os_error option \<Rightarrow> 'w \<Rightarrow> go_error option \<times> 'w) \<Rightarrow>
   string \<Rightarrow> 'w \<Rightarrow> (go_error option \<times> 'w) option" where
  "walk_dir lstat read_dir fn root w =
     (case lstat root w of
        (Inl e, w1) \<Rightarrow> Some (fn root False (Some e) w1)
      | (Inr info, w1) \<Rightarrow> walk_loop read_dir fn [(root, oi_is_dir info)] w1)"

definition copy_file :: "string \<Rightarrow> string \<Rightarrow> fsys \<Rightarrow> go_error option \<times> fsys" where
  "copy_file src dst =
     after (os_mkdir_all (dir_path dst)) (\<lambda>r. case r of Some e \<Rightarrow> give (Some (os_go_error e)) | None \<Rightarrow>
     after (os_open src) (\<lambda>r. case r of Some e \<Rightarrow> give (Some (os_go_error e)) | None \<Rightarrow>
     after (os_create dst) (\<lambda>r. case r of Some e \<Rightarrow> give (Some (os_go_error e)) | None \<Rightarrow>
     after (os_io_copy src dst) (\<lambda>r. give (map_option os_go_error r)))))"

definition copy_entry :: "string \<Rightarrow> string \<Rightarrow> string \<Rightarrow> bool \<Rightarrow> os_error option \<Rightarrow> fsys \<Rightarrow> go_error option \<times> fsys" where
  "copy_entry src dst path is_dir walk_err =
     (case walk_err of
        Some e \<Rightarrow> give (Some (os_go_error e))
      | None \<Rightarrow>
          (case rel_path src path of
             Inl msg \<Rightarrow> give (Some (text_error msg))
           | Inr rel \<Rightarrow>
               if rel = ''.'' then give None
               else if is_dir
               then after (os_mkdir_all (join_path [dst, rel])) (\<lambda>r. give (map_option os_go_error r))
               else copy_file path (join_path [dst, rel])))"

definition copy_dir :: "string \<Rightarrow> string \<Rightarrow> fsys \<Rightarrow> (go_error option \<times> fsys) option" where
  "copy_dir src dst =
     after (os_stat src) (\<lambda>r. case r of
        Inl e \<Rightarrow> (\<lambda>s. Some (Some (os_go_error e), s))
      | Inr info \<Rightarrow>
          after (os_mkdir_all dst) (\<lambda>r. case r of
             Some e \<Rightarrow> (\<lambda>s. Some (Some (os_go_error e), s))
           | None \<Rightarrow> walk_dir os_lstat os_read_dir (copy_entry src dst) src))"

definition on_os_option :: "(fsys \<Rightarrow> ('r \<times> fsys) option) \<Rightarrow> 'x world \<Rightarrow> ('r \<times> 'x world) option" where
  "on_os_option f w = map_option (\<lambda>(r, s). (r, w\<lparr>w_os := s\<rparr>)) (f (w_os w))"

definition client_copy_path ::
  "'x fs_client \<Rightarrow> copy_path_req \<Rightarrow> 'x world \<Rightarrow> ((go_error, file_info) result \<times> 'x world) option" where
  "client_copy_path c req =
     after (on_os (os_stat (cp_src_path req))) (\<lambda>r. case r of
        Inl e \<Rightarrow> (\<lambda>w. Some (Inl (if os_is_not_exist e then sentinel_error ErrNotFound else os_go_error e), w))
      | Inr src_info \<Rightarrow>
          after (check_dest src_info (cp_dest_path req) (cp_overwrite req)) (\<lambda>r. case r of
             Some e \<Rightarrow> (\<lambda>w. Some (Inl e, w))
           | None \<Rightarrow>
               (\<lambda>w. case on_os_option
                          (if oi_is_dir src_info then copy_dir (cp_src_path req) (cp_dest_path req)
                           else (\<lambda>s. Some (copy_file (cp_src_path req) (cp_dest_path req) s))) w of
                       None \<Rightarrow> None
                     | Some (Some e, w1) \<Rightarrow> Some (Inl e, w1)
                     | Some (None, w1) \<Rightarrow>
                         Some (after (record_upsert (fc_store c) (cp_actor req) (cp_dest_path req))
                           (\<lambda>_. build_enriched_file_info c (cp_actor req) (cp_dest_path req)) w1))))"

section \<open>Listing and reading\<close>

text \<open>
  The recursive listing collects into the list at the front of its state; the plain one skips
  hidden entries and those that vanish.
\<close>

definition list_entry ::
  "string \<Rightarrow> string \<Rightarrow> bool \<Rightarrow> os_error option \<Rightarrow> file_info list \<times> 'x world \<Rightarrow> go_error option \<times> file_info list \<times> 'x world" where
  "list_entry root path is_dir walk_err st =
     (case walk_err of
        Some e \<Rightarrow> (Some (os_go_error e), st)
      | None \<Rightarrow>
          if path = root then (None, st)
          else (case build_file_info path (snd st) of
                  (Inl e, w1) \<Rightarrow> (Some e, (fst st, w1))
                | (Inr fi, w1) \<Rightarrow> (None, (fst st @ [fi], w1))))"

definition on_snd :: "('w \<Rightarrow> 'r \<times> 'w) \<Rightarrow> 'a \<times> 'w \<Rightarrow> 'r \<times> 'a \<times> 'w" where
  "on_snd f st = (case f (snd st) of (r, w) \<Rightarrow> (r, (fst st, w)))"

definition list_recursive :: "string \<Rightarrow> 'x world \<Rightarrow> ((go_error, file_info list) result \<times> 'x world) option" where
  "list_recursive root w =
     map_option (\<lambda>(r, files, w1). (case r of Some e \<Rightarrow> Inl e | None \<Rightarrow> Inr files, w1))
       (walk_dir (\<lambda>p. on_snd (on_os (os_lstat p))) (\<lambda>p. on_snd (on_os (os_read_dir p))) (list_entry root) root ([], w))"

fun list_entries :: "string \<Rightarrow> (string \<times> bool) list \<Rightarrow> 'x world \<Rightarrow> file_info list \<times> 'x world" where
  "list_entries root [] w = ([], w)"
| "list_entries root ((name, d) # es) w =
     (if skip_list_entry name then list_entries root es w
      else (case build_file_info (join_path [root, name]) w of
              (Inl e, w1) \<Rightarrow> list_entries root es w1
            | (Inr fi, w1) \<Rightarrow> (case list_entries root es w1 of (files, w2) \<Rightarrow> (fi # files, w2))))"

definition list_flat :: "string \<Rightarrow> 'x world \<Rightarrow> (go_error, file_info list) result \<times> 'x world" where
  "list_flat root =
     after (on_os (os_read_dir root)) (\<lambda>r. case r of
        Inl e \<Rightarrow> give (Inl (os_go_error e))
      | Inr entries \<Rightarrow> after (list_entries root entries) (\<lambda>files. give (Inr files)))"

definition client_list_files ::
  "'x fs_client \<Rightarrow> list_files_req \<Rightarrow> 'x world \<Rightarrow> ((go_error, file_info list) result \<times> 'x world) option" where
  "client_list_files c req =
     after (on_os (os_stat (lf_path req))) (\<lambda>r. case r of
        Inl e \<Rightarrow> (\<lambda>w. Some (Inl (if os_is_not_exist e then sentinel_error ErrNotFound else os_go_error e), w))
      | Inr info \<Rightarrow>
          if \<not> oi_is_dir info then (\<lambda>w. Some (Inl (sentinel_error ErrNotADirectory), w))
          else (\<lambda>w. map_option (\<lambda>(r, w1). case r of
                      Inl e \<Rightarrow> (Inl e, w1)
                    | Inr files \<Rightarrow> after (enrich_many c (lf_actor req) files) (\<lambda>fs. give (Inr fs)) w1)
                    (if lf_recursive req then list_recursive (lf_path req) w
                     else Some (list_flat (lf_path req) w))))"

definition client_get_file_info ::
  "'x fs_client \<Rightarrow> actor \<Rightarrow> string \<Rightarrow> 'x world \<Rightarrow> (go_error, file_info) result \<times> 'x world" where
  "client_get_file_info c a abs_p =
     after (on_os (os_stat abs_p)) (\<lambda>r. case r of
        Inl e \<Rightarrow> give (Inl (if os_is_not_exist e then sentinel_error ErrNotFound else os_go_error e))
      | Inr _ \<Rightarrow> build_enriched_file_info c a abs_p)"

definition max_inline_read_size :: int where "max_inline_read_size = 32 * 1024 * 1024"

definition client_read_file ::
  "'x fs_client \<Rightarrow> read_file_req \<Rightarrow> 'x world \<Rightarrow> (go_error, file_info \<times> string) result \<times> 'x world" where
  "client_read_file c req =
     after (on_os (os_stat (rf_path req))) (\<lambda>r. case r of
        Inl e \<Rightarrow> give (Inl (if os_is_not_exist e then sentinel_error ErrNotFound else os_go_error e))
      | Inr info \<Rightarrow>
          if oi_is_dir info then give (Inl (sentinel_error ErrNotAFile))
          else if max_inline_read_size < oi_size info then give (Inl (sentinel_error ErrFileTooLarge))
          else
            after (on_os (os_read_file (rf_path req))) (\<lambda>r. case r of
               Inl e \<Rightarrow> give (Inl (os_go_error e))
             | Inr content \<Rightarrow>
                 after (build_enriched_file_info c (rf_actor req) (rf_path req)) (\<lambda>r. give (case r of
                    Inl e \<Rightarrow> Inl e
                  | Inr fi \<Rightarrow> Inr (fi, content)))))"

definition client_validate_path :: "'x fs_client \<Rightarrow> validate_path_req \<Rightarrow> 'x world \<Rightarrow> (go_error, bool) result \<times> 'x world" where
  "client_validate_path c req =
     (let name = trim_space (vp_name req)
      in if name = [] \<or> name = ''.'' \<or> name = ''..'' \<or> contains_any name [CHR ''/'', CHR 0x5C]
         then give (Inl (sentinel_error ErrInvalidRequest))
         else
           (let parent0 = trim_space (vp_parent_path req);
                parent = (if parent0 = [] \<or> parent0 = ''.'' then client_user_root c (vp_actor req) else parent0)
            in after (on_os (os_stat (join_path [parent, name]))) (\<lambda>r. give (case r of
                 Inl e \<Rightarrow> if os_is_not_exist e then Inr False else Inl (os_go_error e)
               | Inr _ \<Rightarrow> Inr True))))"

text \<open>The chain of folders from the user root to the target, built from the target upwards.\<close>

partial_function (option) crumb_loop ::
  "'x fs_client \<Rightarrow> actor \<Rightarrow> string \<Rightarrow> file_info list \<Rightarrow> 'x world \<Rightarrow> ((go_error, file_info list) result \<times> 'x world) option" where
  "crumb_loop c a current nodes w =
     (case build_enriched_file_info c a current w of
        (Inl e, w1) \<Rightarrow> Some (Inl e, w1)
      | (Inr fi, w1) \<Rightarrow>
          if current = client_user_root c a then Some (Inr (fi # nodes), w1)
          else if dir_path current = current \<or> \<not> has_prefix (dir_path current) (client_user_root c a)
          then Some (Inr (fi # nodes), w1)
          else crumb_loop c a (dir_path current) (fi # nodes) w1)"

declare crumb_loop.simps [code]

definition client_get_folder_node_path ::
  "'x fs_client \<Rightarrow> folder_node_path_req \<Rightarrow> 'x world \<Rightarrow> ((go_error, file_info list) result \<times> 'x world) option" where
  "client_get_folder_node_path c req =
     (let target = clean (fn_path req)
      in after (on_os (os_stat target)) (\<lambda>r. case r of
           Inl e \<Rightarrow> (\<lambda>w. Some (Inl (if os_is_not_exist e then sentinel_error ErrNotFound else os_go_error e), w))
         | Inr info \<Rightarrow>
             if \<not> oi_is_dir info then (\<lambda>w. Some (Inl (sentinel_error ErrNotADirectory), w))
             else crumb_loop c (fn_actor req) target []))"

section \<open>Working with the recycle bin\<close>

definition client_list_recycle_bin ::
  "'x fs_client \<Rightarrow> actor \<Rightarrow> 'x world \<Rightarrow> ((go_error, file_info list) result \<times> 'x world) option" where
  "client_list_recycle_bin c a =
     (let trash = user_trash_dir c a
      in after (on_os (os_mkdir_all trash)) (\<lambda>r. case r of
           Some e \<Rightarrow> (\<lambda>w. Some (Inl (os_go_error e), w))
         | None \<Rightarrow> client_list_files c \<lparr>lf_actor = a, lf_path = trash, lf_recursive = False\<rparr>))"

definition client_restore_path :: "'x fs_client \<Rightarrow> restore_path_req \<Rightarrow> 'x world \<Rightarrow> (go_error, file_info) result \<times> 'x world" where
  "client_restore_path c req =
     (let a = rp_actor req; trash_abs = clean (rp_trash_path req); entry = base_path trash_abs
      in if \<not> is_under_trash c a trash_abs then give (Inl (sentinel_error ErrInvalidRequest))
         else
           after (read_trash_meta c a entry) (\<lambda>r. case r of
              None \<Rightarrow> give (Inl (sentinel_error ErrNotFound))
            | Some meta_original \<Rightarrow>
                (let parent = trim_space (rp_target_parent req);
                     original = (if parent \<noteq> [] then join_path [parent, base_path meta_original] else meta_original);
                     dest = join_path [client_user_root c a, original]
                 in after (on_os (os_mkdir_all (dir_path dest))) (\<lambda>r. case r of
                      Some e \<Rightarrow> give (Inl (os_go_error e))
                    | None \<Rightarrow>
                        after (on_os (os_stat dest)) (\<lambda>r. case r of
                          Inr _ \<Rightarrow> give (Inl (sentinel_error ErrAlreadyExists))
                        | Inl _ \<Rightarrow>
                            after (on_os (os_rename trash_abs dest)) (\<lambda>r. case r of
                              Some e \<Rightarrow> give (Inl (wrap_error ''restore'' (os_go_error e)))
                            | None \<Rightarrow>
                                after (remove_trash_meta c a entry) (\<lambda>_.
                                after (record_upsert (fc_store c) a dest) (\<lambda>_.
                                build_enriched_file_info c a dest))))))))"

fun empty_entries :: "'x fs_client \<Rightarrow> actor \<Rightarrow> string \<Rightarrow> (string \<times> bool) list \<Rightarrow> 'x world \<Rightarrow> go_error option \<times> 'x world" where
  "empty_entries c a trash [] = give None"
| "empty_entries c a trash ((name, d) # es) =
     (if name = ''_meta'' then empty_entries c a trash es
      else
        after (client_delete_path c
                 \<lparr>dp_actor = a, dp_path = join_path [trash, name], dp_soft_delete = False, dp_permanent = True\<rparr>)
          (\<lambda>r. case r of
             Some e \<Rightarrow> give (Some e)
           | None \<Rightarrow> after (remove_trash_meta c a name) (\<lambda>_. empty_entries c a trash es)))"

definition client_empty_recycle_bin :: "'x fs_client \<Rightarrow> actor \<Rightarrow> 'x world \<Rightarrow> go_error option \<times> 'x world" where
  "client_empty_recycle_bin c a =
     (let trash = user_trash_dir c a
      in after (on_os (os_read_dir trash)) (\<lambda>r. case r of
           Inl e \<Rightarrow> give (if os_is_not_exist e then None else Some (os_go_error e))
         | Inr entries \<Rightarrow>
             after (empty_entries c a trash entries) (\<lambda>r. case r of
                Some e \<Rightarrow> give (Some e)
              | None \<Rightarrow> after (on_os (os_remove_all (user_trash_meta_dir c a))) (\<lambda>_. give None))))"

section \<open>The client as a \<open>WorkspaceFS\<close>\<close>

definition workspace_fs_client :: "'x fs_client \<Rightarrow> 'x world workspace_fs" where
  "workspace_fs_client c =
     \<lparr>wfs_create_folder = client_create_folder c, wfs_create_file = client_create_file c,
      wfs_create_notebook = client_create_notebook c, wfs_delete_path = client_delete_path c,
      wfs_move_path = client_move_path c, wfs_copy_path = client_copy_path c,
      wfs_rename_path = client_rename_path c, wfs_list_files = client_list_files c,
      wfs_validate_path = client_validate_path c, wfs_get_folder_node_path = client_get_folder_node_path c,
      wfs_list_recycle_bin = client_list_recycle_bin c, wfs_restore_path = client_restore_path c,
      wfs_empty_recycle_bin = client_empty_recycle_bin c, wfs_get_file_info = client_get_file_info c,
      wfs_read_file = client_read_file c, wfs_write_file = client_write_file c\<rparr>"

end
