(* ===== verification/MemoryWorld.thy ===== *)
theory MemoryWorld
  imports MountFS
begin

text \<open>
  The world with the in-memory stores as its databases: the stores of
  \<open>internal/infra/persistence/memory\<close> as methods on the world, next to the mounted file
  system, and the proof that together they meet the contracts the recorder and the recovery
  scan rely on.
\<close>

section \<open>The stores on the world\<close>

type_synonym mem_world = "(mem_nodes \<times> mem_intents) world"

definition on_nodes :: "(mem_nodes \<Rightarrow> 'r \<times> mem_nodes) \<Rightarrow> mem_world \<Rightarrow> 'r \<times> mem_world" where
  "on_nodes f = on_db (\<lambda>(n, i). case f n of (r, n') \<Rightarrow> (r, (n', i)))"

definition on_intents :: "(mem_intents \<Rightarrow> 'r \<times> mem_intents) \<Rightarrow> mem_world \<Rightarrow> 'r \<times> mem_world" where
  "on_intents f = on_db (\<lambda>(n, i). case f i of (r, i') \<Rightarrow> (r, (n, i')))"

definition world_nodes :: "mem_world node_store_ops" where
  "world_nodes =
     \<lparr>ns_upsert = (\<lambda>m. on_nodes (ns_upsert mem_node_store m)),
      ns_mark_deleted = (\<lambda>m. on_nodes (ns_mark_deleted mem_node_store m)),
      ns_lookup = (\<lambda>ids. on_nodes (ns_lookup mem_node_store ids))\<rparr>"

definition world_intents :: "mem_world intent_store_ops" where
  "world_intents =
     \<lparr>is_enqueue = (\<lambda>i. on_intents (is_enqueue mem_intent_store i)),
      is_mark_done = (\<lambda>k. on_intents (is_mark_done mem_intent_store k)),
      is_mark_aborted = (\<lambda>k s. on_intents (is_mark_aborted mem_intent_store k s)),
      is_increment_attempt = (\<lambda>k s. on_intents (is_increment_attempt mem_intent_store k s)),
      is_list_pending = (\<lambda>n. on_intents (is_list_pending mem_intent_store n))\<rparr>"

abbreviation world_rows :: "mem_world \<Rightarrow> uint64 \<Rightarrow> node_record option" where
  "world_rows w \<equiv> map_of (fst (w_db w))"

abbreviation world_intent :: "mem_world \<Rightarrow> string \<Rightarrow> intent option" where
  "world_intent w k \<equiv> mem_get k (snd (w_db w))"

abbreviation world_ok :: "mem_world \<Rightarrow> bool" where
  "world_ok w \<equiv> mem_intents_ok (snd (w_db w))"

definition on_disk :: "'x world \<Rightarrow> string \<Rightarrow> uint64 option" where
  "on_disk w p = (case fs_lookup (w_os w) p of Inr n \<Rightarrow> Some (fn_ino n) | Inl e \<Rightarrow> None)"

lemma on_nodes_iff [simp]:
  "on_nodes f w = (r, w') \<longleftrightarrow> (\<exists>n'. f (fst (w_db w)) = (r, n') \<and> w' = w\<lparr>w_db := (n', snd (w_db w))\<rparr>)"
  by (cases "w_db w") (auto simp: on_nodes_def on_db_def split: prod.splits)

lemma on_intents_iff [simp]:
  "on_intents f w = (r, w') \<longleftrightarrow> (\<exists>i'. f (snd (w_db w)) = (r, i') \<and> w' = w\<lparr>w_db := (fst (w_db w), i')\<rparr>)"
  by (cases "w_db w") (auto simp: on_intents_def on_db_def split: prod.splits)

lemma world_store_simps [simp]:
  "ns_upsert world_nodes m = on_nodes (mem_upsert m)"
  "ns_mark_deleted world_nodes m = on_nodes (mem_mark_deleted m)"
  "ns_lookup world_nodes ids = on_nodes (mem_lookup ids)"
  "is_enqueue world_intents i = on_intents (mem_enqueue i)"
  "is_mark_done world_intents k = on_intents (mem_mark_done k)"
  "is_mark_aborted world_intents k s = on_intents (mem_mark_aborted k s)"
  "is_increment_attempt world_intents k s = on_intents (mem_increment_attempt k s)"
  "is_list_pending world_intents n = on_intents (mem_list_pending n)"
  by (simp_all add: world_nodes_def world_intents_def)

section \<open>The contracts hold\<close>

lemma stat_inode_result:
  assumes "stat_inode p w = (r, w')"
  shows "fs_same (w_os w) (w_os w') \<and> w_db w' = w_db w \<and>
    (\<forall>ino ex. r = Inr (ino, ex) \<longrightarrow> ex = (on_disk w p \<noteq> None) \<and> (ino \<noteq> 0 \<longrightarrow> on_disk w p = Some ino))"
proof -
  obtain r1 s1 where st: "os_stat p (w_os w) = (r1, s1)" by (cases "os_stat p (w_os w)")
  obtain f s2 where t: "fault_tick (w_os w) = (f, s2)" by (cases "fault_tick (w_os w)")
  note eq = fs_sameD [OF fault_tick_same [OF t]]
  have w': "w' = w\<lparr>w_os := s1\<rparr>" and r: "r = (case r1 of
        Inl e \<Rightarrow> if os_is_not_exist e then Inr (0, False) else Inl (os_go_error e)
      | Inr info \<Rightarrow> (case inode_from_file_info info of None \<Rightarrow> Inr (0, True) | Some i \<Rightarrow> Inr (i, True)))"
    using assms st by (auto simp: stat_inode_def after_def on_os_def give_def)
  show ?thesis
  proof (cases f)
    case (Some n)
    with st t r w' show ?thesis
      using fault_tick_same [OF t] by (auto simp: os_stat_op_def os_is_not_exist_def)
  next
    case None
    with st t r w' show ?thesis
      using fault_tick_same [OF t] eq
      by (auto simp: os_stat_op_def os_is_not_exist_def on_disk_def inode_from_file_info_def node_info_def
          split: sum.splits if_splits)
  qed
qed

interpretation mem_world: recovery world_intents world_intent world_ok "\<lambda>k. True" world_nodes world_rows stat_inode on_disk
proof (unfold_locales, goal_cases)
  case (1 w i w')
  then show ?case using mem_intents.enqueue_ok [of "snd (w_db w)" i] by auto
next
  case (3 w k w')
  then show ?case using mem_intents.mark_done_ok [of "snd (w_db w)" k] by auto
next
  case (5 w k r w')
  then show ?case using mem_intents.mark_aborted_ok [of "snd (w_db w)" k r] by auto
next
  case (7 w k r w')
  then show ?case using mem_intents.increment_ok [of "snd (w_db w)" k r] by auto
next
  case (9 w n xs w')
  then obtain s' where "mem_list_pending n (snd (w_db w)) = (Inr xs, s')" by auto
  with 9(1,2) show ?case using mem_intents.list_ok [of "snd (w_db w)" n xs s'] by fastforce
next
  case (2 w i e w')
  then show ?case using mem_intents.enqueue_err [of "snd (w_db w)" i] by auto
next
  case (4 w k e w')
  then show ?case using mem_intents.mark_done_err [of "snd (w_db w)" k] by auto
next
  case (6 w k r e w')
  then show ?case using mem_intents.mark_aborted_err [of "snd (w_db w)" k r] by auto
next
  case (8 w k r e w')
  then show ?case using mem_intents.increment_err [of "snd (w_db w)" k r] by auto
next
  case (10 w n lr w')
  then show ?case using mem_intents.list_intents [of "snd (w_db w)" n] by auto
next
  case (11 w i r w')
  then show ?case using mem_intents.good_ops(1) [of "snd (w_db w)" i] by auto
next
  case (12 w k r w')
  then show ?case using mem_intents.good_ops(2) [of "snd (w_db w)" k] by auto
next
  case (13 w k s r w')
  then show ?case using mem_intents.good_ops(3) [of "snd (w_db w)" k s] by auto
next
  case (14 w k s r w')
  then show ?case using mem_intents.good_ops(4) [of "snd (w_db w)" k s] by auto
next
  case (15 w n lr w')
  then show ?case using mem_intents.good_ops(5) [of "snd (w_db w)" n] by auto
next
  case (16 w)
  then show ?case by (rule mem_intents.finite_intents)
next
  case (17 w k j)
  then show ?case by (rule mem_intents.intents_id)
next
  case (19 m w w')
  then show ?case using mem_nodes.upsert_ok [of m "fst (w_db w)"] by auto
next
  case (20 m w e w')
  then show ?case using mem_nodes.upsert_err [of m "fst (w_db w)"] by auto
next
  case (21 m w w')
  then show ?case using mem_nodes.mark_deleted_ok [of m "fst (w_db w)"] by auto
next
  case (22 m w e w')
  then show ?case using mem_nodes.mark_deleted_err [of m "fst (w_db w)"] by auto
next
  case (23 ids w recs w')
  then show ?case using mem_nodes.lookup_ok [of ids "fst (w_db w)" recs] by auto
next
  case (24 ids w lr w')
  then show ?case using mem_nodes.lookup_rows [of ids "fst (w_db w)" lr] by auto
next
  case (34 p w sr w')
  note r = stat_inode_result [OF 34]
  then have "fs_lookup (w_os w') = fs_lookup (w_os w)" using fs_sameD(6) by blast
  then have "on_disk w' = on_disk w" by (simp add: on_disk_def fun_eq_iff)
  with r show ?case by simp
next
  case (35 p w ino ex w')
  then show ?case using stat_inode_result [OF 35] by blast
qed (auto simp: on_disk_def)

end
