(* ===== verification/Examples.thy ===== *)
theory Examples
  imports MemoryWorld
begin

text \<open>
  A small mounted file system and a world on it, the concrete input of the witnesses: the mount
  \<open>/mnt\<close> with one user, who has a folder \<open>d\<close> with a file \<open>f\<close> in it.
\<close>

definition sample_actor :: request_context where
  "sample_actor = \<lparr>rc_owner_uin = ''o'', rc_uin = ''u'', rc_app_id = ''a'', rc_workspace_id = ''w''\<rparr>"

definition sample_fs :: "nat option list \<Rightarrow> fsys" where
  "sample_fs faults =
     \<lparr>fs_tab =
        [([], FDir 1), ([''m''], FDir 2), ([''m'', ''a''], FDir 3), ([''m'', ''a'', ''w''], FDir 4),
         ([''m'', ''a'', ''w'', ''users''], FDir 5), ([''m'', ''a'', ''w'', ''users'', ''u''], FDir 6),
         ([''m'', ''a'', ''w'', ''users'', ''u'', ''d''], FDir 7),
         ([''m'', ''a'', ''w'', ''users'', ''u'', ''d'', ''f''], FFile 8 ''abc'')],
      fs_faults = faults, fs_next = 0, fs_draws = 0, fs_clock = 0, fs_cwd = [], fs_has_stat = True,
      fs_ino = (\<lambda>n. word_of_nat (n + 9)), fs_rand = (\<lambda>n. n),
      fs_mtime = (\<lambda>n p. int n), fs_dir_size = (\<lambda>n p. 4096), fs_now = (\<lambda>n. ''2024-05-06T07:08:09Z'')\<rparr>"

definition sample_world :: mem_world where
  "sample_world = \<lparr>w_os = sample_fs [], w_db = ([], new_mem_intents)\<rparr>"

definition sample_client :: "(mem_nodes \<times> mem_intents) fs_client" where
  "sample_client = \<lparr>fc_store = Some world_nodes, fc_mount_root = ''/m''\<rparr>"

abbreviation "sample_file \<equiv> ''/m/a/w/users/u/d/f''"

lemma sample_fs_wf: "fs_wf (sample_fs faults)"
  by (simp add: fs_wf_def sample_fs_def plain_elem_def)

lemma sample_world_ok: "world_ok sample_world"
  by (simp add: sample_world_def new_mem_intents_ok)

lemma sample_stat:
  "fs_lookup (w_os sample_world) sample_file = Inr (FFile 8 ''abc'')"
  by code_simp

end
