(* ===== verification/ClientFrame.thy ===== *)
theory ClientFrame
  imports Examples
begin

text \<open>
  One proof for everything the storage client leaves alone. The interface is a relation
  between worlds, two sets of paths, those that may be changed and those at which files may
  be written, and the promise that each system call and each store method the client uses keeps
  the relation as long as it gets such paths. The client operations then keep it too.

  The operations that only look need no promise about paths, so there are two interfaces, the
  second extending the first. They are used with the relation "the intents are the same" and all
  paths, with the relation "nothing changed outside a directory" and the paths below it, and for
  looking with the relation "the storage is the same".
\<close>

section \<open>The interface\<close>

definition os_keeps ::
  "('x world \<Rightarrow> bool) \<Rightarrow> ('x world \<Rightarrow> 'x world \<Rightarrow> bool) \<Rightarrow> (fsys \<Rightarrow> 'r \<times> fsys) \<Rightarrow> bool" where
  "os_keeps I rel f \<longleftrightarrow>
     (\<forall>w r s. I w \<longrightarrow> f (w_os w) = (r, s) \<longrightarrow> I (w\<lparr>w_os := s\<rparr>) \<and> rel w (w\<lparr>w_os := s\<rparr>))"

locale client_reads = frame inv rel
  for inv :: "'x world \<Rightarrow> bool" and rel :: "'x world \<Rightarrow> 'x world \<Rightarrow> bool" +
  fixes c :: "'x fs_client" and a :: actor
  assumes os_look: "inv w \<Longrightarrow> fs_same (w_os w) s \<Longrightarrow> inv (w\<lparr>w_os := s\<rparr>) \<and> rel w (w\<lparr>w_os := s\<rparr>)"
    and store_upsert: "fc_store c = Some ns \<Longrightarrow> inv w \<Longrightarrow> ns_upsert ns m w = (r, w') \<Longrightarrow> inv w' \<and> rel w w'"
    and store_mark_deleted:
      "fc_store c = Some ns \<Longrightarrow> inv w \<Longrightarrow> ns_mark_deleted ns m w = (r, w') \<Longrightarrow> inv w' \<and> rel w w'"
    and store_lookup: "fc_store c = Some ns \<Longrightarrow> inv w \<Longrightarrow> ns_lookup ns ids w = (lr, w') \<Longrightarrow> inv w' \<and> rel w w'"
begin

lemma keeps_os: "os_keeps inv rel f \<Longrightarrow> keeps (on_os f)"
  by (rule keepsI) (auto simp: os_keeps_def on_os_def split: prod.splits)

lemma keeps_look:
  assumes "\<And>s r s'. f s = (r, s') \<Longrightarrow> fs_same s s'"
  shows "keeps (on_os f)"
  by (rule keeps_os) (use assms os_look in \<open>auto simp: os_keeps_def\<close>)

lemma keeps_stat: "keeps (on_os (os_stat_op op p))"
  by (rule keeps_look) (rule os_stat_same)

lemma keeps_read_file: "keeps (on_os (os_read_file p))"
  by (rule keeps_look) (rule os_read_file_same)

lemma keeps_read_dir: "keeps (on_os (os_read_dir p))"
  by (rule keeps_look) (rule os_read_dir_same)

lemma keeps_upsert: "fc_store c = Some ns \<Longrightarrow> keeps (ns_upsert ns m)"
  by (rule keepsI) (rule store_upsert)

lemma keeps_mark: "fc_store c = Some ns \<Longrightarrow> keeps (ns_mark_deleted ns m)"
  by (rule keepsI) (rule store_mark_deleted)

lemma keeps_lookup: "fc_store c = Some ns \<Longrightarrow> keeps (ns_lookup ns ids)"
  by (rule keepsI) (rule store_lookup)

lemmas look_calls = keeps_stat keeps_read_file keeps_read_dir keeps_upsert keeps_mark keeps_lookup

section \<open>Reading operations\<close>

lemma keeps_build: "keeps (build_file_info p)"
  unfolding build_file_info_def by (intro keeps_rules look_calls)

lemma keeps_read_meta: "keeps (read_trash_meta c a e)"
  unfolding read_trash_meta_def by (intro keeps_rules look_calls)

lemma keeps_fill_inode: "keeps (fill_inode info)"
  unfolding fill_inode_def inode_from_path_def by (intro keeps_rules look_calls)

lemma keeps_fill_git: "keeps (fill_git info)"
  unfolding fill_git_def is_git_folder_path_def by (intro keeps_rules look_calls)

lemma keeps_fill_trash: "keeps (fill_trash c a b info)"
  unfolding fill_trash_def Let_def by (intro keeps_rules keeps_read_meta)

lemma keeps_enrich: "keeps (enrich_file_info c a info)"
  unfolding enrich_file_info_def
  by (intro keeps_rules keeps_fill_inode keeps_fill_git keeps_fill_trash look_calls) assumption

lemma keeps_each_file: "(\<And>x. keeps (f x)) \<Longrightarrow> keeps (each_file f xs)"
proof (induction xs)
  case (Cons x xs)
  have "each_file f (x # xs) = after (f x) (\<lambda>y. after (each_file f xs) (\<lambda>ys. give (y # ys)))"
    by (simp add: fun_eq_iff after_def give_def split: prod.splits)
  with Cons show ?case by (simp only:) (intro keeps_rules; simp)
qed (simp add: keeps_def frame_refl)

lemma keeps_enrich_many: "keeps (enrich_many c a files)"
  unfolding enrich_many_def Let_def
  by (intro keeps_rules keeps_each_file keeps_fill_inode keeps_fill_git keeps_fill_trash look_calls) assumption

lemma keeps_build_enriched: "keeps (build_enriched_file_info c a p)"
  unfolding build_enriched_file_info_def by (intro keeps_rules keeps_build keeps_enrich)

lemma keeps_read:
  assumes "rf_actor req = a"
  shows "keeps (client_read_file c req)"
  unfolding client_read_file_def assms(1) by (auto intro!: keeps_rules keeps_build_enriched look_calls)

lemma keeps_get_file_info: "keeps (client_get_file_info c a p)"
  unfolding client_get_file_info_def by (intro keeps_rules keeps_build_enriched look_calls)

lemma keeps_validate: "keeps (client_validate_path c req)"
  unfolding client_validate_path_def Let_def by (intro keeps_rules look_calls)

section \<open>Recording in the node store\<close>

lemma keeps_record: "keeps (record_inode (fc_store c) a' p t)"
  unfolding record_inode_def by (intro keeps_rules look_calls) assumption

lemma keeps_record_upsert: "keeps (record_upsert (fc_store c) a' p)"
  unfolding record_upsert_def by (rule keeps_record)

lemma keeps_mark_deleted: "keeps (mark_deleted c a' info)"
proof -
  have "keeps (case oi of None \<Rightarrow> give () | Some i \<Rightarrow>
      (case fc_store c of None \<Rightarrow> give () | Some ns \<Rightarrow> after (ns_mark_deleted ns (m i)) (\<lambda>err. give ())))" for oi m
    by (intro keeps_rules look_calls)
  then show ?thesis unfolding mark_deleted_def by (cases "inode_from_file_info info"; cases "fc_store c") (force split: option.splits)+
qed

end

section \<open>The interface of the operations that change the storage\<close>

locale client_frame = client_reads inv rel c a
  for inv :: "'x world \<Rightarrow> bool" and rel :: "'x world \<Rightarrow> 'x world \<Rightarrow> bool" and c :: "'x fs_client" and a :: actor +
  fixes ok sub :: "string \<Rightarrow> bool"
  assumes os_mkdir_ok: "ok p \<Longrightarrow> os_keeps inv rel (os_mkdir_all p)"
    and os_mkdir_parent: "ok p \<Longrightarrow> os_keeps inv rel (os_mkdir_all (dir_path p))"
    and os_rename_ok: "ok p \<Longrightarrow> ok q \<Longrightarrow> os_keeps inv rel (os_rename p q)"
    and os_remove_ok: "ok p \<Longrightarrow> os_keeps inv rel (os_remove p)"
    and os_remove_all_ok: "ok p \<Longrightarrow> os_keeps inv rel (os_remove_all p)"
    and os_create_ok: "ok p \<Longrightarrow> os_keeps inv rel (os_create p)"
    and os_append_ok: "ok p \<Longrightarrow> os_keeps inv rel (os_append p d)"
    and atomic_write_ok: "sub p \<Longrightarrow> os_keeps inv rel (atomic_write_file p d)"
    and listed_ok: "inv w \<Longrightarrow> os_read_dir (user_trash_dir c a) (w_os w) = (Inr ents, s) \<Longrightarrow> e \<in> set ents \<Longrightarrow>
      ok (join_path [user_trash_dir c a, fst e]) \<and> ok (trash_meta_path c a (fst e))"
    and sub_ok: "sub p \<Longrightarrow> ok p"
    and trash_ok: "ok (user_trash_dir c a)" "ok (user_trash_meta_dir c a)"
      "CHR ''/'' \<notin> set x \<Longrightarrow> ok (trash_meta_path c a x)"
    and trash_rel_ok: "user_rel_path c a p = Inr x \<Longrightarrow> x \<noteq> [] \<Longrightarrow>
      ok (join_path [user_trash_dir c a, trash_entry_name x])"
begin

lemmas calls = look_calls keeps_os [OF os_mkdir_ok] keeps_os [OF os_mkdir_parent] keeps_os [OF os_rename_ok]
  keeps_os [OF os_remove_ok] keeps_os [OF os_remove_all_ok] keeps_os [OF atomic_write_ok]
  trash_ok

lemma keeps_create_folder:
  assumes "cd_actor req = a" "ok (cd_path req)"
  shows "keeps (client_create_folder c req)"
  using assms(2)
  unfolding client_create_folder_def assms(1) by (auto intro!: keeps_rules keeps_build_enriched calls)

lemma keeps_create_file:
  assumes "cf_actor req = a" "sub (cf_path req)"
  shows "keeps (client_create_file c req)"
  using assms(2) sub_ok [OF assms(2)]
  unfolding client_create_file_def Let_def assms(1) by (auto intro!: keeps_rules keeps_build_enriched calls)

lemma keeps_write_file:
  assumes "wf_actor req = a" "sub (wf_path req)"
  shows "keeps (client_write_file c req)"
  using assms(2)
  unfolding client_write_file_def using assms(1) by (auto intro!: keeps_create_file)

lemma keeps_create_notebook:
  assumes "cn_actor req = a" "sub (cn_path req)"
  shows "keeps (client_create_notebook c req)"
  using assms(2)
  unfolding client_create_notebook_def assms(1) by (auto intro!: keeps_rules keeps_create_file keeps_build_enriched)

lemma no_slash_entry: "CHR ''/'' \<notin> set (trash_entry_name x)"
  by (auto simp: trash_entry_name_def replace_slash_def split: if_splits)

lemma no_slash_base: "CHR ''/'' \<notin> set (base_path p) \<or> base_path p = ''/''"
  by (auto simp: base_path_def Let_def dest: set_takeWhileD)

lemma write_file_keeps:
  assumes "ok p"
  shows "os_keeps inv rel (os_write_file p d)"
  unfolding os_keeps_def
proof (intro allI impI)
  fix w :: "'x world" and r s assume w: "inv w" and run: "os_write_file p d (w_os w) = (r, s)"
  obtain r1 s1 where cr: "os_create p (w_os w) = (r1, s1)" by (cases "os_create p (w_os w)")
  have c1: "inv (w\<lparr>w_os := s1\<rparr>) \<and> rel w (w\<lparr>w_os := s1\<rparr>)"
    using os_create_ok [OF assms] cr w by (simp add: os_keeps_def)
  show "inv (w\<lparr>w_os := s\<rparr>) \<and> rel w (w\<lparr>w_os := s\<rparr>)"
  proof (cases r1)
    case None
    then have "os_append p d (w_os (w\<lparr>w_os := s1\<rparr>)) = (r, s)" using run cr by (simp add: os_write_file_def)
    then have "inv (w\<lparr>w_os := s1, w_os := s\<rparr>) \<and> rel (w\<lparr>w_os := s1\<rparr>) (w\<lparr>w_os := s1, w_os := s\<rparr>)"
      using os_append_ok [OF assms, of d] c1 unfolding os_keeps_def by blast
    with c1 show ?thesis using frame_trans [of w "w\<lparr>w_os := s1\<rparr>"] by simp
  qed (use run cr c1 in \<open>simp add: os_write_file_def\<close>)
qed

lemma keeps_pointwise: "(\<And>d. keeps (m d)) \<Longrightarrow> keeps (\<lambda>w. m (g w) w)"
  by (auto simp: keeps_def)

lemma keeps_write_meta:
  assumes "CHR ''/'' \<notin> set e"
  shows "keeps (write_trash_meta c a e original)"
proof -
  have "keeps (on_os (os_write_file (trash_meta_path c a e) d))" for d
    using assms by (intro keeps_os write_file_keeps trash_ok)
  then have "keeps (after (on_os (os_write_file (trash_meta_path c a e) d)) (\<lambda>r. give (map_option os_go_error r)))" for d
    by (intro keeps_rules)
  from keeps_pointwise [of "\<lambda>d. after (on_os (os_write_file (trash_meta_path c a e) d)) (\<lambda>r. give (map_option os_go_error r))", OF this]
  show ?thesis
    unfolding write_trash_meta_def by (intro keeps_rules calls)
qed

lemma keeps_remove_meta: "ok (trash_meta_path c a e) \<Longrightarrow> keeps (remove_trash_meta c a e)"
  unfolding remove_trash_meta_def by (intro keeps_rules keeps_os [OF os_remove_ok])

lemma keeps_soft_delete:
  assumes "ok p"
  shows "keeps (soft_delete c a p)"
  unfolding soft_delete_def Let_def
  by (auto intro!: keeps_rules keeps_write_meta keeps_record_upsert calls assms no_slash_entry trash_rel_ok)

lemma keeps_delete:
  assumes "dp_actor req = a" "ok (dp_path req)"
  shows "keeps (client_delete_path c req)"
  using assms(2) unfolding client_delete_path_def assms(1)
  by (auto intro!: keeps_rules keeps_soft_delete keeps_mark_deleted calls)

lemma keeps_check_dest: "ok q \<Longrightarrow> keeps (check_dest info q b)"
  unfolding check_dest_def by (auto intro!: keeps_rules keeps_os [OF os_mkdir_parent] keeps_stat)

lemma keeps_rename_or_move:
  assumes "ok p" "ok q"
  shows "keeps (rename_or_move c a p q b)"
  unfolding rename_or_move_def
  by (intro keeps_rules keeps_check_dest keeps_mark_deleted keeps_build_enriched keeps_record_upsert calls assms)

lemma keeps_move:
  assumes "mp_actor req = a" "ok (mp_src_path req)" "ok (mp_dest_path req)"
  shows "keeps (client_move_path c req)"
  unfolding client_move_path_def assms(1) by (intro keeps_rename_or_move assms)

lemma keeps_rename:
  assumes "rn_actor req = a" "ok (rn_path req)"
    "ok (join_path [dir_path (rn_path req), rn_new_name req])"
  shows "keeps (client_rename_path c req)"
  unfolding client_rename_path_def assms(1) by (intro keeps_rename_or_move assms)

lemma keeps_restore:
  assumes "rp_actor req = a" "ok (clean (rp_trash_path req))"
    "\<And>w original w'. inv w \<Longrightarrow> read_trash_meta c a (base_path (clean (rp_trash_path req))) w = (Some original, w') \<Longrightarrow>
       ok (join_path [client_user_root c a, if trim_space (rp_target_parent req) \<noteq> []
             then join_path [trim_space (rp_target_parent req), base_path original] else original])"
    "base_path (clean (rp_trash_path req)) \<noteq> ''/''"
  shows "keeps (client_restore_path c req)"
proof -
  let ?p = "clean (rp_trash_path req)"
  let ?dest = "\<lambda>original. join_path [client_user_root c a, if trim_space (rp_target_parent req) \<noteq> []
             then join_path [trim_space (rp_target_parent req), base_path original] else original]"
  have slash: "CHR ''/'' \<notin> set (base_path ?p)" using no_slash_base [of ?p] assms(4) by blast
  have rest: "keeps (after (on_os (os_mkdir_all (dir_path (?dest x)))) (\<lambda>r. case r of
        Some e \<Rightarrow> give (Inl (os_go_error e))
      | None \<Rightarrow> after (on_os (os_stat (?dest x))) (\<lambda>r. case r of
          Inr _ \<Rightarrow> give (Inl (sentinel_error ErrAlreadyExists))
        | Inl _ \<Rightarrow> after (on_os (os_rename ?p (?dest x))) (\<lambda>r. case r of
              Some e \<Rightarrow> give (Inl (wrap_error ''restore'' (os_go_error e)))
            | None \<Rightarrow> after (remove_trash_meta c a (base_path ?p)) (\<lambda>_.
                after (record_upsert (fc_store c) a (?dest x)) (\<lambda>_. build_enriched_file_info c a (?dest x)))))))"
    if "ok (?dest x)" for x
    using that assms(2)
    by (intro keeps_rules keeps_os [OF os_mkdir_parent] keeps_stat keeps_os [OF os_rename_ok]
        keeps_remove_meta trash_ok(3) slash keeps_record_upsert keeps_build_enriched)
  show ?thesis
    unfolding client_restore_path_def assms(1) Let_def
    by (rule keeps_if, rule keeps_give, rule keeps_after_range, rule keeps_read_meta,
        rule keeps_case_option, rule keeps_give, rule rest) (use assms(3) in blast)+
qed

lemma keeps_empty_entries:
  "(\<And>e. e \<in> set es \<Longrightarrow> ok (join_path [user_trash_dir c a, fst e]) \<and> ok (trash_meta_path c a (fst e))) \<Longrightarrow>
   keeps (empty_entries c a (user_trash_dir c a) es)"
proof (induction es)
  case (Cons e es)
  obtain name d where e: "e = (name, d)" by (cases e)
  have "ok (join_path [user_trash_dir c a, name])" "ok (trash_meta_path c a name)"
    using Cons.prems [of e] by (simp_all add: e)
  then show ?case
    using Cons unfolding e by (auto intro!: keeps_rules keeps_delete keeps_remove_meta)
qed (simp add: keeps_give)

lemma keeps_empty_recycle_bin: "keeps (client_empty_recycle_bin c a)"
proof -
  have rest: "keeps (after (empty_entries c a (user_trash_dir c a) es) (\<lambda>r. case r of
                Some e \<Rightarrow> give (Some e)
              | None \<Rightarrow> after (on_os (os_remove_all (user_trash_meta_dir c a))) (\<lambda>_. give None)))"
    if "\<And>e. e \<in> set es \<Longrightarrow> ok (join_path [user_trash_dir c a, fst e]) \<and> ok (trash_meta_path c a (fst e))" for es
    using that by (intro keeps_rules keeps_empty_entries keeps_os [OF os_remove_all_ok] trash_ok(2))
  show ?thesis
    unfolding client_empty_recycle_bin_def Let_def
  proof (rule keeps_after_range [OF keeps_read_dir])
    fix r w w' assume "inv w" "on_os (os_read_dir (user_trash_dir c a)) w = (r, w')"
    then show "keeps (case r of
         Inl e \<Rightarrow> give (if os_is_not_exist e then None else Some (os_go_error e))
       | Inr entries \<Rightarrow> after (empty_entries c a (user_trash_dir c a) entries) (\<lambda>r. case r of
                Some e \<Rightarrow> give (Some e)
              | None \<Rightarrow> after (on_os (os_remove_all (user_trash_meta_dir c a))) (\<lambda>_. give None)))"
      by (cases r) (auto simp: on_os_def keeps_give split: prod.splits intro!: rest dest!: listed_ok)
  qed
qed

end

end
