(* ===== verification/AtomicWrite.thy ===== *)
theory AtomicWrite
  imports ClientFrame
begin

text \<open>
  \<open>atomicWriteFile\<close> under every schedule of faults: the destination holds its old contents or
  the new ones, and all that may be left behind is the temporary file.
\<close>

section \<open>The states of a write in progress\<close>

text \<open>
  \<open>writing s T s'\<close>: since \<open>s\<close> only the temporary file \<open>T\<close> appeared.
  \<open>cleaned s T s'\<close>: nothing changed, except that \<open>T\<close> may still be there.
\<close>

definition writing :: "fsys \<Rightarrow> string list \<Rightarrow> fsys \<Rightarrow> bool" where
  "writing s T s' \<longleftrightarrow> fs_config s' = fs_config s \<and> fs_wf s' \<and> (\<forall>k. k \<noteq> T \<longrightarrow> fs_map s' k = fs_map s k) \<and>
     (\<exists>i c. fs_map s' T = Some (FFile i c))"

definition cleaned :: "fsys \<Rightarrow> string list \<Rightarrow> fsys \<Rightarrow> bool" where
  "cleaned s T s' \<longleftrightarrow> fs_config s' = fs_config s \<and> fs_wf s' \<and> (\<forall>k. k \<noteq> T \<longrightarrow> fs_map s' k = fs_map s k) \<and>
     (fs_map s' T = None \<or> (\<exists>i c. fs_map s' T = Some (FFile i c)))"

lemma writing_same: "writing s T s1 \<Longrightarrow> fs_same s1 s2 \<Longrightarrow> writing s T s2"
  using fs_sameD [of s1 s2] by (simp add: writing_def)

lemma writing_cleaned: "writing s T s' \<Longrightarrow> cleaned s T s'"
  by (auto simp: writing_def cleaned_def)

lemma writing_path: "writing s T s' \<Longrightarrow> fs_path s' = fs_path s"
  by (auto simp: writing_def fs_config_def fs_path_def fun_eq_iff)

lemma cleaned_path: "cleaned s T s' \<Longrightarrow> fs_path s' = fs_path s"
  by (auto simp: cleaned_def fs_config_def fs_path_def fun_eq_iff)

lemma cleaned_same: "cleaned s T s1 \<Longrightarrow> fs_same s1 s2 \<Longrightarrow> cleaned s T s2"
  using fs_sameD [of s1 s2] by (simp add: cleaned_def)

lemma remove_cleaned:
  assumes "writing s T s1" "fs_path s p = T" "os_remove p s1 = (r, s2)"
  shows "cleaned s T s2"
proof (cases "p = []")
  case True
  with assms show ?thesis by (auto simp: os_remove_def intro: writing_cleaned)
next
  case False
  have wf: "fs_wf s1" using assms(1) by (simp add: writing_def)
  obtain r' s' where m: "sys_remove T s1 = (r', s')" by (cases "sys_remove T s1")
  with False assms(2,3) writing_path [OF assms(1)] have s2: "s2 = s'"
    by (auto simp: os_remove_def split: option.splits)
  from wf m show ?thesis
  proof (cases rule: sys_remove_effect)
    case (removed t)
    with assms(1) fs_sameD [OF removed(2)] s2 show ?thesis
      by (auto simp: cleaned_def writing_def fs_cut_map)
  next
    case failed
    with writing_same [OF assms(1)] s2 show ?thesis by (auto intro: writing_cleaned)
  qed
qed

lemma append_writing:
  assumes "writing s T s1" "fs_path s p = T" "os_append p d s1 = (r, s2)"
  shows "writing s T s2 \<and>
    (r = None \<longrightarrow> (\<forall>i c. fs_map s1 T = Some (FFile i c) \<longrightarrow> fs_map s2 T = Some (FFile i (c @ d))))"
proof -
  have wf: "fs_wf s1" using assms(1) by (simp add: writing_def)
  have p: "fs_path s1 p = T" using writing_path [OF assms(1)] assms(2) by simp
  from wf assms(3) show ?thesis
  proof (cases rule: os_append_effect)
    case (appended i c n)
    with assms(1) p show ?thesis by (auto simp: writing_def)
  next
    case failed
    with writing_same [OF assms(1)] show ?thesis by auto
  qed
qed

lemma rename_writing:
  assumes "writing s T s1" "fs_path s p = T" "fs_path s q = D" "T \<noteq> D" "fs_map s T = None" "plain T"
    and "fs_map s1 T = Some (FFile i c)" "os_rename p q s1 = (r, s2)"
  shows "r \<noteq> None \<and> writing s T s2 \<or>
    r = None \<and> fs_config s2 = fs_config s \<and> fs_wf s2 \<and> (\<forall>k. k \<noteq> D \<longrightarrow> fs_map s2 k = fs_map s k) \<and>
    fs_map s2 D = Some (FFile i c)"
proof -
  have wf: "fs_wf s1" using assms(1) by (simp add: writing_def)
  have p: "fs_path s1 p = T" "fs_path s1 q = D" using writing_path [OF assms(1)] assms(2,3) by simp_all
  from wf assms(8) show ?thesis
  proof (cases rule: os_rename_effect)
    case (moved t)
    note sm = fs_sameD [OF moved(2)]
    have below: "fs_map t k = None" if "strict_prefix D k" for k
      using moved(10) that p sm by simp
    have none: "fs_map s1 k = None" if "strict_prefix T k" for k
      using fs_wf_prefix [OF wf _ that] assms(7) by (cases "fs_map s1 k") auto
    note mp = fs_move_map [of T D t, OF _ _ below]
    have ap: "\<not> prefix T D" "\<not> prefix D T" using moved(8,9) p by simp_all
    have D: "fs_map s2 D = Some (FFile i c)"
      using mp [OF ap] moved(3) p sm assms(7) by simp
    have other: "fs_map s2 k = fs_map s k" if "k \<noteq> D" for k
    proof (cases "prefix D k")
      case True
      with that have k: "strict_prefix D k" by (simp add: strict_prefix_def)
      then obtain z zs where "drop (length D) k = z # zs" by (auto simp: strict_prefix_Cons_ex)
      then have "fs_map t (T @ drop (length D) k) = None"
        using none [of "T @ z # zs"] sm by (simp add: strict_prefix_Cons_ex)
      with True mp [OF ap] moved(3) p have "fs_map s2 k = None" by simp
      moreover have "fs_map s k = None"
      proof (cases "k = T")
        case False
        then have "fs_map s k = fs_map s1 k" using assms(1) by (simp add: writing_def)
        also have "\<dots> = None" using moved(10) p k by blast
        finally show ?thesis .
      qed (use assms(5) in simp)
      ultimately show ?thesis by simp
    next
      case nD: False
      show ?thesis
      proof (cases "prefix T k")
        case True
        have "fs_map s k = None"
        proof (cases "k = T")
          case False
          with True none [of k] assms(1) show ?thesis by (simp add: writing_def strict_prefix_def)
        qed (use assms(5) in simp)
        with True nD mp [OF ap] moved(3) p show ?thesis by simp
      next
        case False
        with nD mp [OF ap] moved(3) p sm assms(1) show ?thesis by (auto simp: writing_def)
      qed
    qed
    with D moved p sm assms(1) show ?thesis by (simp add: writing_def)
  next
    case same
    with p assms(4) show ?thesis by simp
  next
    case failed
    with writing_same [OF assms(1)] show ?thesis by simp
  qed
qed

section \<open>The whole write\<close>

lemma fs_path_child: "plain es \<Longrightarrow> plain_elem t \<Longrightarrow> fs_path s (abs_path es @ CHR ''/'' # t) = es @ [t]"
  using elems_append [of "abs_path es" t]
  by (simp add: fs_path_def path_simps elems_single abs_path_def)

lemma temp_name:
  assumes "plain_elem b"
  shows "plain_elem (''.'' @ b @ ''.wstmp-'' @ decimal n)" "''.'' @ b @ ''.wstmp-'' @ decimal n \<noteq> b"
proof -
  have "CHR ''/'' \<notin> set (decimal n)" using decimal_digits [of n] by auto
  with assms show "plain_elem (''.'' @ b @ ''.wstmp-'' @ decimal n)"
    by (auto simp: plain_elem_def)
  have "length (''.'' @ b @ ''.wstmp-'' @ decimal n) \<noteq> length b" by simp
  then show "''.'' @ b @ ''.wstmp-'' @ decimal n \<noteq> b" by metis
qed

lemma temp_pattern:
  assumes "plain_elem b"
  shows "os_create_temp dir (''.'' @ b @ ''.wstmp-*'') s = create_temp_try 10000 dir (''.'' @ b @ ''.wstmp-'') [] s"
  using assms by (simp add: os_create_temp_def plain_elem_def list_ex_eq_any butlast_append)

text \<open>
  The temporary file is one of these. At the end of a write that succeeded it is gone; after a
  failure everything but the temporary file is as before.
\<close>

definition temp_of :: "string list \<Rightarrow> string \<Rightarrow> string list \<Rightarrow> bool" where
  "temp_of es b T \<longleftrightarrow> (\<exists>n. T = es @ [''.'' @ b @ ''.wstmp-'' @ decimal n])"

lemma atomic_write_effect:
  assumes wf: "fs_wf s" and pl: "plain (es @ [b])" and run: "atomic_write_file (abs_path (es @ [b])) d s = (r, s')"
  shows "fs_config s' = fs_config s \<and> fs_wf s' \<and>
    (r = None \<longrightarrow> (\<exists>i. fs_map s' = (fs_map s)(es @ [b] \<mapsto> FFile i d))) \<and>
    (r \<noteq> None \<longrightarrow> fs_map s' = fs_map s \<or> (\<exists>T. temp_of es b T \<and> fs_map s T = None \<and> cleaned s T s'))"
proof -
  let ?dst = "abs_path (es @ [b])"
  have dir: "dir_path ?dst = abs_path es" "base_path ?dst = b" "fs_path s ?dst = es @ [b]"
    using pl by (simp_all only: dir_abs_path base_abs_path fs_path_abs)
  have b: "plain_elem b" "plain es" using pl by simp_all
  obtain ct s1 where ct: "create_temp_try 10000 (abs_path es) (''.'' @ b @ ''.wstmp-'') [] s = (ct, s1)"
    by (cases "create_temp_try 10000 (abs_path es) (''.'' @ b @ ''.wstmp-'') [] s")
  note eff = create_temp_try_effect [OF wf ct]
  note run0 = run [unfolded atomic_write_file_def dir(1,2) temp_pattern [OF b(1)]
      after_def [of "create_temp_try 10000 (abs_path es) (''.'' @ b @ ''.wstmp-'') []"] ct prod.case]
  show ?thesis
  proof (cases ct)
    case (Inl e)
    with run0 have "r = Some e" "s' = s1" by (simp_all add: give_def)
    with Inl eff show ?thesis by simp
  next
    case (Inr tmp)
    with eff obtain n i where tmp: "tmp = abs_path es @ CHR ''/'' # (''.'' @ b @ ''.wstmp-'' @ decimal n)"
      and new: "fs_map s (fs_path s tmp) = None" "fs_map s1 = (fs_map s)(fs_path s tmp \<mapsto> FFile i [])"
      and s1: "fs_config s1 = fs_config s" "fs_wf s1"
      by auto
    define T where "T = es @ [''.'' @ b @ ''.wstmp-'' @ decimal n]"
    have T: "fs_path s tmp = T" "T \<noteq> es @ [b]" "plain T"
      using fs_path_child [OF b(2) temp_name(1) [OF b(1)]] temp_name [OF b(1)] b by (auto simp: tmp T_def)
    have tT: "temp_of es b T" by (auto simp: temp_of_def T_def)
    have w1: "writing s T s1" using new s1 by (simp add: writing_def T(1))
    have TN: "fs_map s T = None" using new T(1) by simp
    have bad: ?thesis if "r \<noteq> None" "cleaned s T s'"
      using that tT TN by (auto simp: cleaned_def)
    have discard: ?thesis
      if "after (os_remove tmp) (\<lambda>_. give (Some e)) t = (r, s')" "writing s T t" for e t
      using that remove_cleaned [OF that(2) T(1)] bad
      by (auto simp: after_def give_def split: prod.splits)
    have cleanup: ?thesis
      if "after (os_close tmp) (\<lambda>_. after (os_remove tmp) (\<lambda>_. give (Some e))) t = (r, s')" "writing s T t" for e t
    proof -
      obtain r1 t1 where c: "os_close tmp t = (r1, t1)" by (cases "os_close tmp t")
      have "writing s T t1" using that(2) os_settle_same [OF c] by (rule writing_same)
      with that(1) c discard [of e t1] show ?thesis by (simp add: after_def [of "os_close tmp"])
    qed
    obtain r2 s2 where a: "os_append tmp d s1 = (r2, s2)" by (cases "os_append tmp d s1")
    note ap = append_writing [OF w1 T(1) a]
    then have w2: "writing s T s2" by simp
    note run1 = run0 [simplified Inr sum.case Let_def after_def [of "os_append tmp d"] a prod.case]
    show ?thesis
    proof (cases r2)
      case (Some e)
      show ?thesis by (rule cleanup [OF _ w2, of e]) (use run1 Some in simp)
    next
      case None
      have c2: "fs_map s2 T = Some (FFile i d)" using ap None new T(1) by simp
      obtain r3 s3 where sy: "os_sync tmp s2 = (r3, s3)" by (cases "os_sync tmp s2")
      have sm3: "fs_same s2 s3" using sy by (rule os_settle_same)
      have w3: "writing s T s3" using w2 sm3 by (rule writing_same)
      note run2 = run1 [simplified None option.case after_def [of "os_sync tmp"] sy prod.case]
      show ?thesis
      proof (cases r3)
        case (Some e)
        show ?thesis by (rule cleanup [OF _ w3, of e]) (use run2 Some in simp)
      next
        case None
        obtain r4 s4 where cl: "os_close tmp s3 = (r4, s4)" by (cases "os_close tmp s3")
        have sm4: "fs_same s3 s4" using cl by (rule os_settle_same)
        have w4: "writing s T s4" using w3 sm4 by (rule writing_same)
        note run3 = run2 [simplified None option.case after_def [of "os_close tmp"] cl prod.case]
        show ?thesis
        proof (cases r4)
          case (Some e)
          show ?thesis by (rule discard [OF _ w4, of e]) (use run3 Some in simp)
        next
          case None
          obtain r5 s5 where ch: "os_chmod tmp s4 = (r5, s5)" by (cases "os_chmod tmp s4")
          have sm5: "fs_same s4 s5" using ch by (rule os_settle_same)
          have w5: "writing s T s5" using w4 sm5 by (rule writing_same)
          note run4 = run3 [simplified None option.case after_def [of "os_chmod tmp"] ch prod.case]
          show ?thesis
          proof (cases r5)
            case (Some e)
            show ?thesis by (rule discard [OF _ w5, of e]) (use run4 Some in simp)
          next
            case None
            obtain r6 s6 where rn: "os_rename tmp ?dst s5 = (r6, s6)" by (cases "os_rename tmp ?dst s5")
            have c5: "fs_map s5 T = Some (FFile i d)" using c2 fs_sameD(1) sm3 sm4 sm5 by metis
            note run5 = run4 [simplified None option.case after_def [of "os_rename tmp ?dst"] rn prod.case]
            note eff6 = rename_writing [OF w5 T(1) dir(3) T(2) TN T(3) c5 rn]
            show ?thesis
            proof (cases r6)
              case (Some e)
              with eff6 have w6: "writing s T s6" by simp
              show ?thesis by (rule discard [OF _ w6, of e]) (use run5 Some in simp)
            next
              case None
              with run5 have "r = None" "s' = s6" by (simp_all add: give_def)
              with eff6 None show ?thesis by (auto simp: fun_eq_iff)
            qed
          qed
        qed
      qed
    qed
  qed
qed

end
