(* ===== verification/Base64.thy ===== *)
theory Base64
  imports GoStrings
begin

text \<open>
  Go's \<open>base64.StdEncoding\<close>, in which the API carries file contents: encoding, decoding and
  the proof that decoding undoes encoding.
\<close>

definition base64_alphabet :: string where
  "base64_alphabet = ''ABCDEFGHIJKLMNOPQRSTUVWXYZabcdefghijklmnopqrstuvwxyz0123456789+/''"

definition base64_digit :: "nat \<Rightarrow> char" where
  "base64_digit n = base64_alphabet ! n"

fun position :: "'a \<Rightarrow> 'a list \<Rightarrow> nat option" where
  "position x [] = None"
| "position x (y # ys) = (if x = y then Some 0 else map_option Suc (position x ys))"

definition base64_value :: "char \<Rightarrow> nat option" where
  "base64_value c = position c base64_alphabet"

fun base64_encode :: "string \<Rightarrow> string" where
  "base64_encode [] = []"
| "base64_encode [a] =
     (let x = of_char a in [base64_digit (x div 4), base64_digit (x mod 4 * 16), CHR ''='', CHR ''=''])"
| "base64_encode [a, b] =
     (let x = of_char a; y = of_char b
      in [base64_digit (x div 4), base64_digit (x mod 4 * 16 + y div 16), base64_digit (y mod 16 * 4), CHR ''=''])"
| "base64_encode (a # b # c # r) =
     (let x = of_char a; y = of_char b; z = of_char c
      in base64_digit (x div 4) # base64_digit (x mod 4 * 16 + y div 16) #
         base64_digit (y mod 16 * 4 + z div 64) # base64_digit (z mod 64) # base64_encode r)"

text \<open>
  Groups of four digits; the last one may be padded, and then nothing follows. Line breaks are
  skipped, the spare bits of a padded group are ignored.
\<close>

fun base64_groups :: "string \<Rightarrow> string option" where
  "base64_groups [] = Some []"
| "base64_groups (a # b # c # d # r) =
     (case (base64_value a, base64_value b) of
        (Some w, Some x) \<Rightarrow>
          if d = CHR ''='' then
            (if r \<noteq> [] then None
             else if c = CHR ''='' then Some [char_of (w * 4 + x div 16)]
             else (case base64_value c of
                     Some y \<Rightarrow> Some [char_of (w * 4 + x div 16), char_of (x mod 16 * 16 + y div 4)]
                   | None \<Rightarrow> None))
          else
            (case (base64_value c, base64_value d) of
               (Some y, Some z) \<Rightarrow>
                 map_option (\<lambda>s. char_of (w * 4 + x div 16) # char_of (x mod 16 * 16 + y div 4) #
                                 char_of (y mod 4 * 64 + z) # s) (base64_groups r)
             | _ \<Rightarrow> None)
      | _ \<Rightarrow> None)"
| "base64_groups _ = None"

definition base64_decode :: "string \<Rightarrow> string option" where
  "base64_decode s = base64_groups (filter (\<lambda>c. c \<noteq> CHR 0x0A \<and> c \<noteq> CHR 0x0D) s)"

section \<open>Decoding undoes encoding\<close>

lemma position_nth: "distinct xs \<Longrightarrow> n < length xs \<Longrightarrow> position (xs ! n) xs = Some n"
proof (induction xs arbitrary: n)
  case (Cons x xs)
  then show ?case by (cases n) (auto simp: nth_mem)
qed simp

lemma position_None: "position x xs = None \<longleftrightarrow> x \<notin> set xs"
  by (induction xs) auto

lemma alphabet: "length base64_alphabet = 64" "distinct base64_alphabet"
  "CHR ''='' \<notin> set base64_alphabet" "CHR 0x0A \<notin> set base64_alphabet" "CHR 0x0D \<notin> set base64_alphabet"
  by (simp_all add: base64_alphabet_def)

lemma base64_value_digit: "n < 64 \<Longrightarrow> base64_value (base64_digit n) = Some n"
  by (simp add: base64_value_def base64_digit_def position_nth alphabet)

lemma base64_digit_in: "n < 64 \<Longrightarrow> base64_digit n \<in> set base64_alphabet"
  by (simp add: base64_digit_def nth_mem alphabet)

lemma base64_digit_not: "n < 64 \<Longrightarrow> base64_digit n \<noteq> CHR ''='' \<and> base64_digit n \<noteq> CHR 0x0A \<and> base64_digit n \<noteq> CHR 0x0D"
  using base64_digit_in [of n] alphabet by metis

lemma byte_bound: "(of_char c :: nat) < 256"
proof -
  have "(of_char c :: nat) = of_char c mod 256" by simp
  then show ?thesis by (metis mod_less_divisor zero_less_numeral)
qed

lemma byte_parts:
  fixes x y z :: nat
  assumes "x < 256" "y < 256" "z < 256"
  shows "x div 4 < 64" "x mod 4 * 16 + y div 16 < 64" "x mod 4 * 16 < 64" "y mod 16 * 4 + z div 64 < 64"
    "y mod 16 * 4 < 64" "z mod 64 < 64"
  using assms by linarith+

lemma byte_join:
  fixes x y z :: nat
  assumes "x < 256" "y < 256" "z < 256"
  shows "x div 4 * 4 + x mod 4 * 16 div 16 = x"
    "x div 4 * 4 + (x mod 4 * 16 + y div 16) div 16 = x"
    "(x mod 4 * 16 + y div 16) mod 16 * 16 + y mod 16 * 4 div 4 = y"
    "(x mod 4 * 16 + y div 16) mod 16 * 16 + (y mod 16 * 4 + z div 64) div 4 = y"
    "(y mod 16 * 4 + z div 64) mod 4 * 64 + z mod 64 = z"
proof -
  have div_parts: "(m * k + n) div k = m" "(m * k + n) mod k = n" if "n < k" for m n k :: nat
    using that by simp_all
  have q: "y div 16 < 16" "z div 64 < 4" using assms by linarith+
  show "x div 4 * 4 + x mod 4 * 16 div 16 = x" by simp
  show "x div 4 * 4 + (x mod 4 * 16 + y div 16) div 16 = x" using div_parts [OF q(1)] by simp
  show "(x mod 4 * 16 + y div 16) mod 16 * 16 + y mod 16 * 4 div 4 = y" using div_parts [OF q(1)] by simp
  show "(x mod 4 * 16 + y div 16) mod 16 * 16 + (y mod 16 * 4 + z div 64) div 4 = y"
    using div_parts [OF q(1)] div_parts [OF q(2)] by simp
  show "(y mod 16 * 4 + z div 64) mod 4 * 64 + z mod 64 = z" using div_parts [OF q(2)] by simp
qed

lemma base64_groups_encode: "base64_groups (base64_encode s) = Some s"
proof (induction s rule: base64_encode.induct)
  case (2 a)
  have a: "(of_char a :: nat) < 256" by (rule byte_bound)
  show ?case
    using byte_parts [OF a a a] byte_join(1) [OF a a a]
    by (simp add: Let_def base64_value_digit del: mult_Suc_right)
next
  case (3 a b)
  have ab: "(of_char a :: nat) < 256" "(of_char b :: nat) < 256" by (rule byte_bound)+
  show ?case
    using byte_parts [OF ab ab(1)] byte_join(2,3) [OF ab ab(1)] byte_parts(5) [OF ab(1) ab(2) ab(1)]
      base64_digit_not [OF byte_parts(5) [OF ab(1) ab(2) ab(1)]]
    by (simp add: Let_def base64_value_digit)
next
  case (4 a b c r)
  have abc: "(of_char a :: nat) < 256" "(of_char b :: nat) < 256" "(of_char c :: nat) < 256" by (rule byte_bound)+
  show ?case
    using byte_parts [OF abc] byte_join(2,4,5) [OF abc] 4 base64_digit_not [OF byte_parts(6) [OF abc]]
    by (simp add: Let_def base64_value_digit)
qed simp

lemma base64_encode_chars: "c \<in> set (base64_encode s) \<Longrightarrow> c \<in> set base64_alphabet \<or> c = CHR ''=''"
proof (induction s rule: base64_encode.induct)
  case (2 a)
  have a: "(of_char a :: nat) < 256" by (rule byte_bound)
  with 2 show ?case using byte_parts [OF a a a] by (auto simp: Let_def base64_digit_in)
next
  case (3 a b)
  have ab: "(of_char a :: nat) < 256" "(of_char b :: nat) < 256" by (rule byte_bound)+
  with 3 show ?case using byte_parts [OF ab ab(1)] byte_parts(5) [OF ab(1) ab(2) ab(1)]
    by (auto simp: Let_def base64_digit_in)
next
  case (4 a b c' r)
  have abc: "(of_char a :: nat) < 256" "(of_char b :: nat) < 256" "(of_char c' :: nat) < 256" by (rule byte_bound)+
  with 4 show ?case using byte_parts [OF abc] by (auto simp: Let_def base64_digit_in)
qed simp

lemma base64_decode_encode: "base64_decode (base64_encode s) = Some s"
proof -
  have "filter (\<lambda>c. c \<noteq> CHR 0x0A \<and> c \<noteq> CHR 0x0D) (base64_encode s) = base64_encode s"
    using base64_encode_chars [of _ s] alphabet by (intro filter_True) auto
  then show ?thesis by (simp add: base64_decode_def base64_groups_encode)
qed

end
