(* ===== verification/GoTime.thy ===== *)
theory GoTime
  imports GoStrings
begin

text \<open>
  The formatting of times by Go's package \<open>time\<close>, as far as the service uses it: RFC 3339 with
  seconds. A time is the number of seconds since 1970 in UTC, with the offset of its zone in
  seconds where the zone matters.
\<close>

definition pad_zero :: "nat \<Rightarrow> nat \<Rightarrow> string" where
  "pad_zero n x = (let d = decimal x in replicate (n - length d) CHR ''0'' @ d)"

text \<open>The civil calendar, counted in eras of 400 years.\<close>

definition civil_from_days :: "int \<Rightarrow> int \<times> nat \<times> nat" where
  "civil_from_days days =
     (let z = days + 719468; era = z div 146097; doe = z mod 146097;
          yoe = (doe - doe div 1460 + doe div 36524 - doe div 146096) div 365;
          doy = doe - (365 * yoe + yoe div 4 - yoe div 100);
          mp = (5 * doy + 2) div 153;
          d = doy - (153 * mp + 2) div 5 + 1;
          m = (if mp < 10 then mp + 3 else mp - 9)
      in (yoe + era * 400 + (if m \<le> 2 then 1 else 0), nat m, nat d))"

definition format_date_time :: "int \<Rightarrow> string" where
  "format_date_time t =
     (let secs = t mod 86400; (y, m, d) = civil_from_days (t div 86400);
          year = (if y < 0 then CHR ''-'' # pad_zero 4 (nat (- y)) else pad_zero 4 (nat y))
      in year @ ''-'' @ pad_zero 2 m @ ''-'' @ pad_zero 2 d @ ''T'' @ pad_zero 2 (nat (secs div 3600)) @ '':'' @
         pad_zero 2 (nat (secs div 60 mod 60)) @ '':'' @ pad_zero 2 (nat (secs mod 60)))"

text \<open>\<open>t.UTC().Format(time.RFC3339)\<close>\<close>

definition format_rfc3339 :: "int \<Rightarrow> string" where
  "format_rfc3339 t = format_date_time t @ ''Z''"

text \<open>
  \<open>t.Format(time.RFC3339)\<close> in the time's own zone: \<open>Z\<close> for offset zero, else the offset in hours
  and minutes.
\<close>

definition format_zone :: "int \<Rightarrow> string" where
  "format_zone offset =
     (if offset = 0 then ''Z''
      else let minutes = nat (\<bar>offset\<bar> div 60)
           in (if offset < 0 \<and> minutes \<noteq> 0 then ''-'' else ''+'') @ pad_zero 2 (minutes div 60) @ '':'' @
              pad_zero 2 (minutes mod 60))"

record go_time =
  tm_unix :: int
  tm_offset :: int

definition format_time :: "go_time \<Rightarrow> string" where
  "format_time t = format_date_time (tm_unix t + tm_offset t) @ format_zone (tm_offset t)"

end
