(* ===== verification/FileService.thy ===== *)
theory FileService
  imports ClientFrame Base64 GoTime
begin

text \<open>
  \<open>internal/usecase/fs\<close>: the file service. It checks the identity, resolves the path of a request
  to an absolute one below the caller's root, runs the storage operation, journalled when it
  creates or writes, and maps the result for the API.
\<close>

section \<open>The service\<close>

text \<open>
  \<open>sv_branches\<close> is the interface \<open>GitBranchLookup\<close>, nil or its one method.
\<close>

record 'w file_service =
  sv_fs :: "'w workspace_fs"
  sv_mount_root :: string
  sv_branches :: "(request_context \<Rightarrow> string \<Rightarrow> 'w \<Rightarrow> (go_error, string) result \<times> 'w) option"
  sv_recorder :: "'w node_recorder option"

definition new_service_with_stores ::
  "string option \<Rightarrow> 'w workspace_fs \<Rightarrow> string \<Rightarrow>
   (request_context \<Rightarrow> string \<Rightarrow> 'w \<Rightarrow> (go_error, string) result \<times> 'w) option \<Rightarrow>
   'w node_store_ops option \<Rightarrow> 'w intent_store_ops option \<Rightarrow> 'w file_service" where
  "new_service_with_stores home fs root branches nodes intents =
     \<lparr>sv_fs = fs, sv_mount_root = clean_mount_root home root, sv_branches = branches,
      sv_recorder = new_node_recorder nodes intents\<rparr>"

definition new_service ::
  "string option \<Rightarrow> 'w workspace_fs \<Rightarrow> string \<Rightarrow>
   (request_context \<Rightarrow> string \<Rightarrow> 'w \<Rightarrow> (go_error, string) result \<times> 'w) option \<Rightarrow> 'w file_service" where
  "new_service home fs root branches = new_service_with_stores home fs root branches None None"

section \<open>Paths of requests\<close>

definition resolve_abs_path :: "'w file_service \<Rightarrow> request_context \<Rightarrow> string \<Rightarrow> (go_error, string) result" where
  "resolve_abs_path sv ctx rel =
     (if sv_mount_root sv = [] then Inl (detail_error ErrInvalidFileRequest ''workspace mount root is required'')
      else if trim_space rel = [] then Inr (join_path [sv_mount_root sv, user_path_prefix (normalize ctx)])
      else
        (case resolve_relative_path ctx rel of
           Inl e \<Rightarrow> Inl (wrap_both ErrInvalidFileRequest e)
         | Inr resolved \<Rightarrow>
             let abs_p = join_path [sv_mount_root sv, resolved]
             in if \<not> has_prefix abs_p (sv_mount_root sv @ ''/'') \<and> abs_p \<noteq> sv_mount_root sv
                then Inl (detail_error ErrInvalidFileRequest ''path escapes workspace mount root'')
                else Inr abs_p))"

text \<open>The identity check with which the operations on no or several paths start.\<close>

definition checked_context :: "request_context \<Rightarrow> (go_error, request_context) result" where
  "checked_context ctx0 =
     (let ctx = normalize ctx0
      in (case validate ctx of Some e \<Rightarrow> Inl (wrap_both ErrInvalidFileRequest e) | None \<Rightarrow> Inr ctx))"

definition resolve_actor_and_path ::
  "'w file_service \<Rightarrow> request_context \<Rightarrow> string \<Rightarrow> (go_error, request_context \<times> string) result" where
  "resolve_actor_and_path sv ctx0 path =
     (case checked_context ctx0 of
        Inl e \<Rightarrow> Inl e
      | Inr ctx \<Rightarrow> (case resolve_abs_path sv ctx path of Inl e \<Rightarrow> Inl e | Inr abs_p \<Rightarrow> Inr (ctx, abs_p)))"

definition service_user_root :: "'w file_service \<Rightarrow> request_context \<Rightarrow> string" where
  "service_user_root sv ctx = join_path [sv_mount_root sv, user_path_prefix ctx]"

definition normalize_notebook_path :: "string \<Rightarrow> (go_error, string) result" where
  "normalize_notebook_path path0 =
     (let path = trim_space path0
      in if path = [] then Inl (detail_error ErrInvalidFileRequest ''path is required'')
         else
           let base = base_path path
           in if base = ''.'' \<or> base = ''..'' \<or> contains_any base [CHR ''/'', CHR 0x5C]
              then Inl (detail_error ErrInvalidFileRequest ''invalid notebook name'')
              else if \<not> has_suffix (to_lower base) ''.ipynb'' then Inr (path @ ''.ipynb'')
              else Inr path)"

text \<open>The error of the decoder is dropped by its callers.\<close>

definition decode_content :: "string \<Rightarrow> string \<Rightarrow> string option" where
  "decode_content raw b64 =
     (if raw \<noteq> [] then Some raw
      else if trim_space b64 = [] then Some []
      else base64_decode (trim_space b64))"

section \<open>Results\<close>

record file_info_resp =
  fr_name :: string
  fr_path :: string
  fr_is_dir :: bool
  fr_size :: int
  fr_modify_time :: string
  fr_inode_id :: uint64
  fr_owner_uin :: string
  fr_creator_uin :: string
  fr_node_type :: string
  fr_is_git_folder :: bool
  fr_git_branch :: string
  fr_in_recycle :: bool
  fr_origin_path :: string
  fr_file_id :: string

record folder_node_resp =
  no_name :: string
  no_path :: string
  no_is_dir :: bool
  no_size :: int
  no_modify_time :: string
  no_inode_id :: uint64
  no_owner_uin :: string
  no_creator_uin :: string
  no_node_type :: string
  no_is_git_folder :: bool
  no_git_branch :: string
  no_file_id :: string

definition resolve_file_id :: "file_info \<Rightarrow> string" where
  "resolve_file_id info = (if fi_inode_id info = 0 then [] else decimal (unat (fi_inode_id info)))"

definition rel_path_from_mount :: "string \<Rightarrow> string \<Rightarrow> string" where
  "rel_path_from_mount abs_p root =
     (if has_prefix abs_p root then (case rel_path root abs_p of Inr r \<Rightarrow> r | Inl _ \<Rightarrow> abs_p) else abs_p)"

definition map_folder_node :: "file_info \<Rightarrow> string \<Rightarrow> folder_node_resp" where
  "map_folder_node info root =
     \<lparr>no_name = fi_name info, no_path = rel_path_from_mount (fi_path info) root, no_is_dir = fi_is_dir info,
      no_size = fi_size info, no_modify_time = format_rfc3339 (fi_modify_time info),
      no_inode_id = fi_inode_id info, no_owner_uin = fi_owner_uin info, no_creator_uin = fi_creator_uin info,
      no_node_type = fi_node_type info, no_is_git_folder = fi_is_git_folder info, no_git_branch = [],
      no_file_id = resolve_file_id info\<rparr>"

definition map_file_info :: "file_info \<Rightarrow> string \<Rightarrow> file_info_resp" where
  "map_file_info info root =
     (let resp = map_folder_node info root
      in \<lparr>fr_name = no_name resp, fr_path = no_path resp, fr_is_dir = no_is_dir resp, fr_size = no_size resp,
          fr_modify_time = no_modify_time resp, fr_inode_id = no_inode_id resp, fr_owner_uin = no_owner_uin resp,
          fr_creator_uin = no_creator_uin resp, fr_node_type = no_node_type resp,
          fr_is_git_folder = no_is_git_folder resp, fr_git_branch = no_git_branch resp,
          fr_in_recycle = fi_in_recycle info, fr_origin_path = fi_origin_path info, fr_file_id = no_file_id resp\<rparr>)"

section \<open>Git branches\<close>

fun enrich_branch_loop ::
  "(request_context \<Rightarrow> string \<Rightarrow> 'w \<Rightarrow> (go_error, string) result \<times> 'w) \<Rightarrow> request_context \<Rightarrow>
   file_info_resp list \<Rightarrow> 'w \<Rightarrow> file_info_resp list \<times> 'w" where
  "enrich_branch_loop look ident [] w = ([], w)"
| "enrich_branch_loop look ident (f # fs) w =
     (if \<not> fr_is_git_folder f
      then (case enrich_branch_loop look ident fs w of (gs, w1) \<Rightarrow> (f # gs, w1))
      else (case look ident (fr_path f) w of
              (r, w1) \<Rightarrow>
                let g = (case r of Inl e \<Rightarrow> f | Inr branch \<Rightarrow> if branch = [] then f else f\<lparr>fr_git_branch := branch\<rparr>)
                in (case enrich_branch_loop look ident fs w1 of (gs, w2) \<Rightarrow> (g # gs, w2))))"

definition enrich_git_branches ::
  "'w file_service \<Rightarrow> request_context \<Rightarrow> file_info_resp list \<Rightarrow> 'w \<Rightarrow> file_info_resp list \<times> 'w" where
  "enrich_git_branches sv ident files =
     (case sv_branches sv of None \<Rightarrow> give files | Some look \<Rightarrow> enrich_branch_loop look ident files)"

section \<open>Requests\<close>

text \<open>The requests of the service; those with the same fields share a record.\<close>

record svc_path_req =
  \<comment> \<open>\<open>CreateFolderReq\<close>, \<open>GetFileInfoReq\<close>, \<open>ReadFileReq\<close>, \<open>GetFolderNodePathReq\<close>\<close>
  sp_context :: request_context
  sp_path :: string

record svc_file_req =
  \<comment> \<open>\<open>CreateFileReq\<close>, \<open>WriteFileReq\<close>\<close>
  sf_context :: request_context
  sf_path :: string
  sf_content :: string
  sf_content_b64 :: string
  sf_overwrite :: bool

record svc_notebook_req =
  sn_context :: request_context
  sn_path :: string
  sn_kernel_name :: string
  sn_overwrite :: bool

record svc_delete_req =
  sd_context :: request_context
  sd_path :: string
  sd_soft_delete :: bool
  sd_permanent :: bool

record svc_move_req =
  \<comment> \<open>\<open>MovePathReq\<close>, \<open>CopyPathReq\<close>\<close>
  sm_context :: request_context
  sm_src_path :: string
  sm_dest_path :: string
  sm_overwrite :: bool

record svc_rename_req =
  sr_context :: request_context
  sr_path :: string
  sr_new_name :: string
  sr_overwrite :: bool

record svc_list_req =
  sl_context :: request_context
  sl_path :: string
  sl_recursive :: bool

record svc_validate_req =
  sva_context :: request_context
  sva_parent_path :: string
  sva_name :: string

record svc_restore_req =
  srp_context :: request_context
  srp_trash_path :: string
  srp_target_parent :: string

section \<open>Creating and writing\<close>

text \<open>
  \<open>new_id\<close> is the identifier the journal draws. \<open>finish\<close> is the common tail of the operations
  that answer with the information of one file.
\<close>

definition finish :: "'w file_service \<Rightarrow> string \<Rightarrow> (go_error, file_info) result \<Rightarrow> (go_error, file_info_resp) result" where
  "finish sv what r =
     (case r of Inl e \<Rightarrow> Inl (wrap_error what e) | Inr info \<Rightarrow> Inr (map_file_info info (sv_mount_root sv)))"

definition create_folder ::
  "'w file_service \<Rightarrow> string \<Rightarrow> svc_path_req \<Rightarrow> 'w \<Rightarrow> (go_error, file_info_resp) result \<times> 'w" where
  "create_folder sv new_id input =
     (case resolve_actor_and_path sv (sp_context input) (sp_path input) of
        Inl e \<Rightarrow> give (Inl e)
      | Inr (a, abs_p) \<Rightarrow>
          after (recorder_run (sv_recorder sv) new_id IntentOpCreateFolder abs_p a NodeTypeDirectory
                   (wfs_create_folder (sv_fs sv) \<lparr>cd_actor = a, cd_path = abs_p\<rparr>))
            (\<lambda>r. give (finish sv ''create folder'' r)))"

definition create_file ::
  "'w file_service \<Rightarrow> string \<Rightarrow> svc_file_req \<Rightarrow> 'w \<Rightarrow> (go_error, file_info_resp) result \<times> 'w" where
  "create_file sv new_id input =
     (case resolve_actor_and_path sv (sf_context input) (sf_path input) of
        Inl e \<Rightarrow> give (Inl e)
      | Inr (a, abs_p) \<Rightarrow>
          (case decode_content (sf_content input) (sf_content_b64 input) of
             None \<Rightarrow> give (Inl (detail_error ErrInvalidFileRequest ''invalid content_base64''))
           | Some content \<Rightarrow>
               after (recorder_run (sv_recorder sv) new_id IntentOpCreateFile abs_p a NodeTypeFile
                        (wfs_create_file (sv_fs sv)
                           \<lparr>cf_actor = a, cf_path = abs_p, cf_content = content, cf_overwrite = sf_overwrite input\<rparr>))
                 (\<lambda>r. give (finish sv ''create file'' r))))"

definition create_notebook ::
  "'w file_service \<Rightarrow> string \<Rightarrow> svc_notebook_req \<Rightarrow> 'w \<Rightarrow> (go_error, file_info_resp) result \<times> 'w" where
  "create_notebook sv new_id input =
     (case normalize_notebook_path (sn_path input) of
        Inl e \<Rightarrow> give (Inl e)
      | Inr path \<Rightarrow>
          (case resolve_actor_and_path sv (sn_context input) path of
             Inl e \<Rightarrow> give (Inl e)
           | Inr (a, abs_p) \<Rightarrow>
               after (recorder_run (sv_recorder sv) new_id IntentOpCreateNotebook abs_p a NodeTypeNotebook
                        (wfs_create_notebook (sv_fs sv)
                           \<lparr>cn_actor = a, cn_path = abs_p, cn_kernel_name = sn_kernel_name input,
                            cn_overwrite = sn_overwrite input\<rparr>))
                 (\<lambda>r. give (finish sv ''create notebook'' r))))"

definition write_file ::
  "'w file_service \<Rightarrow> string \<Rightarrow> svc_file_req \<Rightarrow> 'w \<Rightarrow> (go_error, file_info_resp) result \<times> 'w" where
  "write_file sv new_id input =
     (case resolve_actor_and_path sv (sf_context input) (sf_path input) of
        Inl e \<Rightarrow> give (Inl e)
      | Inr (a, abs_p) \<Rightarrow>
          (case decode_content (sf_content input) (sf_content_b64 input) of
             None \<Rightarrow> give (Inl (detail_error ErrInvalidFileRequest ''invalid content_base64''))
           | Some content \<Rightarrow>
               after (recorder_run (sv_recorder sv) new_id IntentOpWriteFile abs_p a NodeTypeFile
                        (wfs_write_file (sv_fs sv)
                           \<lparr>wf_actor = a, wf_path = abs_p, wf_content = content, wf_overwrite = sf_overwrite input\<rparr>))
                 (\<lambda>r. give (finish sv ''write file'' r))))"

section \<open>Deleting, moving and copying\<close>

definition delete_path :: "'w file_service \<Rightarrow> svc_delete_req \<Rightarrow> 'w \<Rightarrow> go_error option \<times> 'w" where
  "delete_path sv input =
     (case resolve_actor_and_path sv (sd_context input) (sd_path input) of
        Inl e \<Rightarrow> give (Some e)
      | Inr (a, abs_p) \<Rightarrow>
          after (wfs_delete_path (sv_fs sv)
                   \<lparr>dp_actor = a, dp_path = abs_p, dp_soft_delete = sd_soft_delete input,
                    dp_permanent = sd_permanent input\<rparr>)
            (\<lambda>r. give (map_option (wrap_error ''delete path'') r)))"

text \<open>The two paths of a move or a copy, the source first.\<close>

definition resolve_two_paths ::
  "'w file_service \<Rightarrow> svc_move_req \<Rightarrow> (go_error, request_context \<times> string \<times> string) result" where
  "resolve_two_paths sv input =
     (case checked_context (sm_context input) of
        Inl e \<Rightarrow> Inl e
      | Inr ident \<Rightarrow>
          (case resolve_abs_path sv ident (sm_src_path input) of
             Inl e \<Rightarrow> Inl e
           | Inr src \<Rightarrow>
               (case resolve_abs_path sv ident (sm_dest_path input) of
                  Inl e \<Rightarrow> Inl e
                | Inr dest \<Rightarrow> Inr (ident, src, dest))))"

definition move_path :: "'w file_service \<Rightarrow> svc_move_req \<Rightarrow> 'w \<Rightarrow> (go_error, file_info_resp) result \<times> 'w" where
  "move_path sv input =
     (case resolve_two_paths sv input of
        Inl e \<Rightarrow> give (Inl e)
      | Inr (ident, src, dest) \<Rightarrow>
          after (wfs_move_path (sv_fs sv)
                   \<lparr>mp_actor = ident, mp_src_path = src, mp_dest_path = dest, mp_overwrite = sm_overwrite input\<rparr>)
            (\<lambda>r. give (finish sv ''move path'' r)))"

definition copy_path ::
  "'w file_service \<Rightarrow> svc_move_req \<Rightarrow> 'w \<Rightarrow> ((go_error, file_info_resp) result \<times> 'w) option" where
  "copy_path sv input w =
     (case resolve_two_paths sv input of
        Inl e \<Rightarrow> Some (Inl e, w)
      | Inr (ident, src, dest) \<Rightarrow>
          map_option (\<lambda>(r, w1). (finish sv ''copy path'' r, w1))
            (wfs_copy_path (sv_fs sv)
               \<lparr>cp_actor = ident, cp_src_path = src, cp_dest_path = dest, cp_overwrite = sm_overwrite input\<rparr> w))"

definition valid_name :: "string \<Rightarrow> bool" where
  "valid_name name \<longleftrightarrow> \<not> (name = [] \<or> name = ''.'' \<or> name = ''..'' \<or> contains_any name [CHR ''/'', CHR 0x5C])"

definition rename_path :: "'w file_service \<Rightarrow> svc_rename_req \<Rightarrow> 'w \<Rightarrow> (go_error, file_info_resp) result \<times> 'w" where
  "rename_path sv input =
     (case resolve_actor_and_path sv (sr_context input) (sr_path input) of
        Inl e \<Rightarrow> give (Inl e)
      | Inr (a, abs_p) \<Rightarrow>
          let name = trim_space (sr_new_name input)
          in if \<not> valid_name name
             then give (Inl (detail_error ErrInvalidFileRequest ''new_name is invalid''))
             else after (wfs_rename_path (sv_fs sv)
                           \<lparr>rn_actor = a, rn_path = abs_p, rn_new_name = name, rn_overwrite = sr_overwrite input\<rparr>)
                    (\<lambda>r. give (finish sv ''rename path'' r)))"

section \<open>Reading\<close>

definition list_files ::
  "'w file_service \<Rightarrow> svc_list_req \<Rightarrow> 'w \<Rightarrow> ((go_error, file_info_resp list) result \<times> 'w) option" where
  "list_files sv input w =
     (case resolve_actor_and_path sv (sl_context input) (sl_path input) of
        Inl e \<Rightarrow> Some (Inl e, w)
      | Inr (a, abs_p) \<Rightarrow>
          map_option (\<lambda>(r, w1). case r of
              Inl e \<Rightarrow> (Inl (wrap_error ''list files'' e), w1)
            | Inr files \<Rightarrow>
                after (enrich_git_branches sv (normalize (sl_context input))
                         (map (\<lambda>f. map_file_info f (sv_mount_root sv)) files)) (\<lambda>fs. give (Inr fs)) w1)
            (wfs_list_files (sv_fs sv) \<lparr>lf_actor = a, lf_path = abs_p, lf_recursive = sl_recursive input\<rparr> w))"

definition get_file_info :: "'w file_service \<Rightarrow> svc_path_req \<Rightarrow> request_context \<Rightarrow> 'w \<Rightarrow> (go_error, file_info_resp) result \<times> 'w" where
  \<comment> \<open>\<open>ctx_actor\<close> is what the storage client finds with \<open>RequestContextFrom(ctx)\<close>\<close>
  "get_file_info sv input ctx_actor =
     (case resolve_actor_and_path sv (sp_context input) (sp_path input) of
        Inl e \<Rightarrow> give (Inl e)
      | Inr (a, abs_p) \<Rightarrow>
          after (wfs_get_file_info (sv_fs sv) ctx_actor abs_p) (\<lambda>r. give (finish sv ''get file info'' r)))"

record read_file_resp =
  rr_file :: file_info_resp
  rr_b64 :: string
  rr_size :: int

definition read_file :: "'w file_service \<Rightarrow> svc_path_req \<Rightarrow> 'w \<Rightarrow> (go_error, read_file_resp) result \<times> 'w" where
  "read_file sv input =
     (case resolve_actor_and_path sv (sp_context input) (sp_path input) of
        Inl e \<Rightarrow> give (Inl e)
      | Inr (a, abs_p) \<Rightarrow>
          after (wfs_read_file (sv_fs sv) \<lparr>rf_actor = a, rf_path = abs_p\<rparr>) (\<lambda>r. give (case r of
             Inl e \<Rightarrow> Inl (wrap_error ''read file'' e)
           | Inr (info, content) \<Rightarrow>
               Inr \<lparr>rr_file = map_file_info info (sv_mount_root sv), rr_b64 = base64_encode content,
                    rr_size = int (length content)\<rparr>)))"

definition download_file :: "'w file_service \<Rightarrow> svc_path_req \<Rightarrow> 'w \<Rightarrow> (go_error, string \<times> string) result \<times> 'w" where
  "download_file sv input =
     (case resolve_actor_and_path sv (sp_context input) (sp_path input) of
        Inl e \<Rightarrow> give (Inl e)
      | Inr (a, abs_p) \<Rightarrow>
          after (wfs_read_file (sv_fs sv) \<lparr>rf_actor = a, rf_path = abs_p\<rparr>) (\<lambda>r. give (case r of
             Inl e \<Rightarrow> Inl (wrap_error ''download file'' e)
           | Inr (info, content) \<Rightarrow> Inr (content, fi_name info))))"

section \<open>The tree and the recycle bin\<close>

definition validate_path :: "'w file_service \<Rightarrow> svc_validate_req \<Rightarrow> 'w \<Rightarrow> (go_error, bool) result \<times> 'w" where
  "validate_path sv input =
     (case checked_context (sva_context input) of
        Inl e \<Rightarrow> give (Inl e)
      | Inr ident \<Rightarrow>
          (case (if sva_parent_path input \<noteq> [] then resolve_abs_path sv ident (sva_parent_path input)
                 else Inr (service_user_root sv ident)) of
             Inl e \<Rightarrow> give (Inl e)
           | Inr parent_abs \<Rightarrow>
               after (wfs_validate_path (sv_fs sv)
                        \<lparr>vp_actor = ident, vp_parent_path = parent_abs, vp_name = sva_name input\<rparr>)
                 (\<lambda>r. give (case r of Inl e \<Rightarrow> Inl (wrap_error ''validate path'' e) | Inr b \<Rightarrow> Inr b))))"

definition folder_node_of :: "file_info_resp \<Rightarrow> folder_node_resp" where
  "folder_node_of n =
     \<lparr>no_name = fr_name n, no_path = fr_path n, no_is_dir = fr_is_dir n, no_size = fr_size n,
      no_modify_time = fr_modify_time n, no_inode_id = fr_inode_id n, no_owner_uin = fr_owner_uin n,
      no_creator_uin = fr_creator_uin n, no_node_type = fr_node_type n, no_is_git_folder = fr_is_git_folder n,
      no_git_branch = fr_git_branch n, no_file_id = fr_file_id n\<rparr>"

definition get_folder_node_path ::
  "'w file_service \<Rightarrow> svc_path_req \<Rightarrow> 'w \<Rightarrow> ((go_error, folder_node_resp list) result \<times> 'w) option" where
  "get_folder_node_path sv input w =
     (case resolve_actor_and_path sv (sp_context input) (sp_path input) of
        Inl e \<Rightarrow> Some (Inl e, w)
      | Inr (a, abs_p) \<Rightarrow>
          map_option (\<lambda>(r, w1). case r of
              Inl e \<Rightarrow> (Inl (wrap_error ''get folder node path'' e), w1)
            | Inr nodes \<Rightarrow>
                after (enrich_git_branches sv (normalize (sp_context input))
                         (map (\<lambda>f. map_file_info f (sv_mount_root sv)) nodes))
                  (\<lambda>fs. give (Inr (map folder_node_of fs))) w1)
            (wfs_get_folder_node_path (sv_fs sv) \<lparr>fn_actor = normalize (sp_context input), fn_path = abs_p\<rparr> w))"

definition list_recycle_bin ::
  "'w file_service \<Rightarrow> request_context \<Rightarrow> 'w \<Rightarrow> ((go_error, file_info_resp list) result \<times> 'w) option" where
  "list_recycle_bin sv ctx w =
     (case checked_context ctx of
        Inl e \<Rightarrow> Some (Inl e, w)
      | Inr ident \<Rightarrow>
          map_option (\<lambda>(r, w1). (case r of
              Inl e \<Rightarrow> Inl (wrap_error ''list recycle bin'' e)
            | Inr files \<Rightarrow>
                Inr (map (\<lambda>f. map_file_info f (sv_mount_root sv)) (filter (\<lambda>f. fi_name f \<noteq> ''_meta'') files)), w1))
            (wfs_list_recycle_bin (sv_fs sv) ident w))"

definition restore_path :: "'w file_service \<Rightarrow> svc_restore_req \<Rightarrow> 'w \<Rightarrow> (go_error, file_info_resp) result \<times> 'w" where
  "restore_path sv input =
     (case resolve_actor_and_path sv (srp_context input) (srp_trash_path input) of
        Inl e \<Rightarrow> give (Inl e)
      | Inr (a, trash_abs) \<Rightarrow>
          after (wfs_restore_path (sv_fs sv)
                   \<lparr>rp_actor = a, rp_trash_path = trash_abs, rp_target_parent = srp_target_parent input\<rparr>)
            (\<lambda>r. give (finish sv ''restore path'' r)))"

definition empty_recycle_bin :: "'w file_service \<Rightarrow> request_context \<Rightarrow> 'w \<Rightarrow> go_error option \<times> 'w" where
  "empty_recycle_bin sv ctx =
     (case checked_context ctx of
        Inl e \<Rightarrow> give (Some e)
      | Inr ident \<Rightarrow>
          after (wfs_empty_recycle_bin (sv_fs sv) ident)
            (\<lambda>r. give (map_option (wrap_error ''empty recycle bin'') r)))"

end
