(* ===== verification/Isolation.thy ===== *)
theory Isolation
  imports AtomicWrite FileService
begin

text \<open>
  A caller cannot change anything outside its own root. The paths the service resolves lie
  below the root of the caller, and the storage client, given such paths, changes nothing
  elsewhere; at most it creates the missing directories above the root.
\<close>

section \<open>The user's area\<close>

definition user_elems :: "string list \<Rightarrow> request_context \<Rightarrow> string list" where
  "user_elems M a = M @ prefix_elems a"

text \<open>A store that keeps its rows elsewhere than on the mounted file system.\<close>

definition off_disk :: "'x world node_store_ops \<Rightarrow> bool" where
  "off_disk ns \<longleftrightarrow>
     (\<forall>m w. w_os (snd (ns_upsert ns m w)) = w_os w \<and> w_os (snd (ns_mark_deleted ns m w)) = w_os w) \<and>
     (\<forall>ids w. w_os (snd (ns_lookup ns ids w)) = w_os w)"

definition area :: "'x fs_client \<Rightarrow> string list \<Rightarrow> request_context \<Rightarrow> bool" where
  "area c M a \<longleftrightarrow> plain M \<and> element_context a \<and> fc_mount_root c = abs_path M \<and>
     (\<forall>ns. fc_store c = Some ns \<longrightarrow> off_disk ns)"

text \<open>Paths at or below a directory, and paths strictly below it.\<close>

definition at_or_below :: "string list \<Rightarrow> string \<Rightarrow> bool" where
  "at_or_below R p \<longleftrightarrow> (\<exists>es. plain (R @ es) \<and> p = abs_path (R @ es))"

definition below :: "string list \<Rightarrow> string \<Rightarrow> bool" where
  "below R p \<longleftrightarrow> (\<exists>es b. plain (R @ es @ [b]) \<and> p = abs_path (R @ es @ [b]))"

definition within :: "string list \<Rightarrow> fsys \<Rightarrow> fsys \<Rightarrow> bool" where
  "within R s s' \<longleftrightarrow> fs_config s' = fs_config s \<and> confined R s s'"

lemma within_refl: "within R s s"
  by (simp add: within_def confined_def)

lemma within_trans: "within R s s1 \<Longrightarrow> within R s1 s2 \<Longrightarrow> within R s s2"
  using confined_trans by (auto simp: within_def)

lemma fs_step_within: "fs_step R s s' \<Longrightarrow> fs_wf s \<Longrightarrow> fs_wf s' \<and> within R s s'"
  by (auto simp: fs_step_def within_def)

lemma plain_user_elems: "plain M \<Longrightarrow> element_context a \<Longrightarrow> plain (user_elems M a)"
  by (simp add: user_elems_def plain_prefix_elems)

lemma join_user_root:
  "plain M \<Longrightarrow> element_context a \<Longrightarrow> join_path [abs_path M, user_path_prefix a] = abs_path (user_elems M a)"
  using join_path_abs_plain [of M "prefix_elems a"] plain_prefix_elems [of a]
  by (simp add: user_path_prefix_elems user_elems_def)

lemma area_root: "area c M a \<Longrightarrow> client_user_root c a = abs_path (user_elems M a)"
  using join_user_root [of M a] by (simp add: area_def client_user_root_def abs_path_def)

lemma plain_trash [simp]: "plain_elem ''trash''" "plain_elem ''_meta''"
  by (simp_all add: plain_elem_def)

lemma plain_json: "CHR ''/'' \<notin> set x \<Longrightarrow> plain_elem (x @ ''.json'')"
  by (auto simp: plain_elem_def append_eq_Cons_conv)

lemma area_trash:
  assumes "area c M a"
  shows "user_trash_dir c a = abs_path (user_elems M a @ [''trash''])"
    "user_trash_meta_dir c a = abs_path (user_elems M a @ [''trash'', ''_meta''])"
    "CHR ''/'' \<notin> set x \<Longrightarrow> trash_meta_path c a x = abs_path (user_elems M a @ [''trash'', ''_meta'', x @ ''.json''])"
proof -
  have pl: "plain (user_elems M a)" using assms by (simp add: area_def plain_user_elems)
  show t: "user_trash_dir c a = abs_path (user_elems M a @ [''trash''])"
    using join_path_abs_elem [OF pl, of "''trash''"] by (simp add: user_trash_dir_def area_root [OF assms])
  show m: "user_trash_meta_dir c a = abs_path (user_elems M a @ [''trash'', ''_meta''])"
    using join_path_abs_elem [of "user_elems M a @ [''trash'']" "''_meta''"] pl
    by (simp add: user_trash_meta_dir_def t)
  assume "CHR ''/'' \<notin> set x"
  then have "plain_elem (x @ ''.json'')" by (auto simp: plain_elem_def append_eq_Cons_conv)
  then show "trash_meta_path c a x = abs_path (user_elems M a @ [''trash'', ''_meta'', x @ ''.json''])"
    using join_path_abs_elem [of "user_elems M a @ [''trash'', ''_meta'']" "x @ ''.json''"] pl
    by (simp add: trash_meta_path_def m)
qed

lemma read_dir_names:
  assumes "fs_wf s" "os_read_dir p s = (Inr ents, s')" "e \<in> set ents"
  shows "plain_elem (fst e)"
proof -
  obtain f s1 where t: "fault_tick s = (f, s1)" by (cases "fault_tick s")
  have wf1: "fs_wf s1" using fs_sameD(3) [OF fault_tick_same [OF t]] assms(1) by simp
  have "fst e \<in> set (fs_children s1 (fs_path s1 p))"
    using assms(2,3) t by (auto simp: os_read_dir_def split: option.splits sum.splits fnode.splits)
  then obtain n where "fs_map s1 (fs_path s1 p @ [fst e]) = Some n" by (auto simp: fs_children_iff)
  then show ?thesis using fs_wfD(4) [OF wf1] by fastforce
qed

lemma trash_entry_plain:
  assumes "area c M a" "user_rel_path c a p = Inr x" "x \<noteq> []"
  shows "plain_elem (trash_entry_name x)"
proof -
  let ?R = "user_elems M a"
  have pl: "plain ?R" "?R \<noteq> []" using assms(1) by (auto simp: area_def plain_user_elems) (simp add: user_elems_def)
  from assms have pre: "has_prefix (clean p) (abs_path ?R @ ''/'')" and x: "x = trim_prefix (clean p) (abs_path ?R @ ''/'')"
    by (auto simp: user_rel_path_def Let_def area_root split: if_splits)
  have "is_abs (clean p)" using pre by (auto simp: has_prefix_def is_abs_def abs_path_def prefix_def)
  then have abs: "is_abs p" using clean_relative by blast
  then have c: "clean p = abs_path (path_elems p)" "plain (path_elems p)"
    by (simp_all add: clean_rooted plain_path_elems)
  with pre pl have "strict_prefix ?R (path_elems p)" by (simp add: abs_prefix_slash)
  then obtain z zs where e: "path_elems p = ?R @ z # zs" by (auto simp: strict_prefix_Cons_ex)
  have "abs_path (?R @ z # zs) = (abs_path ?R @ ''/'') @ join_with ''/'' (z # zs)"
    using pl(2) by (simp add: abs_path_def join_with_append)
  then have x: "x = join_with ''/'' (z # zs)" using x c(1) by (simp only: e) (simp add: trim_prefix_def has_prefix_def)
  have zp: "plain_elem z" using c(2) e by simp
  show ?thesis
  proof (cases zs)
    case Nil
    then have "x = z" using x by simp
    moreover have "replace_slash z ''__'' = z"
    proof -
      have "CHR ''/'' \<notin> set z" using zp by (simp add: plain_elem_def)
      then show ?thesis by (induction z) (auto simp: replace_slash_def)
    qed
    ultimately show ?thesis using zp by (simp add: trash_entry_name_def)
  next
    case (Cons y ys)
    then have "CHR ''/'' \<in> set x" using x by simp
    then have "CHR ''_'' \<in> set (trash_entry_name x)"
      by (auto simp: trash_entry_name_def replace_slash_def)
    moreover have "CHR ''/'' \<notin> set (trash_entry_name x)"
      by (auto simp: trash_entry_name_def replace_slash_def split: if_splits)
    ultimately show ?thesis by (auto simp: plain_elem_def)
  qed
qed

section \<open>The client stays inside\<close>

lemma at_or_belowI: "plain R \<Longrightarrow> plain es \<Longrightarrow> at_or_below R (abs_path (R @ es))"
  by (auto simp: at_or_below_def)

text \<open>The system calls, on a path at or below the root.\<close>

lemma keeps_within:
  assumes "\<And>s r s'. A \<Longrightarrow> fs_wf s \<Longrightarrow> f s = (r, s') \<Longrightarrow> fs_step R s s'"
  shows "os_keeps (\<lambda>w :: 'x world. A \<longrightarrow> fs_wf (w_os w)) (\<lambda>w w'. A \<longrightarrow> within R (w_os w) (w_os w')) f"
proof -
  have "(A \<longrightarrow> fs_wf s) \<and> (A \<longrightarrow> within R (w_os w) s)"
    if "A \<longrightarrow> fs_wf (w_os w)" "f (w_os w) = (r, s)" for w :: "'x world" and r s
    using that fs_step_within assms by blast
  then show ?thesis unfolding os_keeps_def by auto
qed

lemma atomic_write_step:
  assumes "fs_wf s" "atomic_write_file p d s = (r, s')" "below R p"
  shows "fs_step R s s'"
proof -
  obtain es b where p: "plain ((R @ es) @ [b])" "p = abs_path ((R @ es) @ [b])"
    using assms(3) by (auto simp: below_def)
  note eff = atomic_write_effect [OF assms(1) p(1) assms(2) [unfolded p(2)]]
  have "confined R s s'"
  proof (cases "r = None")
    case True
    with eff obtain i where "fs_map s' = (fs_map s)((R @ es) @ [b] \<mapsto> FFile i d)" by blast
    then show ?thesis by (auto simp: confined_def)
  next
    case False
    with eff consider "fs_map s' = fs_map s" | T where "temp_of (R @ es) b T" "cleaned s T s'" by blast
    then show ?thesis
    proof cases
      case 1
      then show ?thesis by (simp add: confined_def)
    next
      case 2
      then have "prefix R T" by (auto simp: temp_of_def)
      with 2(2) have "fs_map s' k = fs_map s k" if "\<not> prefix R k" for k
        using that by (cases "k = T") (simp_all add: cleaned_def)
      then show ?thesis by (auto simp: confined_def)
    qed
  qed
  with eff show ?thesis by (simp add: fs_step_def)
qed

lemma at_or_below_path: "at_or_below R p \<Longrightarrow> prefix R (fs_path s p)"
  by (auto simp: at_or_below_def fs_path_abs)

lemma below_at: "below R p \<Longrightarrow> at_or_below R p"
  unfolding below_def at_or_below_def by blast

lemma mkdir_parent_step:
  assumes "at_or_below R p" "fs_wf s" "os_mkdir_all (dir_path p) s = (r, s')"
  shows "fs_step R s s'"
proof -
  obtain es where p: "plain (R @ es)" "p = abs_path (R @ es)" using assms(1) by (auto simp: at_or_below_def)
  note eff = os_mkdir_all_effect [OF assms(2,3)]
  show ?thesis
  proof (cases "R @ es" rule: rev_cases)
    case Nil
    then show ?thesis using os_mkdir_all_step [OF assms(2,3), of R] by simp
  next
    case (snoc fs b)
    with p have "fs_path s (dir_path p) = fs" by (simp add: dir_abs_path fs_path_abs)
    with eff have d: "dirs_added fs s s'" by simp
    have "prefix fs R \<or> prefix R fs" using snoc by (metis prefixI prefix_same_cases)
    then show ?thesis
    proof
      assume "prefix R fs"
      with d show ?thesis by (rule dirs_added_step)
    next
      assume f: "prefix fs R"
      have "prefix R k \<or> strict_prefix k R" if "prefix k fs" for k
        using that f by (metis prefix_order.le_less prefix_order.order_trans)
      with d show ?thesis unfolding dirs_added_def fs_step_def confined_def by blast
    qed
  qed
qed

interpretation confined: client_frame
  "\<lambda>w. area c M a \<longrightarrow> fs_wf (w_os w)"
  "\<lambda>w w'. area c M a \<longrightarrow> within (user_elems M a) (w_os w) (w_os w')"
  c a "\<lambda>p. area c M a \<longrightarrow> at_or_below (user_elems M a) p" "\<lambda>p. area c M a \<longrightarrow> below (user_elems M a) p"
  for c :: "'x fs_client" and M a
proof (unfold_locales, goal_cases)
  case (1 w)
  then show ?case by (simp add: within_refl)
next
  case (2 w w1 w2)
  then show ?case using within_trans by blast
next
  case (3 w s)
  then show ?case using fs_step_within [OF fs_same_step] by simp
next
  case (4 ns w m r w')
  then have "area c M a \<Longrightarrow> w_os w' = w_os w" by (auto simp: area_def off_disk_def) (metis snd_conv)
  with 4 show ?case by (simp add: within_refl)
next
  case (5 ns w m r w')
  then have "area c M a \<Longrightarrow> w_os w' = w_os w" by (auto simp: area_def off_disk_def) (metis snd_conv)
  with 5 show ?case by (simp add: within_refl)
next
  case (6 ns w ids lr w')
  then have "area c M a \<Longrightarrow> w_os w' = w_os w" by (auto simp: area_def off_disk_def) (metis snd_conv)
  with 6 show ?case by (simp add: within_refl)
next
  case (7 p)
  show ?case by (rule keeps_within) (use 7 in \<open>blast intro: os_mkdir_all_step at_or_below_path\<close>)
next
  case (8 p)
  show ?case by (rule keeps_within) (use 8 in \<open>blast intro: mkdir_parent_step\<close>)
next
  case (9 p q)
  show ?case by (rule keeps_within) (use 9 in \<open>blast intro: os_rename_step at_or_below_path\<close>)
next
  case (10 p)
  show ?case by (rule keeps_within) (use 10 in \<open>blast intro: os_remove_step at_or_below_path\<close>)
next
  case (11 p)
  show ?case by (rule keeps_within) (use 11 in \<open>blast intro: os_remove_all_step at_or_below_path\<close>)
next
  case (12 p)
  show ?case by (rule keeps_within) (use 12 in \<open>blast intro: os_create_step at_or_below_path\<close>)
next
  case (13 p d)
  show ?case by (rule keeps_within) (use 13 in \<open>blast intro: os_append_step at_or_below_path\<close>)
next
  case (14 p d)
  show ?case by (rule keeps_within) (use 14 in \<open>blast intro: atomic_write_step\<close>)
next
  case (15 w ents s e)
  have "at_or_below (user_elems M a) (join_path [user_trash_dir c a, fst e]) \<and>
      at_or_below (user_elems M a) (trash_meta_path c a (fst e))" if ar: "area c M a"
  proof -
    have e: "plain_elem (fst e)" using 15 ar read_dir_names by blast
    have "plain (user_elems M a)" using ar by (simp add: area_def plain_user_elems)
    with e join_path_abs_elem [of "user_elems M a @ [''trash'']" "fst e"]
    have j: "join_path [user_trash_dir c a, fst e] = abs_path (user_elems M a @ [''trash'', fst e])"
      by (simp add: area_trash [OF ar])
    have "CHR ''/'' \<notin> set (fst e)" using e by (simp add: plain_elem_def)
    from area_trash(3) [OF ar this] plain_json [OF this] show ?thesis
      using \<open>plain (user_elems M a)\<close> e by (simp add: j at_or_belowI)
  qed
  then show ?case by blast
next
  case (16 p)
  then show ?case using below_at by blast
next
  case 17
  have "at_or_below (user_elems M a) (user_trash_dir c a)" if ar: "area c M a"
    unfolding area_trash [OF ar] using ar by (simp add: area_def plain_user_elems at_or_belowI)
  then show ?case by blast
next
  case 18
  have "at_or_below (user_elems M a) (user_trash_meta_dir c a)" if ar: "area c M a"
    unfolding area_trash [OF ar] using ar
    by (simp add: area_def plain_user_elems at_or_belowI)
  then show ?case by blast
next
  case (19 x)
  have "at_or_below (user_elems M a) (trash_meta_path c a x)" if ar: "area c M a"
    unfolding area_trash(3) [OF ar 19] using ar plain_json [OF 19]
    by (simp add: area_def plain_user_elems at_or_belowI)
  then show ?case by blast
next
  case (20 p x)
  have "at_or_below (user_elems M a) (join_path [user_trash_dir c a, trash_entry_name x])" if ar: "area c M a"
  proof -
    have e: "plain_elem (trash_entry_name x)" using trash_entry_plain [OF ar 20] .
    have "plain (user_elems M a)" using ar by (simp add: area_def plain_user_elems)
    with e join_path_abs_elem [of "user_elems M a @ [''trash'']" "trash_entry_name x"]
    show ?thesis
      by (simp add: area_trash [OF ar] at_or_belowI)
  qed
  then show ?case by blast
qed

section \<open>Copying stays inside\<close>

lemma segs_abs_path: "plain es \<Longrightarrow> segs (abs_path es) = es"
proof (cases es)
  case Nil
  then show ?thesis by (simp add: segs_def abs_path_def)
next
  case (Cons x xs)
  assume p: "plain es"
  then have "split_on CHR ''/'' (join_with ''/'' es) = es"
    using Cons by (intro split_join) (auto simp: plain_def plain_elem_def)
  moreover have "abs_path es \<noteq> ''/''" using p Cons join_plain_Nil [OF p] by (auto simp: abs_path_def)
  ultimately show ?thesis by (simp add: segs_def abs_path_def)
qed

lemma drop_common_append: "drop_common S (S @ xs) = ([], xs)"
  by (induction S) auto

lemma rel_path_below:
  assumes "plain (S @ xs)"
  shows "rel_path (abs_path S) (abs_path (S @ xs)) = Inr (if xs = [] then ''.'' else join_with ''/'' xs)"
proof -
  have pl: "plain S" "plain xs" using assms by simp_all
  have c: "clean (abs_path S) = abs_path S" "clean (abs_path (S @ xs)) = abs_path (S @ xs)"
    using pl by (simp_all add: clean_abs_path)
  have "abs_path S \<noteq> ''.''" by (simp add: abs_path_def)
  moreover have "abs_path (S @ xs) = abs_path S \<longleftrightarrow> xs = []" using assms pl by (simp add: abs_path_inj)
  ultimately show ?thesis
    using c pl by (simp add: rel_path_def Let_def segs_abs_path drop_common_append)
qed

lemma copy_file_step:
  assumes "fs_wf s" "at_or_below R q" "copy_file p q s = (r, s')"
  shows "fs_step R s s'"
proof -
  have pre: "prefix R (fs_path t q)" for t using assms(2) by (rule at_or_below_path)
  obtain r1 s1 where a: "os_mkdir_all (dir_path q) s = (r1, s1)" by (cases "os_mkdir_all (dir_path q) s")
  have 1: "fs_step R s s1" using mkdir_parent_step [OF assms(2,1) a] .
  then have w1: "fs_wf s1" using assms(1) fs_step_wf by blast
  obtain r2 s2 where b: "os_open p s1 = (r2, s2)" by (cases "os_open p s1")
  have 2: "fs_step R s s2" using 1 fs_same_step [OF os_open_same [OF b]] fs_step_trans by blast
  then have w2: "fs_wf s2" using assms(1) fs_step_wf by blast
  obtain r3 s3 where c: "os_create q s2 = (r3, s3)" by (cases "os_create q s2")
  have 3: "fs_step R s s3" using 2 os_create_step [OF w2 c pre] fs_step_trans by blast
  then have w3: "fs_wf s3" using assms(1) fs_step_wf by blast
  obtain r4 s4 where d: "os_io_copy p q s3 = (r4, s4)" by (cases "os_io_copy p q s3")
  have 4: "fs_step R s s4" using 3 os_io_copy_step [OF w3 d pre] fs_step_trans by blast
  have "s' \<in> {s1, s2, s3, s4}"
    using assms(3) a b c d by (cases r1; cases r2; cases r3) (auto simp: copy_file_def after_def give_def)
  with 1 2 3 4 show ?thesis by blast
qed

lemma copy_entry_step:
  assumes "fs_wf s" "plain (S @ xs)" "plain D" "at_or_below R (abs_path D)"
    and "copy_entry (abs_path S) (abs_path D) (abs_path (S @ xs)) d we s = (r, s')"
  shows "fs_step R s s'"
proof (cases "we = None \<and> xs \<noteq> []")
  case False
  then have "s' = s"
    using assms(5) rel_path_below [of S "[]"] assms(2) by (cases we) (auto simp: copy_entry_def give_def)
  then show ?thesis by simp
next
  case True
  have pl: "plain xs" using assms(2) by simp
  have "elems ''.'' = []" by (simp add: elems_def)
  then have dot: "join_with ''/'' xs \<noteq> ''.''" using elems_join [OF pl] True by metis
  have rel: "rel_path (abs_path S) (abs_path (S @ xs)) = Inr (join_with ''/'' xs)"
    using rel_path_below [OF assms(2)] True by simp
  have j: "join_path [abs_path D, join_with ''/'' xs] = abs_path (D @ xs)"
    using assms(3) pl by (rule join_path_abs_plain)
  obtain es where "plain (R @ es)" "abs_path D = abs_path (R @ es)" using assms(4) by (auto simp: at_or_below_def)
  then have "D = R @ es" using assms(3) by (simp only: abs_path_inj)
  then have at: "at_or_below R (abs_path (D @ xs))"
    using assms(3) pl at_or_belowI [of R "es @ xs"] by simp
  show ?thesis
  proof (cases d)
    case True
    with assms(5) rel j dot \<open>we = None \<and> xs \<noteq> []\<close> have "s' = snd (os_mkdir_all (abs_path (D @ xs)) s)"
      by (auto simp: copy_entry_def after_def give_def split: prod.splits)
    with os_mkdir_all_step [OF assms(1) _ at_or_below_path [OF at]] show ?thesis
      by (metis prod.collapse)
  next
    case False
    with assms(5) rel j dot True have "copy_file (abs_path (S @ xs)) (abs_path (D @ xs)) s = (r, s')"
      by (simp add: copy_entry_def)
    with copy_file_step [OF assms(1) at] show ?thesis by blast
  qed
qed

text \<open>
  A walk below \<open>S\<close> whose callback stays below \<open>R\<close>: every entry on the stack is a path below
  \<open>S\<close>, since the names read from a directory are plain.
\<close>

lemma walk_loop_step:
  assumes fn: "\<And>xs d we s r s'. fs_wf s \<Longrightarrow> plain (S @ xs) \<Longrightarrow> fn (abs_path (S @ xs)) d we s = (r, s') \<Longrightarrow> fs_step R s s'"
    and run: "walk_loop os_read_dir fn stack s = Some (r, s')"
    and "fs_wf s" "\<forall>pd \<in> set stack. at_or_below S (fst pd)"
  shows "fs_step R s s'"
proof -
  define P where "P rd g st v out \<longleftrightarrow> (rd = os_read_dir \<and> g = fn \<and> fs_wf v \<and>
      (\<forall>pd \<in> set st. at_or_below S (fst pd)) \<longrightarrow> fs_step R v (snd out))"
    for rd :: "string \<Rightarrow> fsys \<Rightarrow> (os_error, (string \<times> bool) list) result \<times> fsys"
      and g :: "string \<Rightarrow> bool \<Rightarrow> os_error option \<Rightarrow> fsys \<Rightarrow> go_error option \<times> fsys"
      and st :: "(string \<times> bool) list" and v and out :: "go_error option \<times> fsys"
  have "P os_read_dir fn stack s (r, s')"
  proof (rule walk_loop.raw_induct [of P, OF _ run])
    fix rec rd g st v out
    assume ih: "\<And>rd g st v out. rec rd g st v = Some out \<Longrightarrow> P rd g st v out"
      and body: "(case st of [] \<Rightarrow> Some (None, v)
      | pd # rest \<Rightarrow>
          (case g (fst pd) (snd pd) None v of
             (None, w1) \<Rightarrow>
               if \<not> snd pd then rec rd g rest w1
               else (case rd (fst pd) w1 of
                    (Inl e, w2) \<Rightarrow>
                      (case g (fst pd) True (Some e) w2 of
                         (None, w3) \<Rightarrow> rec rd g rest w3
                       | (Some x, w3) \<Rightarrow> Some (Some x, w3))
                  | (Inr entries, w2) \<Rightarrow>
                      rec rd g (map (\<lambda>(x, d). (join_path [fst pd, x], d)) entries @ rest) w2)
           | (Some e, w1) \<Rightarrow> Some (Some e, w1))) = Some out"
    show "P rd g st v out"
      unfolding P_def
    proof (intro impI, elim conjE)
      assume eqs: "rd = os_read_dir" "g = fn" and wf: "fs_wf v" and st: "\<forall>pd \<in> set st. at_or_below S (fst pd)"
      have go: "fs_step R v (snd out)" if "rec os_read_dir fn st' u = Some out" "fs_step R v u"
        "\<forall>pd \<in> set st'. at_or_below S (fst pd)" for st' u
      proof -
        have "fs_wf u" using that(2) wf by (rule fs_step_wf)
        with ih [OF that(1)] that(3) have "fs_step R u (snd out)" by (simp add: P_def)
        with that(2) show ?thesis by (rule fs_step_trans)
      qed
      show "fs_step R v (snd out)"
      proof (cases st)
        case Nil
        with body show ?thesis by auto
      next
        case (Cons pd rest)
        obtain xs where pd: "plain (S @ xs)" "fst pd = abs_path (S @ xs)"
          using st Cons by (auto simp: at_or_below_def)
        have rest: "\<forall>pd \<in> set rest. at_or_below S (fst pd)" using st Cons by simp
        obtain r1 w1 where f1: "fn (fst pd) (snd pd) None v = (r1, w1)" by (cases "fn (fst pd) (snd pd) None v")
        have s1: "fs_step R v w1" using fn [OF wf pd(1)] f1 pd(2) by simp
        obtain r2 w2 where f2: "os_read_dir (fst pd) w1 = (r2, w2)" by (cases "os_read_dir (fst pd) w1")
        have s2: "fs_step R v w2" using s1 fs_same_step [OF os_read_dir_same [OF f2]] by (rule fs_step_trans)
        show ?thesis
        proof (cases r1)
          case (Some e)
          with body Cons eqs f1 s1 show ?thesis by auto
        next
          case None
          show ?thesis
          proof (cases "snd pd")
            case False
            with None body Cons eqs f1 go [OF _ s1 rest] show ?thesis by simp
          next
            case True
            show ?thesis
            proof (cases r2)
              case (Inl e)
              obtain r3 w3 where f3: "fn (fst pd) True (Some e) w2 = (r3, w3)" by (cases "fn (fst pd) True (Some e) w2")
              have s3: "fs_step R v w3"
                using fn [OF fs_step_wf [OF s2 wf] pd(1)] f3 pd(2) s2 fs_step_trans by metis
              with True Inl None body Cons eqs f1 f2 f3 go [OF _ s3 rest] show ?thesis
                by (cases r3) auto
            next
              case (Inr entries)
              have ents: "at_or_below S (join_path [fst pd, fst e])" if "e \<in> set entries" for e
              proof -
                have "plain_elem (fst e)"
                  using read_dir_names [OF fs_step_wf [OF s1 wf] f2 [unfolded Inr] that] .
                then have "join_path [fst pd, fst e] = abs_path (S @ xs @ [fst e])"
                  using join_path_abs_elem [OF pd(1)] pd(2) by simp
                with pd(1) \<open>plain_elem (fst e)\<close> show ?thesis using at_or_belowI [of S "xs @ [fst e]"] by simp
              qed
              have "rec os_read_dir fn (map (\<lambda>(x, d). (join_path [fst pd, x], d)) entries @ rest) w2 = Some out"
                using True Inr None body Cons eqs f1 f2 by simp
              then show ?thesis by (rule go [OF _ s2]) (use ents rest in auto)
            qed
          qed
        qed
      qed
    qed
  qed
  with assms(3,4) show ?thesis by (simp add: P_def)
qed

lemma copy_dir_step:
  assumes "fs_wf s" "plain S" "plain D" "at_or_below R (abs_path D)" "copy_dir (abs_path S) (abs_path D) s = Some (r, s')"
  shows "fs_step R s s'"
proof -
  obtain r1 s1 where a: "os_stat (abs_path S) s = (r1, s1)" by (cases "os_stat (abs_path S) s")
  have 1: "fs_step R s s1" using os_stat_same [OF a] by (rule fs_same_step)
  have w1: "fs_wf s1" using 1 assms(1) by (rule fs_step_wf)
  obtain r2 s2 where b: "os_mkdir_all (abs_path D) s1 = (r2, s2)" by (cases "os_mkdir_all (abs_path D) s1")
  have 2: "fs_step R s s2" using 1 os_mkdir_all_step [OF w1 b at_or_below_path [OF assms(4)]] by (rule fs_step_trans)
  have w2: "fs_wf s2" using 2 assms(1) by (rule fs_step_wf)
  obtain r3 s3 where c: "os_lstat (abs_path S) s2 = (r3, s3)" by (cases "os_lstat (abs_path S) s2")
  have st3: "fs_step R s s3" using 2 fs_same_step [OF os_stat_same [OF c]] by (rule fs_step_trans)
  have w3: "fs_wf s3" using st3 assms(1) by (rule fs_step_wf)
  have entry: "fs_step R v v'" if "fs_wf v" "plain (S @ xs)"
    "copy_entry (abs_path S) (abs_path D) (abs_path (S @ xs)) d we v = (x, v')" for xs d we v x v'
    using copy_entry_step [OF that(1,2) assms(3,4) that(3)] .
  have "s' = s1 \<or> s' = s2 \<or>
    (\<exists>e. copy_entry (abs_path S) (abs_path D) (abs_path S) False (Some e) s3 = (r, s')) \<or>
    (\<exists>d. walk_loop os_read_dir (copy_entry (abs_path S) (abs_path D)) [(abs_path S, d)] s3 = Some (r, s'))"
    using assms(5) a b c
    by (cases r1; cases r2; cases r3) (auto simp: copy_dir_def after_def walk_dir_def)
  then consider "s' = s1" | "s' = s2"
    | e where "copy_entry (abs_path S) (abs_path D) (abs_path (S @ [])) False (Some e) s3 = (r, s')"
    | d where "walk_loop os_read_dir (copy_entry (abs_path S) (abs_path D)) [(abs_path S, d)] s3 = Some (r, s')"
    by auto
  then show ?thesis
  proof cases
    case 3
    have "fs_step R s3 s'" using entry [OF w3 _ 3] assms(2) by simp
    with st3 show ?thesis by (rule fs_step_trans)
  next
    case 4
    have "at_or_below S (abs_path S)" using assms(2) at_or_belowI [of S "[]"] by simp
    with walk_loop_step [OF entry 4 w3] have "fs_step R s3 s'" by simp
    with st3 show ?thesis by (rule fs_step_trans)
  qed (use 1 2 in simp_all)
qed

lemma kept_inside:
  "confined.keeps c M a m \<Longrightarrow> area c M a \<Longrightarrow> fs_wf (w_os w) \<Longrightarrow> m w = (r, w') \<Longrightarrow>
   fs_wf (w_os w') \<and> within (user_elems M a) (w_os w) (w_os w')"
  using confined.keepsD [of c M a m w r w'] by blast

lemma copy_path_within:
  assumes ar: "area c M a" and wf: "fs_wf (w_os w)"
    and req: "cp_actor req = a" "at_or_below (user_elems M a) (cp_src_path req)" "at_or_below (user_elems M a) (cp_dest_path req)"
    and run: "client_copy_path c req w = Some (r, w')"
  shows "fs_wf (w_os w') \<and> within (user_elems M a) (w_os w) (w_os w')"
proof -
  let ?R = "user_elems M a"
  let ?ok = "\<lambda>w w'. fs_wf (w_os w') \<and> within ?R (w_os w) (w_os w')"
  note keepsD = kept_inside [OF _ ar]
  obtain r1 w1 where a1: "on_os (os_stat (cp_src_path req)) w = (r1, w1)" by (cases "on_os (os_stat (cp_src_path req)) w")
  have k1: "?ok w w1" using keepsD [OF confined.keeps_stat wf a1] .
  show ?thesis
  proof (cases r1)
    case (Inl e)
    with run a1 k1 show ?thesis by (simp add: client_copy_path_def after_def)
  next
    case (Inr info)
    obtain r2 w2 where a2: "check_dest info (cp_dest_path req) (cp_overwrite req) w1 = (r2, w2)"
      by (cases "check_dest info (cp_dest_path req) (cp_overwrite req) w1")
    have "?ok w1 w2"
      using keepsD [OF confined.keeps_check_dest [where c = c and M = M and a = a] conjunct1 [OF k1] a2] req(3) by simp
    with k1 have k2: "?ok w w2" using within_trans by blast
    show ?thesis
    proof (cases r2)
      case (Some e)
      with run a1 a2 Inr k2 show ?thesis by (simp add: client_copy_path_def after_def)
    next
      case None
      let ?f = "if oi_is_dir info then copy_dir (cp_src_path req) (cp_dest_path req)
           else (\<lambda>s. Some (copy_file (cp_src_path req) (cp_dest_path req) s))"
      from run a1 a2 Inr None obtain r3 s3 where f: "?f (w_os w2) = Some (r3, s3)"
        and w': "w' = w2\<lparr>w_os := s3\<rparr> \<or>
          after (record_upsert (fc_store c) (cp_actor req) (cp_dest_path req))
            (\<lambda>_. build_enriched_file_info c (cp_actor req) (cp_dest_path req)) (w2\<lparr>w_os := s3\<rparr>) = (r, w')"
        by (auto simp: client_copy_path_def after_def [of "on_os (os_stat (cp_src_path req))"]
            after_def [of "check_dest info (cp_dest_path req) (cp_overwrite req)"] on_os_option_def split: option.splits)
      obtain S D where SD: "plain S" "cp_src_path req = abs_path S" "plain D" "cp_dest_path req = abs_path D"
        using req(2,3) unfolding at_or_below_def by blast
      have "fs_step ?R (w_os w2) s3"
      proof (cases "oi_is_dir info")
        case True
        with f SD copy_dir_step [OF conjunct1 [OF k2] SD(1,3)] req(3) show ?thesis by simp
      next
        case False
        with f copy_file_step [OF conjunct1 [OF k2] req(3)] show ?thesis by simp
      qed
      then have k3: "?ok w (w2\<lparr>w_os := s3\<rparr>)" using k2 fs_step_within within_trans by force
      from w' show ?thesis
      proof
        assume t: "after (record_upsert (fc_store c) (cp_actor req) (cp_dest_path req))
            (\<lambda>_. build_enriched_file_info c (cp_actor req) (cp_dest_path req)) (w2\<lparr>w_os := s3\<rparr>) = (r, w')"
        have "?ok (w2\<lparr>w_os := s3\<rparr>) w'"
          by (rule keepsD [OF confined.keeps_after [OF confined.keeps_record_upsert confined.keeps_build_enriched]
                conjunct1 [OF k3] t [unfolded req(1)]])
        with k3 show ?thesis using within_trans by blast
      qed (use k3 in simp)
    qed
  qed
qed

section \<open>The service stays inside\<close>

lemma resolve_abs_inside:
  assumes "sv_mount_root sv = abs_path M" "plain M" "element_context a" "normalize a = a"
    and "resolve_abs_path sv a p = Inr q"
  shows "at_or_below (user_elems M a) q"
proof (cases "trim_space p = []")
  case True
  with assms have "q = abs_path (user_elems M a)"
    by (simp add: resolve_abs_path_def join_user_root split: if_splits)
  with plain_user_elems [OF assms(2,3)] at_or_belowI [of "user_elems M a" "[]"] show ?thesis by simp
next
  case False
  have "abs_path M \<noteq> []" by (simp add: abs_path_def)
  with False assms(1,5) obtain res where r: "resolve_relative_path a p = Inr res" "q = join_path [abs_path M, res]"
    by (auto simp: resolve_abs_path_def Let_def split: if_splits sum.splits)
  from r(1) assms(3) obtain es where es: "plain es" "res = join_with ''/'' (prefix_elems a @ es)"
    by (rule resolve_confined)
  with r(2) assms(2) plain_prefix_elems [OF assms(3)] have "q = abs_path (user_elems M a @ es)"
    by (simp add: join_path_abs_plain user_elems_def del: plain_simps) (simp add: join_path_abs_plain)
  with es(1) plain_user_elems [OF assms(2,3)] show ?thesis by (simp add: at_or_belowI)
qed

lemma checked_context_ok: "checked_context ctx = Inr a \<Longrightarrow> a = normalize ctx"
  by (auto simp: checked_context_def Let_def split: option.splits)

lemma resolve_inside:
  assumes "sv_mount_root sv = abs_path M" "plain M" "element_context (normalize ctx)"
    and "resolve_actor_and_path sv ctx p = Inr (a, q)"
  shows "a = normalize ctx \<and> at_or_below (user_elems M a) q"
proof -
  from assms(4) have a: "checked_context ctx = Inr a" "resolve_abs_path sv a p = Inr q"
    by (auto simp: resolve_actor_and_path_def split: sum.splits)
  with checked_context_ok have "a = normalize ctx" by blast
  with resolve_abs_inside [OF assms(1,2) _ _ a(2)] assms(3) show ?thesis by simp
qed

text \<open>The journal's part of an operation does not reach the storage.\<close>

definition intents_off_disk :: "'x world intent_store_ops \<Rightarrow> bool" where
  "intents_off_disk is \<longleftrightarrow>
     (\<forall>i w. w_os (snd (is_enqueue is i w)) = w_os w) \<and> (\<forall>k w. w_os (snd (is_mark_done is k w)) = w_os w) \<and>
     (\<forall>k s w. w_os (snd (is_mark_aborted is k s w)) = w_os w)"

definition recorder_off_disk :: "'x world node_recorder option \<Rightarrow> bool" where
  "recorder_off_disk ro \<longleftrightarrow>
     (\<forall>r. ro = Some r \<longrightarrow> (\<forall>ns. rec_nodes r = Some ns \<longrightarrow> off_disk ns) \<and>
        (\<forall>is. rec_intents r = Some is \<longrightarrow> intents_off_disk is))"

lemma recorder_run_os:
  assumes "recorder_off_disk ro" "recorder_run ro k op p a t action w = (res, w')"
  shows "\<exists>w1 w2. w_os w1 = w_os w \<and> action w1 = (res, w2) \<and> w_os w' = w_os w2"
proof (cases ro)
  case None
  with assms(2) show ?thesis by (auto simp: recorder_run_def)
next
  case (Some r)
  have fin: "w_os (recorder_finalize r k' ino a t w2) = w_os w2" for k' ino w2
    using assms(1) Some
    by (auto simp: recorder_off_disk_def off_disk_def intents_off_disk_def recorder_finalize_def Let_def
        split: option.splits prod.splits) (metis snd_conv)+
  have enq: "w_os (snd (recorder_enqueue r k op p a t w)) = w_os w"
    using assms(1) Some
    by (auto simp: recorder_off_disk_def intents_off_disk_def recorder_enqueue_def Let_def
        split: option.splits prod.splits) (metis snd_conv)+
  obtain k' w1 where e: "recorder_enqueue r k op p a t w = (k', w1)" by (cases "recorder_enqueue r k op p a t w")
  obtain res' w2 where x: "action w1 = (res', w2)" by (cases "action w1")
  have "w_os w' = w_os w2 \<and> res' = res"
    using assms(1,2) Some e x fin
    by (cases res') (auto simp: recorder_run_def recorder_off_disk_def intents_off_disk_def split: option.splits)
  with x e enq show ?thesis by auto
qed

text \<open>The operations that change the storage, as values, and how they run.\<close>

datatype service_call =
    CallCreateFolder svc_path_req
  | CallCreateFile svc_file_req
  | CallCreateNotebook svc_notebook_req
  | CallWriteFile svc_file_req
  | CallDelete svc_delete_req
  | CallMove svc_move_req
  | CallCopy svc_move_req
  | CallRename svc_rename_req
  | CallEmptyBin request_context

fun call_context :: "service_call \<Rightarrow> request_context" where
  "call_context (CallCreateFolder i) = sp_context i"
| "call_context (CallCreateFile i) = sf_context i"
| "call_context (CallCreateNotebook i) = sn_context i"
| "call_context (CallWriteFile i) = sf_context i"
| "call_context (CallDelete i) = sd_context i"
| "call_context (CallMove i) = sm_context i"
| "call_context (CallCopy i) = sm_context i"
| "call_context (CallRename i) = sr_context i"
| "call_context (CallEmptyBin c) = c"

text \<open>The request path of an operation that puts an entry into the directory above the path.\<close>

fun file_target :: "service_call \<Rightarrow> string option" where
  "file_target (CallCreateFile i) = Some (sf_path i)"
| "file_target (CallWriteFile i) = Some (sf_path i)"
| "file_target (CallCreateNotebook i) =
     (case normalize_notebook_path (sn_path i) of Inr p \<Rightarrow> Some p | Inl _ \<Rightarrow> None)"
| "file_target (CallRename i) = Some (sr_path i)"
| "file_target _ = None"

fun run_call :: "'w file_service \<Rightarrow> string \<Rightarrow> service_call \<Rightarrow> 'w \<Rightarrow> 'w option" where
  "run_call sv k (CallCreateFolder i) w = Some (snd (create_folder sv k i w))"
| "run_call sv k (CallCreateFile i) w = Some (snd (create_file sv k i w))"
| "run_call sv k (CallCreateNotebook i) w = Some (snd (create_notebook sv k i w))"
| "run_call sv k (CallWriteFile i) w = Some (snd (write_file sv k i w))"
| "run_call sv k (CallDelete i) w = Some (snd (delete_path sv i w))"
| "run_call sv k (CallMove i) w = Some (snd (move_path sv i w))"
| "run_call sv k (CallCopy i) w = map_option snd (copy_path sv i w)"
| "run_call sv k (CallRename i) w = Some (snd (rename_path sv i w))"
| "run_call sv k (CallEmptyBin c) w = Some (snd (empty_recycle_bin sv c w))"

lemma not_root_below: "at_or_below R q \<Longrightarrow> q \<noteq> abs_path R \<Longrightarrow> below R q"
proof -
  assume q: "at_or_below R q" "q \<noteq> abs_path R"
  then obtain es where e: "plain (R @ es)" "q = abs_path (R @ es)" unfolding at_or_below_def by blast
  with q(2) have "es \<noteq> []" by auto
  then obtain fs b where "es = fs @ [b]" by (cases es rule: rev_cases) auto
  with e show ?thesis unfolding below_def by auto
qed

lemma rename_dest_inside:
  assumes "at_or_below R q" "q \<noteq> abs_path R" "valid_name n"
  shows "at_or_below R (join_path [dir_path q, n])"
proof -
  obtain fs b where e: "plain (R @ fs @ [b])" "q = abs_path (R @ fs @ [b])"
    using not_root_below [OF assms(1,2)] by (auto simp: below_def)
  have n: "plain_elem n" using assms(3) by (auto simp: valid_name_def plain_elem_def contains_any_def list_ex_iff)
  have "dir_path q = abs_path (R @ fs)" using e dir_abs_path [of "R @ fs" b] by simp
  with join_path_abs_elem [of "R @ fs" n] n e have "join_path [dir_path q, n] = abs_path (R @ fs @ [n])" by simp
  with at_or_belowI [of R "fs @ [n]"] e n show ?thesis by simp
qed

lemma journalled_inside:
  assumes "recorder_off_disk ro" "recorder_run ro k op p b t act w = (res, w')"
    and "\<And>w1 w2 r. w_os w1 = w_os w \<Longrightarrow> act w1 = (r, w2) \<Longrightarrow> fs_wf (w_os w2) \<and> within R (w_os w1) (w_os w2)"
  shows "fs_wf (w_os w') \<and> within R (w_os w) (w_os w')"
proof -
  from recorder_run_os [OF assms(1,2)] obtain w1 w2 where
    "w_os w1 = w_os w" "act w1 = (res, w2)" "w_os w' = w_os w2" by blast
  with assms(3) [of w1 res w2] show ?thesis by simp
qed

lemma after_give_snd: "snd (after m (\<lambda>r. give (f r)) w) = w' \<longleftrightarrow> (\<exists>r. m w = (r, w'))"
  by (auto simp: after_def give_def split: prod.splits)

lemma resolved_cases:
  assumes "snd ((case r of Inl e \<Rightarrow> give (f e) | Inr (b, q) \<Rightarrow> body b q) w) = w'"
  obtains "w' = w" | b q where "r = Inr (b, q)" "snd (body b q w) = w'"
  using assms by (cases r) (auto simp: give_def)

lemma client_simps [simp]:
  "wfs_create_folder (workspace_fs_client c) = client_create_folder c"
  "wfs_create_file (workspace_fs_client c) = client_create_file c"
  "wfs_create_notebook (workspace_fs_client c) = client_create_notebook c"
  "wfs_write_file (workspace_fs_client c) = client_write_file c"
  "wfs_delete_path (workspace_fs_client c) = client_delete_path c"
  "wfs_move_path (workspace_fs_client c) = client_move_path c"
  "wfs_copy_path (workspace_fs_client c) = client_copy_path c"
  "wfs_rename_path (workspace_fs_client c) = client_rename_path c"
  "wfs_empty_recycle_bin (workspace_fs_client c) = client_empty_recycle_bin c"
  "wfs_restore_path (workspace_fs_client c) = client_restore_path c"
  "wfs_read_file (workspace_fs_client c) = client_read_file c"
  "wfs_list_files (workspace_fs_client c) = client_list_files c"
  by (simp_all add: workspace_fs_client_def)

lemma run_call_inside:
  fixes c :: "'x fs_client"
  assumes sv: "sv_fs sv = workspace_fs_client c" "sv_mount_root sv = fc_mount_root c" "recorder_off_disk (sv_recorder sv)"
    and ar: "area c M a" and a: "a = normalize (call_context call)" and wf: "fs_wf (w_os w)"
    and tgt: "\<And>p q. file_target call = Some p \<Longrightarrow> resolve_abs_path sv a p = Inr q \<Longrightarrow> q \<noteq> abs_path (user_elems M a)"
    and run: "run_call sv k call w = Some w'"
  shows "fs_wf (w_os w') \<and> within (user_elems M a) (w_os w) (w_os w')"
proof -
  let ?R = "user_elems M a"
  let ?ok = "\<lambda>w w'. fs_wf (w_os w') \<and> within ?R (w_os w) (w_os w')"
  have M: "sv_mount_root sv = abs_path M" "plain M" "element_context a" "normalize a = a"
    using sv ar a by (auto simp: area_def)
  have same: "?ok w w" using wf by (simp add: within_refl)
  have kept: "?ok w1 w2" if "confined.keeps c M a m" "w_os w1 = w_os w" "m w1 = (r, w2)"
    for w1 w2 and r and m :: "'x world \<Rightarrow> 'r \<times> 'x world"
    using kept_inside [OF that(1) ar _ that(3)] that(2) wf by simp
  have inside: "at_or_below ?R q" if "resolve_abs_path sv a p = Inr q" for p q
    by (rule resolve_abs_inside [OF M that])
  have res: "b = a \<and> at_or_below ?R q \<and> resolve_abs_path sv a p = Inr q"
    if "resolve_actor_and_path sv (call_context call) p = Inr (b, q)" for p b q
  proof -
    from that have b: "checked_context (call_context call) = Inr b" "resolve_abs_path sv b p = Inr q"
      unfolding resolve_actor_and_path_def by (simp_all split: sum.splits)
    from checked_context_ok [OF b(1)] a have "b = a" by (rule trans [OF _ sym])
    with b inside show ?thesis by blast
  qed
  have two: "b = a \<and> at_or_below ?R p \<and> at_or_below ?R q"
    if "resolve_two_paths sv i = Inr (b, p, q)" "call_context call = sm_context i" for i b p q
  proof -
    from that(1) have b: "checked_context (sm_context i) = Inr b"
      "resolve_abs_path sv b (sm_src_path i) = Inr p" "resolve_abs_path sv b (sm_dest_path i) = Inr q"
      unfolding resolve_two_paths_def by (simp_all split: sum.splits)
    from checked_context_ok [OF b(1)] a that(2) have "b = a" by (metis (no_types))
    with b inside show ?thesis by blast
  qed
  have plain_op: "?ok w w'" if "confined.keeps c M a m" "snd (after m (\<lambda>r. give (f r)) w) = w'"
    for m :: "'x world \<Rightarrow> 'r \<times> 'x world" and f :: "'r \<Rightarrow> 's"
    using that kept [OF that(1) refl] by (auto simp: after_give_snd)
  have journalled: "?ok w w'"
    if "confined.keeps c M a act"
      "snd (after (recorder_run (sv_recorder sv) k op p b t act) (\<lambda>r. give (f r)) w) = w'"
    for op p b t act and f :: "(go_error, file_info) result \<Rightarrow> 's"
  proof -
    from that(2) obtain r where r: "recorder_run (sv_recorder sv) k op p b t act w = (r, w')"
      by (auto simp: after_give_snd)
    show ?thesis by (rule journalled_inside [OF sv(3) r]) (rule kept [OF that(1)])
  qed
  show ?thesis
  proof (cases call)
    case (CallCreateFolder i)
    with run have "snd (create_folder sv k i w) = w'" by simp
    then show ?thesis unfolding create_folder_def
    proof (rule resolved_cases)
      fix b q assume r: "resolve_actor_and_path sv (sp_context i) (sp_path i) = Inr (b, q)"
      then have q: "b = a" "at_or_below ?R q" using res [of "sp_path i" b q] CallCreateFolder by simp_all
      show ?thesis if "snd (after (recorder_run (sv_recorder sv) k IntentOpCreateFolder q b NodeTypeDirectory
            (wfs_create_folder (sv_fs sv) \<lparr>cd_actor = b, cd_path = q\<rparr>)) (\<lambda>r. give (finish sv ''create folder'' r)) w) = w'"
        by (rule journalled [OF _ that]) (use q sv in \<open>simp add: confined.keeps_create_folder\<close>)
    qed (use same in simp)
  next
    case (CallCreateFile i)
    with run have "snd (create_file sv k i w) = w'" by simp
    then show ?thesis unfolding create_file_def
    proof (rule resolved_cases)
      fix b q assume r: "resolve_actor_and_path sv (sf_context i) (sf_path i) = Inr (b, q)"
      then have q: "b = a" "at_or_below ?R q" "below ?R q"
        using res [of "sf_path i" b q] tgt [of "sf_path i" q] not_root_below CallCreateFile by auto
      have k: "confined.keeps c M a (wfs_create_file (sv_fs sv)
          \<lparr>cf_actor = b, cf_path = q, cf_content = d, cf_overwrite = sf_overwrite i\<rparr>)" for d
        using q sv by (simp add: confined.keeps_create_file)
      show ?thesis if "snd ((case decode_content (sf_content i) (sf_content_b64 i) of
             None \<Rightarrow> give (Inl (detail_error ErrInvalidFileRequest ''invalid content_base64''))
           | Some content \<Rightarrow>
               after (recorder_run (sv_recorder sv) k IntentOpCreateFile q b NodeTypeFile
                        (wfs_create_file (sv_fs sv)
                           \<lparr>cf_actor = b, cf_path = q, cf_content = content, cf_overwrite = sf_overwrite i\<rparr>))
                 (\<lambda>r. give (finish sv ''create file'' r))) w) = w'"
      proof (cases "decode_content (sf_content i) (sf_content_b64 i)")
        case None
        with that same show ?thesis by (simp add: give_def)
      next
        case (Some d)
        show ?thesis by (rule journalled [OF k that [unfolded Some option.case]])
      qed
    qed (use same in simp)
  next
    case (CallWriteFile i)
    with run have "snd (write_file sv k i w) = w'" by simp
    then show ?thesis unfolding write_file_def
    proof (rule resolved_cases)
      fix b q assume r: "resolve_actor_and_path sv (sf_context i) (sf_path i) = Inr (b, q)"
      then have q: "b = a" "at_or_below ?R q" "below ?R q"
        using res [of "sf_path i" b q] tgt [of "sf_path i" q] not_root_below CallWriteFile by auto
      have k: "confined.keeps c M a (wfs_write_file (sv_fs sv)
          \<lparr>wf_actor = b, wf_path = q, wf_content = d, wf_overwrite = sf_overwrite i\<rparr>)" for d
        using q sv by (simp add: confined.keeps_write_file)
      show ?thesis if "snd ((case decode_content (sf_content i) (sf_content_b64 i) of
             None \<Rightarrow> give (Inl (detail_error ErrInvalidFileRequest ''invalid content_base64''))
           | Some content \<Rightarrow>
               after (recorder_run (sv_recorder sv) k IntentOpWriteFile q b NodeTypeFile
                        (wfs_write_file (sv_fs sv)
                           \<lparr>wf_actor = b, wf_path = q, wf_content = content, wf_overwrite = sf_overwrite i\<rparr>))
                 (\<lambda>r. give (finish sv ''write file'' r))) w) = w'"
      proof (cases "decode_content (sf_content i) (sf_content_b64 i)")
        case None
        with that same show ?thesis by (simp add: give_def)
      next
        case (Some d)
        show ?thesis by (rule journalled [OF k that [unfolded Some option.case]])
      qed
    qed (use same in simp)
  next
    case (CallCreateNotebook i)
    show ?thesis
    proof (cases "normalize_notebook_path (sn_path i)")
      case (Inl e)
      with run CallCreateNotebook same show ?thesis by (simp add: create_notebook_def give_def)
    next
      case (Inr p)
      with run CallCreateNotebook have "snd ((case resolve_actor_and_path sv (sn_context i) p of
             Inl e \<Rightarrow> give (Inl e)
           | Inr (b, q) \<Rightarrow>
               after (recorder_run (sv_recorder sv) k IntentOpCreateNotebook q b NodeTypeNotebook
                        (wfs_create_notebook (sv_fs sv)
                           \<lparr>cn_actor = b, cn_path = q, cn_kernel_name = sn_kernel_name i, cn_overwrite = sn_overwrite i\<rparr>))
                 (\<lambda>r. give (finish sv ''create notebook'' r))) w) = w'"
        by (simp add: create_notebook_def)
      then show ?thesis
      proof (rule resolved_cases)
        fix b q assume r: "resolve_actor_and_path sv (sn_context i) p = Inr (b, q)"
        then have q: "b = a" "at_or_below ?R q" "below ?R q"
          using res [of p b q] tgt [of p q] not_root_below CallCreateNotebook Inr by auto
        show ?thesis if "snd (after (recorder_run (sv_recorder sv) k IntentOpCreateNotebook q b NodeTypeNotebook
                        (wfs_create_notebook (sv_fs sv)
                           \<lparr>cn_actor = b, cn_path = q, cn_kernel_name = sn_kernel_name i, cn_overwrite = sn_overwrite i\<rparr>))
                 (\<lambda>r. give (finish sv ''create notebook'' r)) w) = w'"
          by (rule journalled [OF _ that]) (use q sv in \<open>simp add: confined.keeps_create_notebook\<close>)
      qed (use same in simp)
    qed
  next
    case (CallDelete i)
    with run have "snd (delete_path sv i w) = w'" by simp
    then show ?thesis unfolding delete_path_def
    proof (rule resolved_cases)
      fix b q assume r: "resolve_actor_and_path sv (sd_context i) (sd_path i) = Inr (b, q)"
      then have q: "b = a" "at_or_below ?R q" using res [of "sd_path i" b q] CallDelete by simp_all
      show ?thesis if "snd (after (wfs_delete_path (sv_fs sv)
                   \<lparr>dp_actor = b, dp_path = q, dp_soft_delete = sd_soft_delete i, dp_permanent = sd_permanent i\<rparr>)
            (\<lambda>r. give (map_option (wrap_error ''delete path'') r)) w) = w'"
        by (rule plain_op [OF _ that]) (use q sv in \<open>simp add: confined.keeps_delete\<close>)
    qed (use same in simp)
  next
    case (CallMove i)
    with run have "snd (move_path sv i w) = w'" by simp
    then show ?thesis unfolding move_path_def
    proof (rule resolved_cases)
      fix b and pq :: "string \<times> string" assume r: "resolve_two_paths sv i = Inr (b, pq)"
      obtain p q where pq: "pq = (p, q)" by (cases pq)
      with r two [of i b p q] CallMove have q: "b = a" "at_or_below ?R p" "at_or_below ?R q" by simp_all
      show ?thesis if "snd ((case pq of (src, dest) \<Rightarrow> after (wfs_move_path (sv_fs sv)
                   \<lparr>mp_actor = b, mp_src_path = src, mp_dest_path = dest, mp_overwrite = sm_overwrite i\<rparr>)
            (\<lambda>r. give (finish sv ''move path'' r))) w) = w'"
        by (rule plain_op [OF _ that [unfolded pq prod.case]]) (use q sv in \<open>simp add: confined.keeps_move\<close>)
    qed (use same in simp)
  next
    case (CallCopy i)
    with run obtain r where cp: "copy_path sv i w = Some (r, w')" by auto
    show ?thesis
    proof (cases "resolve_two_paths sv i")
      case (Inl e)
      with cp same show ?thesis by (simp add: copy_path_def)
    next
      case (Inr bpq)
      obtain b p q where bpq: "bpq = (b, p, q)" by (cases bpq)
      with Inr two [of i b p q] CallCopy have q: "b = a" "at_or_below ?R p" "at_or_below ?R q" by simp_all
      let ?req = "\<lparr>cp_actor = a, cp_src_path = p, cp_dest_path = q, cp_overwrite = sm_overwrite i\<rparr>"
      obtain r' where "client_copy_path c ?req w = Some (r', w')"
        using cp Inr bpq q(1) sv(1) by (auto simp: copy_path_def)
      from copy_path_within [OF ar wf _ _ _ this] q show ?thesis by simp
    qed
  next
    case (CallRename i)
    with run have "snd (rename_path sv i w) = w'" by simp
    then show ?thesis unfolding rename_path_def
    proof (rule resolved_cases)
      fix b q assume r: "resolve_actor_and_path sv (sr_context i) (sr_path i) = Inr (b, q)"
      then have q: "b = a" "at_or_below ?R q" "q \<noteq> abs_path ?R"
        using res [of "sr_path i" b q] tgt [of "sr_path i" q] CallRename by auto
      have k: "confined.keeps c M a (wfs_rename_path (sv_fs sv)
          \<lparr>rn_actor = b, rn_path = q, rn_new_name = n, rn_overwrite = sr_overwrite i\<rparr>)" if "valid_name n" for n
        using q sv rename_dest_inside [OF q(2,3) that] by (simp add: confined.keeps_rename)
      show ?thesis if "snd ((let name = trim_space (sr_new_name i)
          in if \<not> valid_name name
             then give (Inl (detail_error ErrInvalidFileRequest ''new_name is invalid''))
             else after (wfs_rename_path (sv_fs sv)
                           \<lparr>rn_actor = b, rn_path = q, rn_new_name = name, rn_overwrite = sr_overwrite i\<rparr>)
                    (\<lambda>r. give (finish sv ''rename path'' r))) w) = w'"
      proof (cases "valid_name (trim_space (sr_new_name i))")
        case False
        with that same show ?thesis by (simp add: Let_def give_def)
      next
        case True
        with that have "snd (after (wfs_rename_path (sv_fs sv)
            \<lparr>rn_actor = b, rn_path = q, rn_new_name = trim_space (sr_new_name i), rn_overwrite = sr_overwrite i\<rparr>)
            (\<lambda>r. give (finish sv ''rename path'' r)) w) = w'" by (simp add: Let_def)
        then show ?thesis by (rule plain_op [OF k [OF True]])
      qed
    qed (use same in simp)
  next
    case (CallEmptyBin ctx)
    show ?thesis
    proof (cases "checked_context ctx")
      case (Inl e)
      with run CallEmptyBin same show ?thesis by (simp add: empty_recycle_bin_def give_def)
    next
      case (Inr b)
      with checked_context_ok [of ctx b] a CallEmptyBin have "b = a" by simp
      with run CallEmptyBin Inr sv have
        "snd (after (client_empty_recycle_bin c a) (\<lambda>r. give (map_option (wrap_error ''empty recycle bin'') r)) w) = w'"
        by (simp add: empty_recycle_bin_def)
      then show ?thesis by (rule plain_op [OF confined.keeps_empty_recycle_bin])
    qed
  qed
qed

end
