(* ===== verification/Durability.thy ===== *)
theory Durability
  imports Isolation
begin

text \<open>
  The write-ahead journal of the file service with the in-memory stores: what the recorder leaves
  behind, whatever the storage does, and what a recovery scan makes of it after a crash.
\<close>

section \<open>The journal is not touched by the storage client\<close>

definition local_store :: "(mem_nodes \<times> mem_intents) fs_client \<Rightarrow> bool" where
  "local_store c \<longleftrightarrow> fc_store c = None \<or> fc_store c = Some world_nodes"

abbreviation same_journal :: "mem_world \<Rightarrow> mem_world \<Rightarrow> bool" where
  "same_journal w w' \<equiv> snd (w_db w') = snd (w_db w)"

lemma world_nodes_journal:
  assumes "local_store c" "fc_store c = Some ns"
  shows "ns_upsert ns m w = (r, w') \<Longrightarrow> same_journal w w'"
    "ns_mark_deleted ns m w = (r, w') \<Longrightarrow> same_journal w w'"
    "ns_lookup ns ids w = (lr, w') \<Longrightarrow> same_journal w w'"
proof -
  have "ns = world_nodes" using assms by (simp add: local_store_def)
  then show "ns_upsert ns m w = (r, w') \<Longrightarrow> same_journal w w'"
    "ns_mark_deleted ns m w = (r, w') \<Longrightarrow> same_journal w w'"
    "ns_lookup ns ids w = (lr, w') \<Longrightarrow> same_journal w w'"
    by auto
qed

interpretation journal_frame: client_frame "\<lambda>w. local_store c" same_journal c a "\<lambda>p. True" "\<lambda>p. True" for c a
  by unfold_locales (auto simp: os_keeps_def dest: world_nodes_journal)

lemma client_keeps_journal:
  assumes "local_store c" "journal_frame.keeps c m" "m w = (r, w')"
  shows "same_journal w w'"
  using journal_frame.keepsD [OF assms(2,1,3)] by simp

section \<open>Concrete worlds\<close>

text \<open>Two pending intents, one with its target on the storage and one without.\<close>

definition sample_intent :: "string \<Rightarrow> string \<Rightarrow> intent" where
  "sample_intent k p =
     \<lparr>it_id = k, it_op = IntentOpWriteFile, it_abs_path = p, it_actor = to_node_actor sample_actor,
      it_node_type = NodeTypeFile, it_status = IntentPending, it_attempts = 0, it_last_error = []\<rparr>"

definition pending_journal :: mem_intents where
  "pending_journal =
     \<lparr>mi_seq = 2, mi_order = [(''k1'', 1), (''k2'', 2)],
      mi_intents = [(''k1'', sample_intent ''k1'' sample_file), (''k2'', sample_intent ''k2'' ''/m/a/w/users/u/new'')],
      mi_enqueue_err = None\<rparr>"

definition pending_world :: mem_world where
  "pending_world = \<lparr>w_os = sample_fs [], w_db = ([], pending_journal)\<rparr>"

lemma pending_world_ok: "world_ok pending_world"
  by (simp add: pending_world_def pending_journal_def mem_intents_ok_def sample_intent_def)

lemma pending_intents:
  "world_intent pending_world k = Some j \<Longrightarrow>
   k = ''k1'' \<and> j = sample_intent ''k1'' sample_file \<or> k = ''k2'' \<and> j = sample_intent ''k2'' ''/m/a/w/users/u/new''"
  by (auto simp: pending_world_def pending_journal_def mem_get_def split: if_splits)

lemma pending_disk:
  "on_disk pending_world sample_file = Some 8" "on_disk pending_world ''/m/a/w/users/u/new'' = None"
  "fs_lookup (w_os pending_world) ''/m/a/w/users/u/new'' = Inl ENOENT"
  by code_simp+

section \<open>The recorder\<close>

abbreviation world_recorder :: "mem_world node_recorder option" where
  "world_recorder \<equiv> new_node_recorder (Some world_nodes) (Some world_intents)"

lemma world_recorder: "world_recorder = Some mem_world.recorder"
  by (simp add: new_node_recorder_def)

text \<open>
  C1. A journalled operation reports what its action reports. It changes no journal entry but its
  own; after a failure that entry is pending or aborted and the node rows are as the action left
  them, and after a success it is done only when the row of the new inode is in the node table,
  with the caller's identity and the node type of the operation.
\<close>

theorem recorder_tells_the_truth:
  assumes "world_ok w" "world_intent w k = None" "k \<noteq> []" "known_node_type t"
    and "\<forall>v r v'. action v = (r, v') \<longrightarrow> same_journal v v'"
    and "recorder_run world_recorder k op p a t action w = (res, w')"
  shows "\<exists>w1 w2. action w1 = (res, w2) \<and> world_rows w1 = world_rows w \<and> world_ok w' \<and>
    (\<forall>k'. k' \<noteq> k \<longrightarrow> world_intent w' k' = world_intent w k') \<and>
    (\<forall>j. world_intent w' k = Some j \<longrightarrow> it_abs_path j = p) \<and>
    (case res of
       Inl e \<Rightarrow> world_rows w' = world_rows w2 \<and>
         (\<forall>j. world_intent w' k = Some j \<longrightarrow> it_status j \<in> {IntentPending, IntentAborted})
     | Inr info \<Rightarrow> (\<forall>i. i \<noteq> fi_inode_id info \<longrightarrow> world_rows w' i = world_rows w2 i) \<and>
         (\<forall>j. world_intent w' k = Some j \<longrightarrow> it_status j = IntentPending \<or> it_status j = IntentDone \<and>
            world_rows w' (fi_inode_id info) = Some (record_of_mutation
              \<lparr>nm_inode_id = fi_inode_id info, nm_actor = to_node_actor a, nm_node_type = t\<rparr>)))"
proof (rule mem_world.run_effect [OF assms(1-4) TrueI _ assms(6) [unfolded world_recorder]])
  fix v r v' assume "action v = (r, v')"
  with assms(5) have "same_journal v v'" by blast
  then show "world_intent v' = world_intent v \<and> (world_ok v \<longrightarrow> world_ok v')" by simp
qed

text \<open>The creation of a file by the client, on the sample world.\<close>

definition sample_create :: "mem_world \<Rightarrow> (go_error, file_info) result \<times> mem_world" where
  "sample_create = client_create_file sample_client
     \<lparr>cf_actor = sample_actor, cf_path = ''/m/a/w/users/u/new'', cf_content = ''hi'', cf_overwrite = False\<rparr>"

lemma sample_create_journal: "sample_create v = (r, v') \<Longrightarrow> same_journal v v'"
  unfolding sample_create_def
  by (rule client_keeps_journal [OF _ journal_frame.keeps_create_file])
    (simp_all add: local_store_def sample_client_def)

theorem recorder_tells_the_truth_witness:
  "\<exists>info w' j. recorder_run world_recorder ''k'' IntentOpCreateFile ''/m/a/w/users/u/new'' sample_actor NodeTypeFile
      sample_create sample_world = (Inr info, w') \<and> fi_inode_id info = 9 \<and>
    world_intent w' ''k'' = Some j \<and> it_status j = IntentDone \<and>
    world_rows w' 9 = Some (record_of_mutation
      \<lparr>nm_inode_id = 9, nm_actor = to_node_actor sample_actor, nm_node_type = NodeTypeFile\<rparr>)"
proof -
  let ?run = "recorder_run world_recorder ''k'' IntentOpCreateFile ''/m/a/w/users/u/new'' sample_actor NodeTypeFile
      sample_create sample_world"
  have fresh: "world_intent sample_world ''k'' = None" by code_simp
  obtain res w' where run: "?run = (res, w')" by (cases ?run)
  note truth = recorder_tells_the_truth [OF sample_world_ok fresh _ known_simps(1) _ run]
  have "map_sum (\<lambda>_. ()) fi_inode_id (fst ?run) = Inr 9" by code_simp
  with run obtain info where info: "res = Inr info" "fi_inode_id info = 9" by (cases res) auto
  have "map_option it_status (world_intent (snd ?run) ''k'') = Some IntentDone" by code_simp
  with run obtain j where j: "world_intent w' ''k'' = Some j" "it_status j = IntentDone" by auto
  from truth sample_create_journal info j run show ?thesis by auto
qed

section \<open>The recovery scan\<close>

abbreviation world_recoverer :: "mem_world recoverer option" where
  "world_recoverer \<equiv> Some (new_recoverer (Some world_intents) (Some world_nodes) (Some stat_inode))"

lemma recover_world:
  "recover world_recoverer ctx_err w = recover_loop world_intents (mem_world.step 5) 200 ctx_err zero_stats w"
  by (simp add: recover_def new_recoverer_def default_recovery_batch_def default_recovery_max_tries_def)

lemma world_marks_work: "mem_world.marks_work"
  by (auto simp: mem_world.marks_work_def on_intents_def on_db_def mem_mark_done_def mem_mark_aborted_def
      mem_modify_def split: prod.splits option.splits)

definition typed_intents :: "mem_world \<Rightarrow> bool" where
  "typed_intents w \<longleftrightarrow> (\<forall>k j. world_intent w k = Some j \<longrightarrow> known_node_type (it_node_type j))"

lemma typed_intents: "typed_intents = mem_world.typed"
  by (simp add: typed_intents_def mem_world.typed_def fun_eq_iff)

section \<open>A scan of a storage that answers\<close>

text \<open>
  No fault is due, the storage reports inodes, and the target of an intent is a file, a directory
  or absent, but not a path through a file: for such a path \<open>os.Stat\<close> has another error than
  "does not exist", and the scan counts an attempt.
\<close>

definition answering :: "mem_world \<Rightarrow> bool" where
  "answering w \<longleftrightarrow> fs_faults (w_os w) = [] \<and> fs_has_stat (w_os w) \<and>
     (\<forall>k j. world_intent w k = Some j \<longrightarrow>
        on_disk w (it_abs_path j) \<noteq> Some 0 \<and> fs_lookup (w_os w) (it_abs_path j) \<noteq> Inl ENOTDIR)"

text \<open>What becomes of the pending intents: they are settled by what is on the storage.\<close>

definition settled_by_disk :: "mem_world \<Rightarrow> intent \<Rightarrow> intent \<Rightarrow> bool" where
  "settled_by_disk w j j' \<longleftrightarrow>
     it_status j' = (case on_disk w (it_abs_path j) of Some ino \<Rightarrow> IntentDone | None \<Rightarrow> IntentAborted)"

definition settling :: "mem_world \<Rightarrow> mem_world \<Rightarrow> bool" where
  "settling w w' \<longleftrightarrow> w_os w' = w_os w \<and>
     (\<forall>k. world_intent w k = None \<longrightarrow> world_intent w' k = None) \<and>
     (\<forall>k j. world_intent w k = Some j \<longrightarrow> (\<exists>j'. world_intent w' k = Some j' \<and> it_abs_path j' = it_abs_path j \<and>
        (j' = j \<or> it_status j = IntentPending \<and> settled_by_disk w j j')))"

lemma settling_refl: "settling w w"
  by (simp add: settling_def)

lemma settling_trans:
  assumes "settling w w1" "settling w1 w2"
  shows "settling w w2"
  unfolding settling_def
proof (intro conjI allI impI)
  have os: "w_os w1 = w_os w" "w_os w2 = w_os w1" using assms by (simp_all add: settling_def)
  then show "w_os w2 = w_os w" by simp
  show "world_intent w2 k = None" if "world_intent w k = None" for k
    using that assms unfolding settling_def by blast
  fix k j assume "world_intent w k = Some j"
  with assms(1) obtain j1 where j1: "world_intent w1 k = Some j1" "it_abs_path j1 = it_abs_path j"
    "j1 = j \<or> it_status j = IntentPending \<and> settled_by_disk w j j1" unfolding settling_def by blast
  with assms(2) obtain j2 where j2: "world_intent w2 k = Some j2" "it_abs_path j2 = it_abs_path j1"
    "j2 = j1 \<or> it_status j1 = IntentPending \<and> settled_by_disk w1 j1 j2" unfolding settling_def by blast
  have "it_status j1 \<noteq> IntentPending" if "settled_by_disk w j j1"
    using that by (auto simp: settled_by_disk_def split: option.splits)
  moreover have "settled_by_disk w j j2" if "settled_by_disk w1 j1 j2"
    using that j1(2) os(1) by (simp add: settled_by_disk_def on_disk_def)
  ultimately show "\<exists>j'. world_intent w2 k = Some j' \<and> it_abs_path j' = it_abs_path j \<and>
      (j' = j \<or> it_status j = IntentPending \<and> settled_by_disk w j j')"
    using j1 j2 by metis
qed

lemma settling_back:
  assumes "settling w w'" "world_intent w' k = Some j'"
  shows "\<exists>j. world_intent w k = Some j \<and> it_abs_path j' = it_abs_path j \<and> (it_status j = IntentPending \<or> j' = j)"
proof (cases "world_intent w k")
  case None
  with assms have False unfolding settling_def by (metis option.distinct(1))
  then show ?thesis ..
next
  case (Some j)
  with assms show ?thesis unfolding settling_def by (metis option.inject)
qed

lemma settling_answering:
  assumes "settling w w'" "answering w"
  shows "answering w'"
proof -
  have os: "w_os w' = w_os w" using assms(1) by (simp add: settling_def)
  have "\<exists>j. world_intent w k = Some j \<and> it_abs_path j' = it_abs_path j" if "world_intent w' k = Some j'" for k j'
    using settling_back [OF assms(1) that] by blast
  with assms(2) os show ?thesis unfolding answering_def on_disk_def by (metis (no_types, lifting))
qed

lemma fs_lookup_error: "fs_lookup s p = Inl e \<Longrightarrow> e = ENOENT \<or> e = ENOTDIR"
  by (auto simp: fs_lookup_def fs_find_def dest: walk_path_error split: if_splits)

lemma stat_inode_answering:
  assumes "fs_faults (w_os w) = []" "fs_has_stat (w_os w)" "fs_lookup (w_os w) p \<noteq> Inl ENOTDIR"
  shows "stat_inode p w = (Inr (case on_disk w p of Some i \<Rightarrow> (i, True) | None \<Rightarrow> (0, False)), w)"
  using assms
  by (auto simp: stat_inode_def after_def on_os_def give_def os_stat_op_def fault_tick_def on_disk_def
      node_info_def inode_from_file_info_def os_is_not_exist_def split: sum.splits dest: fs_lookup_error)

lemma settling_upd:
  assumes "w_os w' = w_os w" "world_intent w k = Some j" "it_status j = IntentPending"
    and "\<And>x. world_intent w' x = ((world_intent w)(k \<mapsto> j')) x" "it_abs_path j' = it_abs_path j" "settled_by_disk w j j'"
  shows "settling w w'"
  using assms(1-3,5,6) unfolding settling_def assms(4) by auto

lemma reconcile_settling:
  assumes "world_ok w" "answering w" "world_intent w (it_id i) = Some i" "it_status i = IntentPending"
    and run: "mem_world.step mt i w = (out, w')"
  shows "settling w w' \<and> out \<noteq> OutcomeRetried"
proof -
  have a: "fs_faults (w_os w) = []" "fs_has_stat (w_os w)" "on_disk w (it_abs_path i) \<noteq> Some 0"
    "fs_lookup (w_os w) (it_abs_path i) \<noteq> Inl ENOTDIR"
    using assms(2,3) unfolding answering_def by blast+
  note st = stat_inode_answering [OF a(1,2,4)]
  show ?thesis
  proof (cases "on_disk w (it_abs_path i)")
    case None
    obtain r w2 where m: "is_mark_aborted world_intents (it_id i) ''target path absent on storage'' w = (r, w2)"
      by (cases "is_mark_aborted world_intents (it_id i) ''target path absent on storage'' w")
    have w2: "w' = w2" "out = OutcomeAborted"
      using run unfolding reconcile_def st None by (simp_all add: m del: world_store_simps)
    have up: "world_intent w' x = ((world_intent w)(it_id i \<mapsto>
        i\<lparr>it_status := IntentAborted, it_last_error := ''target path absent on storage''\<rparr>)) x"
      "w_os w' = w_os w" for x
      using m assms(3) w2
      by (auto simp: mem_mark_aborted_def mem_modify_def mem_get_def split: option.splits)
    have "settling w w'"
      by (rule settling_upd [OF up(2) assms(3,4) up(1)]) (use None in \<open>simp_all add: settled_by_disk_def\<close>)
    with w2 show ?thesis by simp
  next
    case (Some ino)
    let ?m = "\<lparr>nm_inode_id = ino, nm_actor = it_actor i, nm_node_type = it_node_type i\<rparr>"
    obtain u w1 where u: "ns_upsert world_nodes ?m w = (u, w1)" by (cases "ns_upsert world_nodes ?m w")
    then have u1: "u = None" "same_journal w w1" "w_os w1 = w_os w" by (auto simp: mem_upsert_def Let_def)
    obtain r w2 where m: "is_mark_done world_intents (it_id i) w1 = (r, w2)"
      by (cases "is_mark_done world_intents (it_id i) w1")
    have "ino \<noteq> 0" using a(3) Some by simp
    then have w2: "w' = w2" "out = OutcomeCompleted"
      using run unfolding reconcile_def st Some by (simp_all add: m u u1(1) del: world_store_simps)
    have up: "world_intent w' x = ((world_intent w)(it_id i \<mapsto> i\<lparr>it_status := IntentDone\<rparr>)) x"
      "w_os w' = w_os w" for x
      using m u1(2,3) assms(3) w2
      by (auto simp: mem_mark_done_def mem_modify_def mem_get_def split: option.splits)
    have "settling w w'"
      by (rule settling_upd [OF up(2) assms(3,4) up(1)]) (use Some in \<open>simp_all add: settled_by_disk_def\<close>)
    with w2 show ?thesis by simp
  qed
qed

lemma batch_settling:
  "world_ok w \<Longrightarrow> mem_world.typed w \<Longrightarrow> answering w \<Longrightarrow> mem_world.batch_ok w is \<Longrightarrow>
   recover_batch (mem_world.step mt) (\<lambda>_. None) is st pr w = (e, st', pr', w') \<Longrightarrow>
   settling w w' \<and> e = None \<and> (pr' \<longleftrightarrow> pr \<or> is \<noteq> []) \<and>
   (\<forall>x \<in> set is. \<forall>j. world_intent w' (it_id x) = Some j \<longrightarrow> it_status j \<noteq> IntentPending)"
proof (induction "is" arbitrary: st pr w)
  case Nil
  then show ?case by (simp add: settling_refl)
next
  case (Cons i "is")
  obtain out w1 where s: "mem_world.step mt i w = (out, w1)" by (cases "mem_world.step mt i w")
  from Cons.prems(4) have i: "world_intent w (it_id i) = Some i" "it_status i = IntentPending"
    by (simp_all add: mem_world.batch_ok_def)
  note q = reconcile_settling [OF Cons.prems(1,3) i s]
  note r = mem_world.reconcile_reconciled [OF Cons.prems(1,2) i s]
  have w1: "world_ok w1" "mem_world.typed w1" "answering w1" "mem_world.batch_ok w1 is"
    using r q mem_world.reconciledD(1) mem_world.reconciled_typed Cons.prems settling_answering
      mem_world.batch_ok_step by blast+
  have "recover_batch (mem_world.step mt) (\<lambda>_. None) is (count_outcome out st) True w1 = (e, st', pr', w')"
    using Cons.prems(5) s q by (simp add: Let_def)
  note rest = Cons.IH [OF w1 this]
  have rs: "settling w1 w'" using rest by blast
  have "it_status j \<noteq> IntentPending" if j: "world_intent w' (it_id i) = Some j" for j
  proof -
    obtain j1 where j1: "world_intent w1 (it_id i) = Some j1" "it_status j1 = IntentPending \<or> j = j1"
      using settling_back [OF rs j] by blast
    have "it_status j1 \<noteq> IntentPending"
      using mem_world.reconcile_settles [OF world_marks_work Cons.prems(1) s] q j1(1) by blast
    with j1(2) show ?thesis by blast
  qed
  moreover have "settling w w'" using settling_trans q rs by blast
  ultimately show ?case using rest by simp
qed

lemma list_pending_world: "is_list_pending world_intents n w = (lr, w') \<Longrightarrow> w' = w \<and> is_ok lr"
  by (auto simp: mem_list_pending_def Let_def)

lemma loop_settles:
  "world_ok w \<Longrightarrow> mem_world.typed w \<Longrightarrow> answering w \<Longrightarrow>
   \<exists>st' w'. recover_loop world_intents (mem_world.step 5) 200 (\<lambda>_. None) st w = Some (st', None, w') \<and> settling w w' \<and>
     (\<forall>k j. world_intent w' k = Some j \<longrightarrow> it_status j \<noteq> IntentPending)"
proof (induction "mem_world.pending_count w" arbitrary: st w rule: less_induct)
  case less
  obtain lr w1 where l: "is_list_pending world_intents 200 w = (lr, w1)"
    by (cases "is_list_pending world_intents 200 w")
  with list_pending_world have w1: "w1 = w" and "is_ok lr" by blast+
  then obtain xs where lr: "lr = Inr xs" by (cases lr) simp_all
  have l': "is_list_pending world_intents 200 w = (Inr xs, w)" using l unfolding lr w1 .
  note lst = mem_world.I.list_ok [OF less.prems(1) _ l [unfolded lr]]
  have all: "j \<in> set xs" if "length xs < 200" "world_intent w k = Some j" "it_status j = IntentPending" for k j
    using lst that by simp
  show ?case
  proof (cases "xs = []")
    case True
    have "recover_loop world_intents (mem_world.step 5) 200 (\<lambda>_. None) st w = Some (st, None, w)"
      by (subst recover_loop.simps) (simp add: l' True del: world_store_simps)
    moreover have "it_status j \<noteq> IntentPending" if "world_intent w k = Some j" for k j
      using all [OF _ that] True by auto
    ultimately show ?thesis using settling_refl by blast
  next
    case False
    have b: "mem_world.batch_ok w xs" using mem_world.listed_batch [OF less.prems(1) _ l [unfolded lr]] w1 by simp
    obtain x st1 pr w2 where r: "recover_batch (mem_world.step 5) (\<lambda>_. None) xs st False w = (x, st1, pr, w2)"
      by (cases "recover_batch (mem_world.step 5) (\<lambda>_. None) xs st False w")
    note s = batch_settling [OF less.prems b r]
    have x: "x = None" "pr" "settling w w2" using s False by simp_all
    have rc: "mem_world.reconciled w w2" by (rule mem_world.recover_batch_reconciled [OF less.prems(1,2) b r])
    show ?thesis
    proof (cases "length xs < 200")
      case True
      from x False True have
        "recover_loop world_intents (mem_world.step 5) 200 (\<lambda>_. None) st w = Some (st1, None, w2)"
        by (subst recover_loop.simps) (simp add: l' r del: world_store_simps)
      moreover have "it_status j' \<noteq> IntentPending" if j': "world_intent w2 k = Some j'" for k j'
      proof -
        obtain j where j: "world_intent w k = Some j" "it_status j = IntentPending \<or> j' = j"
          using settling_back [OF x(3) j'] by blast
        show ?thesis
        proof (cases "it_status j = IntentPending")
          case pending: True
          with all [OF True j(1)] have "j \<in> set xs" by simp
          moreover have "it_id j = k" by (rule mem_world.I.intents_id [OF less.prems(1) j(1)])
          ultimately show ?thesis using s j' by blast
        qed (use j(2) in simp)
      qed
      ultimately show ?thesis using x(3) by blast
    next
      case full: False
      have "mem_world.pending_count w2 < mem_world.pending_count w"
        using mem_world.recover_batch_progress [OF world_marks_work less.prems(1,2) b r] x by simp
      from less.hyps [OF this, of st1] mem_world.reconciledD(1) [OF rc]
        mem_world.reconciled_typed [OF rc less.prems(2)] settling_answering [OF x(3) less.prems(3)]
      obtain st' w' where rest:
        "recover_loop world_intents (mem_world.step 5) 200 (\<lambda>_. None) st1 w2 = Some (st', None, w')"
        "settling w2 w'" "\<forall>k j. world_intent w' k = Some j \<longrightarrow> it_status j \<noteq> IntentPending"
        by blast
      with x False full have
        "recover_loop world_intents (mem_world.step 5) 200 (\<lambda>_. None) st w = Some (st', None, w')"
        by (subst recover_loop.simps) (simp add: l' r del: world_store_simps)
      with rest x(3) settling_trans show ?thesis by blast
    qed
  qed
qed

lemma scan_settles:
  assumes "world_ok w" "typed_intents w" "answering w"
  shows "\<exists>st w'. recover world_recoverer (\<lambda>_. None) w = Some (st, None, w') \<and> w_os w' = w_os w \<and>
    (\<forall>k j. world_intent w k = Some j \<and> it_status j = IntentPending \<longrightarrow>
      (\<exists>j'. world_intent w' k = Some j' \<and>
        (case on_disk w (it_abs_path j) of
           None \<Rightarrow> it_status j' = IntentAborted
         | Some ino \<Rightarrow> it_status j' = IntentDone \<and> world_rows w' ino \<noteq> None)))"
proof -
  have typed: "mem_world.typed w" using assms(2) by (simp add: typed_intents)
  obtain st w' where run: "recover world_recoverer (\<lambda>_. None) w = Some (st, None, w')" and s: "settling w w'"
    and none: "\<forall>k j. world_intent w' k = Some j \<longrightarrow> it_status j \<noteq> IntentPending"
    using loop_settles [OF assms(1) typed assms(3)] unfolding recover_world by blast
  have rc: "mem_world.reconciled w w'"
    using mem_world.recover_loop_reconciled [of 200 w] assms(1) typed run unfolding recover_world by simp
  have "\<exists>j'. world_intent w' k = Some j' \<and>
        (case on_disk w (it_abs_path j) of
           None \<Rightarrow> it_status j' = IntentAborted
         | Some ino \<Rightarrow> it_status j' = IntentDone \<and> world_rows w' ino \<noteq> None)"
    if j: "world_intent w k = Some j" "it_status j = IntentPending" for k j
  proof -
    obtain j' where j': "world_intent w' k = Some j'" "j' = j \<or> settled_by_disk w j j'"
      using s j(1) unfolding settling_def by blast
    with none j(2) have sd: "settled_by_disk w j j'" by blast
    show ?thesis
    proof (cases "on_disk w (it_abs_path j)")
      case None
      with j' sd show ?thesis by (simp add: settled_by_disk_def)
    next
      case (Some ino)
      with sd have d: "it_status j' = IntentDone" by (simp add: settled_by_disk_def)
      with mem_world.reconciledD(5) [OF rc j(1)] j(2) j'(1) Some have "world_rows w' ino \<noteq> None" by auto
      with d j'(1) Some show ?thesis by simp
    qed
  qed
  with run s show ?thesis unfolding settling_def by blast
qed

lemma pending_typed: "typed_intents pending_world"
  by (auto simp: typed_intents_def sample_intent_def dest: pending_intents)

lemma pending_answering: "answering pending_world"
proof -
  have "fs_faults (w_os pending_world) = []" "fs_has_stat (w_os pending_world)"
    by (simp_all add: pending_world_def sample_fs_def)
  moreover have "fs_lookup (w_os pending_world) sample_file \<noteq> Inl ENOTDIR"
    using pending_disk(1) by (auto simp: on_disk_def)
  ultimately show ?thesis
    using pending_disk by (auto simp: answering_def sample_intent_def dest!: pending_intents)
qed

lemma pending_scan:
  obtains st w' where "recover world_recoverer (\<lambda>_. None) pending_world = Some (st, None, w')"
  using scan_settles [OF pending_world_ok pending_typed pending_answering] by blast

section \<open>What a scan guarantees\<close>

text \<open>
  C2. A recovery scan, whatever faults the storage has and whenever it is cancelled, only looks at
  the storage and loses no row and no intent. Settled intents stay as they are, a pending one
  becomes done only when its target exists and the row of that inode is in the table, and a row
  changes only to what a pending intent with that target says.
\<close>

theorem recover_sound:
  assumes "world_ok w" "typed_intents w" "recover world_recoverer ctx_err w = Some (st, e, w')"
  shows "world_ok w' \<and> on_disk w' = on_disk w \<and>
     (\<forall>i. world_rows w i \<noteq> None \<longrightarrow> world_rows w' i \<noteq> None) \<and>
     (\<forall>k. world_intent w k = None \<longrightarrow> world_intent w' k = None) \<and>
     (\<forall>k j. world_intent w k = Some j \<longrightarrow>
        (\<exists>j'. world_intent w' k = Some j' \<and> same_target j j' \<and>
           (it_status j \<noteq> IntentPending \<longrightarrow> it_status j' = it_status j) \<and>
           (it_status j = IntentPending \<and> it_status j' = IntentDone \<longrightarrow>
              (\<exists>ino. on_disk w (it_abs_path j) = Some ino \<and> world_rows w' ino \<noteq> None)))) \<and>
     (\<forall>ino. world_rows w' ino = world_rows w ino \<or>
        (\<exists>k j. world_intent w k = Some j \<and> it_status j = IntentPending \<and> on_disk w (it_abs_path j) = Some ino \<and>
           world_rows w' ino = Some (record_of_mutation
             \<lparr>nm_inode_id = ino, nm_actor = it_actor j, nm_node_type = it_node_type j\<rparr>)))"
proof -
  have "mem_world.reconciled w w'"
    using mem_world.recover_loop_reconciled [of 200 w] assms unfolding recover_world typed_intents by simp
  then show ?thesis unfolding mem_world.reconciled_def mem_world.row_of_def .
qed

theorem recover_sound_witness:
  "\<exists>st w'. recover world_recoverer (\<lambda>_. None) pending_world = Some (st, None, w') \<and> world_ok w' \<and>
    on_disk w' = on_disk pending_world"
proof -
  obtain st w' where r: "recover world_recoverer (\<lambda>_. None) pending_world = Some (st, None, w')"
    by (rule pending_scan)
  with recover_sound [OF pending_world_ok pending_typed r] show ?thesis by blast
qed

text \<open>
  C3. A recovery scan on the in-memory stores comes to an end, whatever the storage answers.
\<close>

theorem recover_returns:
  assumes "world_ok w" "typed_intents w"
  shows "\<exists>st e w'. recover world_recoverer ctx_err w = Some (st, e, w')"
proof -
  have "recover world_recoverer ctx_err w \<noteq> None"
    unfolding recover_world using mem_world.recover_loop_returns [OF world_marks_work] assms
    by (simp add: typed_intents)
  then show ?thesis by (metis not_None_eq prod_cases3)
qed

theorem recover_returns_witness:
  "\<exists>st e w'. recover world_recoverer (\<lambda>w. Some (sentinel_error ErrNotFound)) pending_world = Some (st, e, w')"
  by (rule recover_returns [OF pending_world_ok pending_typed])

text \<open>The statistics of a scan agree: every intent is counted as completed, aborted or retried.\<close>

lemma recover_stats_agree:
  assumes "recover r ctx_err w = Some (st, e, w')"
  shows "rs_scanned st = rs_completed st + rs_aborted st + rs_retried st"
proof -
  have "stats_ok zero_stats" by (simp add: stats_ok_def zero_stats_def)
  with assms have "stats_ok st"
    by (auto simp: recover_def dest: stats_ok_loop split: option.splits)
  then show ?thesis by (simp add: stats_ok_def)
qed

text \<open>
  C5. On a storage that answers, a recovery scan that is not cancelled returns without an error
  and settles every pending intent, however many there are: the intent is done and its row is
  in the table when its target exists, and it is aborted when the target is absent.
\<close>

theorem recover_settles_everything:
  assumes "world_ok w" "typed_intents w" "answering w"
  shows "\<exists>st w'. recover world_recoverer (\<lambda>_. None) w = Some (st, None, w') \<and> w_os w' = w_os w \<and>
    (\<forall>k j. world_intent w k = Some j \<and> it_status j = IntentPending \<longrightarrow>
      (\<exists>j'. world_intent w' k = Some j' \<and>
        (case on_disk w (it_abs_path j) of
           None \<Rightarrow> it_status j' = IntentAborted
         | Some ino \<Rightarrow> it_status j' = IntentDone \<and> world_rows w' ino \<noteq> None)))"
  using assms by (rule scan_settles)

theorem recover_settles_everything_witness:
  "\<exists>st w' j1 j2. recover world_recoverer (\<lambda>_. None) pending_world = Some (st, None, w') \<and>
    world_intent w' ''k1'' = Some j1 \<and> it_status j1 = IntentDone \<and> world_rows w' 8 \<noteq> None \<and>
    world_intent w' ''k2'' = Some j2 \<and> it_status j2 = IntentAborted"
proof -
  have i: "world_intent pending_world ''k1'' = Some (sample_intent ''k1'' sample_file)"
    "world_intent pending_world ''k2'' = Some (sample_intent ''k2'' ''/m/a/w/users/u/new'')"
    "it_status (sample_intent k p) = IntentPending" "it_abs_path (sample_intent k p) = p" for k p
    by (simp_all add: pending_world_def pending_journal_def mem_get_def sample_intent_def)
  obtain st w' where r: "recover world_recoverer (\<lambda>_. None) pending_world = Some (st, None, w')"
    and s: "\<forall>k j. world_intent pending_world k = Some j \<and> it_status j = IntentPending \<longrightarrow>
      (\<exists>j'. world_intent w' k = Some j' \<and>
        (case on_disk pending_world (it_abs_path j) of
           None \<Rightarrow> it_status j' = IntentAborted
         | Some ino \<Rightarrow> it_status j' = IntentDone \<and> world_rows w' ino \<noteq> None))"
    using recover_settles_everything [OF pending_world_ok pending_typed pending_answering] by blast
  obtain j1 where "world_intent w' ''k1'' = Some j1" "it_status j1 = IntentDone" "world_rows w' 8 \<noteq> None"
    using s [rule_format, OF conjI, OF i(1,3)] pending_disk(1) i(4) by auto
  moreover obtain j2 where "world_intent w' ''k2'' = Some j2" "it_status j2 = IntentAborted"
    using s [rule_format, OF conjI, OF i(2,3)] pending_disk(2) i(4) by auto
  ultimately show ?thesis using r by blast
qed

section \<open>A crash in the middle of an operation\<close>

lemma enqueue_accepted:
  assumes "mi_enqueue_err (snd (w_db w)) = None"
    and "recorder_enqueue mem_world.recorder k op p a t w = (k', w1)"
  shows "\<exists>j. world_intent w1 k = Some j \<and> it_abs_path j = p \<and> it_status j = IntentPending \<and> it_node_type j = t \<and>
    (\<forall>x. x \<noteq> k \<longrightarrow> world_intent w1 x = world_intent w x)"
  using assms
  by (auto simp: recorder_enqueue_def mem_enqueue_def mem_get_def Let_def on_intents_def on_db_def
      split: prod.splits)



section \<open>A scan that does not end\<close>

text \<open>A batch whose intents are settled without effect comes back with progress and the world as it was.\<close>

lemma spinning_batch:
  assumes "\<forall>i \<in> set is. \<exists>out. out \<noteq> OutcomeRetried \<and> step i w = (out, w)"
  shows "\<exists>st'. recover_batch step (\<lambda>_. None) is st pr w = (None, st', pr \<or> is \<noteq> [], w)"
  using assms
proof (induction "is" arbitrary: st pr)
  case (Cons i "is")
  then obtain out where "out \<noteq> OutcomeRetried" "step i w = (out, w)" by fastforce
  with Cons.prems Cons.IH [of "count_outcome out st" True] show ?case by (auto simp: Let_def)
qed simp

lemma spinning_loop:
  assumes "is_list_pending store n w = (Inr pending, w)" "pending \<noteq> []" "n \<le> int (length pending)"
    and "\<forall>i \<in> set pending. \<exists>out. out \<noteq> OutcomeRetried \<and> step i w = (out, w)"
  shows "recover_loop store step n (\<lambda>_. None) st w = None"
proof (rule ccontr)
  assume "recover_loop store step n (\<lambda>_. None) st w \<noteq> None"
  then obtain out where run: "recover_loop store step n (\<lambda>_. None) st w = Some out" by blast
  define P where "P s stp m c t v o' \<longleftrightarrow> \<not> (s = store \<and> stp = step \<and> m = n \<and> c = (\<lambda>_. None) \<and> v = w)"
    for s stp m and c :: "'a \<Rightarrow> go_error option" and t :: recovery_stats and v and o' :: "recovery_stats \<times> go_error option \<times> 'a"
  have "P store step n (\<lambda>_. None) st w out"
  proof (rule recover_loop.raw_induct [of P, OF _ run], goal_cases)
    case (1 rec s stp m c t v o')
    show ?case
      unfolding P_def
    proof
      assume eqs: "s = store \<and> stp = step \<and> m = n \<and> c = (\<lambda>_. None) \<and> v = w"
      from spinning_batch [where step = step and w = w, OF assms(4), of t False] obtain st1
        where "recover_batch step (\<lambda>_. None) pending t False w = (None, st1, True, w)" using assms(2) by auto
      with 1(2) eqs assms(1-3) have "rec store step n (\<lambda>_. None) st1 w = Some o'" by simp
      with 1(1) show False unfolding P_def by blast
    qed
  qed
  then show False by (simp add: P_def)
qed


text \<open>A store whose marking fails, and one pending intent without its target.\<close>

definition stuck_store :: "mem_world intent_store_ops" where
  "stuck_store = world_intents\<lparr>is_mark_done := (\<lambda>k w. (Some (sentinel_error ErrNotFound), w)),
     is_mark_aborted := (\<lambda>k s w. (Some (sentinel_error ErrNotFound), w))\<rparr>"

definition stuck_world :: mem_world where
  "stuck_world = \<lparr>w_os = sample_fs [], w_db = ([],
     \<lparr>mi_seq = 1, mi_order = [(''k2'', 1)], mi_intents = [(''k2'', sample_intent ''k2'' ''/m/a/w/users/u/new'')],
      mi_enqueue_err = None\<rparr>)\<rparr>"


end
