(* ===== verification/IdentityFS.thy ===== *)
theory IdentityFS
  imports MountFS
begin

text \<open>
  \<open>internal/infra/git/identity_fs.go\<close>: the worktree file system handed to the Git library. It
  passes every call to the file system below and records who created or changed a file in the
  node store. The file system below (\<open>billy.Filesystem\<close>, \<open>billy.File\<close>) is a library: its methods are
  the record \<open>billy_fs\<close>, over handles of type \<open>'f\<close>.
\<close>

section \<open>The file system below\<close>

record ('w, 'f) billy_fs =
  bfs_create :: "string \<Rightarrow> 'w \<Rightarrow> (go_error, 'f) result \<times> 'w"
  bfs_open_file :: "string \<Rightarrow> int \<Rightarrow> 'w \<Rightarrow> (go_error, 'f) result \<times> 'w"
  bfs_rename :: "string \<Rightarrow> string \<Rightarrow> 'w \<Rightarrow> go_error option \<times> 'w"
  bfs_remove :: "string \<Rightarrow> 'w \<Rightarrow> go_error option \<times> 'w"
  bfs_mkdir_all :: "string \<Rightarrow> 'w \<Rightarrow> go_error option \<times> 'w"
  bfs_stat :: "string \<Rightarrow> 'w \<Rightarrow> (go_error, os_file_info) result \<times> 'w"
  bfs_write :: "'f \<Rightarrow> string \<Rightarrow> 'w \<Rightarrow> (int \<times> go_error option) \<times> 'w"
  bfs_truncate :: "'f \<Rightarrow> int \<Rightarrow> 'w \<Rightarrow> go_error option \<times> 'w"
  bfs_close :: "'f \<Rightarrow> 'w \<Rightarrow> go_error option \<times> 'w"

text \<open>The flags of \<open>OpenFile\<close> on Linux.\<close>

abbreviation "O_WRONLY \<equiv> 1 :: int"
abbreviation "O_RDWR \<equiv> 2 :: int"
abbreviation "O_CREATE \<equiv> 64 :: int"
abbreviation "O_TRUNC \<equiv> 512 :: int"
abbreviation "O_APPEND \<equiv> 1024 :: int"

section \<open>The wrapper\<close>

record ('w, 'f) identity_fs =
  ifs_base :: "('w, 'f) billy_fs"
  ifs_actor :: actor
  ifs_store :: "'w node_store_ops option"

definition new_identity_fs ::
  "('w, 'f) billy_fs \<Rightarrow> actor \<Rightarrow> 'w node_store_ops option \<Rightarrow> ('w, 'f) identity_fs" where
  "new_identity_fs base a store = \<lparr>ifs_base = base, ifs_actor = a, ifs_store = store\<rparr>"

record 'f identity_file =
  idf_file :: 'f
  idf_path :: string
  idf_dirty :: bool

definition should_skip :: "string \<Rightarrow> bool" where
  "should_skip path \<longleftrightarrow> (let cp = clean path in cp = ''.git'' \<or> has_prefix cp ''.git/'')"

definition ifs_mutation :: "('w, 'f) identity_fs \<Rightarrow> uint64 \<Rightarrow> string \<Rightarrow> node_mutation" where
  "ifs_mutation fs inode t =
     \<lparr>nm_inode_id = inode,
      nm_actor = new_node_actor (rc_owner_uin (ifs_actor fs)) (rc_uin (ifs_actor fs)) (rc_app_id (ifs_actor fs))
                   (rc_workspace_id (ifs_actor fs)),
      nm_node_type = t\<rparr>"

definition ifs_upsert :: "('w, 'f) identity_fs \<Rightarrow> string \<Rightarrow> os_file_info \<Rightarrow> 'w \<Rightarrow> go_error option \<times> 'w" where
  "ifs_upsert fs path info =
     (case ifs_store fs of
        None \<Rightarrow> give None
      | Some store \<Rightarrow>
          if should_skip path then give None
          else (case inode_from_file_info info of
                  None \<Rightarrow> give None
                | Some inode \<Rightarrow> ns_upsert store (ifs_mutation fs inode (node_type_from_dir (oi_is_dir info)))))"

definition ifs_mark_deleted :: "('w, 'f) identity_fs \<Rightarrow> string \<Rightarrow> os_file_info \<Rightarrow> 'w \<Rightarrow> go_error option \<times> 'w" where
  "ifs_mark_deleted fs path info =
     (case ifs_store fs of
        None \<Rightarrow> give None
      | Some store \<Rightarrow>
          if should_skip path then give None
          else (case inode_from_file_info info of
                  None \<Rightarrow> give None
                | Some inode \<Rightarrow> ns_mark_deleted store (ifs_mutation fs inode [])))"

definition record_created_or_updated :: "('w, 'f) identity_fs \<Rightarrow> string \<Rightarrow> 'w \<Rightarrow> go_error option \<times> 'w" where
  "record_created_or_updated fs path =
     (if should_skip path \<or> ifs_store fs = None then give None
      else after (bfs_stat (ifs_base fs) path) (\<lambda>r. case r of
             Inl e \<Rightarrow> give (Some e)
           | Inr info \<Rightarrow> ifs_upsert fs path info))"

definition ifs_create ::
  "('w, 'f) identity_fs \<Rightarrow> string \<Rightarrow> 'w \<Rightarrow> (go_error, 'f identity_file) result \<times> 'w" where
  "ifs_create fs path =
     after (bfs_create (ifs_base fs) path) (\<lambda>r. case r of
        Inl e \<Rightarrow> give (Inl e)
      | Inr f \<Rightarrow>
          after (record_created_or_updated fs path) (\<lambda>_.
            give (Inr \<lparr>idf_file = f, idf_path = path, idf_dirty = True\<rparr>)))"

definition ifs_open_file ::
  "('w, 'f) identity_fs \<Rightarrow> string \<Rightarrow> int \<Rightarrow> 'w \<Rightarrow> (go_error, 'f identity_file) result \<times> 'w" where
  "ifs_open_file fs path flag =
     after (bfs_open_file (ifs_base fs) path flag) (\<lambda>r. case r of
        Inl e \<Rightarrow> give (Inl e)
      | Inr f \<Rightarrow>
          (let dirty = (and flag (or O_WRONLY (or O_RDWR (or O_APPEND (or O_TRUNC O_CREATE)))) \<noteq> 0);
               file = \<lparr>idf_file = f, idf_path = path, idf_dirty = dirty\<rparr>
           in if dirty \<and> and flag O_CREATE \<noteq> 0
              then after (record_created_or_updated fs path) (\<lambda>_. give (Inr file))
              else give (Inr file)))"

definition ifs_rename :: "('w, 'f) identity_fs \<Rightarrow> string \<Rightarrow> string \<Rightarrow> 'w \<Rightarrow> go_error option \<times> 'w" where
  "ifs_rename fs old_path new_path =
     after (bfs_stat (ifs_base fs) old_path) (\<lambda>st.
       after (bfs_rename (ifs_base fs) old_path new_path) (\<lambda>r. case r of
          Some e \<Rightarrow> give (Some e)
        | None \<Rightarrow>
            (case st of
               Inl e \<Rightarrow> give None
             | Inr info \<Rightarrow> after (ifs_upsert fs new_path info) (\<lambda>_. give None))))"

definition ifs_remove :: "('w, 'f) identity_fs \<Rightarrow> string \<Rightarrow> 'w \<Rightarrow> go_error option \<times> 'w" where
  "ifs_remove fs path =
     after (bfs_stat (ifs_base fs) path) (\<lambda>st.
       after (bfs_remove (ifs_base fs) path) (\<lambda>r. case r of
          Some e \<Rightarrow> give (Some e)
        | None \<Rightarrow>
            (case st of
               Inl e \<Rightarrow> give None
             | Inr info \<Rightarrow> after (ifs_mark_deleted fs path info) (\<lambda>_. give None))))"

definition ifs_mkdir_all :: "('w, 'f) identity_fs \<Rightarrow> string \<Rightarrow> 'w \<Rightarrow> go_error option \<times> 'w" where
  "ifs_mkdir_all fs path =
     after (bfs_mkdir_all (ifs_base fs) path) (\<lambda>r. case r of
        Some e \<Rightarrow> give (Some e)
      | None \<Rightarrow> after (record_created_or_updated fs path) (\<lambda>_. give None))"

text \<open>The methods of an open file; they return the file as it is afterwards.\<close>

definition idf_write ::
  "('w, 'f) identity_fs \<Rightarrow> 'f identity_file \<Rightarrow> string \<Rightarrow> 'w \<Rightarrow> ((int \<times> go_error option) \<times> 'f identity_file) \<times> 'w" where
  "idf_write fs f p =
     after (bfs_write (ifs_base fs) (idf_file f) p) (\<lambda>r.
       give (r, if 0 < fst r then f\<lparr>idf_dirty := True\<rparr> else f))"

definition idf_truncate ::
  "('w, 'f) identity_fs \<Rightarrow> 'f identity_file \<Rightarrow> int \<Rightarrow> 'w \<Rightarrow> (go_error option \<times> 'f identity_file) \<times> 'w" where
  "idf_truncate fs f n =
     after (bfs_truncate (ifs_base fs) (idf_file f) n) (\<lambda>r. case r of
        Some e \<Rightarrow> give (Some e, f)
      | None \<Rightarrow> give (None, f\<lparr>idf_dirty := True\<rparr>))"

definition idf_close :: "('w, 'f) identity_fs \<Rightarrow> 'f identity_file \<Rightarrow> 'w \<Rightarrow> go_error option \<times> 'w" where
  "idf_close fs f =
     after (bfs_close (ifs_base fs) (idf_file f)) (\<lambda>err.
       if err = None \<and> idf_dirty f
       then after (record_created_or_updated fs (idf_path f)) (\<lambda>_. give err)
       else give err)"

end
