(* ===== verification/GitDomain.thy ===== *)
theory GitDomain
  imports FsDomain GoTime
begin

text \<open>
  \<open>internal/domain/git/git.go\<close>: the requests and results of the Git port and the port
  \<open>GitClient\<close> itself, the record of its methods over a state type \<open>'w\<close>. Structs with the same
  fields share a record.
\<close>

record git_credentials =
  gc_username :: string
  gc_token :: string

record clone_req =
  cl_actor :: actor
  cl_repo_url :: string
  cl_target_path :: string
  cl_branch :: string

record clone_result =
  clr_repo_url :: string
  clr_path :: string
  clr_branch :: string

text \<open>A pull names the remote and the branch, and so does a push.\<close>

record pull_req =
  pl_actor :: actor
  pl_path :: string
  pl_remote_name :: string
  pl_branch :: string
  pl_credentials :: git_credentials

type_synonym push_req = pull_req

record pull_result =
  plr_already_up_to_date :: bool
  plr_head_commit :: string
  plr_current_branch :: string

record stage_req =
  sg_actor :: actor
  sg_path :: string
  sg_files :: "string list"
  sg_all :: bool

type_synonym unstage_req = stage_req

record commit_req =
  cm_actor :: actor
  cm_path :: string
  cm_message :: string
  cm_author_name :: string
  cm_author_email :: string

record commit_result =
  cmr_nothing_to_commit :: bool
  cmr_commit_hash :: string

text \<open>\<open>PushResult\<close> has the one field \<open>Pushed\<close>.\<close>

type_synonym push_result = bool

record commit_and_push_req =
  cap_actor :: actor
  cap_path :: string
  cap_message :: string
  cap_author_name :: string
  cap_author_email :: string
  cap_remote_name :: string
  cap_push :: bool
  cap_credentials :: git_credentials

record commit_and_push_result =
  capr_nothing_to_commit :: bool
  capr_commit_hash :: string
  capr_pushed :: bool

record create_branch_req =
  cb_actor :: actor
  cb_path :: string
  cb_branch :: string
  cb_checkout :: bool

record checkout_branch_req =
  cob_actor :: actor
  cob_path :: string
  cob_branch :: string
  cob_create :: bool

text \<open>\<open>BranchResult\<close> has the one field \<open>CurrentBranch\<close>.\<close>

type_synonym branch_result = string

text \<open>The requests that name a repository and nothing else.\<close>

record list_branches_req =
  gr_actor :: actor
  gr_path :: string

type_synonym status_req = list_branches_req
type_synonym repo_info_req = list_branches_req
type_synonym discard_changes_req = list_branches_req
type_synonym delete_repo_req = list_branches_req

record list_branches_result =
  lbr_current_branch :: string
  lbr_branches :: "string list"

record repo_info_result =
  ri_current_branch :: string
  ri_remote_url :: string

record file_status =
  fs_path_of :: string
  fs_staging :: string
  fs_worktree :: string

record status_result =
  str_clean :: bool
  str_files :: "file_status list"

record commit_history_req =
  ch_actor :: actor
  ch_path :: string
  ch_limit :: int

record commit_info =
  ci_hash :: string
  ci_author :: string
  ci_email :: string
  ci_message :: string
  ci_when :: go_time

text \<open>\<open>CommitHistoryResult\<close> has the one field \<open>Commits\<close>.\<close>

type_synonym commit_history_result = "commit_info list"

record file_diff_req =
  fd_actor :: actor
  fd_path :: string
  fd_file :: string

record file_diff_result =
  fdr_file :: string
  fdr_head_content_base64 :: string
  fdr_worktree_content_base64 :: string
  fdr_head_missing :: bool
  fdr_worktree_missing :: bool

record 'w git_client =
  git_clone :: "clone_req \<Rightarrow> 'w \<Rightarrow> (go_error, clone_result) result \<times> 'w"
  git_pull :: "pull_req \<Rightarrow> 'w \<Rightarrow> (go_error, pull_result) result \<times> 'w"
  git_stage :: "stage_req \<Rightarrow> 'w \<Rightarrow> go_error option \<times> 'w"
  git_unstage :: "unstage_req \<Rightarrow> 'w \<Rightarrow> go_error option \<times> 'w"
  git_commit :: "commit_req \<Rightarrow> 'w \<Rightarrow> (go_error, commit_result) result \<times> 'w"
  git_push :: "push_req \<Rightarrow> 'w \<Rightarrow> (go_error, push_result) result \<times> 'w"
  git_commit_and_push :: "commit_and_push_req \<Rightarrow> 'w \<Rightarrow> (go_error, commit_and_push_result) result \<times> 'w"
  git_create_branch :: "create_branch_req \<Rightarrow> 'w \<Rightarrow> (go_error, branch_result) result \<times> 'w"
  git_checkout_branch :: "checkout_branch_req \<Rightarrow> 'w \<Rightarrow> (go_error, branch_result) result \<times> 'w"
  git_list_branches :: "list_branches_req \<Rightarrow> 'w \<Rightarrow> (go_error, list_branches_result) result \<times> 'w"
  git_status :: "status_req \<Rightarrow> 'w \<Rightarrow> (go_error, status_result) result \<times> 'w"
  git_repo_info :: "repo_info_req \<Rightarrow> 'w \<Rightarrow> (go_error, repo_info_result) result \<times> 'w"
  git_file_diff :: "file_diff_req \<Rightarrow> 'w \<Rightarrow> (go_error, file_diff_result) result \<times> 'w"
  git_commit_history :: "commit_history_req \<Rightarrow> 'w \<Rightarrow> (go_error, commit_history_result) result \<times> 'w"
  git_discard_changes :: "discard_changes_req \<Rightarrow> 'w \<Rightarrow> go_error option \<times> 'w"
  git_delete_repo :: "delete_repo_req \<Rightarrow> 'w \<Rightarrow> go_error option \<times> 'w"

end
