(* ===== verification/GitClient.thy ===== *)
theory GitClient
  imports IdentityFS GitDomain Base64
begin

text \<open>
  \<open>internal/infra/git\<close>: the Git port on the library go-git. The library is a parameter, the record
  \<open>go_git\<close> of the functions the client calls; its repositories, worktrees, commits, trees and
  files are values of one type \<open>'g\<close>. The worktree file system it is handed is the wrapper of
  \<open>IdentityFS\<close>.
\<close>

section \<open>The library\<close>

record git_ref =
  gref_hash :: string
  gref_short :: string

datatype git_status_code =
    Unmodified | Untracked | Modified | Added | Deleted | Renamed | Copied | UpdatedButUnmerged | OtherStatus

record basic_auth =
  ba_username :: string
  ba_password :: string

record remote_options =
  \<comment> \<open>\<open>PullOptions\<close> and \<open>PushOptions\<close>: the reference is \<open>None\<close> when it is left empty\<close>
  ro_remote_name :: string
  ro_reference :: "string option"
  ro_auth :: "basic_auth option"

record lib_commit =
  lc_hash :: string
  lc_author :: string
  lc_email :: string
  lc_message :: string
  lc_when :: go_time

text \<open>
  An iterator is the list of what it yields and the error at its end, if any. \<open>gg_status\<close> lists the
  map from paths to the staging and worktree codes in the order of the iteration. Branch names
  stand for \<open>refs/heads/name\<close>, as \<open>NewBranchReferenceName\<close> makes them. \<open>gg_no_change\<close> and
  \<open>gg_no_file\<close> decide \<open>errors.Is\<close> for two sentinels of the library.
\<close>

record ('x, 'f, 'g) go_git =
  gg_osfs :: "string \<Rightarrow> ('x world, 'f) billy_fs"
  gg_clone :: "string \<Rightarrow> ('x world, 'f) identity_fs \<Rightarrow> string \<Rightarrow> string \<Rightarrow> 'x world \<Rightarrow> go_error option \<times> 'x world"
  gg_open :: "string \<Rightarrow> ('x world, 'f) identity_fs \<Rightarrow> 'x world \<Rightarrow> (go_error, 'g) result \<times> 'x world"
  gg_worktree :: "'g \<Rightarrow> 'x world \<Rightarrow> (go_error, 'g) result \<times> 'x world"
  gg_pull :: "'g \<Rightarrow> remote_options \<Rightarrow> 'x world \<Rightarrow> go_error option \<times> 'x world"
  gg_head :: "'g \<Rightarrow> 'x world \<Rightarrow> (go_error, git_ref) result \<times> 'x world"
  gg_add_all :: "'g \<Rightarrow> 'x world \<Rightarrow> go_error option \<times> 'x world"
  gg_add_path :: "'g \<Rightarrow> string \<Rightarrow> 'x world \<Rightarrow> go_error option \<times> 'x world"
  gg_reset_mixed :: "'g \<Rightarrow> 'x world \<Rightarrow> go_error option \<times> 'x world"
  gg_reset_hard :: "'g \<Rightarrow> 'x world \<Rightarrow> go_error option \<times> 'x world"
  gg_clean_dirs :: "'g \<Rightarrow> 'x world \<Rightarrow> go_error option \<times> 'x world"
  gg_remove :: "'g \<Rightarrow> string \<Rightarrow> 'x world \<Rightarrow> go_error option \<times> 'x world"
  gg_status :: "'g \<Rightarrow> 'x world \<Rightarrow> (go_error, (string \<times> git_status_code \<times> git_status_code) list) result \<times> 'x world"
  gg_is_clean :: "(string \<times> git_status_code \<times> git_status_code) list \<Rightarrow> bool"
  gg_commit :: "'g \<Rightarrow> string \<Rightarrow> string \<Rightarrow> string \<Rightarrow> 'x world \<Rightarrow> (go_error, string) result \<times> 'x world"
  gg_push :: "'g \<Rightarrow> remote_options \<Rightarrow> 'x world \<Rightarrow> go_error option \<times> 'x world"
  gg_checkout :: "'g \<Rightarrow> string \<Rightarrow> bool \<Rightarrow> 'x world \<Rightarrow> go_error option \<times> 'x world"
  gg_set_reference :: "'g \<Rightarrow> string \<Rightarrow> string \<Rightarrow> 'x world \<Rightarrow> go_error option \<times> 'x world"
  gg_remote_reference :: "'g \<Rightarrow> string \<Rightarrow> string \<Rightarrow> 'x world \<Rightarrow> (go_error, git_ref) result \<times> 'x world"
  gg_branches :: "'g \<Rightarrow> 'x world \<Rightarrow> (go_error, git_ref list \<times> go_error option) result \<times> 'x world"
  gg_log :: "'g \<Rightarrow> 'x world \<Rightarrow> (go_error, lib_commit list \<times> go_error option) result \<times> 'x world"
  gg_remote_urls :: "'g \<Rightarrow> string \<Rightarrow> 'x world \<Rightarrow> (go_error, string list) result \<times> 'x world"
  gg_commit_object :: "'g \<Rightarrow> string \<Rightarrow> 'x world \<Rightarrow> (go_error, 'g) result \<times> 'x world"
  gg_tree :: "'g \<Rightarrow> 'x world \<Rightarrow> (go_error, 'g) result \<times> 'x world"
  gg_file :: "'g \<Rightarrow> string \<Rightarrow> 'x world \<Rightarrow> (go_error, 'g) result \<times> 'x world"
  gg_contents :: "'g \<Rightarrow> 'x world \<Rightarrow> (go_error, string) result \<times> 'x world"
  gg_no_change :: "go_error \<Rightarrow> bool"
  gg_no_file :: "go_error \<Rightarrow> bool"

section \<open>The client\<close>

record ('x, 'f, 'g) workspace_git_client =
  wg_lib :: "('x, 'f, 'g) go_git"
  wg_file_node_store :: "'x world node_store_ops option"
  wg_mount_root :: string
  wg_git_meta_root :: string

definition new_workspace_git_client ::
  "('x, 'f, 'g) go_git \<Rightarrow> 'x world node_store_ops option \<Rightarrow> string \<Rightarrow> string \<Rightarrow> ('x, 'f, 'g) workspace_git_client" where
  "new_workspace_git_client lib store root meta =
     \<lparr>wg_lib = lib, wg_file_node_store = store, wg_mount_root = root, wg_git_meta_root = meta\<rparr>"

text \<open>\<open>filepath.Clean\<close> never returns the empty string, so the check of the mount root passes.\<close>

definition resolve_git_dir :: "string \<Rightarrow> string \<Rightarrow> string \<Rightarrow> (go_error, string) result" where
  "resolve_git_dir mount_root0 git_meta_root0 worktree_path0 =
     (let worktree_path = clean worktree_path0
      in if trim_space git_meta_root0 = [] then Inr (join_path [worktree_path, ''.git''])
         else
           (let mount_root = clean mount_root0; git_meta_root = clean git_meta_root0
            in if mount_root = []
               then Inl (text_error ''workspace mount root is required when git_meta_root is set'')
               else
                 (case rel_path mount_root worktree_path of
                    Inl e \<Rightarrow> Inl (wrap_error ''worktree path relative to mount root'' (text_error e))
                  | Inr rel \<Rightarrow>
                      if rel = ''..'' \<or> has_prefix rel ''../''
                      then Inl (text_error ''worktree path escapes workspace mount root'')
                      else Inr (join_path [git_meta_root, rel, ''.git'']))))"

definition ensure_git_dir_parent :: "string \<Rightarrow> 'x world \<Rightarrow> go_error option \<times> 'x world" where
  "ensure_git_dir_parent git_dir =
     after (on_os (os_mkdir_all (dir_path git_dir)))
       (\<lambda>r. give (map_option (\<lambda>e. wrap_error ''create git metadata parent dir'' (os_go_error e)) r))"

definition is_subpath :: "string \<Rightarrow> string \<Rightarrow> bool" where
  "is_subpath parent0 child0 =
     (let parent = clean parent0; child = clean child0
      in if parent = child then True
         else (case rel_path parent child of
                 Inl e \<Rightarrow> False
               | Inr rel \<Rightarrow> rel \<noteq> ''..'' \<and> \<not> has_prefix rel ''../''))"

definition client_git_dir :: "('x, 'f, 'g) workspace_git_client \<Rightarrow> string \<Rightarrow> (go_error, string) result" where
  "client_git_dir c worktree_path = resolve_git_dir (wg_mount_root c) (wg_git_meta_root c) worktree_path"

section \<open>Cloning\<close>

definition normalize_branch_name :: "string \<Rightarrow> string" where
  "normalize_branch_name branch = trim_prefix (trim_space branch) ''refs/heads/''"

definition is_dir_empty :: "string \<Rightarrow> 'x world \<Rightarrow> (go_error, bool) result \<times> 'x world" where
  "is_dir_empty path =
     after (on_os (os_open path)) (\<lambda>r. case r of
        Some e \<Rightarrow> give (Inl (os_go_error e))
      | None \<Rightarrow>
          after (on_os (os_read_dir path)) (\<lambda>r. give (case r of
             Inl e \<Rightarrow> Inl (os_go_error e)
           | Inr names \<Rightarrow> Inr (names = []))))"

definition prepare_clone_target :: "string \<Rightarrow> 'x world \<Rightarrow> go_error option \<times> 'x world" where
  "prepare_clone_target path =
     after (on_os (os_stat path)) (\<lambda>r. case r of
        Inl e \<Rightarrow>
          if os_is_not_exist e
          then after (on_os (os_mkdir_all path)) (\<lambda>r. give (map_option os_go_error r))
          else give (Some (os_go_error e))
      | Inr info \<Rightarrow>
          if \<not> oi_is_dir info then give (Some (text_error (''clone target is not a directory: '' @ path)))
          else
            after (is_dir_empty path) (\<lambda>r. give (case r of
               Inl e \<Rightarrow> Some e
             | Inr is_empty \<Rightarrow>
                 if \<not> is_empty then Some (text_error (''clone target directory is not empty: '' @ path)) else None)))"

definition worktree_fs ::
  "('x, 'f, 'g) workspace_git_client \<Rightarrow> string \<Rightarrow> actor \<Rightarrow> ('x world, 'f) identity_fs" where
  "worktree_fs c path a = new_identity_fs (gg_osfs (wg_lib c) path) a (wg_file_node_store c)"

definition client_clone ::
  "('x, 'f, 'g) workspace_git_client \<Rightarrow> clone_req \<Rightarrow> 'x world \<Rightarrow> (go_error, clone_result) result \<times> 'x world" where
  "client_clone c req =
     after (prepare_clone_target (cl_target_path req)) (\<lambda>r. case r of
        Some e \<Rightarrow> give (Inl e)
      | None \<Rightarrow>
          (let branch = normalize_branch_name (cl_branch req)
           in if branch = [] then give (Inl (text_error ''branch is required''))
              else
                (case client_git_dir c (cl_target_path req) of
                   Inl e \<Rightarrow> give (Inl e)
                 | Inr git_dir \<Rightarrow>
                     after (ensure_git_dir_parent git_dir) (\<lambda>r. case r of
                        Some e \<Rightarrow> give (Inl e)
                      | None \<Rightarrow>
                          after (gg_clone (wg_lib c) git_dir (worktree_fs c (cl_target_path req) (cl_actor req))
                                   (cl_repo_url req) branch) (\<lambda>r. give (case r of
                             Some e \<Rightarrow> Inl e
                           | None \<Rightarrow> Inr \<lparr>clr_repo_url = cl_repo_url req, clr_path = cl_target_path req,
                                          clr_branch = branch\<rparr>))))))"

section \<open>Repositories\<close>

definition default_remote_name :: string where "default_remote_name = ''origin''"
definition default_history_size :: int where "default_history_size = 50"

definition open_repo ::
  "('x, 'f, 'g) workspace_git_client \<Rightarrow> string \<Rightarrow> actor \<Rightarrow> 'x world \<Rightarrow> (go_error, 'g) result \<times> 'x world" where
  "open_repo c path a =
     (case client_git_dir c path of
        Inl e \<Rightarrow> give (Inl e)
      | Inr git_dir \<Rightarrow>
          after (gg_open (wg_lib c) git_dir (worktree_fs c path a)) (\<lambda>r. give (case r of
             Inl e \<Rightarrow> Inl (wrap_error ''open repository'' e)
           | Inr repo \<Rightarrow> Inr repo)))"

text \<open>The start most operations share: the repository and its worktree.\<close>

definition open_worktree ::
  "('x, 'f, 'g) workspace_git_client \<Rightarrow> string \<Rightarrow> actor \<Rightarrow> 'x world \<Rightarrow> (go_error, 'g \<times> 'g) result \<times> 'x world" where
  "open_worktree c path a =
     after (open_repo c path a) (\<lambda>r. case r of
        Inl e \<Rightarrow> give (Inl e)
      | Inr repo \<Rightarrow>
          after (gg_worktree (wg_lib c) repo) (\<lambda>r. give (case r of
             Inl e \<Rightarrow> Inl (wrap_error ''worktree'' e)
           | Inr worktree \<Rightarrow> Inr (repo, worktree))))"

definition remote_or_default :: "string \<Rightarrow> string" where
  "remote_or_default name = (if trim_space name = [] then default_remote_name else name)"

definition basic_auth_of :: "git_credentials \<Rightarrow> basic_auth option" where
  "basic_auth_of cred =
     (if trim_space (gc_token cred) = [] then None
      else Some \<lparr>ba_username = (if gc_username cred = [] then ''git'' else gc_username cred),
                 ba_password = gc_token cred\<rparr>)"

definition current_branch :: "('x, 'f, 'g) workspace_git_client \<Rightarrow> 'g \<Rightarrow> 'x world \<Rightarrow> string \<times> 'x world" where
  "current_branch c repo =
     after (gg_head (wg_lib c) repo) (\<lambda>r. give (case r of Inl e \<Rightarrow> [] | Inr ref \<Rightarrow> gref_short ref))"

fun status_code_string :: "git_status_code \<Rightarrow> string" where
  "status_code_string Unmodified = ''unmodified''"
| "status_code_string Untracked = ''untracked''"
| "status_code_string Modified = ''modified''"
| "status_code_string Added = ''added''"
| "status_code_string Deleted = ''deleted''"
| "status_code_string Renamed = ''renamed''"
| "status_code_string Copied = ''copied''"
| "status_code_string UpdatedButUnmerged = ''unmerged''"
| "status_code_string OtherStatus = ''unknown''"

section \<open>Remote and local changes\<close>

definition client_pull ::
  "('x, 'f, 'g) workspace_git_client \<Rightarrow> pull_req \<Rightarrow> 'x world \<Rightarrow> (go_error, pull_result) result \<times> 'x world" where
  "client_pull c req =
     after (open_worktree c (pl_path req) (pl_actor req)) (\<lambda>r. case r of
        Inl e \<Rightarrow> give (Inl e)
      | Inr (repo, worktree) \<Rightarrow>
          after (gg_pull (wg_lib c) worktree
                   \<lparr>ro_remote_name = remote_or_default (pl_remote_name req),
                    ro_reference = (if pl_branch req \<noteq> [] then Some (pl_branch req) else None),
                    ro_auth = basic_auth_of (pl_credentials req)\<rparr>) (\<lambda>err.
            let up_to_date = (case err of Some e \<Rightarrow> gg_no_change (wg_lib c) e | None \<Rightarrow> False)
            in (case (err, up_to_date) of
                  (Some e, False) \<Rightarrow> give (Inl (wrap_error ''pull'' e))
                | _ \<Rightarrow>
                    after (gg_head (wg_lib c) repo) (\<lambda>r. give (Inr (case r of
                       Inr head \<Rightarrow> \<lparr>plr_already_up_to_date = up_to_date, plr_head_commit = gref_hash head,
                                    plr_current_branch = gref_short head\<rparr>
                     | Inl e \<Rightarrow> \<lparr>plr_already_up_to_date = up_to_date, plr_head_commit = [],
                                 plr_current_branch = []\<rparr>))))))"

text \<open>A loop over files that stops at the first error.\<close>

fun each_path ::
  "string \<Rightarrow> (string \<Rightarrow> 'w \<Rightarrow> go_error option \<times> 'w) \<Rightarrow> string list \<Rightarrow> 'w \<Rightarrow> go_error option \<times> 'w" where
  "each_path what f [] = give None"
| "each_path what f (x # xs) =
     after (f x) (\<lambda>r. case r of
        Some e \<Rightarrow> give (Some (wrap_error (what @ '' '' @ x) e))
      | None \<Rightarrow> each_path what f xs)"

definition client_stage ::
  "('x, 'f, 'g) workspace_git_client \<Rightarrow> stage_req \<Rightarrow> 'x world \<Rightarrow> go_error option \<times> 'x world" where
  "client_stage c req =
     after (open_worktree c (sg_path req) (sg_actor req)) (\<lambda>r. case r of
        Inl e \<Rightarrow> give (Some e)
      | Inr (repo, worktree) \<Rightarrow>
          if sg_all req then gg_add_all (wg_lib c) worktree
          else each_path ''stage'' (gg_add_path (wg_lib c) worktree) (sg_files req))"

definition client_unstage ::
  "('x, 'f, 'g) workspace_git_client \<Rightarrow> unstage_req \<Rightarrow> 'x world \<Rightarrow> go_error option \<times> 'x world" where
  "client_unstage c req =
     after (open_worktree c (sg_path req) (sg_actor req)) (\<lambda>r. case r of
        Inl e \<Rightarrow> give (Some e)
      | Inr (repo, worktree) \<Rightarrow>
          if sg_all req then gg_reset_mixed (wg_lib c) worktree
          else each_path ''unstage'' (gg_remove (wg_lib c) worktree) (sg_files req))"

text \<open>The time of a commit is \<open>time.Now\<close>, which the library could read as well.\<close>

definition client_commit ::
  "('x, 'f, 'g) workspace_git_client \<Rightarrow> commit_req \<Rightarrow> 'x world \<Rightarrow> (go_error, commit_result) result \<times> 'x world" where
  "client_commit c req =
     after (open_worktree c (cm_path req) (cm_actor req)) (\<lambda>r. case r of
        Inl e \<Rightarrow> give (Inl e)
      | Inr (repo, worktree) \<Rightarrow>
          after (gg_status (wg_lib c) worktree) (\<lambda>r. case r of
             Inl e \<Rightarrow> give (Inl (wrap_error ''status'' e))
           | Inr status \<Rightarrow>
               if gg_is_clean (wg_lib c) status
               then give (Inr \<lparr>cmr_nothing_to_commit = True, cmr_commit_hash = []\<rparr>)
               else
                 after (gg_commit (wg_lib c) worktree (cm_message req) (cm_author_name req) (cm_author_email req))
                   (\<lambda>r. give (case r of
                      Inl e \<Rightarrow> Inl (wrap_error ''commit'' e)
                    | Inr hash \<Rightarrow> Inr \<lparr>cmr_nothing_to_commit = False, cmr_commit_hash = hash\<rparr>))))"

definition client_push ::
  "('x, 'f, 'g) workspace_git_client \<Rightarrow> push_req \<Rightarrow> 'x world \<Rightarrow> (go_error, push_result) result \<times> 'x world" where
  "client_push c req =
     after (open_repo c (pl_path req) (pl_actor req)) (\<lambda>r. case r of
        Inl e \<Rightarrow> give (Inl e)
      | Inr repo \<Rightarrow>
          after (gg_push (wg_lib c) repo
                   \<lparr>ro_remote_name = remote_or_default (pl_remote_name req), ro_reference = None,
                    ro_auth = basic_auth_of (pl_credentials req)\<rparr>) (\<lambda>r. give (case r of
             Some e \<Rightarrow> if \<not> gg_no_change (wg_lib c) e then Inl (wrap_error ''push'' e) else Inr True
           | None \<Rightarrow> Inr True)))"

text \<open>
  When the push fails the Go function returns its partial result with the error; its only caller
  drops the result then.
\<close>

definition client_commit_and_push ::
  "('x, 'f, 'g) workspace_git_client \<Rightarrow> commit_and_push_req \<Rightarrow> 'x world \<Rightarrow>
   (go_error, commit_and_push_result) result \<times> 'x world" where
  "client_commit_and_push c req =
     after (client_stage c \<lparr>sg_actor = cap_actor req, sg_path = cap_path req, sg_files = [], sg_all = True\<rparr>) (\<lambda>r.
     case r of Some e \<Rightarrow> give (Inl e) | None \<Rightarrow>
     after (client_commit c
              \<lparr>cm_actor = cap_actor req, cm_path = cap_path req, cm_message = cap_message req,
               cm_author_name = cap_author_name req, cm_author_email = cap_author_email req\<rparr>) (\<lambda>r.
     case r of Inl e \<Rightarrow> give (Inl e) | Inr cr \<Rightarrow>
     (let result = \<lparr>capr_nothing_to_commit = cmr_nothing_to_commit cr, capr_commit_hash = cmr_commit_hash cr,
                    capr_pushed = False\<rparr>
      in if \<not> cap_push req \<or> cmr_nothing_to_commit cr then give (Inr result)
         else
           after (client_push c
                    \<lparr>pl_actor = cap_actor req, pl_path = cap_path req, pl_remote_name = cap_remote_name req,
                     pl_branch = [], pl_credentials = cap_credentials req\<rparr>) (\<lambda>r. give (case r of
              Inl e \<Rightarrow> Inl e
            | Inr pushed \<Rightarrow> Inr (result\<lparr>capr_pushed := pushed\<rparr>))))))"

section \<open>Branches\<close>

definition client_create_branch ::
  "('x, 'f, 'g) workspace_git_client \<Rightarrow> create_branch_req \<Rightarrow> 'x world \<Rightarrow> (go_error, branch_result) result \<times> 'x world" where
  "client_create_branch c req =
     after (open_repo c (cb_path req) (cb_actor req)) (\<lambda>r. case r of
        Inl e \<Rightarrow> give (Inl e)
      | Inr repo \<Rightarrow>
          (let finish = after (current_branch c repo) (\<lambda>b. give (Inr b))
           in if cb_checkout req then
                after (gg_worktree (wg_lib c) repo) (\<lambda>r. case r of
                   Inl e \<Rightarrow> give (Inl (wrap_error ''worktree'' e))
                 | Inr worktree \<Rightarrow>
                     after (gg_checkout (wg_lib c) worktree (cb_branch req) True) (\<lambda>r. case r of
                        Some e \<Rightarrow> give (Inl (wrap_error ''create branch'' e))
                      | None \<Rightarrow> finish))
              else
                after (gg_head (wg_lib c) repo) (\<lambda>r. case r of
                   Inl e \<Rightarrow> give (Inl (wrap_error ''resolve HEAD'' e))
                 | Inr head \<Rightarrow>
                     after (gg_set_reference (wg_lib c) repo (cb_branch req) (gref_hash head)) (\<lambda>r. case r of
                        Some e \<Rightarrow> give (Inl (wrap_error ''create branch'' e))
                      | None \<Rightarrow> finish))))"

text \<open>
  The fallback of a checkout: a local branch is made from the remote tracking reference. When
  that is not possible the error of the first attempt stands.
\<close>

definition checkout_fallback ::
  "('x, 'f, 'g) workspace_git_client \<Rightarrow> 'g \<Rightarrow> 'g \<Rightarrow> string \<Rightarrow> go_error \<Rightarrow> 'x world \<Rightarrow> go_error option \<times> 'x world" where
  "checkout_fallback c repo worktree branch err =
     after (gg_remote_reference (wg_lib c) repo default_remote_name branch) (\<lambda>r. case r of
        Inl _ \<Rightarrow> give (Some err)
      | Inr remote_ref \<Rightarrow>
          after (gg_set_reference (wg_lib c) repo branch (gref_hash remote_ref)) (\<lambda>r. case r of
             Some _ \<Rightarrow> give (Some err)
           | None \<Rightarrow> gg_checkout (wg_lib c) worktree branch False))"

definition client_checkout_branch ::
  "('x, 'f, 'g) workspace_git_client \<Rightarrow> checkout_branch_req \<Rightarrow> 'x world \<Rightarrow> (go_error, branch_result) result \<times> 'x world" where
  "client_checkout_branch c req =
     after (open_worktree c (cob_path req) (cob_actor req)) (\<lambda>r. case r of
        Inl e \<Rightarrow> give (Inl e)
      | Inr (repo, worktree) \<Rightarrow>
          after (after (gg_checkout (wg_lib c) worktree (cob_branch req) (cob_create req)) (\<lambda>r. case r of
                   Some e \<Rightarrow> if \<not> cob_create req then checkout_fallback c repo worktree (cob_branch req) e
                             else give (Some e)
                 | None \<Rightarrow> give None)) (\<lambda>r. case r of
             Some e \<Rightarrow> give (Inl (wrap_error ''checkout branch'' e))
           | None \<Rightarrow> after (current_branch c repo) (\<lambda>b. give (Inr b))))"

definition client_list_branches ::
  "('x, 'f, 'g) workspace_git_client \<Rightarrow> list_branches_req \<Rightarrow> 'x world \<Rightarrow> (go_error, list_branches_result) result \<times> 'x world" where
  "client_list_branches c req =
     after (open_repo c (gr_path req) (gr_actor req)) (\<lambda>r. case r of
        Inl e \<Rightarrow> give (Inl e)
      | Inr repo \<Rightarrow>
          after (gg_branches (wg_lib c) repo) (\<lambda>r. case r of
             Inl e \<Rightarrow> give (Inl (wrap_error ''list branches'' e))
           | Inr (refs, Some e) \<Rightarrow> give (Inl (wrap_error ''iterate branches'' e))
           | Inr (refs, None) \<Rightarrow>
               after (current_branch c repo) (\<lambda>b.
                 give (Inr \<lparr>lbr_current_branch = b, lbr_branches = map gref_short refs\<rparr>))))"

section \<open>Looking at a repository\<close>

definition client_status ::
  "('x, 'f, 'g) workspace_git_client \<Rightarrow> status_req \<Rightarrow> 'x world \<Rightarrow> (go_error, status_result) result \<times> 'x world" where
  "client_status c req =
     after (open_worktree c (gr_path req) (gr_actor req)) (\<lambda>r. case r of
        Inl e \<Rightarrow> give (Inl e)
      | Inr (repo, worktree) \<Rightarrow>
          after (gg_status (wg_lib c) worktree) (\<lambda>r. give (case r of
             Inl e \<Rightarrow> Inl (wrap_error ''status'' e)
           | Inr status \<Rightarrow> Inr
               \<lparr>str_clean = gg_is_clean (wg_lib c) status,
                str_files = map (\<lambda>(p, st, wt). \<lparr>fs_path_of = p, fs_staging = status_code_string st,
                                              fs_worktree = status_code_string wt\<rparr>) status\<rparr>)))"

definition client_repo_info ::
  "('x, 'f, 'g) workspace_git_client \<Rightarrow> repo_info_req \<Rightarrow> 'x world \<Rightarrow> (go_error, repo_info_result) result \<times> 'x world" where
  "client_repo_info c req =
     after (open_repo c (gr_path req) (gr_actor req)) (\<lambda>r. case r of
        Inl e \<Rightarrow> give (Inl e)
      | Inr repo \<Rightarrow>
          after (current_branch c repo) (\<lambda>b.
          after (gg_remote_urls (wg_lib c) repo default_remote_name) (\<lambda>r. give (Inr
            \<lparr>ri_current_branch = b,
             ri_remote_url = (case r of Inr (url # _) \<Rightarrow> url | _ \<Rightarrow> [])\<rparr>))))"

text \<open>The contents of a file at HEAD; \<open>None\<close> when the commit has no such file.\<close>

definition head_file_content ::
  "('x, 'f, 'g) workspace_git_client \<Rightarrow> 'g \<Rightarrow> string \<Rightarrow> 'x world \<Rightarrow> (go_error, string option) result \<times> 'x world" where
  "head_file_content c repo rel =
     after (gg_head (wg_lib c) repo) (\<lambda>r. case r of Inl e \<Rightarrow> give (Inl (wrap_error ''head'' e)) | Inr head \<Rightarrow>
     after (gg_commit_object (wg_lib c) repo (gref_hash head)) (\<lambda>r.
       case r of Inl e \<Rightarrow> give (Inl (wrap_error ''commit'' e)) | Inr commit \<Rightarrow>
     after (gg_tree (wg_lib c) commit) (\<lambda>r. case r of Inl e \<Rightarrow> give (Inl (wrap_error ''tree'' e)) | Inr tree \<Rightarrow>
     after (gg_file (wg_lib c) tree rel) (\<lambda>r. case r of
        Inl e \<Rightarrow> give (if gg_no_file (wg_lib c) e then Inr None else Inl (wrap_error ''tree file'' e))
      | Inr file \<Rightarrow>
          after (gg_contents (wg_lib c) file) (\<lambda>r. give (case r of
             Inl e \<Rightarrow> Inl (wrap_error ''file contents'' e)
           | Inr content \<Rightarrow> Inr (Some content)))))))"

definition client_file_diff ::
  "('x, 'f, 'g) workspace_git_client \<Rightarrow> file_diff_req \<Rightarrow> 'x world \<Rightarrow> (go_error, file_diff_result) result \<times> 'x world" where
  "client_file_diff c req =
     (let rel = trim_space (fd_file req)
      in if rel = [] \<or> rel = ''.'' then give (Inl (text_error ''file is required''))
         else
           after (open_repo c (fd_path req) (fd_actor req)) (\<lambda>r. case r of
              Inl e \<Rightarrow> give (Inl e)
            | Inr repo \<Rightarrow>
                after (head_file_content c repo rel) (\<lambda>r. case r of
                   Inl e \<Rightarrow> give (Inl e)
                 | Inr head \<Rightarrow>
                     (let base = \<lparr>fdr_file = rel,
                                  fdr_head_content_base64 = (case head of Some d \<Rightarrow> base64_encode d | None \<Rightarrow> []),
                                  fdr_worktree_content_base64 = [], fdr_head_missing = (head = None),
                                  fdr_worktree_missing = False\<rparr>
                      in after (on_os (os_read_file (join_path [fd_path req, rel]))) (\<lambda>r. give (case r of
                           Inl e \<Rightarrow>
                             if os_is_not_exist e then Inr (base\<lparr>fdr_worktree_missing := True\<rparr>)
                             else Inl (wrap_error ''read worktree file'' (os_go_error e))
                         | Inr content \<Rightarrow> Inr (base\<lparr>fdr_worktree_content_base64 := base64_encode content\<rparr>)))))))"

text \<open>
  The loop over the log: it stops after \<open>limit\<close> commits, and the error at the end of the iterator
  is seen only when the end is reached.
\<close>

fun log_loop :: "int \<Rightarrow> lib_commit list \<Rightarrow> go_error option \<Rightarrow> commit_info list \<Rightarrow> (go_error, commit_info list) result" where
  "log_loop limit [] end_err commits = (case end_err of Some e \<Rightarrow> Inl e | None \<Rightarrow> Inr commits)"
| "log_loop limit (x # xs) end_err commits =
     (if limit \<le> int (length commits) then Inr commits
      else log_loop limit xs end_err (commits @
             [\<lparr>ci_hash = lc_hash x, ci_author = lc_author x, ci_email = lc_email x,
               ci_message = trim_space (lc_message x), ci_when = lc_when x\<rparr>]))"

definition client_commit_history ::
  "('x, 'f, 'g) workspace_git_client \<Rightarrow> commit_history_req \<Rightarrow> 'x world \<Rightarrow>
   (go_error, commit_history_result) result \<times> 'x world" where
  "client_commit_history c req =
     after (open_repo c (ch_path req) (ch_actor req)) (\<lambda>r. case r of
        Inl e \<Rightarrow> give (Inl e)
      | Inr repo \<Rightarrow>
          after (gg_log (wg_lib c) repo) (\<lambda>r. give (case r of
             Inl e \<Rightarrow> Inl (wrap_error ''read log'' e)
           | Inr (commits, end_err) \<Rightarrow>
               let limit = (if ch_limit req \<le> 0 then default_history_size else ch_limit req)
               in (case log_loop limit commits end_err [] of
                     Inl e \<Rightarrow> Inl (wrap_error ''iterate log'' e)
                   | Inr infos \<Rightarrow> Inr infos))))"

section \<open>Throwing away\<close>

definition client_discard_changes ::
  "('x, 'f, 'g) workspace_git_client \<Rightarrow> discard_changes_req \<Rightarrow> 'x world \<Rightarrow> go_error option \<times> 'x world" where
  "client_discard_changes c req =
     after (open_worktree c (gr_path req) (gr_actor req)) (\<lambda>r. case r of
        Inl e \<Rightarrow> give (Some e)
      | Inr (repo, worktree) \<Rightarrow>
          after (gg_reset_hard (wg_lib c) worktree) (\<lambda>r. case r of
             Some e \<Rightarrow> give (Some (wrap_error ''reset worktree'' e))
           | None \<Rightarrow>
               after (gg_clean_dirs (wg_lib c) worktree)
                 (\<lambda>r. give (map_option (wrap_error ''clean worktree'') r))))"

definition client_delete_repo ::
  "('x, 'f, 'g) workspace_git_client \<Rightarrow> delete_repo_req \<Rightarrow> 'x world \<Rightarrow> go_error option \<times> 'x world" where
  "client_delete_repo c req =
     (if trim_space (gr_path req) = [] then give (Some (text_error ''repo path is required''))
      else
        (case client_git_dir c (gr_path req) of
           Inl e \<Rightarrow> give (Some e)
         | Inr git_dir \<Rightarrow>
             after (on_os (os_remove_all (gr_path req))) (\<lambda>r. case r of
                Some e \<Rightarrow> give (Some (wrap_error ''delete repo worktree'' (os_go_error e)))
              | None \<Rightarrow>
                  if is_subpath (gr_path req) git_dir then give None
                  else
                    after (on_os (os_remove_all git_dir)) (\<lambda>r. give (case r of
                       Some e \<Rightarrow>
                         if \<not> os_is_not_exist e
                         then Some (wrap_error ''delete repo git metadata'' (os_go_error e)) else None
                     | None \<Rightarrow> None)))))"

section \<open>The client as a \<open>GitClient\<close>\<close>

definition git_client_of :: "('x, 'f, 'g) workspace_git_client \<Rightarrow> 'x world git_client" where
  "git_client_of c =
     \<lparr>git_clone = client_clone c, git_pull = client_pull c, git_stage = client_stage c,
      git_unstage = client_unstage c, git_commit = client_commit c, git_push = client_push c,
      git_commit_and_push = client_commit_and_push c, git_create_branch = client_create_branch c,
      git_checkout_branch = client_checkout_branch c, git_list_branches = client_list_branches c,
      git_status = client_status c, git_repo_info = client_repo_info c, git_file_diff = client_file_diff c,
      git_commit_history = client_commit_history c, git_discard_changes = client_discard_changes c,
      git_delete_repo = client_delete_repo c\<rparr>"

end
