(* ===== verification/GitService.thy ===== *)
theory GitService
  imports GitDomain MountFS
begin

text \<open>
  \<open>internal/usecase/git\<close>: the Git service. It checks the identity, resolves the path of the
  repository below the caller's root and calls the Git port; the clone of a Git folder runs in
  a goroutine of its own and reports its progress through the registry of clone jobs
  (\<open>CloneJobs\<close>).
\<close>

section \<open>The service\<close>

record 'w git_service =
  gsv_client :: "'w git_client"
  gsv_mount_root :: string
  gsv_node_store :: "'w node_store_ops option"

text \<open>The registry of clone jobs, empty at first, is part of the state in \<open>CloneJobs\<close>.\<close>

definition new_git_service ::
  "string option \<Rightarrow> 'w git_client \<Rightarrow> string \<Rightarrow> 'w node_store_ops option \<Rightarrow> 'w git_service" where
  "new_git_service home client root store =
     \<lparr>gsv_client = client, gsv_mount_root = clean_mount_root home root, gsv_node_store = store\<rparr>"

definition git_resolve_abs_path ::
  "'w git_service \<Rightarrow> request_context \<Rightarrow> string \<Rightarrow> sentinel \<Rightarrow> (go_error, string) result" where
  "git_resolve_abs_path sv ctx rel wrap =
     (if gsv_mount_root sv = [] then Inl (detail_error wrap ''workspace mount root is required'')
      else
        (case resolve_relative_path ctx rel of
           Inl e \<Rightarrow> Inl (detail_error wrap (err_text e))
         | Inr resolved \<Rightarrow>
             let abs_p = join_path [gsv_mount_root sv, resolved]
             in if \<not> has_prefix abs_p (gsv_mount_root sv @ ''/'') \<and> abs_p \<noteq> gsv_mount_root sv
                then Inl (detail_error wrap ''path escapes workspace mount root'')
                else Inr abs_p))"

definition git_resolve :: "'w git_service \<Rightarrow> request_context \<Rightarrow> string \<Rightarrow> (go_error, actor \<times> string) result" where
  "git_resolve sv ctx0 path =
     (let ctx = normalize ctx0
      in (case validate ctx of
            Some e \<Rightarrow> Inl (wrap_both ErrInvalidGitRequest e)
          | None \<Rightarrow>
              (case git_resolve_abs_path sv ctx path ErrInvalidGitRequest of
                 Inl e \<Rightarrow> Inl e
               | Inr abs_p \<Rightarrow> Inr (ctx, abs_p))))"

text \<open>\<open>if err != nil { return ..., fmt.Errorf("what: %w", err) }\<close>, and the result mapped otherwise.\<close>

definition finish_git :: "string \<Rightarrow> ('a \<Rightarrow> 'b) \<Rightarrow> (go_error, 'a) result \<Rightarrow> (go_error, 'b) result" where
  "finish_git what f r = (case r of Inl e \<Rightarrow> Inl (wrap_error what e) | Inr x \<Rightarrow> Inr (f x))"

section \<open>Cloning\<close>

record clone_repository_req =
  crq_context :: request_context
  crq_repo_url :: string
  crq_target_path :: string
  crq_branch :: string

definition build_clone_req :: "'w git_service \<Rightarrow> clone_repository_req \<Rightarrow> (go_error, clone_req) result" where
  "build_clone_req sv input =
     (let ctx = normalize (crq_context input); repo_url = trim_space (crq_repo_url input);
          target_path = trim_space (crq_target_path input); branch = trim_space (crq_branch input)
      in (case validate ctx of
            Some e \<Rightarrow> Inl (wrap_both ErrInvalidCloneReq e)
          | None \<Rightarrow>
              if repo_url = [] then Inl (detail_error ErrInvalidCloneReq ''repo_url is required'')
              else if target_path = [] then Inl (detail_error ErrInvalidCloneReq ''target_path is required'')
              else if branch = [] then Inl (detail_error ErrInvalidCloneReq ''branch is required'')
              else
                (case git_resolve_abs_path sv ctx target_path ErrInvalidCloneReq of
                   Inl e \<Rightarrow> Inl e
                 | Inr abs_p \<Rightarrow>
                     Inr \<lparr>cl_actor = ctx, cl_repo_url = repo_url, cl_target_path = abs_p, cl_branch = branch\<rparr>)))"

text \<open>\<open>CloneRepositoryResp\<close> repeats the fields of the domain's result.\<close>

definition clone_repository ::
  "'w git_service \<Rightarrow> clone_repository_req \<Rightarrow> 'w \<Rightarrow> (go_error, clone_result) result \<times> 'w" where
  "clone_repository sv input =
     (case build_clone_req sv input of
        Inl e \<Rightarrow> give (Inl e)
      | Inr req \<Rightarrow>
          after (git_clone (gsv_client sv) req) (\<lambda>r. give (finish_git ''clone repository''
            (\<lambda>x. \<lparr>clr_repo_url = clr_repo_url x, clr_path = clr_path x, clr_branch = clr_branch x\<rparr>) r)))"

section \<open>Requests\<close>

text \<open>\<open>Credentials\<close> of the service are those of the domain.\<close>

definition credentials_to_domain :: "git_credentials \<Rightarrow> git_credentials" where
  "credentials_to_domain c = \<lparr>gc_username = gc_username c, gc_token = gc_token c\<rparr>"

record pull_repository_req =
  prq_context :: request_context
  prq_path :: string
  prq_remote_name :: string
  prq_branch :: string
  prq_credentials :: git_credentials

record stage_files_req =
  sfq_context :: request_context
  sfq_path :: string
  sfq_files :: "string list"
  sfq_all :: bool

type_synonym unstage_files_req = stage_files_req

record svc_commit_req =
  scq_context :: request_context
  scq_path :: string
  scq_message :: string
  scq_author_name :: string
  scq_author_email :: string

record push_repository_req =
  puq_context :: request_context
  puq_path :: string
  puq_remote_name :: string
  puq_branch :: string
  puq_git_username :: string
  puq_git_token :: string

record svc_commit_and_push_req =
  sca_context :: request_context
  sca_path :: string
  sca_message :: string
  sca_author_name :: string
  sca_author_email :: string
  sca_remote_name :: string
  sca_push :: bool
  sca_credentials :: git_credentials

record svc_create_branch_req =
  scb_context :: request_context
  scb_path :: string
  scb_branch :: string
  scb_checkout :: bool

record svc_checkout_branch_req =
  sco_context :: request_context
  sco_path :: string
  sco_branch :: string
  sco_create :: bool

record svc_repo_req =
  \<comment> \<open>\<open>ListBranchesReq\<close>, \<open>StatusReq\<close>, \<open>DiscardChangesReq\<close>, \<open>DeleteRepositoryReq\<close>\<close>
  srq_context :: request_context
  srq_path :: string

record svc_file_diff_req =
  sfd_context :: request_context
  sfd_path :: string
  sfd_file :: string

record svc_commit_history_req =
  sch_context :: request_context
  sch_path :: string
  sch_limit :: int

text \<open>A commit in a response has its time as text.\<close>

record commit_info_resp =
  cir_hash :: string
  cir_author :: string
  cir_email :: string
  cir_message :: string
  cir_when :: string

section \<open>Operations\<close>

definition pull_repository ::
  "'w git_service \<Rightarrow> pull_repository_req \<Rightarrow> 'w \<Rightarrow> (go_error, pull_result) result \<times> 'w" where
  "pull_repository sv input =
     (case git_resolve sv (prq_context input) (prq_path input) of
        Inl e \<Rightarrow> give (Inl e)
      | Inr (a, path) \<Rightarrow>
          after (git_pull (gsv_client sv)
                   \<lparr>pl_actor = a, pl_path = path, pl_remote_name = trim_space (prq_remote_name input),
                    pl_branch = trim_space (prq_branch input),
                    pl_credentials = credentials_to_domain (prq_credentials input)\<rparr>)
            (\<lambda>r. give (finish_git ''pull repository''
               (\<lambda>x. \<lparr>plr_already_up_to_date = plr_already_up_to_date x, plr_head_commit = plr_head_commit x,
                     plr_current_branch = plr_current_branch x\<rparr>) r)))"

definition stage_files :: "'w git_service \<Rightarrow> stage_files_req \<Rightarrow> 'w \<Rightarrow> go_error option \<times> 'w" where
  "stage_files sv input =
     (case git_resolve sv (sfq_context input) (sfq_path input) of
        Inl e \<Rightarrow> give (Some e)
      | Inr (a, path) \<Rightarrow>
          after (git_stage (gsv_client sv)
                   \<lparr>sg_actor = a, sg_path = path, sg_files = sfq_files input, sg_all = sfq_all input\<rparr>)
            (\<lambda>r. give (map_option (wrap_error ''stage files'') r)))"

definition unstage_files :: "'w git_service \<Rightarrow> unstage_files_req \<Rightarrow> 'w \<Rightarrow> go_error option \<times> 'w" where
  "unstage_files sv input =
     (case git_resolve sv (sfq_context input) (sfq_path input) of
        Inl e \<Rightarrow> give (Some e)
      | Inr (a, path) \<Rightarrow>
          after (git_unstage (gsv_client sv)
                   \<lparr>sg_actor = a, sg_path = path, sg_files = sfq_files input, sg_all = sfq_all input\<rparr>)
            (\<lambda>r. give (map_option (wrap_error ''unstage files'') r)))"

text \<open>The author of a commit: the request's, by default the caller.\<close>

definition author_name_of :: "actor \<Rightarrow> string \<Rightarrow> string" where
  "author_name_of a name = (if trim_space name = [] then rc_uin a else trim_space name)"

definition author_email_of :: "actor \<Rightarrow> string \<Rightarrow> string" where
  "author_email_of a email = (if trim_space email = [] then rc_uin a @ ''@wedata'' else trim_space email)"

definition svc_commit ::
  "'w git_service \<Rightarrow> svc_commit_req \<Rightarrow> 'w \<Rightarrow> (go_error, commit_result) result \<times> 'w" where
  "svc_commit sv input =
     (case git_resolve sv (scq_context input) (scq_path input) of
        Inl e \<Rightarrow> give (Inl e)
      | Inr (a, path) \<Rightarrow>
          (let message = trim_space (scq_message input)
           in if message = [] then give (Inl (detail_error ErrInvalidGitRequest ''message is required''))
              else
                after (git_commit (gsv_client sv)
                         \<lparr>cm_actor = a, cm_path = path, cm_message = message,
                          cm_author_name = author_name_of a (scq_author_name input),
                          cm_author_email = author_email_of a (scq_author_email input)\<rparr>)
                  (\<lambda>r. give (finish_git ''commit''
                     (\<lambda>x. \<lparr>cmr_nothing_to_commit = cmr_nothing_to_commit x, cmr_commit_hash = cmr_commit_hash x\<rparr>) r))))"

definition push_repository ::
  "'w git_service \<Rightarrow> push_repository_req \<Rightarrow> 'w \<Rightarrow> (go_error, bool) result \<times> 'w" where
  "push_repository sv input =
     (case git_resolve sv (puq_context input) (puq_path input) of
        Inl e \<Rightarrow> give (Inl e)
      | Inr (a, path) \<Rightarrow>
          after (git_push (gsv_client sv)
                   \<lparr>pl_actor = a, pl_path = path, pl_remote_name = trim_space (puq_remote_name input),
                    pl_branch = trim_space (puq_branch input),
                    pl_credentials = credentials_to_domain
                      \<lparr>gc_username = puq_git_username input, gc_token = puq_git_token input\<rparr>\<rparr>)
            (\<lambda>r. give (finish_git ''push'' (\<lambda>pushed. pushed) r)))"

definition svc_commit_and_push ::
  "'w git_service \<Rightarrow> svc_commit_and_push_req \<Rightarrow> 'w \<Rightarrow> (go_error, commit_and_push_result) result \<times> 'w" where
  "svc_commit_and_push sv input =
     (case git_resolve sv (sca_context input) (sca_path input) of
        Inl e \<Rightarrow> give (Inl e)
      | Inr (a, path) \<Rightarrow>
          (let message = trim_space (sca_message input)
           in if message = [] then give (Inl (detail_error ErrInvalidGitRequest ''message is required''))
              else
                after (git_commit_and_push (gsv_client sv)
                         \<lparr>cap_actor = a, cap_path = path, cap_message = message,
                          cap_author_name = author_name_of a (sca_author_name input),
                          cap_author_email = author_email_of a (sca_author_email input),
                          cap_remote_name = trim_space (sca_remote_name input), cap_push = sca_push input,
                          cap_credentials = credentials_to_domain (sca_credentials input)\<rparr>)
                  (\<lambda>r. give (finish_git ''commit and push''
                     (\<lambda>x. \<lparr>capr_nothing_to_commit = capr_nothing_to_commit x, capr_commit_hash = capr_commit_hash x,
                           capr_pushed = capr_pushed x\<rparr>) r))))"

definition svc_create_branch ::
  "'w git_service \<Rightarrow> svc_create_branch_req \<Rightarrow> 'w \<Rightarrow> (go_error, string) result \<times> 'w" where
  "svc_create_branch sv input =
     (case git_resolve sv (scb_context input) (scb_path input) of
        Inl e \<Rightarrow> give (Inl e)
      | Inr (a, path) \<Rightarrow>
          (let branch = trim_space (scb_branch input)
           in if branch = [] then give (Inl (detail_error ErrInvalidGitRequest ''branch is required''))
              else
                after (git_create_branch (gsv_client sv)
                         \<lparr>cb_actor = a, cb_path = path, cb_branch = branch, cb_checkout = scb_checkout input\<rparr>)
                  (\<lambda>r. give (finish_git ''create branch'' (\<lambda>current. current) r))))"

definition svc_checkout_branch ::
  "'w git_service \<Rightarrow> svc_checkout_branch_req \<Rightarrow> 'w \<Rightarrow> (go_error, string) result \<times> 'w" where
  "svc_checkout_branch sv input =
     (case git_resolve sv (sco_context input) (sco_path input) of
        Inl e \<Rightarrow> give (Inl e)
      | Inr (a, path) \<Rightarrow>
          (let branch = trim_space (sco_branch input)
           in if branch = [] then give (Inl (detail_error ErrInvalidGitRequest ''branch is required''))
              else
                after (git_checkout_branch (gsv_client sv)
                         \<lparr>cob_actor = a, cob_path = path, cob_branch = branch, cob_create = sco_create input\<rparr>)
                  (\<lambda>r. give (finish_git ''checkout branch'' (\<lambda>current. current) r))))"

definition svc_list_branches ::
  "'w git_service \<Rightarrow> svc_repo_req \<Rightarrow> 'w \<Rightarrow> (go_error, list_branches_result) result \<times> 'w" where
  "svc_list_branches sv input =
     (case git_resolve sv (srq_context input) (srq_path input) of
        Inl e \<Rightarrow> give (Inl e)
      | Inr (a, path) \<Rightarrow>
          after (git_list_branches (gsv_client sv) \<lparr>gr_actor = a, gr_path = path\<rparr>)
            (\<lambda>r. give (finish_git ''list branches''
               (\<lambda>x. \<lparr>lbr_current_branch = lbr_current_branch x, lbr_branches = lbr_branches x\<rparr>) r)))"

definition svc_get_status ::
  "'w git_service \<Rightarrow> svc_repo_req \<Rightarrow> 'w \<Rightarrow> (go_error, status_result) result \<times> 'w" where
  "svc_get_status sv input =
     (case git_resolve sv (srq_context input) (srq_path input) of
        Inl e \<Rightarrow> give (Inl e)
      | Inr (a, path) \<Rightarrow>
          after (git_status (gsv_client sv) \<lparr>gr_actor = a, gr_path = path\<rparr>)
            (\<lambda>r. give (finish_git ''get status''
               (\<lambda>x. \<lparr>str_clean = str_clean x,
                     str_files = map (\<lambda>f. \<lparr>fs_path_of = fs_path_of f, fs_staging = fs_staging f,
                                           fs_worktree = fs_worktree f\<rparr>) (str_files x)\<rparr>) r)))"

definition svc_get_file_diff ::
  "'w git_service \<Rightarrow> svc_file_diff_req \<Rightarrow> 'w \<Rightarrow> (go_error, file_diff_result) result \<times> 'w" where
  "svc_get_file_diff sv input =
     (case git_resolve sv (sfd_context input) (sfd_path input) of
        Inl e \<Rightarrow> give (Inl e)
      | Inr (a, path) \<Rightarrow>
          (let file = trim_space (sfd_file input)
           in if file = [] then give (Inl (detail_error ErrInvalidGitRequest ''file is required''))
              else
                after (git_file_diff (gsv_client sv) \<lparr>fd_actor = a, fd_path = path, fd_file = file\<rparr>)
                  (\<lambda>r. give (finish_git ''get file diff''
                     (\<lambda>x. \<lparr>fdr_file = fdr_file x, fdr_head_content_base64 = fdr_head_content_base64 x,
                           fdr_worktree_content_base64 = fdr_worktree_content_base64 x,
                           fdr_head_missing = fdr_head_missing x, fdr_worktree_missing = fdr_worktree_missing x\<rparr>) r))))"

definition svc_get_commit_history ::
  "'w git_service \<Rightarrow> svc_commit_history_req \<Rightarrow> 'w \<Rightarrow> (go_error, commit_info_resp list) result \<times> 'w" where
  "svc_get_commit_history sv input =
     (case git_resolve sv (sch_context input) (sch_path input) of
        Inl e \<Rightarrow> give (Inl e)
      | Inr (a, path) \<Rightarrow>
          after (git_commit_history (gsv_client sv) \<lparr>ch_actor = a, ch_path = path, ch_limit = sch_limit input\<rparr>)
            (\<lambda>r. give (finish_git ''get commit history''
               (map (\<lambda>c. \<lparr>cir_hash = ci_hash c, cir_author = ci_author c, cir_email = ci_email c,
                           cir_message = ci_message c, cir_when = format_time (ci_when c)\<rparr>)) r)))"

definition svc_discard_changes :: "'w git_service \<Rightarrow> svc_repo_req \<Rightarrow> 'w \<Rightarrow> go_error option \<times> 'w" where
  "svc_discard_changes sv input =
     (case git_resolve sv (srq_context input) (srq_path input) of
        Inl e \<Rightarrow> give (Some e)
      | Inr (a, path) \<Rightarrow>
          after (git_discard_changes (gsv_client sv) \<lparr>gr_actor = a, gr_path = path\<rparr>)
            (\<lambda>r. give (map_option (wrap_error ''discard changes'') r)))"

definition delete_repository :: "'w git_service \<Rightarrow> svc_repo_req \<Rightarrow> 'w \<Rightarrow> go_error option \<times> 'w" where
  "delete_repository sv input =
     (case git_resolve sv (srq_context input) (srq_path input) of
        Inl e \<Rightarrow> give (Some e)
      | Inr (a, path) \<Rightarrow>
          after (git_delete_repo (gsv_client sv) \<lparr>gr_actor = a, gr_path = path\<rparr>)
            (\<lambda>r. give (map_option (wrap_error ''delete repository'') r)))"

text \<open>The lookup the file service uses to show the branch of a Git folder.\<close>

definition lookup_git_branch ::
  "'w git_service \<Rightarrow> request_context \<Rightarrow> string \<Rightarrow> 'w \<Rightarrow> (go_error, string) result \<times> 'w" where
  "lookup_git_branch sv ident rel =
     (case git_resolve sv ident rel of
        Inl e \<Rightarrow> give (Inl e)
      | Inr (a, path) \<Rightarrow>
          after (git_list_branches (gsv_client sv) \<lparr>gr_actor = a, gr_path = path\<rparr>)
            (\<lambda>r. give (map_sum (\<lambda>e. e) lbr_current_branch r)))"

section \<open>What every operation has in common\<close>

text \<open>
  A request whose identity or path is refused reaches neither the Git port nor the world, and its
  error is an invalid Git request.
\<close>

lemma git_resolve_invalid: "git_resolve sv ctx p = Inl e \<Longrightarrow> errors_is e ErrInvalidGitRequest"
  by (auto simp: git_resolve_def git_resolve_abs_path_def Let_def split: option.splits sum.splits if_splits)

lemma build_clone_req_invalid: "build_clone_req sv input = Inl e \<Longrightarrow> errors_is e ErrInvalidCloneReq"
  by (auto simp: build_clone_req_def git_resolve_abs_path_def Let_def split: option.splits sum.splits if_splits)

lemma git_resolve_context: "git_resolve sv ctx p = Inr (a, q) \<Longrightarrow> a = normalize ctx"
  by (auto simp: git_resolve_def Let_def split: option.splits sum.splits)

end
