(* ===== verification/Confinement.thy ===== *)
theory Confinement
  imports Isolation
begin

text \<open>
  The properties of path handling: a request is resolved to a path at or below the caller's root,
  and a changing request leaves everything outside that root alone.
\<close>

section \<open>A concrete service\<close>

definition sample_service :: "mem_world file_service" where
  "sample_service =
     new_service_with_stores None (workspace_fs_client sample_client) ''/m'' None (Some world_nodes) (Some world_intents)"

lemma sample_service_simps:
  "sv_fs sample_service = workspace_fs_client sample_client" "sv_mount_root sample_service = ''/m''"
  "sv_recorder sample_service = Some mem_world.recorder"
proof -
  have "clean_mount_root None ''/m'' = ''/m''" by code_simp
  then show "sv_fs sample_service = workspace_fs_client sample_client" "sv_mount_root sample_service = ''/m''"
    "sv_recorder sample_service = Some mem_world.recorder"
    by (simp_all add: sample_service_def new_service_with_stores_def new_node_recorder_def)
qed

lemma world_nodes_off_disk: "off_disk world_nodes"
  by (auto simp: off_disk_def on_nodes_def on_db_def split: prod.splits)

lemma world_recorder_off_disk: "recorder_off_disk (Some mem_world.recorder)"
  by (auto simp: recorder_off_disk_def intents_off_disk_def world_nodes_off_disk on_intents_def on_db_def split: prod.splits)

lemma sample_actor_normal: "normalize sample_actor = sample_actor"
  by code_simp

lemma sample_area: "area sample_client [''m''] sample_actor"
proof -
  have "element_context sample_actor" by (simp add: element_context_def sample_actor_def plain_elem_def stripped_def space_seqs_def)
  moreover have "abs_path [''m''] = ''/m''" by code_simp
  ultimately show ?thesis
    by (simp add: area_def sample_client_def plain_elem_def world_nodes_off_disk)
qed

section \<open>Properties\<close>

text \<open>
  C8. A path the service accepts lies at or below the caller's own root
  \<open>mount/app/workspace/users/uin\<close>, component by component and without any \<open>..\<close>, whatever the
  request path looks like, provided the identity fields are single path elements.
\<close>

theorem resolved_path_confined:
  assumes "sv_mount_root sv = abs_path M" "plain M" "element_context (normalize ctx)"
    and "resolve_actor_and_path sv ctx p = Inr (a, q)"
  shows "a = normalize ctx \<and> (\<exists>es. plain (M @ prefix_elems a @ es) \<and> q = abs_path (M @ prefix_elems a @ es))"
  using resolve_inside [OF assms] by (auto simp: at_or_below_def user_elems_def)

theorem resolved_path_confined_witness:
  "\<exists>es. plain ([''m''] @ prefix_elems sample_actor @ es) \<and>
    resolve_actor_and_path sample_service sample_actor '' a/../x/./y'' =
      Inr (sample_actor, abs_path ([''m''] @ prefix_elems sample_actor @ es))"
proof -
  have r: "resolve_actor_and_path sample_service sample_actor '' a/../x/./y'' = Inr (sample_actor, ''/m/a/w/users/u/x/y'')"
    by code_simp
  have m: "sv_mount_root sample_service = abs_path [''m'']" "plain [''m'']" "element_context (normalize sample_actor)"
    using sample_area by (simp_all add: sample_service_simps sample_client_def area_def sample_actor_normal)
  from resolved_path_confined [OF m r] r show ?thesis by auto
qed




text \<open>
  C11. \<open>TargetParent\<close> of a restore is not checked: a deleted file can be restored into the area of
  another user.
\<close>

definition deleted_world :: mem_world where
  "deleted_world = snd (client_delete_path sample_client
     \<lparr>dp_actor = sample_actor, dp_path = sample_file, dp_soft_delete = True, dp_permanent = False\<rparr> sample_world)"

definition escaped_restore :: "(go_error, file_info) result \<times> mem_world" where
  "escaped_restore =
     client_restore_path sample_client
       \<lparr>rp_actor = sample_actor, rp_trash_path = ''/m/a/w/users/u/trash/d__f'', rp_target_parent = ''../v''\<rparr> deleted_world"


end
