(* ===== verification/GitExamples.thy ===== *)
theory GitExamples
  imports GitClient GitService Confinement
begin

text \<open>
  A stand-in for the Git library, and a client and a service on it: the concrete input of the
  witnesses about Git.
\<close>

section \<open>A concrete library\<close>

text \<open>
  A stand-in for go-git for the concrete runs: a clone makes the metadata directory, and a
  repository can be opened when that is there. It has one commit and no changes.
\<close>

definition plain_fs :: "string \<Rightarrow> (mem_world, unit) billy_fs" where
  "plain_fs root =
     \<lparr>bfs_create = (\<lambda>p. after (on_os (os_create (join_path [root, p]))) (\<lambda>r. give (case r of None \<Rightarrow> Inr () | Some e \<Rightarrow> Inl (os_go_error e)))),
      bfs_open_file = (\<lambda>p flag. after (on_os (os_open (join_path [root, p]))) (\<lambda>r. give (case r of None \<Rightarrow> Inr () | Some e \<Rightarrow> Inl (os_go_error e)))),
      bfs_rename = (\<lambda>p q. after (on_os (os_rename (join_path [root, p]) (join_path [root, q]))) (\<lambda>r. give (map_option os_go_error r))),
      bfs_remove = (\<lambda>p. after (on_os (os_remove (join_path [root, p]))) (\<lambda>r. give (map_option os_go_error r))),
      bfs_mkdir_all = (\<lambda>p. after (on_os (os_mkdir_all (join_path [root, p]))) (\<lambda>r. give (map_option os_go_error r))),
      bfs_stat = (\<lambda>p. after (on_os (os_stat (join_path [root, p]))) (\<lambda>r. give (map_sum os_go_error id r))),
      bfs_write = (\<lambda>f d. give (int (length d), None)), bfs_truncate = (\<lambda>f n. give None), bfs_close = (\<lambda>f. give None)\<rparr>"

definition stub_git :: "(mem_nodes \<times> mem_intents, unit, unit) go_git" where
  "stub_git =
     \<lparr>gg_osfs = plain_fs,
      gg_clone = (\<lambda>git_dir fs url branch. ifs_mkdir_all fs ''.git''),
      gg_open = (\<lambda>git_dir fs. after (on_os (os_stat git_dir)) (\<lambda>r. give (map_sum os_go_error (\<lambda>_. ()) r))),
      gg_worktree = (\<lambda>_. give (Inr ())), gg_pull = (\<lambda>_ _. give None),
      gg_head = (\<lambda>_. give (Inr \<lparr>gref_hash = ''c0'', gref_short = ''main''\<rparr>)),
      gg_add_all = (\<lambda>_. give None), gg_add_path = (\<lambda>_ _. give None), gg_reset_mixed = (\<lambda>_. give None),
      gg_reset_hard = (\<lambda>_. give None), gg_clean_dirs = (\<lambda>_. give None), gg_remove = (\<lambda>_ _. give None),
      gg_status = (\<lambda>_. give (Inr [])), gg_is_clean = (\<lambda>st. st = []),
      gg_commit = (\<lambda>_ _ _ _. give (Inr ''c1'')), gg_push = (\<lambda>_ _. give None), gg_checkout = (\<lambda>_ _ _. give None),
      gg_set_reference = (\<lambda>_ _ _. give None), gg_remote_reference = (\<lambda>_ _ b. give (Inr \<lparr>gref_hash = ''c0'', gref_short = b\<rparr>)),
      gg_branches = (\<lambda>_. give (Inr ([\<lparr>gref_hash = ''c0'', gref_short = ''main''\<rparr>], None))),
      gg_log = (\<lambda>_. give (Inr ([\<lparr>lc_hash = ''c0'', lc_author = ''a'', lc_email = ''e'', lc_message = ''m'',
                                lc_when = \<lparr>tm_unix = 0, tm_offset = 0\<rparr>\<rparr>], None))),
      gg_remote_urls = (\<lambda>_ _. give (Inr [''url''])), gg_commit_object = (\<lambda>_ _. give (Inr ())),
      gg_tree = (\<lambda>_. give (Inr ())), gg_file = (\<lambda>_ _. give (Inr ())), gg_contents = (\<lambda>_. give (Inr ''x'')),
      gg_no_change = (\<lambda>_. False), gg_no_file = (\<lambda>_. False)\<rparr>"

definition stub_client :: "(mem_nodes \<times> mem_intents, unit, unit) workspace_git_client" where
  "stub_client = new_workspace_git_client stub_git (Some world_nodes) ''/m'' []"

definition stub_service :: "mem_world git_service" where
  "stub_service = new_git_service None (git_client_of stub_client) ''/m'' (Some world_nodes)"

text \<open>A library that opens every directory as a repository.\<close>

definition open_git :: "(mem_nodes \<times> mem_intents, unit, unit) go_git" where
  "open_git = stub_git\<lparr>gg_open := (\<lambda>_ _. give (Inr ()))\<rparr>"

definition open_client :: "(mem_nodes \<times> mem_intents, unit, unit) workspace_git_client" where
  "open_client = new_workspace_git_client open_git (Some world_nodes) ''/m'' []"

end
