(* ===== verification/Repositories.thy ===== *)
theory Repositories
  imports GitExamples
begin

text \<open>
  Properties of the Git client that hold for every library: where repositories keep their
  metadata, what deleting one removes, what a failed push leaves, how long a history is, and what
  the worktree file system reports.
\<close>

section \<open>Where a repository keeps its metadata\<close>

lemma strip_left_keeps: "x \<in> set s \<Longrightarrow> \<forall>q \<in> set qs. x \<notin> set q \<Longrightarrow> x \<in> set (strip_left qs s)"
proof (induction qs s rule: strip_left.induct)
  case (1 qs s)
  show ?case
  proof (cases "List.find (\<lambda>q. q \<noteq> [] \<and> prefix q s) qs")
    case None
    with 1(2) show ?thesis by (subst strip_left.simps) simp
  next
    case (Some q)
    then have "q \<in> set qs" "prefix q s" by (auto simp: find_Some_iff)
    with 1(2,3) have "x \<in> set (drop (length q) s)" by (auto elim!: prefixE)
    with 1(1) [OF Some] 1(3) show ?thesis by (subst strip_left.simps) (simp add: Some)
  qed
qed

lemma trim_space_keeps: "x \<in> set s \<Longrightarrow> \<forall>q \<in> set space_seqs. x \<notin> set q \<Longrightarrow> x \<in> set (trim_space s)"
  unfolding trim_space_def trim_right_def trim_left_def set_rev
  by (rule strip_left_keeps) (simp_all add: strip_left_keeps)

lemma trim_space_abs [simp]: "trim_space (abs_path es) \<noteq> []"
proof -
  have "CHR ''/'' \<in> set (trim_space (abs_path es))"
    by (rule trim_space_keeps) (simp_all add: abs_path_def space_seqs_def)
  then show ?thesis by auto
qed

lemma drop_common_spec:
  "drop_common xs ys = (us, vs) \<Longrightarrow> \<exists>p. xs = p @ us \<and> ys = p @ vs \<and> (us = [] \<or> vs = [] \<or> hd us \<noteq> hd vs)"
proof (induction xs ys rule: drop_common.induct)
  case (1 x xs y ys)
  show ?case
  proof (cases "x = y")
    case True
    with 1 obtain p where "xs = p @ us \<and> ys = p @ vs \<and> (us = [] \<or> vs = [] \<or> hd us \<noteq> hd vs)" by auto
    with True show ?thesis by (intro exI [of _ "x # p"]) simp
  qed (use 1(2) in auto)
qed auto

lemma rel_path_outside:
  assumes "plain S" "plain T" "\<not> prefix S T"
  shows "\<exists>rel. rel_path (abs_path S) (abs_path T) = Inr rel \<and> (rel = ''..'' \<or> has_prefix rel ''../'')"
proof -
  obtain us vs where d: "drop_common S T = (us, vs)" by (cases "drop_common S T")
  then obtain p where p: "S = p @ us" "T = p @ vs" using drop_common_spec by blast
  with assms have us: "us \<noteq> []" "plain us" by auto
  then obtain u us' where u: "us = u # us'" "u \<noteq> ''..''" by (cases us) (auto simp: plain_elem_def)
  have "T \<noteq> S" using assms(3) by auto
  then have ne: "abs_path T \<noteq> abs_path S" using assms(1,2) by (simp add: abs_path_inj)
  have dot: "abs_path S \<noteq> ''.''" by (simp add: abs_path_def)
  have "rel_path (abs_path S) (abs_path T) = Inr (join_with ''/'' (replicate (length us) ''..'' @ vs))"
    using assms(1,2) ne dot d u by (simp add: rel_path_def Let_def clean_abs_path segs_abs_path)
  moreover have "join_with ''/'' (replicate (length us) ''..'' @ vs) = ''..'' \<or>
      has_prefix (join_with ''/'' (replicate (length us) ''..'' @ vs)) ''../''"
    using u by (cases "replicate (length us') ''..'' @ vs") (simp_all add: has_prefix_def)
  ultimately show ?thesis by blast
qed

lemma join_plain_not_up: "plain es \<Longrightarrow> join_with ''/'' es \<noteq> ''..'' \<and> \<not> has_prefix (join_with ''/'' es) ''../''"
proof (cases es)
  case (Cons x xs)
  assume pl: "plain es"
  then have "elems (join_with ''/'' es) = es" by (rule elems_join)
  moreover have "elems ''..'' = [''..'']" by (simp add: elems_def)
  moreover have "elems (''../'' @ t) = ''..'' # elems t" for t using elems_append [of "''..''" t] by (simp add: elems_def)
  ultimately have "es = [''..''] \<or> (\<exists>t. es = ''..'' # elems t)" if "join_with ''/'' es = ''..'' \<or> has_prefix (join_with ''/'' es) ''../''"
    using that by (auto simp: has_prefix_def prefix_def)
  with pl show ?thesis by (auto simp: plain_elem_def)
qed (simp add: has_prefix_def)

lemma join_path_split: "p \<noteq> [] \<Longrightarrow> join_path [p, q, r] = join_path [p, q @ CHR ''/'' # r]"
  by (simp add: join_path_def)

lemma elems_rel: "plain xs \<Longrightarrow> elems (if xs = [] then ''.'' else join_with ''/'' xs) = xs"
  by (simp add: elems_join) (simp add: elems_def)

lemma resolve_git_dir_inside:
  assumes "plain M" "plain G" "plain es"
  shows "resolve_git_dir (abs_path M) (abs_path G) (abs_path (M @ es)) = Inr (abs_path (G @ es @ [''.git'']))"
proof -
  let ?rel = "if es = [] then ''.'' else join_with ''/'' es"
  have "\<not> (?rel = ''..'' \<or> has_prefix ?rel ''../'')"
    using join_plain_not_up [OF assms(3)] by (simp add: has_prefix_def)
  moreover have "join_path [abs_path G, ?rel, ''.git''] = abs_path (G @ es @ [''.git''])"
  proof -
    have "elems ''.git'' = [''.git'']" by (rule elems_single) (simp add: plain_elem_def)
    then have "elems (?rel @ CHR ''/'' # ''.git'') = es @ [''.git'']"
      using elems_rel [OF assms(3)] by (simp only: elems_append)
    moreover have "plain (G @ es)" "plain_elem ''.git''" using assms by (simp_all add: plain_elem_def)
    moreover have "abs_path G \<noteq> []" by (simp add: abs_path_def)
    ultimately show ?thesis using assms
      by (simp add: join_path_split join_path_abs clean_elems_plain_append del: append_assoc) (simp add: plain_elem_def)
  qed
  moreover have "abs_path M \<noteq> []" by (simp add: abs_path_def)
  moreover have "rel_path (abs_path M) (abs_path (M @ es)) = Inr ?rel"
    using assms by (intro rel_path_below) simp
  ultimately show ?thesis using assms
    by (simp add: resolve_git_dir_def Let_def clean_abs_path del: if_split)
qed

lemma resolve_git_dir_outside:
  assumes "plain M" "plain W" "\<not> prefix M W"
  shows "resolve_git_dir (abs_path M) (abs_path G) (abs_path W) =
    Inl (text_error ''worktree path escapes workspace mount root'')"
proof -
  obtain rel where "rel_path (abs_path M) (abs_path W) = Inr rel" "rel = ''..'' \<or> has_prefix rel ''../''"
    using rel_path_outside [OF assms] by blast
  moreover have "abs_path M \<noteq> []" by (simp add: abs_path_def)
  ultimately show ?thesis using assms by (simp add: resolve_git_dir_def Let_def clean_abs_path)
qed

text \<open>
  C16. With a separate root for metadata the metadata directory of a worktree mirrors the place of
  the worktree below the mount, so distinct worktrees never share one; a worktree outside the
  mount is refused.
\<close>

theorem git_dir_mirrors_worktree:
  assumes "plain M" "plain G" "plain W"
  shows "resolve_git_dir (abs_path M) (abs_path G) (abs_path W) =
    (if prefix M W then Inr (abs_path (G @ drop (length M) W @ [''.git'']))
     else Inl (text_error ''worktree path escapes workspace mount root''))"
proof (cases "prefix M W")
  case True
  then obtain es where "W = M @ es" by (auto elim: prefixE)
  with resolve_git_dir_inside [OF assms(1,2), of es] assms(3) show ?thesis by simp
qed (simp add: resolve_git_dir_outside assms)

theorem git_dir_mirrors_worktree_witness:
  "resolve_git_dir (abs_path [''m'']) (abs_path [''g'']) (abs_path [''m'', ''a'']) = Inr (abs_path [''g'', ''a'', ''.git'']) \<and>
   resolve_git_dir (abs_path [''m'']) (abs_path [''g'']) (abs_path [''n'']) =
     Inl (text_error ''worktree path escapes workspace mount root'')"
  using git_dir_mirrors_worktree [of "[''m'']" "[''g'']"] by (simp add: plain_elem_def)

section \<open>Deleting a repository\<close>

lemma on_os_result: "on_os f w = (r, w') \<Longrightarrow> f (w_os w) = (r, w_os w')"
  by (auto simp: on_os_def split: prod.splits)

lemma client_delete_repo_ok:
  assumes "client_delete_repo c req w = (None, w')"
  obtains d w1 where "client_git_dir c (gr_path req) = Inr d" "gr_path req \<noteq> []"
    "os_remove_all (gr_path req) (w_os w) = (None, w_os w1)"
    "w' = w1 \<and> is_subpath (gr_path req) d \<or>
     (\<exists>r. os_remove_all d (w_os w1) = (r, w_os w') \<and> (case r of None \<Rightarrow> True | Some e \<Rightarrow> os_is_not_exist e))"
proof -
  from assms obtain d where d: "client_git_dir c (gr_path req) = Inr d" "trim_space (gr_path req) \<noteq> []"
    by (auto simp: client_delete_repo_def give_def split: if_splits sum.splits)
  obtain r w1 where m: "on_os (os_remove_all (gr_path req)) w = (r, w1)" by (cases "on_os (os_remove_all (gr_path req)) w")
  with assms d have r: "r = None" by (cases r) (auto simp: client_delete_repo_def after_def give_def)
  obtain x w2 where m2: "on_os (os_remove_all d) w1 = (x, w2)" by (cases "on_os (os_remove_all d) w1")
  have ne: "gr_path req \<noteq> []" using d(2) by auto
  from assms d m r m2 have alt: "w' = w1 \<and> is_subpath (gr_path req) d \<or>
      (w' = w2 \<and> (case x of None \<Rightarrow> True | Some e \<Rightarrow> os_is_not_exist e))"
    by (auto simp: client_delete_repo_def after_def give_def split: if_splits option.splits)
  show thesis
    by (rule that [OF d(1) ne on_os_result [OF m [unfolded r]]]) (use alt on_os_result [OF m2] in blast)
qed

lemma remove_each_not_enoent:
  "fs_wf s \<Longrightarrow> distinct ks \<Longrightarrow> \<forall>k \<in> set ks. fs_map s k \<noteq> None \<Longrightarrow> e \<noteq> Some ENOENT \<Longrightarrow>
   fst (remove_each ks e s) \<noteq> Some ENOENT"
proof (induction ks e s rule: remove_each.induct)
  case (2 k ks e s)
  obtain r s1 where m: "sys_remove k s = (r, s1)" by (cases "sys_remove k s")
  from 2(3) m have keep: "fs_wf s1 \<and> (\<forall>j. j \<noteq> k \<longrightarrow> fs_map s1 j = fs_map s j)"
  proof (cases rule: sys_remove_effect)
    case (removed s2)
    then show ?thesis using fs_sameD(1) [OF removed(2)] by (auto simp: fs_cut_map)
  next
    case failed
    then show ?thesis using 2(3) fs_sameD [OF failed(2)] by simp
  qed
  with 2(4,5) have rest: "fs_wf s1" "distinct ks" "\<forall>j \<in> set ks. fs_map s1 j \<noteq> None" by auto
  have "r \<noteq> Some ENOENT"
  proof -
    obtain f s2 where t: "fault_tick s = (f, s2)" by (cases "fault_tick s")
    obtain n where "fs_find s k = Inr n" using 2(3,5) fs_find_iff by fastforce
    then have "fs_find s2 k = Inr n" using fs_sameD(5) [OF fault_tick_same [OF t]] by simp
    with m t show ?thesis by (auto simp: sys_remove_def split: option.splits if_splits)
  qed
  with 2(1,2) rest 2(6) m show ?case by (cases r) auto
qed simp

lemma os_remove_all_not_enoent:
  assumes "fs_wf s" "os_remove_all p s = (Some e, s')"
  shows "\<not> os_is_not_exist e"
proof -
  have keys: "distinct (subtree s es)" "\<forall>k \<in> set (subtree s es). fs_map s k \<noteq> None" for es
    using assms(1) by (auto simp: subtree_def fs_wf_def map_of_eq_None_iff)
  show ?thesis
    using assms(2) remove_each_not_enoent [OF assms(1) keys, of None "fs_path s p"]
    by (auto simp: os_remove_all_def os_is_not_exist_def split: if_splits sum.splits errno.splits prod.splits option.splits)
qed

lemma is_subpath_prefix:
  assumes "plain R" "plain D" "is_subpath (abs_path R) (abs_path D)"
  shows "prefix R D"
proof (rule ccontr)
  assume "\<not> prefix R D"
  moreover from this have "abs_path R \<noteq> abs_path D" using assms by (auto simp: abs_path_inj)
  ultimately show False
    using rel_path_outside [OF assms(1,2)] assms by (auto simp: is_subpath_def clean_abs_path)
qed

lemma fs_path_abs_path: "plain es \<Longrightarrow> fs_path s (abs_path es) = es"
  by (simp add: fs_path_def elems_abs_path path_simps)

text \<open>
  C17. Deleting a repository that reports success removes exactly the subtree of the repository and the
  subtree of its metadata directory. It does not ask whether the path is a repository.
\<close>

theorem delete_repo_removes:
  assumes "fs_wf (w_os w)" "plain R" "plain D" "gr_path req = abs_path R"
    and "client_git_dir c (abs_path R) = Inr (abs_path D)"
    and "client_delete_repo c req w = (None, w')"
  shows "fs_map (w_os w') = (\<lambda>k. if prefix R k \<or> prefix D k then None else fs_map (w_os w) k)"
  using assms(6)
proof (rule client_delete_repo_ok)
  fix d w1
  assume d: "client_git_dir c (gr_path req) = Inr d" and ne: "gr_path req \<noteq> []"
    and rm: "os_remove_all (gr_path req) (w_os w) = (None, w_os w1)"
    and alt: "w' = w1 \<and> is_subpath (gr_path req) d \<or>
      (\<exists>r. os_remove_all d (w_os w1) = (r, w_os w') \<and> (case r of None \<Rightarrow> True | Some e \<Rightarrow> os_is_not_exist e))"
  have dd: "d = abs_path D" "d \<noteq> []" using d assms(4,5) by (simp_all add: abs_path_def)
  have m1: "fs_map (w_os w1) = (\<lambda>k. if prefix R k then None else fs_map (w_os w) k)"
    using os_remove_all_ok [OF assms(1) rm ne] assms(2,4) by (simp add: fs_path_abs_path)
  have wf1: "fs_wf (w_os w1)"
    using os_remove_all_step [OF assms(1) rm, of "[]"] assms(1) by (simp add: fs_step_def)
  from alt show ?thesis
  proof (elim disjE exE conjE)
    assume "w' = w1" "is_subpath (gr_path req) d"
    moreover from this have "prefix R D" using is_subpath_prefix assms(2-4) dd by simp
    ultimately show ?thesis using m1 by (auto simp: fun_eq_iff intro: prefix_order.trans)
  next
    fix r assume r: "os_remove_all d (w_os w1) = (r, w_os w')" "case r of None \<Rightarrow> True | Some e \<Rightarrow> os_is_not_exist e"
    then have "r = None" using os_remove_all_not_enoent [OF wf1] by (cases r) auto
    with os_remove_all_ok [OF wf1 _ dd(2)] r(1) dd(1) assms(3) m1 show ?thesis by (auto simp: fs_path_abs_path fun_eq_iff)
  qed
qed

theorem delete_repo_removes_witness:
  "\<exists>w'. client_delete_repo stub_client \<lparr>gr_actor = sample_actor, gr_path = ''/m/a/w/users/u/d''\<rparr> sample_world = (None, w') \<and>
     fs_map (w_os w') [''m'', ''a'', ''w'', ''users'', ''u'', ''d'', ''f''] = None \<and>
     fs_map (w_os w') [''m'', ''a'', ''w'', ''users'', ''u''] = fs_map (w_os sample_world) [''m'', ''a'', ''w'', ''users'', ''u'']"
proof -
  let ?R = "[''m'', ''a'', ''w'', ''users'', ''u'', ''d'']"
  let ?req = "\<lparr>gr_actor = sample_actor, gr_path = ''/m/a/w/users/u/d''\<rparr>"
  have "fst (client_delete_repo stub_client ?req sample_world) = None" by code_simp
  then obtain w' where w: "client_delete_repo stub_client ?req sample_world = (None, w')" by (metis prod.collapse)
  have a: "abs_path ?R = ''/m/a/w/users/u/d''"
    "client_git_dir stub_client ''/m/a/w/users/u/d'' = Inr (abs_path (?R @ [''.git'']))" by code_simp+
  have "fs_wf (w_os sample_world)" by (simp add: sample_world_def sample_fs_wf)
  from delete_repo_removes [OF this _ _ _ _ w, of ?R "?R @ [''.git'']"] a
  have "fs_map (w_os w') = (\<lambda>k. if prefix ?R k \<or> prefix (?R @ [''.git'']) k then None else fs_map (w_os sample_world) k)"
    by (simp add: plain_elem_def)
  with w show ?thesis by simp
qed

section \<open>Commits and pushes\<close>

definition with_push :: "('g \<Rightarrow> remote_options \<Rightarrow> 'x world \<Rightarrow> go_error option \<times> 'x world) \<Rightarrow>
    ('x, 'f, 'g) workspace_git_client \<Rightarrow> ('x, 'f, 'g) workspace_git_client" where
  "with_push f c = c\<lparr>wg_lib := (wg_lib c)\<lparr>gg_push := f\<rparr>\<rparr>"

lemma open_with_push [simp]:
  "open_repo (with_push f c) = open_repo c" "open_worktree (with_push f c) = open_worktree c"
  by (simp_all add: with_push_def open_repo_def open_worktree_def client_git_dir_def worktree_fs_def fun_eq_iff
      cong del: sum.case_cong_weak if_weak_cong)

lemma with_push_lib: "wg_lib (with_push f c) = (wg_lib c)\<lparr>gg_push := f\<rparr>"
  by (simp add: with_push_def)

lemma stage_with_push [simp]: "client_stage (with_push f c) = client_stage c" "client_commit (with_push f c) = client_commit c"
  by (simp_all add: client_stage_def client_commit_def with_push_lib fun_eq_iff cong del: sum.case_cong_weak prod.case_cong_weak if_weak_cong)

text \<open>
  C18. When there is nothing to commit, \<open>CommitAndPush\<close> reports success without a push, whatever the
  push would do: commits an earlier failed push left behind are not sent.
\<close>

theorem clean_commit_and_push_never_pushes:
  assumes "client_commit_and_push c req w = (Inr x, w')" "capr_nothing_to_commit x"
  shows "\<not> capr_pushed x \<and> client_commit_and_push (with_push f c) req w = (Inr x, w')"
  using assms
  by (auto simp: client_commit_and_push_def after_def give_def Let_def split: prod.splits option.splits sum.splits if_splits)

theorem clean_commit_and_push_never_pushes_witness:
  "\<exists>x w'. client_commit_and_push (with_push (\<lambda>_ _. give (Some (text_error ''refused''))) open_client)
     \<lparr>cap_actor = sample_actor, cap_path = ''/m/a/w/users/u/d'', cap_message = ''m'', cap_author_name = ''a'',
      cap_author_email = ''e'', cap_remote_name = [], cap_push = True,
      cap_credentials = \<lparr>gc_username = [], gc_token = []\<rparr>\<rparr> sample_world = (Inr x, w') \<and> \<not> capr_pushed x"
proof -
  let ?req = "\<lparr>cap_actor = sample_actor, cap_path = ''/m/a/w/users/u/d'', cap_message = ''m'', cap_author_name = ''a'',
      cap_author_email = ''e'', cap_remote_name = [], cap_push = True,
      cap_credentials = \<lparr>gc_username = [], gc_token = []\<rparr>\<rparr>"
  have "fst (client_commit_and_push open_client ?req sample_world) =
      Inr \<lparr>capr_nothing_to_commit = True, capr_commit_hash = [], capr_pushed = False\<rparr>" by code_simp
  then obtain w' where w: "client_commit_and_push open_client ?req sample_world =
      (Inr \<lparr>capr_nothing_to_commit = True, capr_commit_hash = [], capr_pushed = False\<rparr>, w')" by (metis prod.collapse)
  from clean_commit_and_push_never_pushes [OF w] show ?thesis by auto
qed

section \<open>Histories\<close>

definition commit_info_of :: "lib_commit \<Rightarrow> commit_info" where
  "commit_info_of x = \<lparr>ci_hash = lc_hash x, ci_author = lc_author x, ci_email = lc_email x,
     ci_message = trim_space (lc_message x), ci_when = lc_when x\<rparr>"

lemma log_loop_eq:
  "int (length acc) \<le> limit \<Longrightarrow>
   log_loop limit xs err acc =
     (case err of
        Some e \<Rightarrow> if int (length acc + length xs) \<le> limit then Inl e
                  else Inr (acc @ map commit_info_of (take (nat limit - length acc) xs))
      | None \<Rightarrow> Inr (acc @ map commit_info_of (take (nat limit - length acc) xs)))"
proof (induction xs arbitrary: acc)
  case (Cons x xs)
  show ?case
  proof (cases "limit \<le> int (length acc)")
    case True
    with Cons.prems show ?thesis by (auto split: option.splits)
  next
    case False
    then obtain k where k: "nat limit - length acc = Suc k" "nat limit - length (acc @ [commit_info_of x]) = k"
      using Cons.prems by (cases "nat limit - length acc") auto
    with False Cons.IH [of "acc @ [commit_info_of x]"] show ?thesis
      by (auto simp: commit_info_of_def split: option.splits)
  qed
qed (auto split: option.splits)

text \<open>
  The history is the first \<open>limit\<close> commits of the log in its order, fifty when the limit is not
  positive; an error of the log is reported only when the log ends within the limit.
\<close>

lemma commit_history_is_a_prefix:
  assumes "open_repo c (ch_path req) (ch_actor req) w = (Inr repo, w1)"
    and "gg_log (wg_lib c) repo w1 = (Inr (commits, err), w2)"
    and "limit = (if ch_limit req \<le> 0 then 50 else ch_limit req)"
  shows "client_commit_history c req w =
    ((case err of
        Some e \<Rightarrow> if int (length commits) \<le> limit then Inl (wrap_error ''iterate log'' e)
                  else Inr (map commit_info_of (take (nat limit) commits))
      | None \<Rightarrow> Inr (map commit_info_of (take (nat limit) commits))), w2)"
proof -
  have "0 \<le> limit" using assms(3) by simp
  then show ?thesis
    using assms log_loop_eq [of "[]" limit commits err]
    by (auto simp: client_commit_history_def after_def give_def Let_def default_history_size_def split: option.splits)
qed

section \<open>The worktree file system\<close>

text \<open>
  C20. The wrapper answers what the file system below answers, whatever the node store does: an
  error of the node store never surfaces in a Git operation.
\<close>

theorem identity_fs_transparent:
  "(case ifs_create fs p w of (r, w') \<Rightarrow> map_sum id idf_file r = fst (bfs_create (ifs_base fs) p w)) \<and>
   (case ifs_open_file fs p flag w of (r, w') \<Rightarrow> map_sum id idf_file r = fst (bfs_open_file (ifs_base fs) p flag w)) \<and>
   fst (ifs_mkdir_all fs p w) = fst (bfs_mkdir_all (ifs_base fs) p w) \<and>
   fst (ifs_rename fs p q w) = fst (bfs_rename (ifs_base fs) p q (snd (bfs_stat (ifs_base fs) p w))) \<and>
   fst (ifs_remove fs p w) = fst (bfs_remove (ifs_base fs) p (snd (bfs_stat (ifs_base fs) p w))) \<and>
   fst (idf_close fs f w) = fst (bfs_close (ifs_base fs) (idf_file f) w)"
  by (simp add: ifs_create_def ifs_open_file_def ifs_mkdir_all_def ifs_rename_def ifs_remove_def idf_close_def
      after_def give_def Let_def split: prod.splits sum.splits option.splits)

end
