(* ===== verification/CloneJobs.thy ===== *)
theory CloneJobs
  imports GitService
begin

text \<open>
  \<open>git_folder.go\<close> and \<open>clone_jobs.go\<close>: a Git folder is created by a request that registers a job
  and starts a goroutine, which clones and reports to the registry; another request asks for
  the status. The goroutines are threads of the model: a thread has the program point it is at,
  and any interleaving of their steps with the requests is a run of the system.
\<close>

section \<open>Jobs\<close>

abbreviation "GitFolderStatusUnspecified \<equiv> 0 :: int"
abbreviation "GitFolderStatusWaiting \<equiv> 1 :: int"
abbreviation "GitFolderStatusCloning \<equiv> 2 :: int"
abbreviation "GitFolderStatusCheckingOut \<equiv> 3 :: int"
abbreviation "GitFolderStatusReady \<equiv> 4 :: int"
abbreviation "GitFolderStatusFailed \<equiv> 5 :: int"

record git_folder_job =
  gj_status :: int
  gj_message :: string
  gj_repo_url :: string
  gj_branch :: string
  gj_path :: string

text \<open>
  The program points of the goroutine: before it reports cloning, before the clone, after the
  clone with its error or none, and before the node row is recorded.
\<close>

datatype clone_point = AtStart | AtClone | AtReport "go_error option" | AtRecord

record clone_thread =
  ct_key :: string
  ct_req :: clone_req
  ct_rel_path :: string
  ct_point :: clone_point

record 'x git_world =
  gw_world :: "'x world"
  gw_jobs :: "(string \<times> git_folder_job) list"
  gw_threads :: "clone_thread list"

definition job_set :: "string \<Rightarrow> git_folder_job \<Rightarrow> 'x git_world \<Rightarrow> 'x git_world" where
  "job_set k job g = g\<lparr>gw_jobs := AList.update k job (gw_jobs g)\<rparr>"

definition job_get :: "string \<Rightarrow> 'x git_world \<Rightarrow> git_folder_job option" where
  "job_get k g = map_of (gw_jobs g) k"

definition clone_job_key :: "request_context \<Rightarrow> string \<Rightarrow> string" where
  "clone_job_key ctx rel = join_with ''|'' [rc_app_id ctx, rc_workspace_id ctx, rc_uin ctx, rel]"

definition job_of :: "int \<Rightarrow> string \<Rightarrow> clone_req \<Rightarrow> string \<Rightarrow> git_folder_job" where
  "job_of status message req rel =
     \<lparr>gj_status = status, gj_message = message, gj_repo_url = cl_repo_url req, gj_branch = cl_branch req,
      gj_path = rel\<rparr>"

text \<open>An operation on the world, run inside the larger state.\<close>

definition in_world :: "('x world \<Rightarrow> 'r \<times> 'x world) \<Rightarrow> 'x git_world \<Rightarrow> 'r \<times> 'x git_world" where
  "in_world f g = (case f (gw_world g) of (r, w) \<Rightarrow> (r, g\<lparr>gw_world := w\<rparr>))"

section \<open>Creating a Git folder\<close>

record create_git_folder_req =
  cgf_context :: request_context
  cgf_target_path :: string
  cgf_repo_url :: string
  cgf_branch :: string
  cgf_git_username :: string
  cgf_git_token :: string

record create_git_folder_resp =
  cgr_path :: string
  cgr_status :: int
  cgr_branch :: string
  cgr_repo_url :: string

definition create_git_folder ::
  "'x world git_service \<Rightarrow> create_git_folder_req \<Rightarrow> 'x git_world \<Rightarrow>
   (go_error, create_git_folder_resp) result \<times> 'x git_world" where
  "create_git_folder sv input =
     (case build_clone_req sv
             \<lparr>crq_context = cgf_context input, crq_repo_url = cgf_repo_url input,
              crq_target_path = cgf_target_path input, crq_branch = cgf_branch input\<rparr> of
        Inl e \<Rightarrow> give (Inl e)
      | Inr req \<Rightarrow>
          after (in_world (on_os (os_mkdir_all (cl_target_path req)))) (\<lambda>r. case r of
             Some e \<Rightarrow> give (Inl (wrap_error ''prepare git folder'' (os_go_error e)))
           | None \<Rightarrow>
               (let rel = trim_space (cgf_target_path input); key = clone_job_key (cl_actor req) rel
                in (\<lambda>g.
                     (Inr \<lparr>cgr_path = rel, cgr_status = GitFolderStatusWaiting, cgr_branch = cl_branch req,
                           cgr_repo_url = cl_repo_url req\<rparr>,
                      (job_set key (job_of GitFolderStatusWaiting [] req rel) g)
                        \<lparr>gw_threads := gw_threads g @
                           [\<lparr>ct_key = key, ct_req = req, ct_rel_path = rel, ct_point = AtStart\<rparr>]\<rparr>)))))"

text \<open>One step of the goroutine; \<open>None\<close> when it has ended.\<close>

definition clone_step ::
  "'x world git_service \<Rightarrow> clone_thread \<Rightarrow> 'x git_world \<Rightarrow> clone_thread option \<times> 'x git_world" where
  "clone_step sv t g =
     (let report = (\<lambda>status message. job_set (ct_key t) (job_of status message (ct_req t) (ct_rel_path t)))
      in (case ct_point t of
            AtStart \<Rightarrow> (Some (t\<lparr>ct_point := AtClone\<rparr>), report GitFolderStatusCloning [] g)
          | AtClone \<Rightarrow>
              (case in_world (git_clone (gsv_client sv) (ct_req t)) g of
                 (Inl e, g1) \<Rightarrow> (Some (t\<lparr>ct_point := AtReport (Some e)\<rparr>), g1)
               | (Inr x, g1) \<Rightarrow> (Some (t\<lparr>ct_point := AtReport None\<rparr>), g1))
          | AtReport (Some e) \<Rightarrow> (None, report GitFolderStatusFailed (err_text e) g)
          | AtReport None \<Rightarrow> (Some (t\<lparr>ct_point := AtRecord\<rparr>), report GitFolderStatusReady [] g)
          | AtRecord \<Rightarrow>
              (None, snd (in_world (record_inode (gsv_node_store sv) (cl_actor (ct_req t))
                            (cl_target_path (ct_req t)) NodeTypeGitFolder) g))))"

text \<open>The scheduler lets thread \<open>i\<close> take a step; a thread that has ended is removed.\<close>

definition run_thread :: "'x world git_service \<Rightarrow> nat \<Rightarrow> 'x git_world \<Rightarrow> 'x git_world" where
  "run_thread sv i g =
     (if i < length (gw_threads g)
      then (case clone_step sv (gw_threads g ! i) g of
              (Some t, g1) \<Rightarrow> g1\<lparr>gw_threads := (gw_threads g)[i := t]\<rparr>
            | (None, g1) \<Rightarrow> g1\<lparr>gw_threads := take i (gw_threads g) @ drop (Suc i) (gw_threads g)\<rparr>)
      else g)"

section \<open>Asking for the status\<close>

record git_folder_status_resp =
  gfs_status :: int
  gfs_message :: string
  gfs_path :: string
  gfs_branch :: string
  gfs_repo_url :: string

definition get_git_folder_status ::
  "'x world git_service \<Rightarrow> svc_repo_req \<Rightarrow> 'x git_world \<Rightarrow> (go_error, git_folder_status_resp) result \<times> 'x git_world" where
  "get_git_folder_status sv input =
     (let ident = normalize (srq_context input); rel = trim_space (srq_path input);
          unspecified = \<lparr>gfs_status = GitFolderStatusUnspecified, gfs_message = [], gfs_path = rel, gfs_branch = [],
                         gfs_repo_url = []\<rparr>
      in (case validate ident of
            Some e \<Rightarrow> give (Inl (wrap_both ErrInvalidGitRequest e))
          | None \<Rightarrow>
              if rel = [] then give (Inl (detail_error ErrInvalidGitRequest ''path is required''))
              else (\<lambda>g.
                (case job_get (clone_job_key ident rel) g of
                   Some job \<Rightarrow>
                     (Inr \<lparr>gfs_status = gj_status job, gfs_message = gj_message job, gfs_path = gj_path job,
                           gfs_branch = gj_branch job, gfs_repo_url = gj_repo_url job\<rparr>, g)
                 | None \<Rightarrow>
                     (case git_resolve_abs_path sv ident rel ErrInvalidGitRequest of
                        Inl e \<Rightarrow> (Inl e, g)
                      | Inr abs_p \<Rightarrow>
                          after (in_world (on_os (os_stat abs_p))) (\<lambda>r.
                            if (case r of Inl e \<Rightarrow> os_is_not_exist e | Inr _ \<Rightarrow> False) then give (Inr unspecified)
                            else
                              after (in_world (git_status (gsv_client sv) \<lparr>gr_actor = ident, gr_path = abs_p\<rparr>)) (\<lambda>r.
                                case r of
                                  Inl e \<Rightarrow> give (Inr unspecified)
                                | Inr _ \<Rightarrow>
                                    after (in_world (git_repo_info (gsv_client sv) \<lparr>gr_actor = ident, gr_path = abs_p\<rparr>))
                                      (\<lambda>r. give (Inr (case r of
                                         Inl e \<Rightarrow> unspecified\<lparr>gfs_status := GitFolderStatusReady\<rparr>
                                       | Inr info \<Rightarrow> unspecified\<lparr>gfs_status := GitFolderStatusReady,
                                             gfs_branch := ri_current_branch info, gfs_repo_url := ri_remote_url info\<rparr>))))) g)))))"

section \<open>Runs of the system\<close>

text \<open>
  What may happen next: a request creates a folder, a thread takes a step, or anything else
  changes the world but neither jobs nor threads (other requests, other processes).
\<close>

inductive git_system :: "'x world git_service \<Rightarrow> 'x git_world \<Rightarrow> 'x git_world \<Rightarrow> bool" for sv where
  create: "create_git_folder sv input g = (r, g') \<Longrightarrow> git_system sv g g'"
| thread: "git_system sv g (run_thread sv i g)"
| other: "git_system sv g (g\<lparr>gw_world := w\<rparr>)"

inductive git_reachable :: "'x world git_service \<Rightarrow> 'x git_world \<Rightarrow> bool" for sv where
  start: "gw_jobs g = [] \<Longrightarrow> gw_threads g = [] \<Longrightarrow> git_reachable sv g"
| step: "git_reachable sv g \<Longrightarrow> git_system sv g g' \<Longrightarrow> git_reachable sv g'"

inductive_cases git_systemE: "git_system sv g g'"

section \<open>No job is forgotten\<close>

definition unreported :: "clone_thread \<Rightarrow> bool" where
  "unreported t \<longleftrightarrow> ct_point t \<noteq> AtRecord"

definition jobs_backed :: "'x git_world \<Rightarrow> bool" where
  "jobs_backed g \<longleftrightarrow>
     (\<forall>k job. job_get k g = Some job \<longrightarrow>
        gj_status job \<in> {GitFolderStatusWaiting, GitFolderStatusCloning, GitFolderStatusReady, GitFolderStatusFailed} \<and>
        (gj_message job \<noteq> [] \<longrightarrow> gj_status job = GitFolderStatusFailed) \<and>
        (gj_status job \<in> {GitFolderStatusWaiting, GitFolderStatusCloning} \<longrightarrow>
           (\<exists>t \<in> set (gw_threads g). ct_key t = k \<and> unreported t)))"

lemma in_world_parts: "in_world f g = (r, g') \<Longrightarrow> gw_jobs g' = gw_jobs g \<and> gw_threads g' = gw_threads g"
  by (auto simp: in_world_def split: prod.splits)

lemma job_get_set [simp]: "job_get k' (job_set k job g) = (if k' = k then Some job else job_get k' g)"
  by (simp add: job_get_def job_set_def)

lemma job_set_parts [simp]: "gw_threads (job_set k job g) = gw_threads g" "gw_world (job_set k job g) = gw_world g"
  by (simp_all add: job_set_def)

lemma job_of_simps [simp]: "gj_status (job_of s m req rel) = s" "gj_message (job_of s m req rel) = m"
  by (simp_all add: job_of_def)

lemma job_get_threads [simp]: "job_get k (g\<lparr>gw_threads := ts\<rparr>) = job_get k g" "job_get k (g\<lparr>gw_world := w\<rparr>) = job_get k g"
  by (simp_all add: job_get_def)

lemma job_get_same: "gw_jobs g' = gw_jobs g \<Longrightarrow> job_get k g' = job_get k g"
  by (simp add: job_get_def)

text \<open>What a step of a thread does to the registry.\<close>

lemma clone_step_cases:
  assumes "clone_step sv t g = (t', g')"
  obtains
    (quiet) u where "t' = Some u" "ct_key u = ct_key t" "unreported u" "gw_jobs g' = gw_jobs g" "ct_point t = AtClone"
  | (cloning) u where "t' = Some u" "ct_key u = ct_key t" "unreported u" "ct_point t = AtStart"
      "g' = job_set (ct_key t) (job_of GitFolderStatusCloning [] (ct_req t) (ct_rel_path t)) g"
  | (reported) s m where "s = GitFolderStatusReady \<and> m = [] \<or> s = GitFolderStatusFailed"
      "g' = job_set (ct_key t) (job_of s m (ct_req t) (ct_rel_path t)) g"
  | (recorded) "t' = None" "gw_jobs g' = gw_jobs g" "ct_point t = AtRecord"
proof (cases "ct_point t")
  case AtStart
  with assms show thesis by (auto simp: clone_step_def Let_def unreported_def intro!: cloning)
next
  case AtClone
  obtain r g1 where c: "in_world (git_clone (gsv_client sv) (ct_req t)) g = (r, g1)"
    by (cases "in_world (git_clone (gsv_client sv) (ct_req t)) g")
  have "g' = g1 \<and> (\<exists>x. t' = Some (t\<lparr>ct_point := AtReport x\<rparr>))"
    using assms AtClone c by (cases r) (auto simp: clone_step_def)
  with in_world_parts [OF c] AtClone show thesis by (auto simp: unreported_def intro!: quiet)
next
  case (AtReport x)
  show thesis
  proof (cases x)
    case None
    with assms AtReport show thesis
      by (intro reported [of GitFolderStatusReady "[]"]) (simp_all add: clone_step_def Let_def)
  next
    case (Some e)
    with assms AtReport show thesis
      by (intro reported [of GitFolderStatusFailed "err_text e"]) (simp_all add: clone_step_def Let_def)
  qed
next
  case AtRecord
  with assms in_world_parts [OF prod.collapse [symmetric]] show thesis
    by (auto simp: clone_step_def Let_def intro!: recorded)
qed

lemma run_thread_eq:
  assumes "i < length (gw_threads g)" "clone_step sv (gw_threads g ! i) g = (t', g1)"
  shows "run_thread sv i g = g1\<lparr>gw_threads := take i (gw_threads g) @
    (case t' of Some t \<Rightarrow> [t] | None \<Rightarrow> []) @ drop (Suc i) (gw_threads g)\<rparr>"
  using assms by (auto simp: run_thread_def upd_conv_take_nth_drop split: option.splits)

lemma set_split_nth: "i < length xs \<Longrightarrow> set xs = set (take i xs) \<union> {xs ! i} \<union> set (drop (Suc i) xs)"
  by (subst id_take_nth_drop [of i xs]) auto

lemma run_thread_backed:
  assumes "jobs_backed g"
  shows "jobs_backed (run_thread sv i g)"
proof (cases "i < length (gw_threads g)")
  case False
  with assms show ?thesis by (simp add: run_thread_def)
next
  case True
  let ?t = "gw_threads g ! i"
  obtain t' g1 where s: "clone_step sv ?t g = (t', g1)" by (cases "clone_step sv ?t g")
  note eq = run_thread_eq [OF True s] and mem = set_split_nth [OF True]
  have other: "\<exists>t \<in> set (gw_threads (run_thread sv i g)). ct_key t = k \<and> unreported t"
    if "t \<in> set (gw_threads g)" "ct_key t = k" "unreported t" "t \<noteq> ?t" for t k
    using that mem by (auto simp: eq)
  from s show ?thesis
  proof (cases rule: clone_step_cases)
    case (quiet u)
    with assms other show ?thesis unfolding jobs_backed_def
      by (simp add: eq job_get_same [OF quiet(4)]) metis
  next
    case (cloning u)
    with assms other show ?thesis unfolding jobs_backed_def by (simp add: eq) metis
  next
    case (reported s m)
    with assms other show ?thesis unfolding jobs_backed_def by (auto simp: eq) metis+
  next
    case recorded
    with assms other show ?thesis unfolding jobs_backed_def unreported_def
      by (simp add: eq job_get_same [OF recorded(2)]) metis
  qed
qed

lemma create_git_folder_cases:
  assumes "create_git_folder sv input g = (r, g')"
  obtains
    (refused) e where "r = Inl e" "gw_jobs g' = gw_jobs g" "gw_threads g' = gw_threads g"
  | (created) req g1 where
      "build_clone_req sv \<lparr>crq_context = cgf_context input, crq_repo_url = cgf_repo_url input,
         crq_target_path = cgf_target_path input, crq_branch = cgf_branch input\<rparr> = Inr req"
      "in_world (on_os (os_mkdir_all (cl_target_path req))) g = (None, g1)"
      "r = Inr \<lparr>cgr_path = trim_space (cgf_target_path input), cgr_status = GitFolderStatusWaiting,
         cgr_branch = cl_branch req, cgr_repo_url = cl_repo_url req\<rparr>"
      "g' = (job_set (clone_job_key (cl_actor req) (trim_space (cgf_target_path input)))
               (job_of GitFolderStatusWaiting [] req (trim_space (cgf_target_path input))) g1)
        \<lparr>gw_threads := gw_threads g @
           [\<lparr>ct_key = clone_job_key (cl_actor req) (trim_space (cgf_target_path input)), ct_req = req,
             ct_rel_path = trim_space (cgf_target_path input), ct_point = AtStart\<rparr>]\<rparr>"
proof (cases "build_clone_req sv \<lparr>crq_context = cgf_context input, crq_repo_url = cgf_repo_url input,
         crq_target_path = cgf_target_path input, crq_branch = cgf_branch input\<rparr>")
  case (Inl e)
  with assms show thesis by (intro refused [of e]) (simp_all add: create_git_folder_def give_def)
next
  case (Inr req)
  obtain e g1 where m: "in_world (on_os (os_mkdir_all (cl_target_path req))) g = (e, g1)"
    by (cases "in_world (on_os (os_mkdir_all (cl_target_path req))) g")
  note run = assms [unfolded create_git_folder_def Inr sum.case after_def m prod.case]
  show thesis
  proof (cases e)
    case (Some x)
    with run in_world_parts [OF m] show thesis
      by (intro refused [of "wrap_error ''prepare git folder'' (os_go_error x)"]) (simp_all add: give_def)
  next
    case None
    with run in_world_parts [OF m] show thesis
      by (intro created [OF Inr m [unfolded None]]) (simp_all add: Let_def)
  qed
qed

lemma create_backed:
  assumes "jobs_backed g" "create_git_folder sv input g = (r, g')"
  shows "jobs_backed g'"
  using assms(2)
proof (cases rule: create_git_folder_cases)
  case (refused e)
  with assms(1) show ?thesis by (simp add: jobs_backed_def job_get_def)
next
  case (created req g1)
  have "gw_jobs g1 = gw_jobs g" using in_world_parts [OF created(2)] by simp
  then have "job_get k g1 = job_get k g" for k by (rule job_get_same)
  with created(4) assms(1) show ?thesis unfolding jobs_backed_def by (auto simp: unreported_def)
qed

lemma reachable_backed: "git_reachable sv g \<Longrightarrow> jobs_backed g"
proof (induction rule: git_reachable.induct)
  case (start g)
  then show ?case by (simp add: jobs_backed_def job_get_def)
next
  case (step g g')
  from step(2) show ?case
  proof (cases rule: git_system.cases)
    case (create input r)
    with create_backed [OF step(3)] show ?thesis .
  next
    case (thread i)
    with run_thread_backed [OF step(3)] show ?thesis by simp
  next
    case (other w)
    with step(3) show ?thesis by (simp add: jobs_backed_def)
  qed
qed


section \<open>Schedules end\<close>

fun clone_work :: "clone_point \<Rightarrow> nat" where
  "clone_work AtStart = 4"
| "clone_work AtClone = 3"
| "clone_work (AtReport e) = 2"
| "clone_work AtRecord = 1"

definition pending_work :: "clone_thread list \<Rightarrow> nat" where
  "pending_work ts = sum_list (map (clone_work \<circ> ct_point) ts)"

fun valid_schedule :: "'x world git_service \<Rightarrow> nat list \<Rightarrow> 'x git_world \<Rightarrow> bool" where
  "valid_schedule sv [] g \<longleftrightarrow> True"
| "valid_schedule sv (i # is) g \<longleftrightarrow> i < length (gw_threads g) \<and> valid_schedule sv is (run_thread sv i g)"

lemma clone_step_work:
  assumes "clone_step sv t g = (t', g')"
  shows "(case t' of Some u \<Rightarrow> clone_work (ct_point u) | None \<Rightarrow> 0) < clone_work (ct_point t)"
  using assms by (auto simp: clone_step_def Let_def split: clone_point.splits option.splits prod.splits sum.splits)

lemma run_thread_work:
  assumes "i < length (gw_threads g)"
  shows "pending_work (gw_threads (run_thread sv i g)) < pending_work (gw_threads g)"
proof -
  obtain t' g1 where s: "clone_step sv (gw_threads g ! i) g = (t', g1)" by (cases "clone_step sv (gw_threads g ! i) g")
  have "pending_work (gw_threads g) = pending_work (take i (gw_threads g)) + clone_work (ct_point (gw_threads g ! i)) +
      pending_work (drop (Suc i) (gw_threads g))"
    by (subst id_take_nth_drop [OF assms]) (simp add: pending_work_def)
  with clone_step_work [OF s] show ?thesis
    by (auto simp: run_thread_eq [OF assms s] pending_work_def split: option.splits)
qed

lemma schedule_bound:
  "valid_schedule sv is g \<Longrightarrow> length is + pending_work (gw_threads (fold (run_thread sv) is g)) \<le> pending_work (gw_threads g)"
proof (induction "is" arbitrary: g)
  case (Cons i "is")
  then have "i < length (gw_threads g)" "valid_schedule sv is (run_thread sv i g)" by simp_all
  with Cons.IH [of "run_thread sv i g"] run_thread_work [of i g sv] show ?case by simp
qed simp

lemma clone_work_le: "clone_work p \<le> 4"
  by (cases p) simp_all

lemma pending_work_le: "pending_work ts \<le> 4 * length ts"
proof (induction ts)
  case (Cons t ts)
  with clone_work_le [of "ct_point t"] show ?case by (simp add: pending_work_def)
qed (simp add: pending_work_def)

lemma fold_backed: "jobs_backed g \<Longrightarrow> jobs_backed (fold (run_thread sv) is g)"
  by (induction "is" arbitrary: g) (simp_all add: run_thread_backed)

section \<open>Properties\<close>

text \<open>
  C12. Whatever requests come and however their goroutines interleave, a job of the registry is
  waiting, cloning, ready or failed, has a message only when it failed, and while it is waiting
  or cloning there is a goroutine under way that will report for it.
\<close>

theorem git_jobs_invariant:
  assumes "git_reachable sv g" "job_get k g = Some job"
  shows "gj_status job \<in> {GitFolderStatusWaiting, GitFolderStatusCloning, GitFolderStatusReady, GitFolderStatusFailed} \<and>
    (gj_message job \<noteq> [] \<longrightarrow> gj_status job = GitFolderStatusFailed) \<and>
    (gj_status job \<in> {GitFolderStatusWaiting, GitFolderStatusCloning} \<longrightarrow>
       (\<exists>t \<in> set (gw_threads g). ct_key t = k \<and> ct_point t \<noteq> AtRecord))"
  using reachable_backed [OF assms(1)] assms(2) unfolding jobs_backed_def unreported_def by blast

text \<open>
  C13. The goroutines come to an end: no schedule of them is longer than four steps each, and when
  they have all run, every job is ready or failed.
\<close>

theorem git_jobs_settle:
  assumes "git_reachable sv g" "valid_schedule sv is g"
  shows "length is \<le> 4 * length (gw_threads g) \<and>
    (gw_threads (fold (run_thread sv) is g) = [] \<longrightarrow>
       (\<forall>k job. job_get k (fold (run_thread sv) is g) = Some job \<longrightarrow>
          gj_status job \<in> {GitFolderStatusReady, GitFolderStatusFailed}))"
proof (intro conjI impI allI)
  show "length is \<le> 4 * length (gw_threads g)"
    using schedule_bound [OF assms(2)] pending_work_le [of "gw_threads g"] by simp
next
  fix k job
  assume "gw_threads (fold (run_thread sv) is g) = []" "job_get k (fold (run_thread sv) is g) = Some job"
  with fold_backed [OF reachable_backed [OF assms(1)], of sv "is"]
  show "gj_status job \<in> {GitFolderStatusReady, GitFolderStatusFailed}"
    unfolding jobs_backed_def by force
qed


text \<open>
  C15. The key of a job joins its parts with a bar and does not escape it, so a user asking for
  path \<open>x|p\<close> is shown the job that user \<open>u|x\<close> has for path \<open>p\<close>.
\<close>

theorem job_of_another_user_shown:
  assumes "validate (normalize ctx) = None" "normalize ctx = ctx" "trim_space (x @ ''|'' @ p) = x @ ''|'' @ p"
    and "job_get (clone_job_key (ctx\<lparr>rc_uin := rc_uin ctx @ ''|'' @ x\<rparr>) p) g = Some job"
  shows "get_git_folder_status sv \<lparr>srq_context = ctx, srq_path = x @ ''|'' @ p\<rparr> g =
    (Inr \<lparr>gfs_status = gj_status job, gfs_message = gj_message job, gfs_path = gj_path job,
          gfs_branch = gj_branch job, gfs_repo_url = gj_repo_url job\<rparr>, g)"
proof -
  have "clone_job_key ctx (x @ ''|'' @ p) = clone_job_key (ctx\<lparr>rc_uin := rc_uin ctx @ ''|'' @ x\<rparr>) p"
    by (simp add: clone_job_key_def)
  with assms show ?thesis by (simp add: get_git_folder_status_def Let_def)
qed

end
