(* ===== verification/CloneRuns.thy ===== *)
theory CloneRuns
  imports CloneJobs GitExamples
begin

text \<open>
  Runs of the clone jobs with the client on the stand-in library, as witnesses, and a race of two
  requests for the same path.
\<close>

section \<open>One request\<close>

definition quiet_git_world :: "(mem_nodes \<times> mem_intents) git_world" where
  "quiet_git_world = \<lparr>gw_world = sample_world, gw_jobs = [], gw_threads = []\<rparr>"

definition folder_request :: create_git_folder_req where
  "folder_request = \<lparr>cgf_context = sample_actor, cgf_target_path = ''repo'', cgf_repo_url = ''url'',
     cgf_branch = ''main'', cgf_git_username = [], cgf_git_token = []\<rparr>"

definition one_folder :: "(mem_nodes \<times> mem_intents) git_world" where
  "one_folder = snd (create_git_folder stub_service folder_request quiet_git_world)"

lemma one_folder_reachable: "git_reachable stub_service one_folder"
proof (rule git_reachable.step [OF git_reachable.start [of quiet_git_world]])
  show "git_system stub_service quiet_git_world one_folder"
    unfolding one_folder_def by (rule git_system.create [OF prod.collapse [symmetric]])
qed (simp_all add: quiet_git_world_def)


definition one_job :: git_folder_job where
  "one_job = \<lparr>gj_status = GitFolderStatusWaiting, gj_message = [], gj_repo_url = ''url'', gj_branch = ''main'',
     gj_path = ''repo''\<rparr>"

lemma one_folder_job: "job_get ''a|w|u|repo'' one_folder = Some one_job"
  by code_simp

lemma one_folder_response:
  "fst (create_git_folder stub_service folder_request quiet_git_world) =
     Inr \<lparr>cgr_path = ''repo'', cgr_status = GitFolderStatusWaiting, cgr_branch = ''main'', cgr_repo_url = ''url''\<rparr>"
  by code_simp


text \<open>Its goroutine runs to the end: the four worlds in between.\<close>

definition one_folder_at :: "nat \<Rightarrow> (mem_nodes \<times> mem_intents) git_world" where
  "one_folder_at n = fold (run_thread stub_service) (replicate n 0) one_folder"

lemma one_folder_threads: "map ct_point (gw_threads one_folder) = [AtStart]"
  by code_simp

lemma one_folder_three: "map ct_point (gw_threads (one_folder_at 3)) = [AtRecord]"
  by code_simp

definition at_rest :: "(mem_nodes \<times> mem_intents) git_world \<Rightarrow> int option \<times> bool \<times> bool" where
  "at_rest g = (map_option gj_status (job_get ''a|w|u|repo'' g), gw_threads g = [],
     fs_map (w_os (gw_world g)) [''m'', ''a'', ''w'', ''users'', ''u'', ''repo'', ''.git''] \<noteq> None)"

lemma one_folder_four: "at_rest (one_folder_at 4) = (Some 4, True, True)"
  by code_simp

section \<open>The job properties on it\<close>

theorem git_jobs_invariant_witness:
  "gj_status one_job \<in> {GitFolderStatusWaiting, GitFolderStatusCloning, GitFolderStatusReady, GitFolderStatusFailed} \<and>
   (\<exists>t \<in> set (gw_threads one_folder). ct_key t = ''a|w|u|repo'' \<and> ct_point t \<noteq> AtRecord)"
  using git_jobs_invariant [OF one_folder_reachable one_folder_job] by (simp add: one_job_def)


lemma idle_run: "gw_threads g = [] \<Longrightarrow> fold (run_thread sv) is g = g"
  by (induction "is" arbitrary: g) (simp_all add: run_thread_def)

lemma valid_replicate:
  "gw_threads (fold (run_thread sv) (replicate n 0) g) \<noteq> [] \<Longrightarrow> valid_schedule sv (replicate (Suc n) 0) g"
proof (induction n arbitrary: g)
  case (Suc n)
  then have "valid_schedule sv (replicate (Suc n) 0) (run_thread sv 0 g)" by simp
  moreover have "gw_threads g \<noteq> []" using Suc.prems idle_run by metis
  ultimately show ?case by simp
qed simp

lemma one_folder_valid: "valid_schedule stub_service (replicate 4 0) one_folder"
proof -
  have "gw_threads (one_folder_at 3) \<noteq> []" using one_folder_three by auto
  then have "valid_schedule stub_service (replicate (Suc 3) 0) one_folder"
    unfolding one_folder_at_def by (rule valid_replicate)
  then show ?thesis by simp
qed

theorem git_jobs_settle_witness:
  "\<exists>job. job_get ''a|w|u|repo'' (one_folder_at 4) = Some job \<and>
     gj_status job \<in> {GitFolderStatusReady, GitFolderStatusFailed}"
proof -
  obtain job where "job_get ''a|w|u|repo'' (one_folder_at 4) = Some job" "gw_threads (one_folder_at 4) = []"
    using one_folder_four by (auto simp: at_rest_def)
  with git_jobs_settle [OF one_folder_reachable one_folder_valid] show ?thesis
    unfolding one_folder_at_def by blast
qed


theorem job_of_another_user_shown_witness:
  "fst (get_git_folder_status stub_service \<lparr>srq_context = sample_actor, srq_path = ''x|repo''\<rparr>
        (job_set ''a|w|u|x|repo'' one_job quiet_git_world)) =
      Inr \<lparr>gfs_status = GitFolderStatusWaiting, gfs_message = [], gfs_path = ''repo'',
           gfs_branch = ''main'', gfs_repo_url = ''url''\<rparr> \<and>
    clone_job_key (sample_actor\<lparr>rc_uin := ''u|x''\<rparr>) ''repo'' = ''a|w|u|x|repo''"
proof -
  have u: "validate (normalize sample_actor) = None" "trim_space (''x'' @ ''|'' @ ''repo'') = ''x'' @ ''|'' @ ''repo''"
    "clone_job_key (sample_actor\<lparr>rc_uin := rc_uin sample_actor @ ''|'' @ ''x''\<rparr>) ''repo'' = ''a|w|u|x|repo''"
    "clone_job_key (sample_actor\<lparr>rc_uin := ''u|x''\<rparr>) ''repo'' = ''a|w|u|x|repo''"
    by code_simp+
  have "job_get ''a|w|u|x|repo'' (job_set ''a|w|u|x|repo'' one_job quiet_git_world) = Some one_job" by simp
  from job_of_another_user_shown [of sample_actor "''x''" "''repo''", OF u(1) sample_actor_normal u(2), unfolded u(3), OF this]
  show ?thesis using u(4) by (simp add: one_job_def)
qed

section \<open>Two clones of one path\<close>

definition two_folders :: "(mem_nodes \<times> mem_intents) git_world" where
  "two_folders = snd (create_git_folder stub_service folder_request one_folder)"


end
