(* ===== verification/Storage.thy ===== *)
theory Storage
  imports Confinement
begin

text \<open>
  What the operations of the storage client do, under every schedule of faults: a write is all or
  nothing, what was written is read back, a deletion removes the whole subtree, a copy of a file
  is equal to it.
\<close>

section \<open>Looking changes nothing\<close>

definition store_off_disk :: "'x fs_client \<Rightarrow> bool" where
  "store_off_disk c \<longleftrightarrow> (\<forall>ns. fc_store c = Some ns \<longrightarrow> off_disk ns)"

lemma fs_same_sym_path: "fs_same s s' \<Longrightarrow> fs_path s' = fs_path s"
  by (rule fs_sameD)

lemma off_diskD:
  assumes "store_off_disk c" "fc_store c = Some ns"
  shows "ns_upsert ns m w = (r, w') \<Longrightarrow> w_os w' = w_os w"
    "ns_mark_deleted ns m w = (r, w') \<Longrightarrow> w_os w' = w_os w"
    "ns_lookup ns ids w = (lr, w') \<Longrightarrow> w_os w' = w_os w"
proof -
  have o: "off_disk ns" using assms by (simp add: store_off_disk_def)
  show "ns_upsert ns m w = (r, w') \<Longrightarrow> w_os w' = w_os w"
    using o unfolding off_disk_def by (metis snd_conv)
  show "ns_mark_deleted ns m w = (r, w') \<Longrightarrow> w_os w' = w_os w"
    using o unfolding off_disk_def by (metis snd_conv)
  show "ns_lookup ns ids w = (lr, w') \<Longrightarrow> w_os w' = w_os w"
    using o unfolding off_disk_def by (metis snd_conv)
qed

interpretation looking: client_reads "\<lambda>w. store_off_disk c" "\<lambda>w w'. store_off_disk c \<longrightarrow> fs_same (w_os w) (w_os w')" c a
  for c :: "'x fs_client" and a
proof (unfold_locales, goal_cases)
  case (2 w w1 w2)
  then show ?case using fs_same_trans by blast
qed (auto dest: off_diskD)

lemma looks:
  assumes "looking.keeps c m" "store_off_disk c" "m w = (r, w')"
  shows "fs_same (w_os w) (w_os w')"
  using looking.keepsD [OF assms] assms(2) by simp

section \<open>Steps of a run\<close>

lemma afterE:
  assumes "after m k w = y"
  obtains x w1 where "m w = (x, w1)" "k x w1 = y"
  using assms by (cases "m w") (simp add: after_def)

lemma on_osE:
  assumes "on_os f w = (x, w1)"
  obtains s where "f (w_os w) = (x, s)" "w1 = w\<lparr>w_os := s\<rparr>"
  using assms by (cases "f (w_os w)") (simp add: on_os_def)

lemma on_os_afterE:
  assumes "after (on_os f) k w = y"
  obtains x s where "f (w_os w) = (x, s)" "k x (w\<lparr>w_os := s\<rparr>) = y"
  using assms by (cases "f (w_os w)") (simp add: after_def on_os_def)

section \<open>Writing\<close>

text \<open>The outcome of a write: the missing directories above the file are there, then all or nothing.\<close>

lemma create_file_effect:
  assumes c: "store_off_disk c" and wf: "fs_wf (w_os w)" and pl: "plain (es @ [b])"
    and p: "cf_path req = abs_path (es @ [b])" and run: "client_create_file c req w = (r, w')"
  obtains s1 where "dirs_added es (w_os w) s1"
    "fs_wf (w_os w')" "fs_config (w_os w') = fs_config (w_os w)"
    "(\<exists>i. fs_map (w_os w') = (fs_map s1)(es @ [b] \<mapsto> FFile i (cf_content req))) \<or>
     \<not> is_ok r \<and> (fs_map (w_os w') = fs_map s1 \<or>
       (\<exists>T. temp_of es b T \<and> fs_map s1 T = None \<and> cleaned s1 T (w_os w')))"
proof -
  note result = that
  let ?put_file = "after (on_os (atomic_write_file (cf_path req) (cf_content req))) (\<lambda>r. case r of
      Some e \<Rightarrow> give (Inl (wrap_error ''write file'' (os_go_error e)))
    | None \<Rightarrow> build_enriched_file_info c (cf_actor req) (cf_path req))"
  have dir: "dir_path (cf_path req) = abs_path es" using pl by (simp only: p dir_abs_path)
  from run obtain x s1 where mk: "os_mkdir_all (abs_path es) (w_os w) = (x, s1)"
    and run1: "(case x of
        Some e \<Rightarrow> give (Inl (wrap_error ''create parent dir'' (os_go_error e)))
      | None \<Rightarrow> after (on_os (os_stat (cf_path req))) (\<lambda>r. case r of
           Inr info \<Rightarrow> if oi_is_dir info then give (Inl (sentinel_error ErrNotAFile))
             else if \<not> cf_overwrite req then give (Inl (sentinel_error ErrAlreadyExists)) else ?put_file
         | Inl e \<Rightarrow> if \<not> os_is_not_exist e then give (Inl (os_go_error e)) else ?put_file)) (w\<lparr>w_os := s1\<rparr>) = (r, w')"
    unfolding client_create_file_def Let_def dir by (rule on_os_afterE)
  have da: "dirs_added es (w_os w) s1" using os_mkdir_all_effect [OF wf mk] pl by (simp add: fs_path_abs)
  then have wf1: "fs_wf s1" "fs_config s1 = fs_config (w_os w)" by (simp_all add: dirs_added_def)
  have stop: thesis if "\<not> is_ok r" "fs_same s1 (w_os w')"
    by (rule result [OF da]) (use that wf1 fs_sameD [OF that(2)] in auto)
  have wrote: thesis if "fs_same s1 (w_os v)" "?put_file v = (r, w')" for v
  proof -
    note sm = fs_sameD [OF that(1)]
    from that(2) obtain y s2 where aw: "atomic_write_file (cf_path req) (cf_content req) (w_os v) = (y, s2)"
      and rest: "(case y of Some e \<Rightarrow> give (Inl (wrap_error ''write file'' (os_go_error e)))
        | None \<Rightarrow> build_enriched_file_info c (cf_actor req) (cf_path req)) (v\<lparr>w_os := s2\<rparr>) = (r, w')"
      by (rule on_os_afterE)
    have wfv: "fs_wf (w_os v)" using sm(3) wf1(1) by simp
    note eff = atomic_write_effect [OF wfv pl aw [unfolded p]]
    show thesis
    proof (cases y)
      case (Some e)
      with rest have r: "r = Inl (wrap_error ''write file'' (os_go_error e))" "w_os w' = s2" by (auto simp: give_def)
      have "fs_map s2 = fs_map s1 \<or> (\<exists>T. temp_of es b T \<and> fs_map s1 T = None \<and> cleaned s1 T s2)"
        using eff Some sm by (auto simp: cleaned_def)
      with r eff sm wf1 show thesis by (intro result [OF da]) simp_all
    next
      case None
      with rest have "build_enriched_file_info c (cf_actor req) (cf_path req) (v\<lparr>w_os := s2\<rparr>) = (r, w')" by simp
      from looks [OF looking.keeps_build_enriched c this] have "fs_same s2 (w_os w')" by simp
      note sm2 = fs_sameD [OF this]
      show thesis by (rule result [OF da]) (use eff None sm sm2 wf1 in auto)
    qed
  qed
  show thesis
  proof (cases x)
    case (Some e)
    with run1 show thesis by (intro stop) (auto simp: give_def)
  next
    case None
    with run1 obtain z s2 where st: "os_stat (cf_path req) s1 = (z, s2)"
      and run2: "(case z of
           Inr info \<Rightarrow> if oi_is_dir info then give (Inl (sentinel_error ErrNotAFile))
             else if \<not> cf_overwrite req then give (Inl (sentinel_error ErrAlreadyExists)) else ?put_file
         | Inl e \<Rightarrow> if \<not> os_is_not_exist e then give (Inl (os_go_error e)) else ?put_file) (w\<lparr>w_os := s2\<rparr>) = (r, w')"
      by (auto elim!: on_os_afterE)
    have same: "fs_same s1 s2" using st by (rule os_stat_same)
    have "\<not> is_ok r \<and> w_os w' = s2 \<or> ?put_file (w\<lparr>w_os := s2\<rparr>) = (r, w')"
      using run2 by (cases z) (auto simp: give_def split: if_splits)
    then show thesis using stop wrote [of "w\<lparr>w_os := s2\<rparr>"] same by auto
  qed
qed

text \<open>
  C22. A write under any faults is all or nothing: afterwards the file has exactly the new contents,
  or the write reports an error and the file is what it was. Nothing else changes, except that
  missing directories above the file appear and a failed write may leave its temporary file.
\<close>

theorem write_file_all_or_nothing:
  assumes "store_off_disk c" "fs_wf (w_os w)" "plain (es @ [b])" "wf_path req = abs_path (es @ [b])"
    and "client_write_file c req w = (r, w')"
  shows "((\<exists>i. fs_map (w_os w') (es @ [b]) = Some (FFile i (wf_content req))) \<or>
      \<not> is_ok r \<and> fs_map (w_os w') (es @ [b]) = fs_map (w_os w) (es @ [b])) \<and>
    (\<forall>k. k = es @ [b] \<or> fs_map (w_os w') k = fs_map (w_os w) k \<or>
      fs_map (w_os w) k = None \<and>
      (prefix k es \<and> (\<exists>i. fs_map (w_os w') k = Some (FDir i)) \<or> \<not> is_ok r \<and> temp_of es b k))"
proof -
  note run = assms(5) [unfolded client_write_file_def]
  have p: "cf_path \<lparr>cf_actor = wf_actor req, cf_path = wf_path req, cf_content = wf_content req, cf_overwrite = wf_overwrite req\<rparr> =
      abs_path (es @ [b])" using assms(4) by simp
  from assms(1-3) p run show ?thesis
  proof (rule create_file_effect)
    fix s1 assume da: "dirs_added es (w_os w) s1"
      and alt: "(\<exists>i. fs_map (w_os w') = (fs_map s1)(es @ [b] \<mapsto>
          FFile i (cf_content \<lparr>cf_actor = wf_actor req, cf_path = wf_path req, cf_content = wf_content req, cf_overwrite = wf_overwrite req\<rparr>))) \<or>
        \<not> is_ok r \<and> (fs_map (w_os w') = fs_map s1 \<or>
          (\<exists>T. temp_of es b T \<and> fs_map s1 T = None \<and> cleaned s1 T (w_os w')))"
    have dst: "fs_map s1 (es @ [b]) = fs_map (w_os w) (es @ [b])"
      using da unfolding dirs_added_def by (metis not_Cons_self2 prefix_length_le length_append_singleton not_less_eq_eq order_refl)
    have dirs: "fs_map s1 k = fs_map (w_os w) k \<or>
        fs_map (w_os w) k = None \<and> prefix k es \<and> (\<exists>i. fs_map s1 k = Some (FDir i))" for k
      using da unfolding dirs_added_def by blast
    have temp: "\<not> temp_of es b (es @ [b])" using temp_name(2) [of b] assms(3) by (auto simp: temp_of_def)
    from alt show ?thesis
    proof (elim disjE exE conjE)
      fix i assume "fs_map (w_os w') = (fs_map s1)(es @ [b] \<mapsto>
          FFile i (cf_content \<lparr>cf_actor = wf_actor req, cf_path = wf_path req, cf_content = wf_content req, cf_overwrite = wf_overwrite req\<rparr>))"
      then show ?thesis using dirs by auto
    next
      assume "\<not> is_ok r" "fs_map (w_os w') = fs_map s1"
      then show ?thesis using dirs dst by auto
    next
      fix T assume f: "\<not> is_ok r" and T: "temp_of es b T" "fs_map s1 T = None" and cl: "cleaned s1 T (w_os w')"
      have other: "fs_map (w_os w') k = fs_map s1 k" if "k \<noteq> T" for k using cl that by (simp add: cleaned_def)
      have "T \<noteq> es @ [b]" using T temp by auto
      moreover have "fs_map (w_os w) T = None" using dirs [of T] T(2) by auto
      ultimately show ?thesis using f T(1) other dirs dst by metis
    qed
  qed
qed

abbreviation "sample_elems \<equiv> [''m'', ''a'', ''w'', ''users'', ''u'', ''d'']"

definition write_request :: write_file_req where
  "write_request = \<lparr>wf_actor = sample_actor, wf_path = sample_file, wf_content = ''new'', wf_overwrite = True\<rparr>"

text \<open>The fourth call fails after one byte.\<close>

definition faulty_world :: mem_world where
  "faulty_world = \<lparr>w_os = sample_fs [None, None, None, Some 1], w_db = ([], new_mem_intents)\<rparr>"

lemma sample_off_disk: "store_off_disk sample_client"
  by (simp add: store_off_disk_def sample_client_def world_nodes_off_disk)

lemma sample_plain: "plain (sample_elems @ [''f''])" "plain sample_elems"
  by (simp_all add: plain_elem_def)

lemma sample_paths:
  "abs_path [''m'', ''a'', ''w'', ''users'', ''u'', ''d'', ''f''] = sample_file" "abs_path sample_elems = ''/m/a/w/users/u/d''"
  by code_simp+

lemma sample_wf: "fs_wf (w_os sample_world)" "fs_wf (w_os faulty_world)"
  by (simp_all add: sample_world_def faulty_world_def sample_fs_wf)

lemma write_request_path: "wf_path write_request = abs_path (sample_elems @ [''f''])"
  by (simp add: write_request_def sample_paths)

theorem write_file_all_or_nothing_witness:
  "\<exists>r w'. client_write_file sample_client write_request faulty_world = (r, w') \<and>
     ((\<exists>i. fs_map (w_os w') (sample_elems @ [''f'']) = Some (FFile i ''new'')) \<or>
      \<not> is_ok r \<and> fs_map (w_os w') (sample_elems @ [''f'']) = Some (FFile 8 ''abc''))"
proof -
  obtain r w' where run: "client_write_file sample_client write_request faulty_world = (r, w')"
    by (cases "client_write_file sample_client write_request faulty_world")
  have "fs_map (w_os faulty_world) (sample_elems @ [''f'']) = Some (FFile 8 ''abc'')"
    by (simp add: faulty_world_def sample_fs_def)
  with write_file_all_or_nothing [OF sample_off_disk sample_wf(2) sample_plain(1) write_request_path run] run
  show ?thesis by (auto simp: write_request_def)
qed

section \<open>Reading back\<close>

lemma stat_quiet:
  assumes "fs_wf s" "fs_faults s = []" "plain es" "fs_map s es = Some n"
  shows "os_stat (abs_path es) s = (Inr (node_info s (abs_path es) es n), s)"
proof -
  have "fs_lookup s (abs_path es) = Inr n"
    using assms by (simp add: fs_lookup_def fs_path_abs fs_find_iff) (simp add: abs_path_def)
  then show ?thesis using assms by (simp add: os_stat_op_def fault_tick_def fs_path_abs)
qed

lemma read_quiet:
  assumes "fs_wf s" "fs_faults s = []" "plain es" "fs_map s es = Some (FFile i d)"
  shows "os_read_file (abs_path es) s = (Inr d, s)"
proof -
  have "fs_lookup s (abs_path es) = Inr (FFile i d)"
    using assms by (simp add: fs_lookup_def fs_path_abs fs_find_iff) (simp add: abs_path_def)
  then show ?thesis using assms by (simp add: os_read_file_def fault_tick_def)
qed

lemma read_file_quiet:
  assumes "fs_wf (w_os w)" "fs_faults (w_os w) = []" "plain es" "fs_map (w_os w) es = Some (FFile i d)"
    and "int (length d) \<le> max_inline_read_size" "rf_path req = abs_path es"
  shows "\<exists>fi. fst (client_read_file c req w) = Inr (fi, d)"
proof -
  have w: "w\<lparr>w_os := w_os w\<rparr> = w" by simp
  have st: "on_os (os_stat (rf_path req)) w = (Inr (node_info (w_os w) (abs_path es) es (FFile i d)), w)"
    using stat_quiet [OF assms(1-4)] by (simp add: on_os_def assms(6))
  have rd: "on_os (os_read_file (rf_path req)) w = (Inr d, w)"
    using read_quiet [OF assms(1-4)] by (simp add: on_os_def assms(6))
  obtain fi w1 where "build_file_info (rf_path req) w = (Inr fi, w1)"
    using st by (simp add: build_file_info_def after_def give_def)
  then have "\<exists>fi w2. build_enriched_file_info c (rf_actor req) (rf_path req) w = (Inr fi, w2)"
    by (cases "enrich_file_info c (rf_actor req) fi w1") (simp add: build_enriched_file_info_def after_def give_def)
  with st rd assms(5) show ?thesis
    by (auto simp: client_read_file_def after_def give_def node_info_def)
qed



section \<open>Deleting for good\<close>

lemma os_remove_ok:
  assumes "fs_wf s" "os_remove p s = (None, s')"
  shows "fs_map s' = (\<lambda>k. if prefix (fs_path s p) k then None else fs_map s k)"
proof -
  obtain r s2 where m: "sys_remove (fs_path s p) s = (r, s2)" by (cases "sys_remove (fs_path s p) s")
  with assms(2) have "r = None" "s2 = s'" by (simp_all add: os_remove_def split: if_splits option.splits)
  with m have "sys_remove (fs_path s p) s = (None, s')" by simp
  with assms(1) show ?thesis
  proof (cases rule: sys_remove_effect)
    case (removed s1)
    have "fs_map s k = None" if "strict_prefix (fs_path s p) k" for k
    proof (rule ccontr)
      assume k: "fs_map s k \<noteq> None"
      from that obtain z zs where e: "k = fs_path s p @ z # zs" by (auto simp: strict_prefix_Cons_ex)
      with k obtain n where n: "fs_map s ((fs_path s p @ [z]) @ zs) = Some n" by auto
      have "fs_map s (fs_path s p @ [z]) \<noteq> None"
        using n fs_wf_above [OF assms(1) n] by (cases "zs = []") auto
      with removed(7) show False by (simp add: fs_children_Nil)
    qed
    then have "fs_map s k = None" if "prefix (fs_path s p) k" "k \<noteq> fs_path s p" for k
      using that by (simp add: strict_prefix_def)
    moreover have "fs_map s' = (fs_map s)(fs_path s p := None)"
      using fs_sameD(1) [OF removed(2)] by (simp add: removed(3) fs_cut_map)
    ultimately show ?thesis by (simp add: fun_eq_iff)
  qed simp
qed

text \<open>
  C24. A permanent deletion that reports success removes the path and everything below it, and
  nothing else, whatever faults occur on the way.
\<close>

theorem delete_removes_the_subtree:
  assumes "store_off_disk c" "fs_wf (w_os w)" "plain P" "dp_path req = abs_path P"
    and "dp_permanent req \<or> \<not> dp_soft_delete req" "client_delete_path c req w = (None, w')"
  shows "fs_map (w_os w') = (\<lambda>k. if prefix P k then None else fs_map (w_os w) k)"
proof -
  from assms(6) obtain x s1 where st: "os_stat (dp_path req) (w_os w) = (x, s1)"
    and rest: "(case x of
        Inl e \<Rightarrow> give (Some (if os_is_not_exist e then sentinel_error ErrNotFound else os_go_error e))
      | Inr info \<Rightarrow>
          if dp_soft_delete req \<and> \<not> dp_permanent req then soft_delete c (dp_actor req) (dp_path req)
          else after (mark_deleted c (dp_actor req) info) (\<lambda>_.
              if oi_is_dir info
              then after (on_os (os_remove_all (dp_path req)))
                     (\<lambda>r. give (map_option (\<lambda>e. wrap_error ''delete folder'' (os_go_error e)) r))
              else after (on_os (os_remove (dp_path req)))
                     (\<lambda>r. give (map_option (\<lambda>e. wrap_error ''delete file'' (os_go_error e)) r)))) (w\<lparr>w_os := s1\<rparr>) = (None, w')"
    unfolding client_delete_path_def by (rule on_os_afterE)
  obtain info where x: "x = Inr info" using rest by (cases x) (simp_all add: give_def)
  obtain u w2 where md: "mark_deleted c (dp_actor req) info (w\<lparr>w_os := s1\<rparr>) = (u, w2)"
    by (cases "mark_deleted c (dp_actor req) info (w\<lparr>w_os := s1\<rparr>)")
  have "fs_same (w_os w) (w_os w2)"
    using fs_same_trans [OF os_stat_same [OF st]] looks [OF looking.keeps_mark_deleted assms(1) md] by simp
  note sm = fs_sameD [OF this]
  have wf2: "fs_wf (w_os w2)" and path: "fs_path (w_os w2) (dp_path req) = P"
    using sm assms(2-4) by (simp_all add: fs_path_abs)
  have ne: "dp_path req \<noteq> []" using assms(4) by (simp add: abs_path_def)
  have "os_remove_all (dp_path req) (w_os w2) = (None, w_os w') \<or> os_remove (dp_path req) (w_os w2) = (None, w_os w')"
    using rest x md assms(5)
    by (auto simp: after_def on_os_def give_def split: if_splits prod.splits)
  then have "fs_map (w_os w') = (\<lambda>k. if prefix (fs_path (w_os w2) (dp_path req)) k then None else fs_map (w_os w2) k)"
    using os_remove_all_ok [OF wf2 _ ne] os_remove_ok [OF wf2] by blast
  then show ?thesis by (simp only: path sm(1))
qed

theorem delete_removes_the_subtree_witness:
  "\<exists>w'. client_delete_path sample_client
      \<lparr>dp_actor = sample_actor, dp_path = ''/m/a/w/users/u/d'', dp_soft_delete = True, dp_permanent = True\<rparr> sample_world = (None, w') \<and>
    fs_map (w_os w') (sample_elems @ [''f'']) = None"
proof -
  let ?req = "\<lparr>dp_actor = sample_actor, dp_path = ''/m/a/w/users/u/d'', dp_soft_delete = True, dp_permanent = True\<rparr>"
  have "fst (client_delete_path sample_client ?req sample_world) = None" by code_simp
  then obtain w' where run: "client_delete_path sample_client ?req sample_world = (None, w')" by (metis prod.collapse)
  from delete_removes_the_subtree [OF sample_off_disk sample_wf(1) sample_plain(2) _ _ run] run show ?thesis
    by (simp add: sample_paths)
qed

section \<open>Copying a file\<close>

lemma os_io_copy_effect:
  assumes "fs_wf s" "os_io_copy p q s = (None, s')" "fs_map s (fs_path s p) = Some (FFile i d)"
  obtains j e where "fs_map s (fs_path s q) = Some (FFile j e)" "fs_map s' = (fs_map s)(fs_path s q \<mapsto> FFile j (e @ d))"
    "fs_wf s'"
proof -
  have "os_append q d s = (None, s')" using assms(2,3) by (simp add: os_io_copy_def)
  with assms(1) show thesis by (rule os_append_effect) (use that in auto)
qed

lemma copy_file_effect:
  assumes wf: "fs_wf s" and pl: "plain S" "plain D" and src: "fs_map s S = Some (FFile i d)"
    and run: "copy_file (abs_path S) (abs_path D) s = (None, s')"
  shows "fs_wf s' \<and> (\<exists>j. fs_map s' D = Some (FFile j (if S = D then [] else d))) \<and> (S \<noteq> D \<longrightarrow> fs_map s' S = Some (FFile i d))"
proof -
  from run obtain x s1 where mk: "os_mkdir_all (dir_path (abs_path D)) s = (x, s1)"
    and run1: "(case x of Some e \<Rightarrow> give (Some (os_go_error e)) | None \<Rightarrow>
     after (os_open (abs_path S)) (\<lambda>r. case r of Some e \<Rightarrow> give (Some (os_go_error e)) | None \<Rightarrow>
     after (os_create (abs_path D)) (\<lambda>r. case r of Some e \<Rightarrow> give (Some (os_go_error e)) | None \<Rightarrow>
     after (os_io_copy (abs_path S) (abs_path D)) (\<lambda>r. give (map_option os_go_error r))))) s1 = (None, s')"
    unfolding copy_file_def by (rule afterE)
  have x: "x = None" using run1 by (cases x) (simp_all add: give_def)
  note da = conjunct1 [OF os_mkdir_all_effect [OF wf mk]]
  have wf1: "fs_wf s1" "fs_map s1 S = Some (FFile i d)" using da dirs_added_old [OF da src] by (simp_all add: dirs_added_def)
  from run1 [unfolded x option.case] obtain y s2 where op: "os_open (abs_path S) s1 = (y, s2)"
    and run2: "(case y of Some e \<Rightarrow> give (Some (os_go_error e)) | None \<Rightarrow>
     after (os_create (abs_path D)) (\<lambda>r. case r of Some e \<Rightarrow> give (Some (os_go_error e)) | None \<Rightarrow>
     after (os_io_copy (abs_path S) (abs_path D)) (\<lambda>r. give (map_option os_go_error r)))) s2 = (None, s')"
    by (rule afterE)
  have y: "y = None" using run2 by (cases y) (simp_all add: give_def)
  note sm = fs_sameD [OF os_open_same [OF op]]
  have wf2: "fs_wf s2" "fs_map s2 S = Some (FFile i d)" using sm wf1 by simp_all
  from run2 [unfolded y option.case] obtain z s3 where cr: "os_create (abs_path D) s2 = (z, s3)"
    and run3: "(case z of Some e \<Rightarrow> give (Some (os_go_error e)) | None \<Rightarrow>
     after (os_io_copy (abs_path S) (abs_path D)) (\<lambda>r. give (map_option os_go_error r))) s3 = (None, s')"
    by (rule afterE)
  have z: "z = None" using run3 by (cases z) (simp_all add: give_def)
  from wf2(1) cr obtain j where cre: "fs_wf s3" "fs_map s3 = (fs_map s2)(D \<mapsto> FFile j [])"
    by (rule os_create_effect) (use z pl in \<open>auto simp: fs_path_abs\<close>)
  from run3 z have cp: "os_io_copy (abs_path S) (abs_path D) s3 = (None, s')"
    by (auto simp: after_def give_def split: prod.splits)
  have S3: "fs_map s3 (fs_path s3 (abs_path S)) = Some (FFile (if S = D then j else i) (if S = D then [] else d))"
    using cre wf2 pl by (simp add: fs_path_abs)
  from cre(1) cp S3 show ?thesis
    by (rule os_io_copy_effect) (use cre wf2 pl in \<open>auto simp: fs_path_abs\<close>)
qed

lemma check_dest_effect:
  assumes "fs_wf (w_os w)" "check_dest info dest b w = (r, w')"
  shows "\<exists>es. dirs_added es (w_os w) (w_os w')"
proof -
  from assms(2) obtain x s1 where st: "os_stat dest (w_os w) = (x, s1)"
    and rest: "(case x of
        Inr dest_info \<Rightarrow>
          if oi_is_dir info \<noteq> oi_is_dir dest_info then give (Some (sentinel_error ErrInvalidRequest))
          else if \<not> b then give (Some (sentinel_error ErrAlreadyExists))
          else give None
      | Inl e \<Rightarrow>
          if \<not> os_is_not_exist e then give (Some (os_go_error e))
          else after (on_os (os_mkdir_all (dir_path dest))) (\<lambda>r. give (map_option os_go_error r))) (w\<lparr>w_os := s1\<rparr>) = (r, w')"
    unfolding check_dest_def by (rule on_os_afterE)
  note sm = fs_sameD [OF os_stat_same [OF st]]
  have quiet: "dirs_added [] (w_os w) s1" using assms(1) sm by (simp add: dirs_added_def)
  obtain y s2 where mk: "os_mkdir_all (dir_path dest) s1 = (y, s2)" by (cases "os_mkdir_all (dir_path dest) s1")
  have "w_os w' = s1 \<or> w_os w' = s2"
    using rest mk by (auto simp: give_def after_def on_os_def split: sum.splits if_splits)
  moreover have "dirs_added (fs_path s1 (dir_path dest)) s1 s2" using os_mkdir_all_effect [OF _ mk] assms(1) sm(3) by blast
  then have "dirs_added (fs_path s1 (dir_path dest)) (w_os w) s2"
    using dirs_added_trans [OF dirs_added_mono [OF quiet]] by simp
  ultimately show ?thesis using quiet by auto
qed

text \<open>
  C25. A copy of a file that reports success has the contents of the file, which stays as it was.
  The exception is a copy onto itself: \<open>CopyPath\<close> has no check for it, and the file is empty
  afterwards.
\<close>

theorem copied_file_has_the_contents:
  assumes "store_off_disk c" "fs_wf (w_os w)" "plain S" "plain D"
    and "cp_src_path req = abs_path S" "cp_dest_path req = abs_path D" "fs_map (w_os w) S = Some (FFile i d)"
    and "client_copy_path c req w = Some (Inr fi, w')"
  shows "(\<exists>j. fs_map (w_os w') D = Some (FFile j (if S = D then [] else d))) \<and>
    (S \<noteq> D \<longrightarrow> fs_map (w_os w') S = Some (FFile i d))"
proof -
  obtain x s1 where st: "os_stat (abs_path S) (w_os w) = (x, s1)" by (cases "os_stat (abs_path S) (w_os w)")
  note sm = fs_sameD [OF os_stat_same [OF st]]
  have st': "on_os (os_stat (abs_path S)) w = (x, w\<lparr>w_os := s1\<rparr>)" using st by (simp add: on_os_def)
  note run = assms(8) [unfolded client_copy_path_def assms(5,6) after_def [of "on_os (os_stat (abs_path S))"] st' prod.case]
  obtain info where x: "x = Inr info" using run by (cases x) simp_all
  have look: "fs_lookup (w_os w) (abs_path S) = Inr (FFile i d)"
    using assms(2,3,7) by (simp add: fs_lookup_def fs_path_abs fs_find_iff) (simp add: abs_path_def)
  obtain f s0 where t: "fault_tick (w_os w) = (f, s0)" by (cases "fault_tick (w_os w)")
  have "fs_lookup s0 (abs_path S) = Inr (FFile i d)" using look fs_sameD(6) [OF fault_tick_same [OF t]] by simp
  with st x t have nd: "\<not> oi_is_dir info"
    by (cases f) (auto simp: os_stat_op_def node_info_def)
  obtain y w2 where cd: "check_dest info (abs_path D) (cp_overwrite req) (w\<lparr>w_os := s1\<rparr>) = (y, w2)"
    by (cases "check_dest info (abs_path D) (cp_overwrite req) (w\<lparr>w_os := s1\<rparr>)")
  have y: "y = None" using run cd by (cases y) (simp_all add: x after_def)
  have w2: "fs_wf (w_os w2)" "fs_map (w_os w2) S = Some (FFile i d)"
  proof -
    obtain es where da: "dirs_added es s1 (w_os w2)" using check_dest_effect [OF _ cd] assms(2) sm(3) by auto
    then show "fs_wf (w_os w2)" by (simp add: dirs_added_def)
    show "fs_map (w_os w2) S = Some (FFile i d)" using dirs_added_old [OF da] assms(7) by (simp add: sm(1))
  qed
  obtain r3 s3 where cf: "copy_file (abs_path S) (abs_path D) (w_os w2) = (r3, s3)"
    by (cases "copy_file (abs_path S) (abs_path D) (w_os w2)")
  have r3: "r3 = None" using run cd cf nd by (cases r3) (simp_all add: x y after_def on_os_option_def)
  have "fs_same s3 (w_os w')"
  proof -
    have "after (record_upsert (fc_store c) (cp_actor req) (abs_path D))
        (\<lambda>_. build_enriched_file_info c (cp_actor req) (abs_path D)) (w2\<lparr>w_os := s3\<rparr>) = (Inr fi, w')"
      using run cd cf nd by (simp add: x y r3 after_def on_os_option_def)
    moreover have "looking.keeps c (after (record_upsert (fc_store c) (cp_actor req) (abs_path D))
        (\<lambda>_. build_enriched_file_info c (cp_actor req) (abs_path D)))"
      by (intro looking.keeps_after looking.keeps_record_upsert looking.keeps_build_enriched)
    ultimately show ?thesis using looks [OF _ assms(1)] by fastforce
  qed
  note after_sm = fs_sameD [OF this]
  from copy_file_effect [OF w2(1) assms(3,4) w2(2) cf [unfolded r3]] show ?thesis by (simp add: after_sm(1))
qed

theorem copied_file_has_the_contents_witness:
  "\<exists>fi w' j. client_copy_path sample_client
      \<lparr>cp_actor = sample_actor, cp_src_path = sample_file, cp_dest_path = sample_file, cp_overwrite = True\<rparr> sample_world =
        Some (Inr fi, w') \<and>
    fs_map (w_os w') (sample_elems @ [''f'']) = Some (FFile j [])"
proof -
  let ?req = "\<lparr>cp_actor = sample_actor, cp_src_path = sample_file, cp_dest_path = sample_file, cp_overwrite = True\<rparr>"
  have "case client_copy_path sample_client ?req sample_world of Some (r, w) \<Rightarrow> is_ok r | None \<Rightarrow> False" by code_simp
  then obtain fi w' where run: "client_copy_path sample_client ?req sample_world = Some (Inr fi, w')"
    by (auto split: option.splits prod.splits simp: isl_def) (metis sum.exhaust)
  have src: "fs_map (w_os sample_world) (sample_elems @ [''f'']) = Some (FFile 8 ''abc'')"
    by (simp add: sample_world_def sample_fs_def)
  from copied_file_has_the_contents [OF sample_off_disk sample_wf(1) sample_plain(1,1) _ _ src run] run show ?thesis
    by (simp add: sample_paths)
qed

end
