(* ===== verification/JsonDocs.thy ===== *)
theory JsonDocs
  imports Json
begin

text \<open>
  What the encoder writes the decoder reads: the round trip of whole documents.
\<close>

definition plain_number :: "string \<Rightarrow> bool" where
  "plain_number n \<longleftrightarrow> n \<noteq> [] \<and> list_all is_digit n \<and> (hd n \<noteq> CHR ''0'' \<or> tl n = [])"

text \<open>Documents of valid text, with numbers that are digits without leading zero.\<close>

fun json_ok :: "json \<Rightarrow> bool" where
  "json_ok JNull \<longleftrightarrow> True"
| "json_ok (JBool b) \<longleftrightarrow> True"
| "json_ok (JNum n) \<longleftrightarrow> plain_number n"
| "json_ok (JStr s) \<longleftrightarrow> valid_utf8 s"
| "json_ok (JArr xs) \<longleftrightarrow> list_all json_ok xs"
| "json_ok (JObj kvs) \<longleftrightarrow> list_all (\<lambda>kv. valid_utf8 (fst kv) \<and> json_ok (snd kv)) kvs"

fun json_fuel :: "json \<Rightarrow> nat" where
  "json_fuel (JArr xs) = 1 + sum_list (map (\<lambda>x. 1 + json_fuel x) xs)"
| "json_fuel (JObj kvs) = 1 + sum_list (map (\<lambda>kv. 1 + json_fuel (snd kv)) kvs)"
| "json_fuel j = 1"

definition closes :: "string \<Rightarrow> bool" where
  "closes t \<longleftrightarrow> t = [] \<or> hd t \<in> set '',]}''"

lemma json_text_first:
  assumes "json_ok j"
  shows "\<exists>c r. json_text j = c # r \<and> c \<notin> {CHR '' '', CHR 0x09, CHR 0x0A, CHR 0x0D, CHR '']'', CHR ''}''}"
proof (cases j)
  case (JNum n)
  with assms show ?thesis
    by (cases n) (auto simp: plain_number_def is_digit_def byte_in_def)
qed (auto simp: json_string_def)

lemma skip_ws_text: "json_ok j \<Longrightarrow> skip_ws (json_text j @ t) = json_text j @ t"
  using json_text_first [of j] by (auto simp: skip_ws_def)

lemma parse_plain_number:
  assumes "plain_number n" "closes t"
  shows "parse_number (n @ t) = Some (n, t)"
proof -
  have stop: "takeWhile is_digit (n @ t) = n"
  proof -
    have "takeWhile is_digit t = []"
      using assms(2) by (cases t) (auto simp: closes_def is_digit_def byte_in_def)
    moreover have "takeWhile is_digit (n @ t) = n @ takeWhile is_digit t"
      using assms(1) by (intro takeWhile_append2) (simp add: plain_number_def list_all_iff)
    ultimately show ?thesis by simp
  qed
  obtain c r where n: "n = c # r" using assms(1) by (cases n) (auto simp: plain_number_def)
  have c: "c \<noteq> CHR ''-''" "is_digit c" using assms(1) n by (auto simp: plain_number_def is_digit_def byte_in_def)
  have int_part: "(if c = CHR ''0'' then [c] else takeWhile is_digit (c # r @ t)) = n"
    using assms(1) stop n by (auto simp: plain_number_def)
  have first: "(case n @ t of c # r \<Rightarrow> if c = CHR ''-'' then ([c], r) else ([], n @ t) | [] \<Rightarrow> ([], n @ t)) = ([], n @ t)"
    using c by (simp add: n)
  have int: "(case n @ t of c # r \<Rightarrow> if c = CHR ''0'' then [c] else takeWhile is_digit (n @ t) | [] \<Rightarrow> []) = n"
    using int_part by (auto simp: n split: if_splits)
  have ne: "n \<noteq> []" by (simp add: n)
  show ?thesis
  proof (cases t)
    case Nil
    show ?thesis unfolding parse_number_def first Let_def prod.case int using ne Nil by simp
  next
    case (Cons x y)
    then have "x \<noteq> CHR ''.''" "x \<noteq> CHR ''e''" "x \<noteq> CHR ''E''" using assms(2) by (auto simp: closes_def)
    then show ?thesis unfolding parse_number_def first Let_def prod.case int using ne Cons by (cases y) simp_all
  qed
qed

lemma parse_leaf:
  assumes "json_ok j" "closes t" "0 < n" "\<And>xs. j \<noteq> JArr xs" "\<And>kvs. j \<noteq> JObj kvs"
  shows "parse_value n (json_text j @ t) = Some (j, t)"
proof -
  obtain m where n: "n = Suc m" using assms(3) by (cases n) auto
  show ?thesis
  proof (cases j)
    case (JStr s)
    with assms(1) show ?thesis
      by (simp add: n json_string_def skip_ws_def parse_escape_chars)
  next
    case (JNum d)
    then obtain c r where d: "d = c # r" "is_digit c" using assms(1) by (cases d) (auto simp: plain_number_def)
    then have "c \<noteq> CHR ''n''" "c \<noteq> CHR ''t''" "c \<noteq> CHR ''f''" "c \<noteq> CHR 0x22" "c \<noteq> CHR ''{''" "c \<noteq> CHR ''[''"
      by (auto simp: is_digit_def byte_in_def)
    with JNum assms(1) parse_plain_number [OF _ assms(2), of d] skip_ws_text [of j t] d show ?thesis
      by (simp add: n)
  qed (use assms in \<open>auto simp: n skip_ws_def\<close>)
qed

lemma parse_elements:
  assumes "\<And>x n t. x \<in> set xs \<Longrightarrow> json_ok x \<Longrightarrow> json_fuel x \<le> n \<Longrightarrow> closes t \<Longrightarrow> parse_value n (json_text x @ t) = Some (x, t)"
    and "list_all json_ok xs" "xs \<noteq> []" "sum_list (map (\<lambda>x. 1 + json_fuel x) xs) \<le> n"
  shows "parse_array n (join_with '','' (map json_text xs) @ CHR '']'' # t) = Some (xs, t)"
  using assms
proof (induction xs arbitrary: n)
  case (Cons x xs)
  obtain m where n: "n = Suc m" using Cons.prems(4) by (cases n) auto
  have f: "json_fuel x \<le> m" "sum_list (map (\<lambda>x. 1 + json_fuel x) xs) \<le> m" using Cons.prems(4) n by simp_all
  have x: "parse_value m (json_text x @ r) = Some (x, r)" if "closes r" for r
    using Cons.prems(1) [OF _ _ f(1) that] Cons.prems(2) by simp
  show ?case
  proof (cases xs)
    case Nil
    with x [of "CHR '']'' # t"] show ?thesis by (simp add: n closes_def skip_ws_def)
  next
    case (Cons y ys)
    let ?rest = "join_with '','' (map json_text xs) @ CHR '']'' # t"
    have "parse_array m ?rest = Some (xs, t)"
      using Cons.IH [of m] Cons.prems f(2) Cons by simp
    moreover have "parse_value m (json_text x @ CHR '','' # ?rest) = Some (x, CHR '','' # ?rest)"
      by (rule x) (simp add: closes_def)
    ultimately show ?thesis using Cons by (simp add: n skip_ws_def)
  qed
qed simp

lemma parse_members:
  assumes "\<And>kv n t. kv \<in> set kvs \<Longrightarrow> json_ok (snd kv) \<Longrightarrow> json_fuel (snd kv) \<le> n \<Longrightarrow> closes t \<Longrightarrow>
      parse_value n (json_text (snd kv) @ t) = Some (snd kv, t)"
    and "list_all (\<lambda>kv. valid_utf8 (fst kv) \<and> json_ok (snd kv)) kvs" "kvs \<noteq> []"
    and "sum_list (map (\<lambda>kv. 1 + json_fuel (snd kv)) kvs) \<le> n"
  shows "parse_object n (join_with '','' (map (\<lambda>kv. json_string (fst kv) @ '':'' @ json_text (snd kv)) kvs) @ CHR ''}'' # t) =
    Some (kvs, t)"
  using assms
proof (induction kvs arbitrary: n)
  case (Cons kv kvs)
  obtain m where n: "n = Suc m" using Cons.prems(4) by (cases n) auto
  obtain k v where kv: "kv = (k, v)" by (cases kv)
  have f: "json_fuel v \<le> m" "sum_list (map (\<lambda>kv. 1 + json_fuel (snd kv)) kvs) \<le> m"
    using Cons.prems(4) n kv by simp_all
  have v: "parse_value m (json_text v @ r) = Some (v, r)" if "closes r" for r
    using Cons.prems(1) [of kv, OF _ _ _ that] f(1) Cons.prems(2) kv by simp
  have k: "parse_chars (escape_chars k @ CHR 0x22 # r) = Some (k, r)" for r
    using Cons.prems(2) kv by (simp add: parse_escape_chars)
  have ws: "skip_ws (CHR 0x22 # r) = CHR 0x22 # r" "skip_ws (CHR '':'' # r) = CHR '':'' # r"
    "skip_ws (CHR '','' # r) = CHR '','' # r" "skip_ws (CHR ''}'' # r) = CHR ''}'' # r" for r
    by (simp_all add: skip_ws_def)
  show ?case
  proof (cases kvs)
    case Nil
    with v [of "CHR ''}'' # t"] show ?thesis by (simp add: n kv closes_def ws json_string_def k)
  next
    case (Cons y ys)
    let ?rest = "join_with '','' (map (\<lambda>kv. json_string (fst kv) @ '':'' @ json_text (snd kv)) kvs) @ CHR ''}'' # t"
    have "parse_object m ?rest = Some (kvs, t)"
      using Cons.IH [of m] Cons.prems f(2) Cons by simp
    moreover have "parse_value m (json_text v @ CHR '','' # ?rest) = Some (v, CHR '','' # ?rest)"
      by (rule v) (simp add: closes_def)
    ultimately show ?thesis using Cons by (simp add: n kv ws json_string_def k)
  qed
qed simp

lemma parse_text:
  "json_ok j \<Longrightarrow> json_fuel j \<le> n \<Longrightarrow> closes t \<Longrightarrow> parse_value n (json_text j @ t) = Some (j, t)"
proof (induction j arbitrary: n t rule: json_text.induct)
  case (5 xs)
  then obtain m where n: "n = Suc m" by (cases n) auto
  show ?case
  proof (cases xs)
    case Nil
    then show ?thesis by (simp add: n skip_ws_def)
  next
    case (Cons y ys)
    obtain c r where c: "json_text y = c # r" "c \<notin> {CHR '' '', CHR 0x09, CHR 0x0A, CHR 0x0D, CHR '']'', CHR ''}''}"
      using json_text_first [of y] 5(2) Cons by auto
    let ?body = "join_with '','' (map json_text xs) @ CHR '']'' # t"
    have "parse_array m ?body = Some (xs, t)"
      using 5 Cons n by (intro parse_elements) auto
    moreover have "\<exists>u. ?body = c # u" using c Cons by (cases ys) auto
    ultimately show ?thesis using c(2) by (auto simp: n skip_ws_def)
  qed
next
  case (6 kvs)
  then obtain m where n: "n = Suc m" by (cases n) auto
  show ?case
  proof (cases kvs)
    case Nil
    then show ?thesis by (simp add: n skip_ws_def)
  next
    case (Cons y ys)
    let ?body = "join_with '','' (map (\<lambda>kv. json_string (fst kv) @ '':'' @ json_text (snd kv)) kvs) @ CHR ''}'' # t"
    have "parse_object m ?body = Some (kvs, t)"
      using 6 Cons n by (intro parse_members) auto
    moreover have "\<exists>u. ?body = CHR 0x22 # u" using Cons by (cases ys) (auto simp: json_string_def)
    ultimately show ?thesis by (auto simp: n skip_ws_def)
  qed
qed (intro parse_leaf; simp)+

lemma json_fuel_le: "json_ok j \<Longrightarrow> json_fuel j + 1 \<le> 2 * length (json_text j)"
proof (induction j rule: json_text.induct)
  case (5 xs)
  have inner: "sum_list (map (\<lambda>x. 1 + json_fuel x) xs) \<le> 2 * length (join_with '','' (map json_text xs))"
    if "list_all json_ok xs" "\<And>x. x \<in> set xs \<Longrightarrow> json_fuel x + 1 \<le> 2 * length (json_text x)" for xs
    using that
  proof (induction xs)
    case (Cons x xs)
    have "json_fuel x + 1 \<le> 2 * length (json_text x)"
      "sum_list (map (\<lambda>x. 1 + json_fuel x) xs) \<le> 2 * length (join_with '','' (map json_text xs))"
      using Cons by simp_all
    then show ?case by (cases xs) simp_all
  qed simp
  have "sum_list (map (\<lambda>x. 1 + json_fuel x) xs) \<le> 2 * length (join_with '','' (map json_text xs))"
    by (rule inner) (use 5 in \<open>auto simp: list_all_iff\<close>)
  then show ?case by simp
next
  case (6 kvs)
  let ?member = "\<lambda>kv. json_string (fst kv) @ '':'' @ json_text (snd kv)"
  have inner: "sum_list (map (\<lambda>kv. 1 + json_fuel (snd kv)) kvs) \<le> 2 * length (join_with '','' (map ?member kvs))"
    if "\<And>kv. kv \<in> set kvs \<Longrightarrow> json_fuel (snd kv) + 1 \<le> 2 * length (json_text (snd kv))" for kvs
    using that
  proof (induction kvs)
    case (Cons kv kvs)
    have "json_fuel (snd kv) + 1 \<le> 2 * length (json_text (snd kv))"
      "sum_list (map (\<lambda>kv. 1 + json_fuel (snd kv)) kvs) \<le> 2 * length (join_with '','' (map ?member kvs))"
      using Cons by simp_all
    then show ?case by (cases kvs) simp_all
  qed simp
  have "sum_list (map (\<lambda>kv. 1 + json_fuel (snd kv)) kvs) \<le> 2 * length (join_with '','' (map ?member kvs))"
    by (rule inner) (use 6 in \<open>auto simp: list_all_iff\<close>)
  then show ?case by simp
next
  case (3 n)
  then show ?case by (cases n) (auto simp: plain_number_def)
qed (auto simp: json_string_def)

lemma json_round_trip: "json_ok j \<Longrightarrow> json_parse (json_text j) = Some j"
  using parse_text [of j "2 * length (json_text j) + 2" "[]"] json_fuel_le [of j]
  by (simp add: json_parse_def closes_def skip_ws_def)

end
