(* ===== verification/RecycleBin.thy ===== *)
theory RecycleBin
  imports Storage JsonDocs
begin

text \<open>
  The recycle bin: what a soft deletion leaves on the storage, and that a restore brings it back.
\<close>

section \<open>The metadata of a deleted entry\<close>

lemma valid_time_text: "valid_utf8 t \<Longrightarrow> valid_utf8 p \<Longrightarrow>
    json_parse (trash_meta_text p t) = Some (JObj [(''original_path'', JStr p), (''deleted_at'', JStr t)])"
  unfolding trash_meta_text_def by (rule json_round_trip) (simp add: utf8_len_def byte_in_def)

lemma trash_meta_round_trip:
  assumes "valid_utf8 p" "valid_utf8 t" "is_rfc3339 t"
  shows "trash_meta_decode (trash_meta_text p t) = Some p"
proof -
  have low: "to_lower ''original_path'' = ''original_path''" "to_lower ''deleted_at'' = ''deleted_at''" by code_simp+
  have ne: "(''deleted_at'' = ''original_path'') = False" by simp
  show ?thesis
    unfolding trash_meta_decode_def valid_time_text [OF assms(2,1)] option.case json.case
    by (simp only: meta_fields.simps json.case low ne assms(3) if_True if_False refl)
qed

section \<open>Steps of a run\<close>

lemma after_step: "m w = (x, w1) \<Longrightarrow> after m k w = k x w1"
  by (simp add: after_def)

lemma on_os_step: "f (w_os w) = (x, s) \<Longrightarrow> after (on_os f) k w = k x (w\<lparr>w_os := s\<rparr>)"
  by (simp add: after_def on_os_def)

lemma os_write_file_ok:
  assumes "fs_wf s" "os_write_file p d s = (None, s')"
  obtains j where "fs_wf s'" "fs_config s' = fs_config s" "fs_map s' = (fs_map s)(fs_path s p \<mapsto> FFile j d)"
proof -
  obtain r1 s1 where cr: "os_create p s = (r1, s1)" by (cases "os_create p s")
  have r1: "r1 = None" and ap: "os_append p d s1 = (None, s')"
    using assms(2) cr by (simp_all add: os_write_file_def split: option.splits)
  from assms(1) cr obtain i where c: "fs_wf s1" "fs_config s1 = fs_config s" "fs_map s1 = (fs_map s)(fs_path s p \<mapsto> FFile i [])"
    by (rule os_create_effect) (use r1 in auto)
  have path: "fs_path s1 = fs_path s" using c(2) by (auto simp: fs_config_def fs_path_def fun_eq_iff)
  from c(1) ap show thesis by (rule os_append_effect) (use that c path in auto)
qed

lemma rename_moves:
  assumes "fs_wf s" "os_rename (abs_path A) (abs_path B) s = (None, s')" "plain A" "plain B" "A \<noteq> B"
  shows "fs_wf s' \<and> fs_config s' = fs_config s \<and> fs_map s A \<noteq> None \<and> \<not> prefix A B \<and> \<not> prefix B A \<and>
    (\<forall>k. fs_map s' k = (if prefix B k then fs_map s (A @ drop (length B) k) else if prefix A k then None else fs_map s k))"
  using assms(1,2)
proof (cases rule: os_rename_effect)
  case (moved s1)
  note sm = fs_sameD [OF moved(2)]
  have "fs_map s1 k = None" if "strict_prefix B k" for k
    using moved(10) that assms(3,4) by (simp add: sm fs_path_abs)
  from fs_move_map [OF _ _ this] moved sm assms(3,4) show ?thesis
    by (simp add: fs_path_abs fs_update_config)
qed (use assms in \<open>simp_all add: fs_path_abs\<close>)

section \<open>Paths below the user's root\<close>

lemma user_elems_not_Nil: "user_elems M a \<noteq> []"
  by (simp add: user_elems_def)

lemma user_rel_path_below:
  assumes "area c M a" "plain X" "X \<noteq> []"
  shows "user_rel_path c a (abs_path (user_elems M a @ X)) = Inr (join_with ''/'' X)"
proof -
  let ?R = "user_elems M a"
  have pl: "plain ?R" using assms(1) by (simp add: area_def plain_user_elems)
  have e: "abs_path (?R @ X) = (abs_path ?R @ ''/'') @ join_with ''/'' X"
    using assms(3) user_elems_not_Nil by (simp add: abs_path_def join_with_append)
  have ne: "abs_path (?R @ X) \<noteq> abs_path ?R" using pl assms by (simp add: abs_path_inj)
  have "clean (abs_path (?R @ X)) = abs_path (?R @ X)" using pl assms by (simp add: clean_abs_path)
  with ne show ?thesis
    by (simp add: user_rel_path_def area_root [OF assms(1)]) (simp add: e trim_prefix_def has_prefix_def)
qed

lemma not_under_trash:
  assumes "plain X" "X \<noteq> []" "hd X \<noteq> ''trash''"
  shows "join_with ''/'' X \<noteq> []" "join_with ''/'' X \<noteq> ''trash''" "\<not> has_prefix (join_with ''/'' X) ''trash/''"
proof -
  have e: "elems (join_with ''/'' X) = X" using assms(1) by (rule elems_join)
  show "join_with ''/'' X \<noteq> []" using assms by (simp add: join_plain_Nil)
  have t: "elems (''trash'' @ CHR ''/'' # t) = ''trash'' # elems t" for t
    by (simp only: elems_append elems_single [OF plain_trash(1)]) simp
  show "join_with ''/'' X \<noteq> ''trash''" using e elems_single [OF plain_trash(1)] assms(2,3) by auto
  show "\<not> has_prefix (join_with ''/'' X) ''trash/''"
    using e t assms(3) by (auto simp: has_prefix_def prefix_def)
qed

section \<open>Soft deletion\<close>

lemma dirs_added_apart:
  "dirs_added es s s' \<Longrightarrow> \<not> prefix k es \<or> fs_map s k \<noteq> None \<Longrightarrow> fs_map s' k = fs_map s k"
  unfolding dirs_added_def by metis

definition trash_elems :: "string list \<Rightarrow> string list \<Rightarrow> string list" where
  "trash_elems R X = R @ [''trash'', trash_entry_name (join_with ''/'' X)]"

definition meta_elems :: "string list \<Rightarrow> string list \<Rightarrow> string list" where
  "meta_elems R X = R @ [''trash'', ''_meta'', trash_entry_name (join_with ''/'' X) @ ''.json'']"

lemma soft_delete_effect:
  assumes ar: "area c M a" and R: "R = user_elems M a" and wf: "fs_wf (w_os w)"
    and X: "plain X" "X \<noteq> []" "hd X \<noteq> ''trash''" "trash_entry_name (join_with ''/'' X) \<noteq> ''_meta''"
    and run: "soft_delete c a (abs_path (R @ X)) w = (None, w')"
  shows "fs_wf (w_os w') \<and> fs_config (w_os w') = fs_config (w_os w) \<and> fs_map (w_os w) (R @ X) \<noteq> None \<and>
    (\<forall>ks. fs_map (w_os w') (trash_elems R X @ ks) = fs_map (w_os w) (R @ X @ ks)) \<and>
    (\<forall>k. \<not> prefix (R @ [''trash'']) k \<longrightarrow>
       fs_map (w_os w') k = (if prefix (R @ X) k then None else fs_map (w_os w) k)) \<and>
    (\<exists>j n. fs_map (w_os w') (meta_elems R X) = Some (FFile j (trash_meta_text (join_with ''/'' X) (fs_now (w_os w) n))))"
proof -
  define E where "E = trash_entry_name (join_with ''/'' X)"
  have off: "store_off_disk c" using ar by (simp add: area_def store_off_disk_def)
  have pl: "plain R" "plain (R @ X)" using ar X(1) by (simp_all add: R area_def plain_user_elems)
  have ur: "user_rel_path c a (abs_path (R @ X)) = Inr (join_with ''/'' X)"
    unfolding R using ar X(1,2) by (rule user_rel_path_below)
  have E: "plain_elem E" "CHR ''/'' \<notin> set E"
    using trash_entry_plain [OF ar ur] not_under_trash [OF X(1-3)] by (simp_all add: E_def plain_elem_def)
  have trash: "user_trash_dir c a = abs_path (R @ [''trash''])" "user_trash_meta_dir c a = abs_path (R @ [''trash'', ''_meta''])"
    "trash_meta_path c a E = abs_path (R @ [''trash'', ''_meta'', E @ ''.json''])"
    using area_trash [OF ar] E(2) by (simp_all add: R)
  have dest: "join_path [user_trash_dir c a, E] = abs_path (R @ [''trash'', E])"
    using join_path_abs_elem [of "R @ [''trash'']" E] pl(1) E(1) by (simp add: trash)
  have plE: "plain (R @ [''trash'', E])" "plain (R @ [''trash'', ''_meta'', E @ ''.json''])" "plain (R @ [''trash''])"
    using pl E(1) plain_json [OF E(2)] by simp_all
  have no: "\<not> (join_with ''/'' X = [] \<or> join_with ''/'' X = ''trash'' \<or> has_prefix (join_with ''/'' X) (''trash'' @ ''/''))"
    using not_under_trash [OF X(1-3)] by simp
  note run0 = run [unfolded soft_delete_def ur sum.case Let_def E_def [symmetric] dest if_not_P [OF no]]
  obtain x1 s1 where mk: "os_mkdir_all (user_trash_dir c a) (w_os w) = (x1, s1)"
    by (cases "os_mkdir_all (user_trash_dir c a) (w_os w)")
  note run1 = run0 [unfolded on_os_step [of "os_mkdir_all (user_trash_dir c a)", OF mk]]
  have x1: "x1 = None" using run1 by (cases x1) (simp_all add: give_def)
  obtain x2 s2 where st: "os_stat (abs_path (R @ [''trash'', E])) s1 = (x2, s2)"
    by (cases "os_stat (abs_path (R @ [''trash'', E])) s1")
  note run2 = run1 [unfolded x1 option.case on_os_step [of "os_stat (abs_path (R @ [''trash'', E]))" "w\<lparr>w_os := s1\<rparr>", simplified, OF st], simplified]
  obtain e2 where x2: "x2 = Inl e2" using run2 by (cases x2) (simp_all add: give_def)
  obtain x3 s3 where rn: "os_rename (abs_path (R @ X)) (abs_path (R @ [''trash'', E])) s2 = (x3, s3)"
    by (cases "os_rename (abs_path (R @ X)) (abs_path (R @ [''trash'', E])) s2")
  note run3 = run2 [unfolded x2 sum.case on_os_step [of "os_rename (abs_path (R @ X)) (abs_path (R @ [''trash'', E]))" "w\<lparr>w_os := s2\<rparr>", simplified, OF rn], simplified]
  have x3: "x3 = None" using run3 by (cases x3) (simp_all add: give_def)
  obtain x4 w4 where wm: "write_trash_meta c a E (join_with ''/'' X) (w\<lparr>w_os := s3\<rparr>) = (x4, w4)"
    by (cases "write_trash_meta c a E (join_with ''/'' X) (w\<lparr>w_os := s3\<rparr>)")
  note run4 = run3 [unfolded x3 option.case after_step [of "write_trash_meta c a E (join_with ''/'' X)", OF wm]]
  have x4: "x4 = None" using run4 by (cases x4) (auto simp: give_def after_def split: prod.splits)
  obtain u w5 where ru: "record_upsert (fc_store c) a (abs_path (R @ [''trash'', E])) w4 = (u, w5)"
    by (cases "record_upsert (fc_store c) a (abs_path (R @ [''trash'', E])) w4")
  have w5: "w' = w5" using run4 x4 ru by (simp add: after_def give_def)
  have wm': "write_trash_meta c a E (join_with ''/'' X) (w\<lparr>w_os := s3\<rparr>) = (None, w4)" using wm x4 by simp
  obtain x6 s6 where mk2: "os_mkdir_all (user_trash_meta_dir c a) s3 = (x6, s6)"
    by (cases "os_mkdir_all (user_trash_meta_dir c a) s3")
  let ?text = "trash_meta_text (join_with ''/'' X) (fs_now s6 (fs_clock s6))"
  note wm1 = wm' [unfolded write_trash_meta_def on_os_step [of "os_mkdir_all (user_trash_meta_dir c a)" "w\<lparr>w_os := s3\<rparr>", simplified, OF mk2], simplified]
  have x6: "x6 = None" using wm1 by (cases x6) (simp_all add: give_def)
  have wr: "os_write_file (abs_path (R @ [''trash'', ''_meta'', E @ ''.json''])) ?text s6 = (None, w_os w4)"
    using wm1 x6 by (auto simp: after_def on_os_def give_def trash split: prod.splits)
  \<comment> \<open>what each step did\<close>
  note d1 = conjunct1 [OF os_mkdir_all_effect [OF wf mk]]
  have d1: "dirs_added (R @ [''trash'']) (w_os w) s1" using d1 plE(3) by (simp add: trash fs_path_abs)
  note sm2 = fs_sameD [OF os_stat_same [OF st]]
  have wf2: "fs_wf s2" using d1 sm2 by (simp add: dirs_added_def)
  have ne: "R @ X \<noteq> R @ [''trash'', E]" using X by (auto simp: hd_append)
  note mv = rename_moves [OF wf2 rn [unfolded x3] pl(2) plE(1) ne]
  have wf3: "fs_wf s3" using mv by simp
  have d4: "dirs_added (R @ [''trash'', ''_meta'']) s3 s6"
    using os_mkdir_all_effect [OF wf3 mk2] pl by (simp add: trash fs_path_abs)
  then have wf6: "fs_wf s6" by (simp add: dirs_added_def)
  from wf6 wr obtain j where m5: "fs_wf (w_os w4)" "fs_config (w_os w4) = fs_config s6"
    "fs_map (w_os w4) = (fs_map s6)(R @ [''trash'', ''_meta'', E @ ''.json''] \<mapsto> FFile j ?text)"
    by (rule os_write_file_ok) (use plE(2) in \<open>simp add: fs_path_abs\<close>)
  have "fs_same (w_os w4) (w_os w')"
    using looks [OF looking.keeps_record_upsert off ru] by (simp add: w5)
  note sm5 = fs_sameD [OF this]
  \<comment> \<open>put together\<close>
  have apart: "\<not> prefix (R @ [''trash'']) (R @ X @ ks)" for ks using X(2,3) by (cases X) auto
  have there: "fs_map (w_os w) (R @ X) \<noteq> None"
  proof -
    have "\<not> prefix (R @ X) (R @ [''trash''])" using X(2,3) by (cases X) (auto simp: Cons_prefix_Cons)
    then have "fs_map s1 (R @ X) = fs_map (w_os w) (R @ X)" using dirs_added_apart [OF d1] by blast
    with mv sm2(1) show ?thesis by simp
  qed
  have above: "fs_map (w_os w) k \<noteq> None" if "prefix k R" for k
  proof -
    have "strict_prefix k (R @ X)" using that X(2) by (auto simp: strict_prefix_def)
    with there show ?thesis using fs_wf_prefix [OF wf] by force
  qed
  have outside: "fs_map s2 k = fs_map (w_os w) k" if "\<not> prefix (R @ [''trash'']) k" for k
  proof -
    have "\<not> prefix k (R @ [''trash'']) \<or> fs_map (w_os w) k \<noteq> None" using that above [of k] by auto
    with dirs_added_apart [OF d1] show ?thesis by (simp add: sm2(1))
  qed
  have new: "fs_map (w_os w') k = fs_map s6 k" if "k \<noteq> R @ [''trash'', ''_meta'', E @ ''.json'']" for k
    using m5(3) that by (simp add: sm5(1))
  have moved: "fs_map (w_os w') ((R @ [''trash'', E]) @ ks) = fs_map (w_os w) (R @ X @ ks)" for ks
  proof -
    have "fs_map (w_os w') ((R @ [''trash'', E]) @ ks) = fs_map s6 ((R @ [''trash'', E]) @ ks)"
      using X(4) by (intro new) (simp add: E_def)
    also have "\<dots> = fs_map s3 ((R @ [''trash'', E]) @ ks)"
      by (rule dirs_added_apart [OF d4]) (use X(4) in \<open>simp add: E_def\<close>)
    also have "\<dots> = fs_map s2 (R @ X @ ks)" using mv by simp
    finally show ?thesis using outside [OF apart] by simp
  qed
  have rest: "fs_map (w_os w') k = (if prefix (R @ X) k then None else fs_map (w_os w) k)"
    if k: "\<not> prefix (R @ [''trash'']) k" for k
  proof -
    have nD: "\<not> prefix (R @ [''trash'', E]) k" using k by (metis append_Cons append_Nil append_assoc prefix_order.trans prefixI)
    have s3: "fs_map s3 k = (if prefix (R @ X) k then None else fs_map (w_os w) k)"
      using mv nD outside [OF k] by simp
    have "fs_map (w_os w') k = fs_map s6 k" by (rule new) (use k in auto)
    also have "\<dots> = fs_map s3 k"
    proof (rule dirs_added_apart [OF d4])
      show "\<not> prefix k (R @ [''trash'', ''_meta'']) \<or> fs_map s3 k \<noteq> None"
      proof (cases "prefix k R")
        case True
        have "\<not> prefix (R @ X) k"
        proof
          assume "prefix (R @ X) k"
          from prefix_length_le [OF prefix_order.trans [OF this True]] show False using X(2) by simp
        qed
        with s3 above [OF True] show ?thesis by simp
      next
        case False
        with k show ?thesis by (auto simp: prefix_append Cons_prefix_Cons prefix_Cons)
      qed
    qed
    finally show ?thesis using s3 by simp
  qed
  have conf: "fs_config s6 = fs_config (w_os w)"
    using d1 d4 mv sm2(2) by (simp add: dirs_added_def)
  then have now: "fs_now s6 = fs_now (w_os w)" by (simp add: fs_config_def)
  have "fs_map (w_os w') (meta_elems R X) = Some (FFile j ?text)"
    using m5(3) by (simp add: meta_elems_def E_def sm5(1))
  then show ?thesis
    using there moved rest conf m5 sm5 now by (auto simp: trash_elems_def E_def)
qed

section \<open>Restoring\<close>

lemma os_read_file_ok:
  assumes "fs_wf s" "os_read_file p s = (Inr d, s')"
  shows "\<exists>i. fs_map s (fs_path s p) = Some (FFile i d)"
proof -
  obtain f s1 where t: "fault_tick s = (f, s1)" by (cases "fault_tick s")
  note sm = fs_sameD [OF fault_tick_same [OF t]]
  from assms(2) t obtain i where "fs_lookup s1 p = Inr (FFile i d)"
    by (auto simp: os_read_file_def split: option.splits sum.splits fnode.splits)
  then show ?thesis using assms(1) fs_find_iff [OF assms(1)] by (auto simp: sm fs_lookup_def split: if_splits)
qed

lemma os_remove_map:
  assumes "fs_wf s" "os_remove p s = (r, s')" "k \<noteq> fs_path s p"
  shows "fs_map s' k = fs_map s k"
proof (cases "p = []")
  case True
  with assms(2) show ?thesis by (simp add: os_remove_def)
next
  case False
  obtain r1 s1 where m: "sys_remove (fs_path s p) s = (r1, s1)" by (cases "sys_remove (fs_path s p) s")
  with assms(2) False have "s' = s1" by (auto simp: os_remove_def split: option.splits)
  from assms(1) m show ?thesis
  proof (cases rule: sys_remove_effect)
    case (removed s2)
    with \<open>s' = s1\<close> assms(3) fs_sameD(1) [OF removed(2)] show ?thesis by (simp add: fs_cut_map)
  next
    case failed
    with \<open>s' = s1\<close> fs_sameD(1) [OF failed(2)] show ?thesis by simp
  qed
qed

lemma restore_effect:
  assumes ar: "area c M a" and R: "R = user_elems M a" and wf: "fs_wf (w_os w)"
    and X: "plain X" "X \<noteq> []" "hd X \<noteq> ''trash''"
    and there: "plain_elem E" "E = trash_entry_name (join_with ''/'' X)"
    and meta: "fs_map (w_os w) (meta_elems R X) = Some (FFile j (trash_meta_text (join_with ''/'' X) t))"
    and utf: "valid_utf8 (join_with ''/'' X)" "valid_utf8 t" "is_rfc3339 t"
    and req: "rp_actor req = a" "rp_trash_path req = abs_path (trash_elems R X)" "trim_space (rp_target_parent req) = []"
    and run: "client_restore_path c req w = (Inr fi, w')"
  shows "(\<forall>ks. fs_map (w_os w') (R @ X @ ks) = fs_map (w_os w) (trash_elems R X @ ks)) \<and>
    (\<forall>k. \<not> prefix (R @ [''trash'']) k \<longrightarrow> \<not> prefix (R @ X) k \<longrightarrow>
       fs_map (w_os w') k = fs_map (w_os w) k \<or> prefix k (R @ butlast X) \<and> fs_map (w_os w) k = None)"
proof -
  have off: "store_off_disk c" using ar by (simp add: area_def store_off_disk_def)
  have pl: "plain R" "plain (R @ X)" using ar X(1) by (simp_all add: R area_def plain_user_elems)
  have D: "trash_elems R X = R @ [''trash'', E]" "plain (R @ [''trash'', E])"
    using there pl by (simp_all add: trash_elems_def)
  have slash: "CHR ''/'' \<notin> set E" using there(1) by (simp add: plain_elem_def)
  have trash: "user_trash_dir c a = abs_path (R @ [''trash''])"
    "trash_meta_path c a E = abs_path (meta_elems R X)"
    using area_trash [OF ar] slash by (simp_all add: R meta_elems_def there(2))
  have plm: "plain (meta_elems R X)" using pl plain_json [OF slash] by (simp add: meta_elems_def there(2))
  have c: "clean (rp_trash_path req) = abs_path (R @ [''trash'', E])" using D by (simp add: req(2) clean_abs_path)
  have b: "base_path (abs_path (R @ [''trash'', E])) = E"
    using base_abs_path [of "R @ [''trash'']" E] D(2) by simp
  have ut: "is_under_trash c a (abs_path (R @ [''trash'', E]))"
    using D(2) pl abs_prefix_slash [of "R @ [''trash'']" "R @ [''trash'', E]"]
    by (simp add: is_under_trash_def Let_def trash clean_abs_path strict_prefix_def)
  have plR: "plain (R @ butlast X @ [last X])" using pl X(2) by simp
  have dest: "join_path [client_user_root c a, join_with ''/'' X] = abs_path (R @ X)"
    using join_path_abs_plain [OF pl(1) X(1)] by (simp add: area_root [OF ar] R)
  have dir: "dir_path (abs_path (R @ X)) = abs_path (R @ butlast X)"
    using dir_abs_path [of "R @ butlast X" "last X"] plR X(2) by simp
  \<comment> \<open>the metadata\<close>
  obtain x0 w1 where rd: "read_trash_meta c a E w = (x0, w1)" by (cases "read_trash_meta c a E w")
  note run1 = run [unfolded client_restore_path_def Let_def req(1) c b req(3), simplified ut, simplified,
      unfolded after_step [of "read_trash_meta c a E", OF rd]]
  obtain orig where x0: "x0 = Some orig" using run1 by (cases x0) (simp_all add: give_def)
  have same1: "fs_same (w_os w) (w_os w1)" using looks [OF looking.keeps_read_meta off rd] .
  note sm1 = fs_sameD [OF same1]
  have orig: "orig = join_with ''/'' X"
  proof -
    obtain y s1 where rf: "os_read_file (trash_meta_path c a E) (w_os w) = (y, s1)"
      by (cases "os_read_file (trash_meta_path c a E) (w_os w)")
    from rd x0 obtain d where y: "y = Inr d" "trash_meta_decode d = Some orig"
      by (auto simp: read_trash_meta_def after_def on_os_def rf give_def split: sum.splits)
    from os_read_file_ok [OF wf rf [unfolded y(1)]] meta plm have "d = trash_meta_text (join_with ''/'' X) t"
      by (auto simp: trash fs_path_abs)
    with y(2) trash_meta_round_trip [OF utf] show ?thesis by simp
  qed
  note run2 = run1 [unfolded x0 option.case orig dest dir]
  obtain x2 s2 where mk: "os_mkdir_all (abs_path (R @ butlast X)) (w_os w1) = (x2, s2)"
    by (cases "os_mkdir_all (abs_path (R @ butlast X)) (w_os w1)")
  note run3 = run2 [unfolded on_os_step [of "os_mkdir_all (abs_path (R @ butlast X))", OF mk]]
  have x2: "x2 = None" using run3 by (cases x2) (simp_all add: give_def)
  obtain x3 s3 where st: "os_stat (abs_path (R @ X)) s2 = (x3, s3)" by (cases "os_stat (abs_path (R @ X)) s2")
  note run4 = run3 [unfolded x2 option.case on_os_step [of "os_stat (abs_path (R @ X))" "w1\<lparr>w_os := s2\<rparr>", simplified, OF st], simplified]
  obtain e3 where x3: "x3 = Inl e3" using run4 by (cases x3) (simp_all add: give_def)
  obtain x4 s4 where rn: "os_rename (abs_path (R @ [''trash'', E])) (abs_path (R @ X)) s3 = (x4, s4)"
    by (cases "os_rename (abs_path (R @ [''trash'', E])) (abs_path (R @ X)) s3")
  note run5 = run4 [unfolded x3 sum.case on_os_step [of "os_rename (abs_path (R @ [''trash'', E])) (abs_path (R @ X))" "w1\<lparr>w_os := s3\<rparr>", simplified, OF rn], simplified]
  have x4: "x4 = None" using run5 by (cases x4) (simp_all add: give_def)
  obtain x5 w5 where rm: "remove_trash_meta c a E (w1\<lparr>w_os := s4\<rparr>) = (x5, w5)"
    by (cases "remove_trash_meta c a E (w1\<lparr>w_os := s4\<rparr>)")
  have last: "after (record_upsert (fc_store c) a (abs_path (R @ X))) (\<lambda>_. build_enriched_file_info c a (abs_path (R @ X))) w5 =
      (Inr fi, w')"
    using run5 by (simp add: x4 after_step [of "remove_trash_meta c a E", OF rm])
  have "looking.keeps c (after (record_upsert (fc_store c) a (abs_path (R @ X)))
      (\<lambda>_. build_enriched_file_info c a (abs_path (R @ X))))"
    by (intro looking.keeps_after looking.keeps_record_upsert looking.keeps_build_enriched)
  note sm5 = fs_sameD [OF looks [OF this off last]]
  \<comment> \<open>what each step did\<close>
  have d2: "dirs_added (R @ butlast X) (w_os w1) s2"
    using os_mkdir_all_effect [OF _ mk] wf sm1 plR by (simp add: fs_path_abs)
  note sm3 = fs_sameD [OF os_stat_same [OF st]]
  have wf3: "fs_wf s3" using d2 sm3 by (simp add: dirs_added_def)
  have ne: "R @ [''trash'', E] \<noteq> R @ X" using X by (auto simp: hd_append)
  note mv = rename_moves [OF wf3 rn [unfolded x4] D(2) pl(2) ne]
  have s5: "fs_map (w_os w5) k = fs_map s4 k" if "k \<noteq> meta_elems R X" for k
  proof -
    obtain y s where "os_remove (trash_meta_path c a E) s4 = (y, s)" by (cases "os_remove (trash_meta_path c a E) s4")
    with rm os_remove_map [of s4 _ y s k] mv plm that show ?thesis
      by (auto simp: remove_trash_meta_def after_def on_os_def give_def trash fs_path_abs)
  qed
  have apart: "\<not> prefix (R @ [''trash'']) (R @ X @ ks)" for ks using X(2,3) by (cases X) auto
  have trash_apart: "\<not> prefix (R @ [''trash'', E] @ ks) (R @ butlast X)" for ks
    using X(2,3) by (cases X) (auto simp: Cons_prefix_Cons)
  have returned: "fs_map (w_os w') (R @ X @ ks) = fs_map (w_os w) (trash_elems R X @ ks)" for ks
  proof -
    have "R @ X @ ks \<noteq> meta_elems R X" using apart [of ks] by (auto simp: meta_elems_def)
    then have "fs_map (w_os w') (R @ X @ ks) = fs_map s4 (R @ X @ ks)" using s5 by (simp add: sm5(1))
    also have "\<dots> = fs_map s3 (R @ [''trash'', E] @ ks)" using mv by simp
    also have "\<dots> = fs_map (w_os w1) (R @ [''trash'', E] @ ks)"
      using dirs_added_apart [OF d2] trash_apart by (simp add: sm3(1))
    finally show ?thesis by (simp add: D(1) sm1(1))
  qed
  have rest: "fs_map (w_os w') k = fs_map (w_os w) k \<or> prefix k (R @ butlast X) \<and> fs_map (w_os w) k = None"
    if "\<not> prefix (R @ [''trash'']) k" "\<not> prefix (R @ X) k" for k
  proof -
    have k: "k \<noteq> meta_elems R X" "\<not> prefix (R @ [''trash'', E]) k"
      using that(1) by (auto simp: meta_elems_def) (metis append_Cons append_Nil append_assoc prefix_order.trans prefixI)
    then have "fs_map (w_os w') k = fs_map s3 k" using s5 mv that(2) by (simp add: sm5(1))
    then show ?thesis using d2 sm3(1) sm1(1) unfolding dirs_added_def by metis
  qed
  from returned rest show ?thesis by blast
qed

section \<open>Properties\<close>

text \<open>
  C26. A soft deletion followed by a restore of the entry brings everything back: when both report
  success, every path outside the recycle bin has the node it had before, whatever faults
  occurred on the way. The path must be valid UTF-8, and its entry name not the name of the
  metadata directory.
\<close>

theorem delete_then_restore:
  assumes "area c M a" "R = user_elems M a" "fs_wf (w_os w)"
    and "plain X" "X \<noteq> []" "hd X \<noteq> ''trash''" "trash_entry_name (join_with ''/'' X) \<noteq> ''_meta''"
    and "valid_utf8 (join_with ''/'' X)" "\<forall>n. valid_utf8 (fs_now (w_os w) n) \<and> is_rfc3339 (fs_now (w_os w) n)"
    and "client_delete_path c \<lparr>dp_actor = a, dp_path = abs_path (R @ X), dp_soft_delete = True, dp_permanent = False\<rparr> w =
      (None, w1)"
    and "client_restore_path c \<lparr>rp_actor = a, rp_trash_path = abs_path (trash_elems R X), rp_target_parent = []\<rparr> w1 =
      (Inr fi, w2)"
  shows "\<forall>k. prefix (R @ [''trash'']) k \<or> fs_map (w_os w2) k = fs_map (w_os w) k"
proof -
  obtain x s where st: "os_stat (abs_path (R @ X)) (w_os w) = (x, s)" by (cases "os_stat (abs_path (R @ X)) (w_os w)")
  note sm = fs_sameD [OF os_stat_same [OF st]]
  have "fs_now s = fs_now (w_os w)" using sm(2) by (simp add: fs_config_def)
  have sd: "soft_delete c a (abs_path (R @ X)) (w\<lparr>w_os := s\<rparr>) = (None, w1)"
    using assms(10) st by (cases x) (simp_all add: client_delete_path_def on_os_step give_def)
  have wfs: "fs_wf (w_os (w\<lparr>w_os := s\<rparr>))" using assms(3) sm(3) by simp
  note del = soft_delete_effect [OF assms(1,2) wfs assms(4-7) sd, simplified]
  have tab: "fs_map s = fs_map (w_os w)" by (simp add: sm(1))
  obtain j n where meta: "fs_map (w_os w1) (meta_elems R X) =
      Some (FFile j (trash_meta_text (join_with ''/'' X) (fs_now (w_os w) n)))"
    using del \<open>fs_now s = fs_now (w_os w)\<close> by auto
  have wf1: "fs_wf (w_os w1)" using del by simp
  have times: "valid_utf8 (fs_now (w_os w) n)" "is_rfc3339 (fs_now (w_os w) n)" using assms(9) by simp_all
  have "user_rel_path c a (abs_path (R @ X)) = Inr (join_with ''/'' X)"
    unfolding assms(2) using assms(1,4,5) by (rule user_rel_path_below)
  then have E: "plain_elem (trash_entry_name (join_with ''/'' X))"
    using trash_entry_plain [OF assms(1)] assms(4,5) by (simp add: join_plain_Nil)
  have res: "\<forall>ks. fs_map (w_os w2) (R @ X @ ks) = fs_map (w_os w1) (trash_elems R X @ ks)"
    "\<forall>k. \<not> prefix (R @ [''trash'']) k \<longrightarrow> \<not> prefix (R @ X) k \<longrightarrow>
       fs_map (w_os w2) k = fs_map (w_os w1) k \<or> prefix k (R @ butlast X) \<and> fs_map (w_os w1) k = None"
    using restore_effect [OF assms(1,2) wf1 assms(4-6) E refl meta assms(8) times(1,2) _ _ _ assms(11)] by simp_all
  have "fs_map (w_os w2) k = fs_map (w_os w) k" if k: "\<not> prefix (R @ [''trash'']) k" for k
  proof (cases "prefix (R @ X) k")
    case True
    then obtain ks where "k = R @ X @ ks" by (auto elim: prefixE)
    with res(1) del show ?thesis by (simp add: tab)
  next
    case False
    have old: "fs_map (w_os w1) k = fs_map (w_os w) k" using del k False by (simp add: tab)
    have "fs_map (w_os w2) k = fs_map (w_os w1) k \<or> prefix k (R @ butlast X) \<and> fs_map (w_os w1) k = None"
      by (rule res(2) [rule_format, OF k False])
    then show ?thesis
    proof (elim disjE conjE)
      assume 2: "prefix k (R @ butlast X)" "fs_map (w_os w1) k = None"
      obtain nd where "fs_map (w_os w) (R @ X) = Some nd" using del by (auto simp: tab)
      moreover have "strict_prefix k (R @ X)"
      proof -
        obtain zs where "R @ butlast X = k @ zs" using 2(1) by (elim prefixE)
        then have "(R @ butlast X) @ [last X] = k @ zs @ [last X]" by simp
        with assms(5) have "R @ X = k @ zs @ [last X]" by simp
        then show ?thesis by (simp add: strict_prefix_def)
      qed
      ultimately show ?thesis using fs_wf_prefix [OF assms(3)] 2(2) old by fastforce
    qed (simp add: old)
  qed
  then show ?thesis by auto
qed

definition binned_world :: mem_world where
  "binned_world = snd (client_delete_path sample_client
     \<lparr>dp_actor = sample_actor, dp_path = abs_path ([''m'', ''a'', ''w'', ''users'', ''u''] @ [''d'', ''f'']), dp_soft_delete = True,
       dp_permanent = False\<rparr> sample_world)"

definition unbinned :: "(go_error, file_info) result \<times> mem_world" where
  "unbinned = client_restore_path sample_client
     \<lparr>rp_actor = sample_actor, rp_trash_path = abs_path (trash_elems [''m'', ''a'', ''w'', ''users'', ''u''] [''d'', ''f'']),
       rp_target_parent = []\<rparr> binned_world"

lemma binned_ok:
  "fst (client_delete_path sample_client
     \<lparr>dp_actor = sample_actor, dp_path = abs_path ([''m'', ''a'', ''w'', ''users'', ''u''] @ [''d'', ''f'']), dp_soft_delete = True,
       dp_permanent = False\<rparr> sample_world) = None"
  by code_simp

lemma unbinned_ok: "is_ok (fst unbinned)"
  by code_simp

theorem delete_then_restore_witness:
  "\<exists>w2. snd unbinned = w2 \<and> (\<forall>k. prefix [''m'', ''a'', ''w'', ''users'', ''u'', ''trash''] k \<or>
     fs_map (w_os w2) k = fs_map (w_os sample_world) k)"
proof -
  have el: "user_elems [''m''] sample_actor = [''m'', ''a'', ''w'', ''users'', ''u'']" by code_simp
  have del: "client_delete_path sample_client
     \<lparr>dp_actor = sample_actor, dp_path = abs_path ([''m'', ''a'', ''w'', ''users'', ''u''] @ [''d'', ''f'']), dp_soft_delete = True,
       dp_permanent = False\<rparr> sample_world = (None, binned_world)"
    using binned_ok by (simp add: binned_world_def prod_eq_iff)
  obtain r w2 where r: "unbinned = (r, w2)" by (cases unbinned)
  have "is_ok r" using unbinned_ok by (simp add: r)
  then obtain fi where un: "unbinned = (Inr fi, w2)" by (cases r) (simp_all add: r)
  have pl: "plain [''d'', ''f'']" "[''d'', ''f''] \<noteq> []" "hd [''d'', ''f''] \<noteq> ''trash''"
    "trash_entry_name (join_with ''/'' [''d'', ''f'']) \<noteq> ''_meta''" "valid_utf8 (join_with ''/'' [''d'', ''f''])"
    by code_simp+
  have tm: "\<forall>n. valid_utf8 (fs_now (w_os sample_world) n) \<and> is_rfc3339 (fs_now (w_os sample_world) n)"
  proof -
    have "valid_utf8 ''2024-05-06T07:08:09Z'' \<and> is_rfc3339 ''2024-05-06T07:08:09Z''" by code_simp
    then show ?thesis by (simp add: sample_world_def sample_fs_def del: valid_utf8.simps)
  qed
  have wf: "fs_wf (w_os sample_world)" by (simp add: sample_world_def sample_fs_wf)
  from delete_then_restore [OF sample_area el [symmetric] wf pl(1-4) pl(5) tm del un [unfolded unbinned_def]]
  show ?thesis by (simp add: un)
qed

end
