(* ===== verification/Http.thy ===== *)
theory Http
  imports Identity Json
begin

text \<open>
  What the HTTP adapters use of Go's \<open>net/http\<close> and \<open>context\<close>: header maps with canonical keys,
  requests and replies, and the values \<open>pkg/ctxmeta\<close> puts into the context of a request.
\<close>

section \<open>Header maps\<close>

text \<open>
  A header is a map from canonical keys to lists of values, an association list whose order has
  no meaning. \<open>CanonicalMIMEHeaderKey\<close> leaves a key with a byte that no header name may have as
  it is.
\<close>

type_synonym header = "(string \<times> string list) list"

definition upper_char :: "char \<Rightarrow> char" where
  "upper_char c = (if byte_in c 97 122 then char_of (of_char c - 32 :: nat) else c)"

definition token_char :: "char \<Rightarrow> bool" where
  "token_char c \<longleftrightarrow> byte_in c 48 57 \<or> byte_in c 65 90 \<or> byte_in c 97 122 \<or>
     c \<in> {CHR ''!'', CHR ''#'', CHR ''$'', CHR ''%'', CHR ''&'', CHR 0x27, CHR ''*'', CHR ''+'', CHR ''-'', CHR ''.'',
          CHR ''^'', CHR ''_'', CHR 0x60, CHR ''|'', CHR ''~''}"

fun canonical_loop :: "bool \<Rightarrow> string \<Rightarrow> string" where
  "canonical_loop up [] = []"
| "canonical_loop up (c # cs) = (if up then upper_char c else lower_char c) # canonical_loop (c = CHR ''-'') cs"

definition canonical_key :: "string \<Rightarrow> string" where
  "canonical_key k = (if list_all token_char k then canonical_loop True k else k)"

definition header_values :: "header \<Rightarrow> string \<Rightarrow> string list" where
  "header_values h k = (case map_of h (canonical_key k) of Some vs \<Rightarrow> vs | None \<Rightarrow> [])"

definition header_get :: "header \<Rightarrow> string \<Rightarrow> string" where
  "header_get h k = (case header_values h k of v # vs \<Rightarrow> v | [] \<Rightarrow> [])"

definition header_set :: "string \<Rightarrow> string \<Rightarrow> header \<Rightarrow> header" where
  "header_set k v h = AList.update (canonical_key k) [v] h"

definition header_add :: "string \<Rightarrow> string \<Rightarrow> header \<Rightarrow> header" where
  "header_add k v h = AList.update (canonical_key k) (header_values h k @ [v]) h"

lemma header_values_set:
  "header_values (header_set k v h) k' = (if canonical_key k = canonical_key k' then [v] else header_values h k')"
  by (simp add: header_values_def header_set_def)

lemma header_values_add:
  "header_values (header_add k v h) k' =
     (if canonical_key k = canonical_key k' then header_values h k' @ [v] else header_values h k')"
  by (simp add: header_values_def header_add_def)

lemma header_get_set:
  "header_get (header_set k v h) k' = (if canonical_key k = canonical_key k' then v else header_get h k')"
  by (simp add: header_get_def header_values_set)

section \<open>The context of a request\<close>

text \<open>\<open>pkg/ctxmeta\<close>: the identity and the request id a context carries.\<close>

record go_ctx =
  cx_identity :: "request_context option"
  cx_request_id :: "string option"

definition with_request_context :: "go_ctx \<Rightarrow> request_context \<Rightarrow> go_ctx" where
  "with_request_context ctx rc = ctx\<lparr>cx_identity := Some (normalize rc)\<rparr>"

definition request_context_from :: "go_ctx \<Rightarrow> request_context \<times> bool" where
  "request_context_from ctx =
     (case cx_identity ctx of Some rc \<Rightarrow> (rc, True) | None \<Rightarrow> (empty_context, False))"

definition with_request_id :: "go_ctx \<Rightarrow> string \<Rightarrow> go_ctx" where
  "with_request_id ctx rid = ctx\<lparr>cx_request_id := Some rid\<rparr>"

definition request_id_from_context :: "go_ctx \<Rightarrow> string \<times> bool" where
  "request_id_from_context ctx =
     (case cx_request_id ctx of Some rid \<Rightarrow> (rid, rid \<noteq> []) | None \<Rightarrow> ([], False))"

definition HeaderRequestID :: string where
  "HeaderRequestID = ''x-wedata-trace-id''"

section \<open>Requests and replies\<close>

text \<open>
  A request as a handler sees it: \<open>rq_params\<close> are the named parts of the route, \<open>rq_body\<close> is
  \<open>None\<close> without a body, \<open>rq_length\<close> is \<open>ContentLength\<close> (\<open>-1\<close> when unknown). A reply has the
  headers the handler set and a body.
\<close>

record http_request =
  rq_method :: string
  rq_path :: string
  rq_raw_query :: string
  rq_host :: string
  rq_header :: header
  rq_params :: "(string \<times> string) list"
  rq_body :: "string option"
  rq_length :: int
  rq_ctx :: go_ctx

datatype reply_body = JsonBody json | RawBody string | EmptyBody

record http_reply =
  rp_status :: nat
  rp_header :: header
  rp_body :: reply_body

definition param :: "http_request \<Rightarrow> string \<Rightarrow> string" where
  \<comment> \<open>\<open>c.Param(name)\<close>\<close>
  "param r k = (case map_of (rq_params r) k of Some v \<Rightarrow> v | None \<Rightarrow> [])"

definition StatusOK :: nat where "StatusOK = 200"
definition StatusCreated :: nat where "StatusCreated = 201"
definition StatusNoContent :: nat where "StatusNoContent = 204"
definition StatusBadRequest :: nat where "StatusBadRequest = 400"
definition StatusNotFound :: nat where "StatusNotFound = 404"
definition StatusConflict :: nat where "StatusConflict = 409"
definition StatusRequestEntityTooLarge :: nat where "StatusRequestEntityTooLarge = 413"
definition StatusInternalServerError :: nat where "StatusInternalServerError = 500"
definition StatusBadGateway :: nat where "StatusBadGateway = 502"
definition StatusServiceUnavailable :: nat where "StatusServiceUnavailable = 503"
definition StatusGatewayTimeout :: nat where "StatusGatewayTimeout = 504"

lemmas status_defs =
  StatusOK_def StatusCreated_def StatusNoContent_def StatusBadRequest_def StatusNotFound_def StatusConflict_def
  StatusRequestEntityTooLarge_def StatusInternalServerError_def StatusBadGateway_def StatusServiceUnavailable_def
  StatusGatewayTimeout_def

end
