(* ===== verification/JsonStructs.thy ===== *)
theory JsonStructs
  imports JsonDocs
begin

text \<open>
  Go's \<open>encoding/json\<close> on structs: decoding a document into the fields of a record. A key selects
  the field of exactly its name, else the first field that equals it under case folding; unknown
  keys are skipped; \<open>null\<close> leaves a field as it is; the last of several keys wins; a value of
  another type is an error. Go goes on after such an error and reports it at the end: the
  callers drop the half-decoded value, so \<open>None\<close> stands for it.
\<close>

section \<open>Field names\<close>

text \<open>
  Two names fold alike when they agree up to case. Besides the ASCII letters two runes fold to
  an ASCII letter: the long s U+017F and the Kelvin sign U+212A.
\<close>

definition fold_letter :: "char \<Rightarrow> char" where
  "fold_letter c = (if byte_in c 97 122 then char_of (of_char c - 32 :: nat) else c)"

function fold_name :: "string \<Rightarrow> string" where
  "fold_name s =
     (case s of
        [] \<Rightarrow> []
      | c # cs \<Rightarrow>
          if prefix [CHR 0xC5, CHR 0xBF] s then CHR ''S'' # fold_name (drop 2 s)
          else if prefix [CHR 0xE2, CHR 0x84, CHR 0xAA] s then CHR ''K'' # fold_name (drop 3 s)
          else fold_letter c # fold_name cs)"
  by pat_completeness auto
termination
  by (relation "measure length") (auto simp: prefix_def)

declare fold_name.simps [simp del]

section \<open>Structs\<close>

type_synonym 'r fields = "(string \<times> (json \<Rightarrow> 'r \<Rightarrow> 'r option)) list"

definition find_field :: "'r fields \<Rightarrow> string \<Rightarrow> (json \<Rightarrow> 'r \<Rightarrow> 'r option) option" where
  "find_field fs k =
     (case map_of fs k of
        Some f \<Rightarrow> Some f
      | None \<Rightarrow> map_option snd (List.find (\<lambda>(n, f). fold_name n = fold_name k) fs))"

fun decode_fields :: "'r fields \<Rightarrow> (string \<times> json) list \<Rightarrow> 'r \<Rightarrow> 'r option" where
  "decode_fields fs [] r = Some r"
| "decode_fields fs ((k, v) # kvs) r =
     (case find_field fs k of
        None \<Rightarrow> decode_fields fs kvs r
      | Some f \<Rightarrow> (case f v r of None \<Rightarrow> None | Some r1 \<Rightarrow> decode_fields fs kvs r1))"

definition decode_struct :: "'r fields \<Rightarrow> 'r \<Rightarrow> json \<Rightarrow> 'r option" where
  "decode_struct fs r j =
     (case j of
        JObj kvs \<Rightarrow> decode_fields fs kvs r
      | JNull \<Rightarrow> Some r
      | _ \<Rightarrow> None)"

lemma find_field_exact: "map_of fs k = Some f \<Longrightarrow> find_field fs k = Some f"
  by (simp add: find_field_def)

lemma decode_fields_append:
  "decode_fields fs (xs @ ys) r = Option.bind (decode_fields fs xs r) (decode_fields fs ys)"
  by (induction xs arbitrary: r) (auto split: option.splits)

section \<open>Kinds of fields\<close>

definition str_field :: "((string \<Rightarrow> string) \<Rightarrow> 'r \<Rightarrow> 'r) \<Rightarrow> json \<Rightarrow> 'r \<Rightarrow> 'r option" where
  "str_field upd v r = (case v of JStr s \<Rightarrow> Some (upd (\<lambda>_. s) r) | JNull \<Rightarrow> Some r | _ \<Rightarrow> None)"

definition bool_field :: "((bool \<Rightarrow> bool) \<Rightarrow> 'r \<Rightarrow> 'r) \<Rightarrow> json \<Rightarrow> 'r \<Rightarrow> 'r option" where
  "bool_field upd v r = (case v of JBool b \<Rightarrow> Some (upd (\<lambda>_. b) r) | JNull \<Rightarrow> Some r | _ \<Rightarrow> None)"

text \<open>A field of type \<open>int\<close> takes a number without fraction and exponent that fits 64 bits.\<close>

definition digits_value :: "string \<Rightarrow> nat" where
  "digits_value ds = foldl (\<lambda>n d. 10 * n + (of_char d - 48)) 0 ds"

definition int_of_text :: "string \<Rightarrow> int option" where
  "int_of_text t =
     (let neg = (t \<noteq> [] \<and> hd t = CHR ''-''); ds = (if neg then tl t else t);
          n = (if neg then - int (digits_value ds) else int (digits_value ds))
      in if ds \<noteq> [] \<and> list_all is_digit ds \<and> - (2 ^ 63) \<le> n \<and> n < 2 ^ 63 then Some n else None)"

definition int_field :: "((int \<Rightarrow> int) \<Rightarrow> 'r \<Rightarrow> 'r) \<Rightarrow> json \<Rightarrow> 'r \<Rightarrow> 'r option" where
  "int_field upd v r =
     (case v of
        JNum t \<Rightarrow> (case int_of_text t of Some n \<Rightarrow> Some (upd (\<lambda>_. n) r) | None \<Rightarrow> None)
      | JNull \<Rightarrow> Some r
      | _ \<Rightarrow> None)"

text \<open>A pointer: \<open>null\<close> sets it to nil, a value is decoded into what it points to or into a new zero value.\<close>

definition ptr_field ::
  "('r \<Rightarrow> 'a option) \<Rightarrow> (('a option \<Rightarrow> 'a option) \<Rightarrow> 'r \<Rightarrow> 'r) \<Rightarrow> 'a \<Rightarrow> (json \<Rightarrow> 'a \<Rightarrow> 'a option) \<Rightarrow> json \<Rightarrow> 'r \<Rightarrow> 'r option" where
  "ptr_field sel upd zero dec v r =
     (if v = JNull then Some (upd (\<lambda>_. None) r)
      else map_option (\<lambda>x. upd (\<lambda>_. Some x) r) (dec v (case sel r of Some x \<Rightarrow> x | None \<Rightarrow> zero)))"

text \<open>
  A slice: \<open>null\<close> is the nil slice \<open>None\<close>, an array replaces the elements. Where the code does
  not tell a nil slice from an empty one the field is a plain list.
\<close>

definition str_value :: "json \<Rightarrow> string \<Rightarrow> string option" where
  "str_value v old = (case v of JStr s \<Rightarrow> Some s | JNull \<Rightarrow> Some old | _ \<Rightarrow> None)"

definition bool_value :: "json \<Rightarrow> bool \<Rightarrow> bool option" where
  "bool_value v old = (case v of JBool b \<Rightarrow> Some b | JNull \<Rightarrow> Some old | _ \<Rightarrow> None)"

definition decode_list :: "'a \<Rightarrow> (json \<Rightarrow> 'a \<Rightarrow> 'a option) \<Rightarrow> json \<Rightarrow> 'a list option \<Rightarrow> 'a list option option" where
  "decode_list zero dec v old =
     (case v of
        JArr vs \<Rightarrow> map_option Some (those (map (\<lambda>x. dec x zero) vs))
      | JNull \<Rightarrow> Some None
      | _ \<Rightarrow> None)"

definition list_field :: "(('a list \<Rightarrow> 'a list) \<Rightarrow> 'r \<Rightarrow> 'r) \<Rightarrow> 'a \<Rightarrow> (json \<Rightarrow> 'a \<Rightarrow> 'a option) \<Rightarrow> json \<Rightarrow> 'r \<Rightarrow> 'r option" where
  "list_field upd zero dec v r = map_option (\<lambda>xs. upd (\<lambda>_. case xs of Some ys \<Rightarrow> ys | None \<Rightarrow> []) r) (decode_list zero dec v None)"

text \<open>A map with string keys: each value is decoded from zero, and the map keeps its other entries.\<close>

fun decode_entries :: "'a \<Rightarrow> (json \<Rightarrow> 'a \<Rightarrow> 'a option) \<Rightarrow> (string \<times> json) list \<Rightarrow> (string \<times> 'a) list \<Rightarrow> (string \<times> 'a) list option" where
  "decode_entries zero dec [] m = Some m"
| "decode_entries zero dec ((k, v) # kvs) m =
     (case dec v zero of None \<Rightarrow> None | Some x \<Rightarrow> decode_entries zero dec kvs (AList.update k x m))"

definition map_field ::
  "('r \<Rightarrow> (string \<times> 'a) list) \<Rightarrow> (((string \<times> 'a) list \<Rightarrow> (string \<times> 'a) list) \<Rightarrow> 'r \<Rightarrow> 'r) \<Rightarrow> 'a \<Rightarrow>
   (json \<Rightarrow> 'a \<Rightarrow> 'a option) \<Rightarrow> json \<Rightarrow> 'r \<Rightarrow> 'r option" where
  "map_field sel upd zero dec v r =
     (case v of
        JObj kvs \<Rightarrow> map_option (\<lambda>m. upd (\<lambda>_. m) r) (decode_entries zero dec kvs (sel r))
      | JNull \<Rightarrow> Some (upd (\<lambda>_. []) r)
      | _ \<Rightarrow> None)"

definition nil_map_field ::
  "('r \<Rightarrow> (string \<times> 'a) list option) \<Rightarrow> (((string \<times> 'a) list option \<Rightarrow> (string \<times> 'a) list option) \<Rightarrow> 'r \<Rightarrow> 'r) \<Rightarrow>
   'a \<Rightarrow> (json \<Rightarrow> 'a \<Rightarrow> 'a option) \<Rightarrow> json \<Rightarrow> 'r \<Rightarrow> 'r option" where
  \<comment> \<open>the same for a map whose nil value is written differently from the empty map\<close>
  "nil_map_field sel upd zero dec v r =
     (case v of
        JObj kvs \<Rightarrow> map_option (\<lambda>m. upd (\<lambda>_. Some m) r)
          (decode_entries zero dec kvs (case sel r of Some m \<Rightarrow> m | None \<Rightarrow> []))
      | JNull \<Rightarrow> Some (upd (\<lambda>_. None) r)
      | _ \<Rightarrow> None)"

text \<open>
  \<open>json.RawMessage\<close> keeps the text of a value. It is the document here: \<open>None\<close> is the nil slice
  of an absent field, and the layout of the text is forgotten.
\<close>

type_synonym raw_json = "json option"

definition raw_field :: "((raw_json \<Rightarrow> raw_json) \<Rightarrow> 'r \<Rightarrow> 'r) \<Rightarrow> json \<Rightarrow> 'r \<Rightarrow> 'r option" where
  "raw_field upd v r = Some (upd (\<lambda>_. Some v) r)"

lemma field_simps_str [simp]:
  "str_field upd (JStr s) r = Some (upd (\<lambda>_. s) r)" "str_field upd JNull r = Some r"
  "bool_field bupd (JBool b) r = Some (bupd (\<lambda>_. b) r)" "bool_field bupd JNull r = Some r"
  by (simp_all add: str_field_def bool_field_def)

section \<open>Documents of structs\<close>

text \<open>A field with \<open>omitempty\<close> is left out when it has the empty value of its type.\<close>

definition omit_empty :: "string \<Rightarrow> string \<Rightarrow> (string \<times> json) list" where
  "omit_empty k s = (if s = [] then [] else [(k, JStr s)])"

definition omit_none :: "string \<Rightarrow> ('a \<Rightarrow> json) \<Rightarrow> 'a option \<Rightarrow> (string \<times> json) list" where
  "omit_none k f x = (case x of Some y \<Rightarrow> [(k, f y)] | None \<Rightarrow> [])"

definition int_json :: "int \<Rightarrow> json" where
  "int_json n = JNum (if n < 0 then CHR ''-'' # decimal (nat (- n)) else decimal (nat n))"

text \<open>A slice is an array or, when it is nil, \<open>null\<close>. The keys of a map are written in order.\<close>

definition list_json :: "('a \<Rightarrow> json) \<Rightarrow> 'a list option \<Rightarrow> json" where
  "list_json f xs = (case xs of Some ys \<Rightarrow> JArr (map f ys) | None \<Rightarrow> JNull)"

definition map_json :: "('a \<Rightarrow> json) \<Rightarrow> (string \<times> 'a) list \<Rightarrow> json" where
  "map_json f m = JObj (map (\<lambda>(k, x). (k, f x)) (sort_key fst m))"

text \<open>
  The decoder behind \<open>ShouldBindJSON\<close> reads the first document of the body and ignores what
  follows it.
\<close>

definition json_decode_first :: "string \<Rightarrow> json option" where
  "json_decode_first s = map_option fst (parse_value (2 * length s + 2) s)"

lemma json_parse_first: "json_parse s = Some j \<Longrightarrow> json_decode_first s = Some j"
  by (auto simp: json_parse_def json_decode_first_def split: option.splits if_splits)

text \<open>A written number is read back.\<close>

lemma digits_value_append: "digits_value (xs @ [d]) = 10 * digits_value xs + (of_char d - 48)"
  by (simp add: digits_value_def)

end
