(* ===== verification/GatewayDomain.thy ===== *)
theory GatewayDomain
  imports Http JsonStructs
begin

text \<open>
  \<open>internal/domain/gateway/gateway.go\<close>: the models of kernels and sessions, the requests, the
  port to a Jupyter gateway and its error. The port is a record of its methods over a state
  type \<open>'w\<close>. The JSON tags of the structs are one decoder or encoder each.
\<close>

section \<open>Models\<close>

record kernel =
  kn_id :: string
  kn_name :: string
  kn_last_activity :: string
  kn_execution_state :: string
  kn_connections :: int

record session =
  se_id :: string
  se_path :: string
  se_name :: string
  se_type :: string
  se_kernel :: "kernel option"

record kernel_ref =
  kr_id :: string
  kr_name :: string
  kr_custom_envs :: raw_json

record kernel_spec =
  ks_name :: string
  ks_spec :: raw_json
  ks_resources :: "(string \<times> string) list"

record kernel_specs =
  kss_default :: string
  kss_specs :: "(string \<times> kernel_spec) list option"

record create_kernel_request =
  ck_name :: string
  ck_path :: string
  ck_env :: "(string \<times> string) list"

record create_session_request =
  cs_path :: string
  cs_name :: string
  cs_type :: string
  cs_cluster :: string
  cs_kernel :: "kernel_ref option"

record update_session_request =
  us_path :: "string option"
  us_name :: "string option"
  us_type :: "string option"
  us_kernel :: "kernel_ref option"

record kernel_spec_resource =
  kres_content_type :: string
  kres_data :: string

definition zero_kernel :: kernel where
  "zero_kernel = \<lparr>kn_id = [], kn_name = [], kn_last_activity = [], kn_execution_state = [], kn_connections = 0\<rparr>"

definition zero_session :: session where
  "zero_session = \<lparr>se_id = [], se_path = [], se_name = [], se_type = [], se_kernel = None\<rparr>"

definition zero_kernel_ref :: kernel_ref where
  "zero_kernel_ref = \<lparr>kr_id = [], kr_name = [], kr_custom_envs = None\<rparr>"

definition zero_kernel_spec :: kernel_spec where
  "zero_kernel_spec = \<lparr>ks_name = [], ks_spec = None, ks_resources = []\<rparr>"

definition zero_kernel_specs :: kernel_specs where
  "zero_kernel_specs = \<lparr>kss_default = [], kss_specs = None\<rparr>"

definition zero_create_kernel :: create_kernel_request where
  "zero_create_kernel = \<lparr>ck_name = [], ck_path = [], ck_env = []\<rparr>"

definition zero_create_session :: create_session_request where
  "zero_create_session = \<lparr>cs_path = [], cs_name = [], cs_type = [], cs_cluster = [], cs_kernel = None\<rparr>"

definition zero_update_session :: update_session_request where
  "zero_update_session = \<lparr>us_path = None, us_name = None, us_type = None, us_kernel = None\<rparr>"

section \<open>Decoding\<close>

definition kernel_of_json :: "json \<Rightarrow> kernel \<Rightarrow> kernel option" where
  "kernel_of_json j r = decode_struct
     [(''id'', str_field kn_id_update), (''name'', str_field kn_name_update),
      (''last_activity'', str_field kn_last_activity_update),
      (''execution_state'', str_field kn_execution_state_update),
      (''connections'', int_field kn_connections_update)] r j"

definition session_of_json :: "json \<Rightarrow> session \<Rightarrow> session option" where
  "session_of_json j r = decode_struct
     [(''id'', str_field se_id_update), (''path'', str_field se_path_update), (''name'', str_field se_name_update),
      (''type'', str_field se_type_update), (''kernel'', ptr_field se_kernel se_kernel_update zero_kernel kernel_of_json)] r j"

definition kernel_ref_of_json :: "json \<Rightarrow> kernel_ref \<Rightarrow> kernel_ref option" where
  "kernel_ref_of_json j r = decode_struct
     [(''id'', str_field kr_id_update), (''name'', str_field kr_name_update),
      (''custom_envs'', raw_field kr_custom_envs_update)] r j"

definition kernel_spec_of_json :: "json \<Rightarrow> kernel_spec \<Rightarrow> kernel_spec option" where
  "kernel_spec_of_json j r = decode_struct
     [(''name'', str_field ks_name_update), (''spec'', raw_field ks_spec_update),
      (''resources'', map_field ks_resources ks_resources_update [] str_value)] r j"

definition kernel_specs_of_json :: "json \<Rightarrow> kernel_specs \<Rightarrow> kernel_specs option" where
  "kernel_specs_of_json j r = decode_struct
     [(''default'', str_field kss_default_update),
      (''kernelspecs'', nil_map_field kss_specs kss_specs_update zero_kernel_spec kernel_spec_of_json)] r j"

definition create_kernel_of_json :: "json \<Rightarrow> create_kernel_request \<Rightarrow> create_kernel_request option" where
  "create_kernel_of_json j r = decode_struct
     [(''name'', str_field ck_name_update), (''path'', str_field ck_path_update),
      (''env'', map_field ck_env ck_env_update [] str_value)] r j"

definition create_session_of_json :: "json \<Rightarrow> create_session_request \<Rightarrow> create_session_request option" where
  "create_session_of_json j r = decode_struct
     [(''path'', str_field cs_path_update), (''name'', str_field cs_name_update), (''type'', str_field cs_type_update),
      (''cluster'', str_field cs_cluster_update),
      (''kernel'', ptr_field cs_kernel cs_kernel_update zero_kernel_ref kernel_ref_of_json)] r j"

definition update_session_of_json :: "json \<Rightarrow> update_session_request \<Rightarrow> update_session_request option" where
  "update_session_of_json j r = decode_struct
     [(''path'', ptr_field us_path us_path_update [] str_value), (''name'', ptr_field us_name us_name_update [] str_value),
      (''type'', ptr_field us_type us_type_update [] str_value),
      (''kernel'', ptr_field us_kernel us_kernel_update zero_kernel_ref kernel_ref_of_json)] r j"

section \<open>Encoding\<close>

definition kernel_json :: "kernel \<Rightarrow> json" where
  "kernel_json k = JObj
     ([(''id'', JStr (kn_id k)), (''name'', JStr (kn_name k))] @
      omit_empty ''last_activity'' (kn_last_activity k) @
      omit_empty ''execution_state'' (kn_execution_state k) @
      (if kn_connections k = 0 then [] else [(''connections'', int_json (kn_connections k))]))"

definition session_json :: "session \<Rightarrow> json" where
  "session_json s = JObj
     ([(''id'', JStr (se_id s)), (''path'', JStr (se_path s)), (''name'', JStr (se_name s)), (''type'', JStr (se_type s))] @
      omit_none ''kernel'' kernel_json (se_kernel s))"

definition kernel_ref_json :: "kernel_ref \<Rightarrow> json" where
  "kernel_ref_json r = JObj
     (omit_empty ''id'' (kr_id r) @ omit_empty ''name'' (kr_name r) @ omit_none ''custom_envs'' id (kr_custom_envs r))"

definition kernel_spec_json :: "kernel_spec \<Rightarrow> json" where
  "kernel_spec_json k = JObj
     ([(''name'', JStr (ks_name k))] @ omit_none ''spec'' id (ks_spec k) @
      (if ks_resources k = [] then [] else [(''resources'', map_json JStr (ks_resources k))]))"

definition kernel_specs_json :: "kernel_specs \<Rightarrow> json" where
  "kernel_specs_json k = JObj [(''default'', JStr (kss_default k)), (''kernelspecs'', case kss_specs k of Some m \<Rightarrow> map_json kernel_spec_json m | None \<Rightarrow> JNull)]"

definition create_kernel_json :: "create_kernel_request \<Rightarrow> json" where
  "create_kernel_json r = JObj
     (omit_empty ''name'' (ck_name r) @ omit_empty ''path'' (ck_path r) @
      (if ck_env r = [] then [] else [(''env'', map_json JStr (ck_env r))]))"

definition create_session_json :: "create_session_request \<Rightarrow> json" where
  "create_session_json r = JObj
     (omit_empty ''path'' (cs_path r) @ omit_empty ''name'' (cs_name r) @ omit_empty ''type'' (cs_type r) @
      omit_empty ''cluster'' (cs_cluster r) @ omit_none ''kernel'' kernel_ref_json (cs_kernel r))"

definition update_session_json :: "update_session_request \<Rightarrow> json" where
  "update_session_json r = JObj
     (omit_none ''path'' JStr (us_path r) @ omit_none ''name'' JStr (us_name r) @ omit_none ''type'' JStr (us_type r) @
      omit_none ''kernel'' kernel_ref_json (us_kernel r))"

section \<open>Errors\<close>

text \<open>
  \<open>errors.As\<close> finds an \<open>APIError\<close> only where the client returns one; every other error is a
  \<open>GatewayFailure\<close>.
\<close>

datatype gateway_error =
    APIError (api_status: nat) (api_content_type: string) (api_body: string)
  | GatewayFailure go_error

fun gateway_error_text :: "gateway_error \<Rightarrow> string" where
  "gateway_error_text (APIError status ct body) = ''gateway returned status '' @ decimal status"
| "gateway_error_text (GatewayFailure e) = err_text e"

section \<open>The port\<close>

text \<open>
  The outcome of a proxied request: a reply, or a connection that was taken over, whose traffic
  the state records.
\<close>

datatype proxy_outcome = Replied http_reply | TakenOver

record 'w gateway_port =
  gw_create_session :: "go_ctx \<Rightarrow> create_session_request \<Rightarrow> 'w \<Rightarrow> (gateway_error, session) result \<times> 'w"
  gw_list_sessions :: "go_ctx \<Rightarrow> 'w \<Rightarrow> (gateway_error, session list option) result \<times> 'w"
  gw_get_session :: "go_ctx \<Rightarrow> string \<Rightarrow> 'w \<Rightarrow> (gateway_error, session) result \<times> 'w"
  gw_update_session :: "go_ctx \<Rightarrow> string \<Rightarrow> update_session_request \<Rightarrow> 'w \<Rightarrow> (gateway_error, session) result \<times> 'w"
  gw_delete_session :: "go_ctx \<Rightarrow> string \<Rightarrow> 'w \<Rightarrow> gateway_error option \<times> 'w"
  gw_create_kernel :: "go_ctx \<Rightarrow> create_kernel_request \<Rightarrow> 'w \<Rightarrow> (gateway_error, kernel) result \<times> 'w"
  gw_list_kernels :: "go_ctx \<Rightarrow> 'w \<Rightarrow> (gateway_error, kernel list option) result \<times> 'w"
  gw_get_kernel :: "go_ctx \<Rightarrow> string \<Rightarrow> 'w \<Rightarrow> (gateway_error, kernel) result \<times> 'w"
  gw_delete_kernel :: "go_ctx \<Rightarrow> string \<Rightarrow> 'w \<Rightarrow> gateway_error option \<times> 'w"
  gw_interrupt_kernel :: "go_ctx \<Rightarrow> string \<Rightarrow> 'w \<Rightarrow> gateway_error option \<times> 'w"
  gw_restart_kernel :: "go_ctx \<Rightarrow> string \<Rightarrow> 'w \<Rightarrow> (gateway_error, kernel) result \<times> 'w"
  gw_list_kernel_specs :: "go_ctx \<Rightarrow> 'w \<Rightarrow> (gateway_error, kernel_specs) result \<times> 'w"
  gw_get_kernel_spec :: "go_ctx \<Rightarrow> string \<Rightarrow> 'w \<Rightarrow> (gateway_error, kernel_spec) result \<times> 'w"
  gw_get_kernel_spec_resource :: "go_ctx \<Rightarrow> string \<Rightarrow> 'w \<Rightarrow> (gateway_error, kernel_spec_resource) result \<times> 'w"
  gw_proxy_http :: "header \<Rightarrow> http_request \<Rightarrow> 'w \<Rightarrow> http_reply \<times> 'w"
  gw_proxy_websocket :: "header \<Rightarrow> http_request \<Rightarrow> 'w \<Rightarrow> proxy_outcome \<times> 'w"

end
