(* ===== verification/Sessions.thy ===== *)
theory Sessions
  imports GatewayDomain
begin

text \<open>
  \<open>internal/domain/session\<close>: the persisted session row, how it is made from a gateway reply, and
  the contract of a session store. The in-memory store of
  \<open>internal/infra/persistence/memory\<close> meets the contract.
\<close>

section \<open>Rows\<close>

record session_record =
  row_session_id :: string
  row_path :: string
  row_name :: string
  row_type :: string
  row_kernel_id :: string
  row_kernel_name :: string
  row_cluster :: string
  row_custom_envs :: raw_json
  row_launch_plan :: raw_json
  row_state :: string
  row_owner_uin :: string
  row_uin :: string
  row_app_id :: string
  row_workspace_id :: string

fun first_non_empty :: "string list \<Rightarrow> string" where
  "first_non_empty [] = []"
| "first_non_empty (v # vs) = (if v \<noteq> [] then v else first_non_empty vs)"

definition kernel_name_from_ref :: "kernel_ref option \<Rightarrow> string" where
  "kernel_name_from_ref ref = (case ref of None \<Rightarrow> [] | Some r \<Rightarrow> kr_name r)"

definition record_from_create :: "session \<Rightarrow> request_context \<Rightarrow> create_session_request \<Rightarrow> session_record" where
  "record_from_create sess a req =
     (let rec =
        \<lparr>row_session_id = se_id sess, row_path = first_non_empty [se_path sess, cs_path req],
         row_name = first_non_empty [se_name sess, cs_name req], row_type = first_non_empty [se_type sess, cs_type req],
         row_kernel_id = [], row_kernel_name = [], row_cluster = cs_cluster req, row_custom_envs = None,
         row_launch_plan = None, row_state = [], row_owner_uin = rc_owner_uin a, row_uin = rc_uin a,
         row_app_id = rc_app_id a, row_workspace_id = rc_workspace_id a\<rparr>;
        rec1 = (case se_kernel sess of
            Some k \<Rightarrow> rec\<lparr>row_kernel_id := kn_id k,
                row_kernel_name := first_non_empty [kn_name k, kernel_name_from_ref (cs_kernel req)],
                row_state := kn_execution_state k\<rparr>
          | None \<Rightarrow> (case cs_kernel req of
                Some r \<Rightarrow> rec\<lparr>row_kernel_id := kr_id r, row_kernel_name := kr_name r\<rparr>
              | None \<Rightarrow> rec))
      in case cs_kernel req of
           Some r \<Rightarrow> if kr_custom_envs r \<noteq> None then rec1\<lparr>row_custom_envs := kr_custom_envs r\<rparr> else rec1
         | None \<Rightarrow> rec1)"

definition record_from_gateway :: "session \<Rightarrow> request_context \<Rightarrow> session_record" where
  "record_from_gateway sess a =
     (let rec =
        \<lparr>row_session_id = se_id sess, row_path = se_path sess, row_name = se_name sess, row_type = se_type sess,
         row_kernel_id = [], row_kernel_name = [], row_cluster = [], row_custom_envs = None,
         row_launch_plan = None, row_state = [], row_owner_uin = rc_owner_uin a, row_uin = rc_uin a,
         row_app_id = rc_app_id a, row_workspace_id = rc_workspace_id a\<rparr>
      in case se_kernel sess of
           Some k \<Rightarrow> rec\<lparr>row_kernel_id := kn_id k, row_kernel_name := kn_name k, row_state := kn_execution_state k\<rparr>
         | None \<Rightarrow> rec)"

section \<open>The store contract\<close>

record 'w session_store_ops =
  ss_upsert :: "session_record \<Rightarrow> 'w \<Rightarrow> go_error option \<times> 'w"
  ss_update_state :: "string \<Rightarrow> string \<Rightarrow> 'w \<Rightarrow> go_error option \<times> 'w"
  ss_mark_deleted :: "string \<Rightarrow> 'w \<Rightarrow> go_error option \<times> 'w"
  ss_get_by_session_id :: "string \<Rightarrow> 'w \<Rightarrow> (go_error, session_record) result \<times> 'w"
  ss_get_by_kernel_id :: "string \<Rightarrow> 'w \<Rightarrow> (go_error, session_record) result \<times> 'w"

text \<open>
  \<open>live\<close> is the view of a store: the rows that are not deleted, by session id. A method that fails
  leaves it alone.
\<close>

locale session_store =
  fixes ops :: "'w session_store_ops"
    and live :: "'w \<Rightarrow> string \<Rightarrow> session_record option"
    and good :: "'w \<Rightarrow> bool"
  assumes upsert_ok: "good w \<Longrightarrow> ss_upsert ops r w = (None, w') \<Longrightarrow> live w' = (live w)(row_session_id r \<mapsto> r)"
    and upsert_err: "good w \<Longrightarrow> ss_upsert ops r w = (Some e, w') \<Longrightarrow> live w' = live w"
    and upsert_needs_id: "ss_upsert ops r w = (None, w') \<Longrightarrow> row_session_id r \<noteq> []"
    and update_state_ok: "good w \<Longrightarrow> ss_update_state ops k x w = (None, w') \<Longrightarrow>
      live w' = (live w)(k := map_option (row_state_update (\<lambda>_. x)) (live w k))"
    and update_state_err: "good w \<Longrightarrow> ss_update_state ops k x w = (Some e, w') \<Longrightarrow> live w' = live w"
    and mark_deleted_ok: "good w \<Longrightarrow> ss_mark_deleted ops k w = (None, w') \<Longrightarrow> live w' = (live w)(k := None)"
    and mark_deleted_err: "good w \<Longrightarrow> ss_mark_deleted ops k w = (Some e, w') \<Longrightarrow> live w' = live w"
    and get_ok: "good w \<Longrightarrow> ss_get_by_session_id ops k w = (Inr r, w') \<Longrightarrow> live w k = Some r"
    and get_kernel_ok: "good w \<Longrightarrow> ss_get_by_kernel_id ops k w = (Inr r, w') \<Longrightarrow>
      live w (row_session_id r) = Some r \<and> row_kernel_id r = k"
    and get_live: "good w \<Longrightarrow> ss_get_by_session_id ops k w = (gr, w') \<Longrightarrow> live w' = live w"
      "good w \<Longrightarrow> ss_get_by_kernel_id ops k w = (gr, w') \<Longrightarrow> live w' = live w"
    and good_store:
      "good w \<Longrightarrow> ss_upsert ops r w = (x1, w1) \<Longrightarrow> good w1"
      "good w \<Longrightarrow> ss_update_state ops k s w = (x1, w1) \<Longrightarrow> good w1"
      "good w \<Longrightarrow> ss_mark_deleted ops k w = (x1, w1) \<Longrightarrow> good w1"
      "good w \<Longrightarrow> ss_get_by_session_id ops k w = (x2, w1) \<Longrightarrow> good w1"
      "good w \<Longrightarrow> ss_get_by_kernel_id ops k w = (x2, w1) \<Longrightarrow> good w1"
begin

lemma upsert_live: "good w \<Longrightarrow> ss_upsert ops r w = (x, w') \<Longrightarrow>
    live w' = (if x = None then (live w)(row_session_id r \<mapsto> r) else live w)"
  by (cases x) (auto dest: upsert_ok upsert_err)

lemma mark_deleted_live: "good w \<Longrightarrow> ss_mark_deleted ops k w = (x, w') \<Longrightarrow>
    live w' = (if x = None then (live w)(k := None) else live w)"
  by (cases x) (auto dest: mark_deleted_ok mark_deleted_err)

text \<open>Every live row is stored under its own id, once it was so.\<close>

definition keyed :: "'w \<Rightarrow> bool" where
  "keyed w \<longleftrightarrow> (\<forall>k r. live w k = Some r \<longrightarrow> row_session_id r = k)"

lemma keyed_upsert: "good w \<Longrightarrow> keyed w \<Longrightarrow> ss_upsert ops r w = (x, w') \<Longrightarrow> keyed w'"
  by (auto simp: keyed_def upsert_live)

lemma keyed_mark_deleted: "good w \<Longrightarrow> keyed w \<Longrightarrow> ss_mark_deleted ops k w = (x, w') \<Longrightarrow> keyed w'"
  by (auto simp: keyed_def mark_deleted_live)

end

section \<open>KernelSessionStore\<close>

record mem_sessions =
  ms_by_id :: "(string \<times> session_record) list"
  ms_deleted :: "string list"

definition new_mem_sessions :: mem_sessions where
  "new_mem_sessions = \<lparr>ms_by_id = [], ms_deleted = []\<rparr>"

definition session_not_found :: go_error where
  "session_not_found = text_error ''session not found''"

definition mem_session_upsert :: "session_record \<Rightarrow> mem_sessions \<Rightarrow> go_error option \<times> mem_sessions" where
  "mem_session_upsert r s =
     (if row_session_id r = [] then (Some (text_error ''session_id is required''), s)
      else (None, s\<lparr>ms_deleted := removeAll (row_session_id r) (ms_deleted s),
                    ms_by_id := AList.update (row_session_id r) r (ms_by_id s)\<rparr>))"

definition mem_session_update_state :: "string \<Rightarrow> string \<Rightarrow> mem_sessions \<Rightarrow> go_error option \<times> mem_sessions" where
  "mem_session_update_state k state s =
     (case map_of (ms_by_id s) k of
        None \<Rightarrow> (Some session_not_found, s)
      | Some r \<Rightarrow> (None, s\<lparr>ms_by_id := AList.update k (r\<lparr>row_state := state\<rparr>) (ms_by_id s)\<rparr>))"

definition mem_session_mark_deleted :: "string \<Rightarrow> mem_sessions \<Rightarrow> go_error option \<times> mem_sessions" where
  "mem_session_mark_deleted k s =
     (None, s\<lparr>ms_deleted := List.insert k (ms_deleted s), ms_by_id := AList.delete k (ms_by_id s)\<rparr>)"

definition mem_session_get :: "string \<Rightarrow> mem_sessions \<Rightarrow> (go_error, session_record) result \<times> mem_sessions" where
  "mem_session_get k s =
     (if k \<in> set (ms_deleted s) then (Inl session_not_found, s)
      else case map_of (ms_by_id s) k of
             None \<Rightarrow> (Inl session_not_found, s)
           | Some r \<Rightarrow> (Inr r, s))"

text \<open>
  The loop of \<open>GetByKernelID\<close> runs over a Go map, in an order of the runtime's choice: \<open>ord\<close> puts
  the entries into it.
\<close>

fun kernel_id_loop :: "string \<Rightarrow> string list \<Rightarrow> (string \<times> session_record) list \<Rightarrow> (go_error, session_record) result" where
  "kernel_id_loop k deleted [] = Inl session_not_found"
| "kernel_id_loop k deleted ((i, r) # rest) =
     (if i \<in> set deleted then kernel_id_loop k deleted rest
      else if row_kernel_id r = k then Inr r
      else kernel_id_loop k deleted rest)"

definition mem_session_get_by_kernel ::
  "((string \<times> session_record) list \<Rightarrow> (string \<times> session_record) list) \<Rightarrow> string \<Rightarrow> mem_sessions \<Rightarrow>
   (go_error, session_record) result \<times> mem_sessions" where
  "mem_session_get_by_kernel ord k s = (kernel_id_loop k (ms_deleted s) (ord (ms_by_id s)), s)"

definition mem_session_store ::
  "((string \<times> session_record) list \<Rightarrow> (string \<times> session_record) list) \<Rightarrow> mem_sessions session_store_ops" where
  "mem_session_store ord =
     \<lparr>ss_upsert = mem_session_upsert, ss_update_state = mem_session_update_state,
      ss_mark_deleted = mem_session_mark_deleted, ss_get_by_session_id = mem_session_get,
      ss_get_by_kernel_id = mem_session_get_by_kernel ord\<rparr>"

text \<open>A row is stored under its id, its id is not marked deleted, and no key occurs twice.\<close>

definition mem_sessions_ok :: "mem_sessions \<Rightarrow> bool" where
  "mem_sessions_ok s \<longleftrightarrow> distinct (map fst (ms_by_id s)) \<and>
     (\<forall>(k, r) \<in> set (ms_by_id s). row_session_id r = k \<and> k \<notin> set (ms_deleted s))"

definition mem_live :: "mem_sessions \<Rightarrow> string \<Rightarrow> session_record option" where
  "mem_live s k = map_of (ms_by_id s) k"

lemma new_mem_sessions_ok: "mem_sessions_ok new_mem_sessions"
  by (simp add: mem_sessions_ok_def new_mem_sessions_def)

lemma mem_session_store_simps [simp]:
  "ss_upsert (mem_session_store ord) = mem_session_upsert"
  "ss_update_state (mem_session_store ord) = mem_session_update_state"
  "ss_mark_deleted (mem_session_store ord) = mem_session_mark_deleted"
  "ss_get_by_session_id (mem_session_store ord) = mem_session_get"
  "ss_get_by_kernel_id (mem_session_store ord) = mem_session_get_by_kernel ord"
  by (simp_all add: mem_session_store_def)

lemma mem_sessions_ok_row:
  "mem_sessions_ok s \<Longrightarrow> map_of (ms_by_id s) k = Some r \<Longrightarrow> row_session_id r = k \<and> k \<notin> set (ms_deleted s)"
  by (auto simp: mem_sessions_ok_def dest: map_of_SomeD)

lemma mem_sessions_ok_iff:
  "mem_sessions_ok s \<longleftrightarrow> distinct (map fst (ms_by_id s)) \<and>
     (\<forall>k r. map_of (ms_by_id s) k = Some r \<longrightarrow> row_session_id r = k \<and> k \<notin> set (ms_deleted s))"
  by (auto simp: mem_sessions_ok_def map_of_eq_Some_iff split: prod.splits)

lemma kernel_id_loop_found:
  "kernel_id_loop k deleted xs = Inr r \<Longrightarrow> \<exists>i. (i, r) \<in> set xs \<and> i \<notin> set deleted \<and> row_kernel_id r = k"
  by (induction k deleted xs rule: kernel_id_loop.induct) (auto split: if_splits)

lemma kernel_id_loop_none:
  "kernel_id_loop k deleted xs = Inl e \<Longrightarrow> (i, r) \<in> set xs \<Longrightarrow> i \<notin> set deleted \<Longrightarrow> row_kernel_id r \<noteq> k"
  by (induction k deleted xs rule: kernel_id_loop.induct) (auto split: if_splits)

lemma mem_session_ops_ok:
  "mem_sessions_ok s \<Longrightarrow> mem_sessions_ok (snd (mem_session_upsert r s))"
  "mem_sessions_ok s \<Longrightarrow> mem_sessions_ok (snd (mem_session_update_state k x s))"
  "mem_sessions_ok s \<Longrightarrow> mem_sessions_ok (snd (mem_session_mark_deleted k s))"
  by (auto simp: mem_sessions_ok_iff mem_session_upsert_def mem_session_update_state_def mem_session_mark_deleted_def
      distinct_update distinct_delete
      simp del: map_of_eq_Some_iff split: option.splits if_splits)

text \<open>
  The contract, for every order in which the loop may see the entries; the laws rest on the id
  index being keyed by the session id.
\<close>

lemma mem_session_store_contract:
  assumes "\<And>xs. set (ord xs) = set xs"
  shows "session_store (mem_session_store ord) mem_live mem_sessions_ok"
proof (unfold_locales, goal_cases)
  case (9 w k r w')
  from 9(2) obtain i where "(i, r) \<in> set (ms_by_id w)" "row_kernel_id r = k"
    using kernel_id_loop_found assms by (fastforce simp: mem_session_get_by_kernel_def)
  with 9(1) show ?case by (auto simp: mem_sessions_ok_def mem_live_def)
next
  case (12 w r x1 w1)
  then show ?case using mem_session_ops_ok(1) [of w r] by simp
next
  case (13 w k s x1 w1)
  then show ?case using mem_session_ops_ok(2) [of w k s] by simp
next
  case (14 w k x1 w1)
  then show ?case using mem_session_ops_ok(3) [of w k] by simp
qed (auto simp: mem_session_upsert_def mem_session_update_state_def mem_session_mark_deleted_def mem_session_get_def
    mem_session_get_by_kernel_def mem_live_def fun_eq_iff split: if_splits option.splits)

interpretation mem_store: session_store "mem_session_store id" mem_live mem_sessions_ok
  by (rule mem_session_store_contract) simp

end
