(* ===== verification/PersistingGateway.thy ===== *)
theory PersistingGateway
  imports Sessions
begin

text \<open>
  \<open>internal/infra/gateway/persisting_gateway.go\<close>: the gateway wrapped so that the session table
  follows what the gateway reports. A failing store is logged and otherwise ignored.
\<close>

section \<open>The wrapper\<close>

definition persist_create_session ::
  "'w gateway_port \<Rightarrow> 'w session_store_ops \<Rightarrow> go_ctx \<Rightarrow> create_session_request \<Rightarrow> 'w \<Rightarrow> (gateway_error, session) result \<times> 'w" where
  "persist_create_session inner store ctx req =
     after (gw_create_session inner ctx req) (\<lambda>r. case r of
       Inl e \<Rightarrow> give (Inl e)
     | Inr sess \<Rightarrow>
         after (ss_upsert store (record_from_create sess (fst (request_context_from ctx)) req))
           (\<lambda>_. give (Inr sess)))"

definition persist_update_session ::
  "'w gateway_port \<Rightarrow> 'w session_store_ops \<Rightarrow> go_ctx \<Rightarrow> string \<Rightarrow> update_session_request \<Rightarrow> 'w \<Rightarrow>
   (gateway_error, session) result \<times> 'w" where
  "persist_update_session inner store ctx k req =
     after (gw_update_session inner ctx k req) (\<lambda>r. case r of
       Inl e \<Rightarrow> give (Inl e)
     | Inr sess \<Rightarrow>
         after (ss_upsert store (record_from_gateway sess (fst (request_context_from ctx))))
           (\<lambda>_. give (Inr sess)))"

definition persist_delete_session ::
  "'w gateway_port \<Rightarrow> 'w session_store_ops \<Rightarrow> go_ctx \<Rightarrow> string \<Rightarrow> 'w \<Rightarrow> gateway_error option \<times> 'w" where
  "persist_delete_session inner store ctx k =
     after (gw_delete_session inner ctx k) (\<lambda>r. case r of
       Some e \<Rightarrow> give (Some e)
     | None \<Rightarrow> after (ss_mark_deleted store k) (\<lambda>_. give None))"

text \<open>The other methods are those of the wrapped gateway.\<close>

definition persisting_gateway :: "'w gateway_port \<Rightarrow> 'w session_store_ops \<Rightarrow> 'w gateway_port" where
  "persisting_gateway inner store =
     inner\<lparr>gw_create_session := persist_create_session inner store,
           gw_update_session := persist_update_session inner store,
           gw_delete_session := persist_delete_session inner store\<rparr>"

definition wrap_with_session_store ::
  "'w gateway_port option \<Rightarrow> 'w session_store_ops option \<Rightarrow> 'w gateway_port option" where
  "wrap_with_session_store gw store =
     (case (gw, store) of
        (Some g, Some s) \<Rightarrow> Some (persisting_gateway g s)
      | _ \<Rightarrow> gw)"

section \<open>Calls of the port\<close>

text \<open>A call of a REST method as a value, and its result.\<close>

datatype gateway_call =
    CreateSession go_ctx create_session_request
  | ListSessions go_ctx
  | GetSession go_ctx string
  | UpdateSession go_ctx string update_session_request
  | DeleteSession go_ctx string
  | CreateKernel go_ctx create_kernel_request
  | ListKernels go_ctx
  | GetKernel go_ctx string
  | DeleteKernel go_ctx string
  | InterruptKernel go_ctx string
  | RestartKernel go_ctx string
  | ListKernelSpecs go_ctx
  | GetKernelSpec go_ctx string
  | GetKernelSpecResource go_ctx string

datatype call_result =
    SessionR "(gateway_error, session) result"
  | SessionsR "(gateway_error, session list option) result"
  | KernelR "(gateway_error, kernel) result"
  | KernelsR "(gateway_error, kernel list option) result"
  | SpecR "(gateway_error, kernel_spec) result"
  | SpecsR "(gateway_error, kernel_specs) result"
  | ResourceR "(gateway_error, kernel_spec_resource) result"
  | DoneR "gateway_error option"

fun call_gateway :: "'w gateway_port \<Rightarrow> gateway_call \<Rightarrow> 'w \<Rightarrow> call_result \<times> 'w" where
  "call_gateway gw (CreateSession ctx req) w = apfst SessionR (gw_create_session gw ctx req w)"
| "call_gateway gw (ListSessions ctx) w = apfst SessionsR (gw_list_sessions gw ctx w)"
| "call_gateway gw (GetSession ctx k) w = apfst SessionR (gw_get_session gw ctx k w)"
| "call_gateway gw (UpdateSession ctx k req) w = apfst SessionR (gw_update_session gw ctx k req w)"
| "call_gateway gw (DeleteSession ctx k) w = apfst DoneR (gw_delete_session gw ctx k w)"
| "call_gateway gw (CreateKernel ctx req) w = apfst KernelR (gw_create_kernel gw ctx req w)"
| "call_gateway gw (ListKernels ctx) w = apfst KernelsR (gw_list_kernels gw ctx w)"
| "call_gateway gw (GetKernel ctx k) w = apfst KernelR (gw_get_kernel gw ctx k w)"
| "call_gateway gw (DeleteKernel ctx k) w = apfst DoneR (gw_delete_kernel gw ctx k w)"
| "call_gateway gw (InterruptKernel ctx k) w = apfst DoneR (gw_interrupt_kernel gw ctx k w)"
| "call_gateway gw (RestartKernel ctx k) w = apfst KernelR (gw_restart_kernel gw ctx k w)"
| "call_gateway gw (ListKernelSpecs ctx) w = apfst SpecsR (gw_list_kernel_specs gw ctx w)"
| "call_gateway gw (GetKernelSpec ctx n) w = apfst SpecR (gw_get_kernel_spec gw ctx n w)"
| "call_gateway gw (GetKernelSpecResource ctx p) w = apfst ResourceR (gw_get_kernel_spec_resource gw ctx p w)"

fun call_all :: "'w gateway_port \<Rightarrow> gateway_call list \<Rightarrow> 'w \<Rightarrow> call_result list \<times> 'w" where
  "call_all gw [] w = ([], w)"
| "call_all gw (c # cs) w =
     (case call_gateway gw c w of (r, w1) \<Rightarrow> (case call_all gw cs w1 of (rs, w2) \<Rightarrow> (r # rs, w2)))"

section \<open>The table follows the gateway\<close>

text \<open>What a call and its result stand for in the table of sessions.\<close>

definition row_put :: "session_record \<Rightarrow> (string \<Rightarrow> session_record option) \<Rightarrow> string \<Rightarrow> session_record option" where
  "row_put r rows = (if row_session_id r = [] then rows else rows(row_session_id r \<mapsto> r))"

fun row_effect ::
  "gateway_call \<times> call_result \<Rightarrow> (string \<Rightarrow> session_record option) \<Rightarrow> string \<Rightarrow> session_record option" where
  "row_effect (CreateSession ctx req, SessionR (Inr s)) rows =
     row_put (record_from_create s (fst (request_context_from ctx)) req) rows"
| "row_effect (UpdateSession ctx k req, SessionR (Inr s)) rows =
     row_put (record_from_gateway s (fst (request_context_from ctx))) rows"
| "row_effect (DeleteSession ctx k, DoneR None) rows = rows(k := None)"
| "row_effect cr rows = rows"

text \<open>
  A gateway that acts on its own part \<open>'g\<close> of the state, and a store that acts on the other.
\<close>

definition on_gateway :: "('g \<Rightarrow> 'r \<times> 'g) \<Rightarrow> 'g \<times> 's \<Rightarrow> 'r \<times> ('g \<times> 's)" where
  "on_gateway f w = (case f (fst w) of (r, g) \<Rightarrow> (r, (g, snd w)))"

definition on_store :: "('s \<Rightarrow> 'r \<times> 's) \<Rightarrow> 'g \<times> 's \<Rightarrow> 'r \<times> ('g \<times> 's)" where
  "on_store f w = (case f (snd w) of (r, s) \<Rightarrow> (r, (fst w, s)))"

definition gateway_of :: "'g gateway_port \<Rightarrow> ('g \<times> 's) gateway_port" where
  "gateway_of gw =
     \<lparr>gw_create_session = \<lambda>ctx req. on_gateway (gw_create_session gw ctx req),
      gw_list_sessions = \<lambda>ctx. on_gateway (gw_list_sessions gw ctx),
      gw_get_session = \<lambda>ctx k. on_gateway (gw_get_session gw ctx k),
      gw_update_session = \<lambda>ctx k req. on_gateway (gw_update_session gw ctx k req),
      gw_delete_session = \<lambda>ctx k. on_gateway (gw_delete_session gw ctx k),
      gw_create_kernel = \<lambda>ctx req. on_gateway (gw_create_kernel gw ctx req),
      gw_list_kernels = \<lambda>ctx. on_gateway (gw_list_kernels gw ctx),
      gw_get_kernel = \<lambda>ctx k. on_gateway (gw_get_kernel gw ctx k),
      gw_delete_kernel = \<lambda>ctx k. on_gateway (gw_delete_kernel gw ctx k),
      gw_interrupt_kernel = \<lambda>ctx k. on_gateway (gw_interrupt_kernel gw ctx k),
      gw_restart_kernel = \<lambda>ctx k. on_gateway (gw_restart_kernel gw ctx k),
      gw_list_kernel_specs = \<lambda>ctx. on_gateway (gw_list_kernel_specs gw ctx),
      gw_get_kernel_spec = \<lambda>ctx n. on_gateway (gw_get_kernel_spec gw ctx n),
      gw_get_kernel_spec_resource = \<lambda>ctx p. on_gateway (gw_get_kernel_spec_resource gw ctx p),
      gw_proxy_http = \<lambda>h r. on_gateway (gw_proxy_http gw h r),
      gw_proxy_websocket = \<lambda>h r. on_gateway (gw_proxy_websocket gw h r)\<rparr>"

definition store_of :: "'s session_store_ops \<Rightarrow> ('g \<times> 's) session_store_ops" where
  "store_of st =
     \<lparr>ss_upsert = \<lambda>r. on_store (ss_upsert st r), ss_update_state = \<lambda>k x. on_store (ss_update_state st k x),
      ss_mark_deleted = \<lambda>k. on_store (ss_mark_deleted st k),
      ss_get_by_session_id = \<lambda>k. on_store (ss_get_by_session_id st k),
      ss_get_by_kernel_id = \<lambda>k. on_store (ss_get_by_kernel_id st k)\<rparr>"

lemma gateway_of_call: "call_gateway (gateway_of gw) c (g, s) = on_gateway (call_gateway gw c) (g, s)"
  by (cases c) (simp_all add: gateway_of_def on_gateway_def apfst_def map_prod_def split: prod.splits)

text \<open>
  One call: the caller gets what the gateway alone answers, the gateway sees the same call, and
  the rows change as \<^const>\<open>row_effect\<close> says when the store accepts every row with an id.
\<close>

locale obedient_store = session_store +
  assumes upsert_works: "good w \<Longrightarrow> row_session_id r \<noteq> [] \<Longrightarrow> fst (ss_upsert ops r w) = None"
    and mark_works: "good w \<Longrightarrow> fst (ss_mark_deleted ops k w) = None"
begin

lemma upsert_put:
  assumes "good w" "ss_upsert ops r w = (x, w')"
  shows "live w' = row_put r (live w) \<and> good w'"
proof (cases "row_session_id r = []")
  case True
  then obtain e where "x = Some e" using assms upsert_needs_id by (cases x) auto
  with True assms show ?thesis by (auto simp: row_put_def dest: upsert_err good_store(1))
next
  case False
  then have "x = None" using upsert_works [OF assms(1) False] assms(2) by simp
  with False assms show ?thesis by (auto simp: row_put_def dest: upsert_ok good_store(1))
qed

lemma mark_gone:
  assumes "good w" "ss_mark_deleted ops k w = (x, w')"
  shows "live w' = (live w)(k := None) \<and> good w'"
  using assms mark_works [OF assms(1), of k] by (auto dest: mark_deleted_ok good_store(3))

lemma persisting_call:
  assumes "good s"
    and "call_gateway (persisting_gateway (gateway_of gw) (store_of ops)) c (g, s) = (r, (g', s'))"
  shows "call_gateway gw c g = (r, g') \<and> live s' = row_effect (c, r) (live s) \<and> good s'"
proof -
  have same: "call_gateway (gateway_of gw) c (g, s) = (r, (g', s')) \<Longrightarrow> row_effect (c, r) (live s) = live s \<Longrightarrow> ?thesis"
    using assms(1) by (auto simp: gateway_of_call on_gateway_def split: prod.splits)
  show ?thesis
  proof (cases c)
    case (CreateSession ctx req)
    obtain x g1 where x: "gw_create_session gw ctx req g = (x, g1)" by (cases "gw_create_session gw ctx req g")
    show ?thesis
    proof (cases x)
      case (Inl e)
      with assms CreateSession x show ?thesis
        by (auto simp: persisting_gateway_def persist_create_session_def gateway_of_def on_gateway_def after_def give_def)
    next
      case (Inr sess)
      define row where "row = record_from_create sess (fst (request_context_from ctx)) req"
      obtain y s1 where y: "ss_upsert ops row s = (y, s1)" by (cases "ss_upsert ops row s")
      from assms(2) CreateSession x Inr y have "r = SessionR (Inr sess)" "g' = g1" "s' = s1"
        by (auto simp: persisting_gateway_def persist_create_session_def gateway_of_def store_of_def on_gateway_def
            on_store_def after_def give_def row_def)
      with upsert_put [OF assms(1) y] CreateSession x Inr show ?thesis by (simp add: row_def)
    qed
  next
    case (UpdateSession ctx k req)
    obtain x g1 where x: "gw_update_session gw ctx k req g = (x, g1)" by (cases "gw_update_session gw ctx k req g")
    show ?thesis
    proof (cases x)
      case (Inl e)
      with assms UpdateSession x show ?thesis
        by (auto simp: persisting_gateway_def persist_update_session_def gateway_of_def on_gateway_def after_def give_def)
    next
      case (Inr sess)
      define row where "row = record_from_gateway sess (fst (request_context_from ctx))"
      obtain y s1 where y: "ss_upsert ops row s = (y, s1)" by (cases "ss_upsert ops row s")
      from assms(2) UpdateSession x Inr y have "r = SessionR (Inr sess)" "g' = g1" "s' = s1"
        by (auto simp: persisting_gateway_def persist_update_session_def gateway_of_def store_of_def on_gateway_def
            on_store_def after_def give_def row_def)
      with upsert_put [OF assms(1) y] UpdateSession x Inr show ?thesis by (simp add: row_def)
    qed
  next
    case (DeleteSession ctx k)
    obtain x g1 where x: "gw_delete_session gw ctx k g = (x, g1)" by (cases "gw_delete_session gw ctx k g")
    obtain y s1 where y: "ss_mark_deleted ops k s = (y, s1)" by (cases "ss_mark_deleted ops k s")
    show ?thesis
      using assms DeleteSession x y mark_gone [OF assms(1) y]
      by (cases x) (auto simp: persisting_gateway_def persist_delete_session_def gateway_of_def store_of_def on_gateway_def
          on_store_def after_def give_def)
  qed (insert assms(2) same, simp_all add: persisting_gateway_def)
qed

lemma persisting_calls:
  assumes "good s" "call_all (persisting_gateway (gateway_of gw) (store_of ops)) cs (g, s) = (rs, (g', s'))"
  shows "call_all gw cs g = (rs, g') \<and> live s' = fold row_effect (zip cs rs) (live s) \<and> good s'"
  using assms
proof (induction cs arbitrary: g s rs)
  case Nil
  then show ?case by simp
next
  case (Cons c cs)
  obtain r g1 s1 where c: "call_gateway (persisting_gateway (gateway_of gw) (store_of ops)) c (g, s) = (r, (g1, s1))"
    by (metis prod_cases3)
  obtain rs1 where cs: "call_all (persisting_gateway (gateway_of gw) (store_of ops)) cs (g1, s1) = (rs1, (g', s'))"
    and rs: "rs = r # rs1" using Cons.prems(2) c by (auto split: prod.splits)
  from persisting_call [OF Cons.prems(1) c] Cons.IH [OF _ cs] show ?case by (simp add: rs)
qed

end

text \<open>The in-memory store refuses only a row without an id.\<close>

interpretation mem_obedient: obedient_store "mem_session_store id" mem_live mem_sessions_ok
  by unfold_locales (simp_all add: mem_session_upsert_def mem_session_mark_deleted_def)

end
