(* ===== verification/Urls.thy ===== *)
theory Urls
  imports Http
begin

text \<open>
  What the gateway client uses of Go's \<open>net/url\<close>: escaping of paths and path segments, and the
  text of a URL. The fields of \<open>url.URL\<close> are kept; user information and host are the text
  \<open>String\<close> writes for them.
\<close>

record url =
  url_scheme :: string
  url_opaque :: string
  url_user :: "string option"
  url_host :: string
  url_path :: string
  url_raw_path :: string
  url_raw_query :: string
  url_fragment :: string

section \<open>Escaping\<close>

definition upper_hex :: "nat \<Rightarrow> char" where
  "upper_hex n = ''0123456789ABCDEF'' ! (n mod 16)"

definition unreserved :: "char \<Rightarrow> bool" where
  "unreserved c \<longleftrightarrow> byte_in c 97 122 \<or> byte_in c 65 90 \<or> byte_in c 48 57 \<or> c \<in> {CHR ''-'', CHR ''_'', CHR ''.'', CHR ''~''}"

text \<open>\<open>shouldEscape\<close> in the modes \<open>encodePathSegment\<close> and \<open>encodePath\<close>.\<close>

definition escape_in_segment :: "char \<Rightarrow> bool" where
  "escape_in_segment c \<longleftrightarrow> \<not> unreserved c \<and> c \<notin> {CHR ''$'', CHR ''&'', CHR ''+'', CHR '':'', CHR ''='', CHR ''@''}"

definition escape_in_path :: "char \<Rightarrow> bool" where
  "escape_in_path c \<longleftrightarrow> escape_in_segment c \<and> c \<notin> {CHR ''/'', CHR '';'', CHR '',''}"

definition escape_byte :: "char \<Rightarrow> string" where
  "escape_byte c = [CHR ''%'', upper_hex (of_char c div 16), upper_hex (of_char c)]"

definition url_escape :: "(char \<Rightarrow> bool) \<Rightarrow> string \<Rightarrow> string" where
  "url_escape p s = concat (map (\<lambda>c. if p c then escape_byte c else [c]) s)"

definition path_escape :: "string \<Rightarrow> string" where
  \<comment> \<open>\<open>url.PathEscape\<close>\<close>
  "path_escape s = url_escape escape_in_segment s"

fun path_unescape :: "string \<Rightarrow> string option" where
  \<comment> \<open>\<open>url.PathUnescape\<close>\<close>
  "path_unescape [] = Some []"
| "path_unescape (c # cs) =
     (if c = CHR ''%'' then
        (case cs of
           a # b # r \<Rightarrow>
             (case (hex_val a, hex_val b) of
                (Some x, Some y) \<Rightarrow> map_option ((#) (char_of (16 * x + y))) (path_unescape r)
              | _ \<Rightarrow> None)
         | _ \<Rightarrow> None)
      else map_option ((#) c) (path_unescape cs))"

text \<open>
  \<open>EscapedPath\<close>: the raw path when it is a valid encoding of the path, else the path escaped.
\<close>

definition valid_encoded_char :: "char \<Rightarrow> bool" where
  "valid_encoded_char c \<longleftrightarrow>
     c \<in> {CHR ''!'', CHR ''$'', CHR ''&'', CHR 0x27, CHR ''('', CHR '')'', CHR ''*'', CHR ''+'', CHR '','', CHR '';'',
          CHR ''='', CHR '':'', CHR ''@'', CHR ''['', CHR '']'', CHR ''%''} \<or> \<not> escape_in_path c"

definition escaped_path :: "url \<Rightarrow> string" where
  "escaped_path u =
     (if url_raw_path u \<noteq> [] \<and> list_all valid_encoded_char (url_raw_path u) \<and>
         path_unescape (url_raw_path u) = Some (url_path u)
      then url_raw_path u
      else if url_path u = ''*'' then ''*''
      else url_escape escape_in_path (url_path u))"

definition url_authority :: "url \<Rightarrow> string" where
  "url_authority u =
     (if url_host u \<noteq> [] \<or> url_path u \<noteq> [] \<or> url_user u \<noteq> None then ''//'' else []) @
     (case url_user u of Some ui \<Rightarrow> ui @ ''@'' | None \<Rightarrow> []) @ url_host u"

text \<open>\<open>String\<close>, for a URL with a scheme.\<close>

definition url_string :: "url \<Rightarrow> string" where
  "url_string u =
     url_scheme u @ '':'' @
     (if url_opaque u \<noteq> [] then url_opaque u
      else url_authority u @
        (let p = escaped_path u in (if p \<noteq> [] \<and> hd p \<noteq> CHR ''/'' \<and> url_host u \<noteq> [] then ''/'' else []) @ p)) @
     (if url_raw_query u \<noteq> [] then ''?'' @ url_raw_query u else []) @
     (if url_fragment u \<noteq> [] then ''#'' @ url_fragment u else [])"

text \<open>\<open>singleJoiningSlash\<close> of \<open>internal/infra/gateway/websocket_proxy.go\<close>.\<close>

definition single_joining_slash :: "string \<Rightarrow> string \<Rightarrow> string" where
  "single_joining_slash a b =
     (if a = [] then b
      else if b = [] then a
      else
        let aSlash = (last a = CHR ''/''); bSlash = (hd b = CHR ''/'')
        in if aSlash \<and> bSlash then a @ tl b
           else if \<not> aSlash \<and> \<not> bSlash then a @ ''/'' @ b
           else a @ b)"

section \<open>Escaping is undone by unescaping\<close>

lemma hex_val_upper: "hex_val (upper_hex n) = Some (n mod 16)"
proof -
  have "\<forall>m < 16. hex_val (upper_hex m) = Some m" by code_simp
  then have "hex_val (upper_hex (n mod 16)) = Some (n mod 16)" by simp
  then show ?thesis by (simp add: upper_hex_def)
qed

lemma path_unescape_byte: "path_unescape (escape_byte c @ s) = map_option ((#) c) (path_unescape s)"
proof -
  have "(of_char c :: nat) < 256" by (metis nat_of_char_less_256)
  then have "(of_char c :: nat) div 16 < 16" by linarith
  then have "16 * (of_char c div 16 mod 16) + of_char c mod 16 = (of_char c :: nat)" by simp
  then show ?thesis by (simp add: escape_byte_def hex_val_upper)
qed

lemma escape_percent [simp]: "escape_in_segment CHR ''%''" "escape_in_path CHR ''%''"
  by (simp_all add: escape_in_path_def escape_in_segment_def unreserved_def byte_in_def)

lemma path_unescape_escape: "p CHR ''%'' \<Longrightarrow> path_unescape (url_escape p s) = Some s"
proof (induction s)
  case Nil
  then show ?case by (simp add: url_escape_def)
next
  case (Cons c s)
  then have ih: "path_unescape (url_escape p s) = Some s" by simp
  show ?case
  proof (cases "p c")
    case True
    then have "url_escape p (c # s) = escape_byte c @ url_escape p s" by (simp add: url_escape_def)
    with ih show ?thesis by (simp add: path_unescape_byte)
  next
    case False
    then have "c \<noteq> CHR ''%''" using Cons.prems by auto
    moreover have "url_escape p (c # s) = c # url_escape p s" using False by (simp add: url_escape_def)
    ultimately show ?thesis using ih by simp
  qed
qed

lemma path_escape_inverse: "path_unescape (path_escape s) = Some s"
  by (simp add: path_escape_def path_unescape_escape)

lemma url_escape_id: "list_all (\<lambda>c. \<not> p c) s \<Longrightarrow> url_escape p s = s"
  by (induction s) (simp_all add: url_escape_def)

text \<open>An escaped segment is one segment: no separator and no start of a query is in it.\<close>

lemma upper_hex_unreserved: "upper_hex n \<in> set ''0123456789ABCDEF''"
  unfolding upper_hex_def by (rule nth_mem) simp

lemma path_escape_segment: "c \<in> set (path_escape s) \<Longrightarrow> c \<notin> {CHR ''/'', CHR ''?'', CHR ''#'', CHR '';'', CHR '',''}"
proof -
  assume "c \<in> set (path_escape s)"
  then obtain d where d: "d \<in> set s" "c \<in> set (if escape_in_segment d then escape_byte d else [d])"
    by (auto simp: path_escape_def url_escape_def)
  show ?thesis
  proof (cases "escape_in_segment d")
    case True
    with d have "c = CHR ''%'' \<or> c \<in> set ''0123456789ABCDEF''"
      using upper_hex_unreserved [of "of_char d div 16"] upper_hex_unreserved [of "of_char d"]
      by (auto simp: escape_byte_def)
    then show ?thesis by auto
  next
    case False
    with d have "c = d" "\<not> escape_in_segment c" by simp_all
    then show ?thesis by (auto simp: escape_in_segment_def unreserved_def byte_in_def)
  qed
qed

end
