(* ===== verification/GatewayClient.thy ===== *)
theory GatewayClient
  imports Urls GatewayDomain
begin

text \<open>
  \<open>internal/infra/gateway/client.go\<close>: the client of a remote Jupyter gateway. The network is a
  record of functions over a state \<open>'w\<close>: the round trip of the base transport, the timer of
  a retry, and what \<open>http.Client\<close> adds around the transport it is given (redirects, deadline).
  Log output is left out.
\<close>

section \<open>Requests on the wire\<close>

text \<open>
  A body of a request is a reader. The transport closes it, so a second round trip with the same
  request finds it spent. The body of a response is what
  can be read of it, up to its end or up to an error.
\<close>

datatype wire_body = NoBody | Bytes string | SpentBody

record wire_request =
  wq_method :: string
  wq_url :: string
  wq_host :: string
  wq_header :: header
  wq_body :: wire_body

record wire_response =
  wr_status :: nat
  wr_header :: header
  wr_body :: string
  wr_read_error :: "go_error option"

type_synonym 'w transport = "wire_request \<Rightarrow> 'w \<Rightarrow> (go_error, wire_response) result \<times> 'w"

record 'w network =
  net_build :: "string \<Rightarrow> string \<Rightarrow> go_error option"
  net_round_trip :: "'w transport"
  net_wait :: "nat \<Rightarrow> 'w \<Rightarrow> go_error option \<times> 'w"
  net_do :: "'w transport \<Rightarrow> 'w transport"

definition spent :: "wire_body \<Rightarrow> wire_body" where
  "spent b = (if b = NoBody then NoBody else SpentBody)"

section \<open>Configuration\<close>

text \<open>Durations are nanoseconds.\<close>

record gateway_config =
  gc_url :: string
  gc_ws_url :: string
  gc_auth_header_key :: string
  gc_auth_scheme :: string
  gc_auth_token :: string
  gc_headers :: "(string \<times> string) list"
  gc_connect_timeout :: int
  gc_request_timeout :: int
  gc_max_request_retries :: int
  gc_validate_cert :: bool
  gc_ca_certs :: string
  gc_client_cert :: string
  gc_client_key :: string

definition default_connect_timeout :: int where "default_connect_timeout = 40 * 10 ^ 9"
definition default_request_timeout :: int where "default_request_timeout = 42 * 10 ^ 9"
definition default_max_retries :: int where "default_max_retries = 2"
definition max_retries_cap :: int where "max_retries_cap = 10"

definition kernels_endpoint :: string where "kernels_endpoint = ''/api/kernels''"
definition sessions_endpoint :: string where "sessions_endpoint = ''/api/sessions''"
definition kernel_specs_endpoint :: string where "kernel_specs_endpoint = ''/api/kernelspecs''"

text \<open>
  What the start-up needs of the machine and the library: the parser of URLs, the quotation of a
  string in an error text, the file with the certificate authorities, whether a text has
  certificates, and the loader of a key pair.
\<close>

record start_env =
  st_parse_url :: "string \<Rightarrow> (go_error, url) result"
  st_quote :: "string \<Rightarrow> string"
  st_read_file :: "string \<Rightarrow> (go_error, string) result"
  st_has_certs :: "string \<Rightarrow> bool"
  st_key_pair :: "string \<Rightarrow> string \<Rightarrow> go_error option"

record tls_config =
  tc_insecure :: bool
  tc_root_cas :: "string option"
  tc_certificate :: "(string \<times> string) option"

definition build_tls_config :: "start_env \<Rightarrow> gateway_config \<Rightarrow> (go_error, tls_config) result" where
  "build_tls_config env cfg =
     (let with_cert = (\<lambda>t.
          if gc_client_cert cfg \<noteq> [] \<and> gc_client_key cfg \<noteq> [] then
            (case st_key_pair env (gc_client_cert cfg) (gc_client_key cfg) of
               Some e \<Rightarrow> Inl (wrap_error ''load gateway client cert/key'' e)
             | None \<Rightarrow> Inr (t\<lparr>tc_certificate := Some (gc_client_cert cfg, gc_client_key cfg)\<rparr>))
          else Inr t);
          t0 = \<lparr>tc_insecure = \<not> gc_validate_cert cfg, tc_root_cas = None, tc_certificate = None\<rparr>
      in if gc_ca_certs cfg \<noteq> [] then
           (case st_read_file env (gc_ca_certs cfg) of
              Inl e \<Rightarrow> Inl (wrap_error ''read gateway ca_certs'' e)
            | Inr pem \<Rightarrow>
                if \<not> st_has_certs env pem
                then Inl (text_error (''parse gateway ca_certs: no certificates in '' @ st_quote env (gc_ca_certs cfg)))
                else with_cert (t0\<lparr>tc_root_cas := Some pem\<rparr>))
         else with_cert t0)"

definition auth_header_key :: "string \<Rightarrow> string" where
  "auth_header_key key = (let k = trim_space key in if k = [] then ''Authorization'' else k)"

definition auth_value :: "string \<Rightarrow> string \<Rightarrow> string" where
  "auth_value scheme token =
     (let t = trim_space token; s = trim_space scheme
      in if t = [] then [] else if s = [] then t else s @ '' '' @ t)"

definition resolve_ws_target ::
  "start_env \<Rightarrow> string \<Rightarrow> url \<Rightarrow> (go_error, url) result" where
  "resolve_ws_target env ws_url0 http_target =
     (let ws_url = trim_space ws_url0
      in if ws_url = [] then
           Inr (http_target\<lparr>url_scheme := if url_scheme http_target = ''https'' then ''wss'' else ''ws''\<rparr>)
         else
           (case st_parse_url env ws_url of
              Inl e \<Rightarrow> Inl (wrap_error ''parse gateway ws_url'' e)
            | Inr u \<Rightarrow>
                if url_scheme u \<noteq> ''ws'' \<and> url_scheme u \<noteq> ''wss''
                then Inl (text_error (''gateway ws_url must start with ws(s): '' @ st_quote env ws_url))
                else Inr u))"

record gateway =
  gt_http_target :: url
  gt_ws_target :: url
  gt_connect_timeout :: int
  gt_request_timeout :: int
  gt_max_retries :: int
  gt_tls :: tls_config
  gt_auth_header_key :: string
  gt_auth_value :: string
  gt_headers :: "(string \<times> string) list"

definition new_optional_gateway ::
  "start_env \<Rightarrow> gateway_config \<Rightarrow> (go_error, gateway option) result" where
  "new_optional_gateway env cfg =
     (if trim_space (gc_url cfg) = [] then Inr None
      else case st_parse_url env (trim_space (gc_url cfg)) of
        Inl e \<Rightarrow> Inl (wrap_error ''parse gateway url'' e)
      | Inr http_target \<Rightarrow>
          if url_scheme http_target \<noteq> ''http'' \<and> url_scheme http_target \<noteq> ''https''
          then Inl (text_error (''gateway url must start with http(s): '' @ st_quote env (gc_url cfg)))
          else case resolve_ws_target env (gc_ws_url cfg) http_target of
            Inl e \<Rightarrow> Inl e
          | Inr ws_target \<Rightarrow>
              (case build_tls_config env cfg of
                 Inl e \<Rightarrow> Inl e
               | Inr tls \<Rightarrow>
                   let max0 = (if gc_max_request_retries cfg < 0 then default_max_retries else gc_max_request_retries cfg);
                       max1 = (if max0 > max_retries_cap then max_retries_cap else max0)
                   in Inr (Some
                     \<lparr>gt_http_target = http_target, gt_ws_target = ws_target,
                      gt_connect_timeout = (if gc_connect_timeout cfg \<le> 0 then default_connect_timeout else gc_connect_timeout cfg),
                      gt_request_timeout = (if gc_request_timeout cfg \<le> 0 then default_request_timeout else gc_request_timeout cfg),
                      gt_max_retries = max1, gt_tls = tls,
                      gt_auth_header_key = auth_header_key (gc_auth_header_key cfg),
                      gt_auth_value = auth_value (gc_auth_scheme cfg) (gc_auth_token cfg),
                      gt_headers = gc_headers cfg\<rparr>)))"

section \<open>The retrying transport\<close>

definition is_retriable_status :: "nat \<Rightarrow> bool" where
  "is_retriable_status s \<longleftrightarrow> s = StatusBadGateway \<or> s = StatusServiceUnavailable \<or> s = StatusGatewayTimeout"

definition backoff_ms :: "int \<Rightarrow> nat" where
  \<comment> \<open>\<open>time.Second * 0.1 * 2^attempt\<close>, in milliseconds\<close>
  "backoff_ms attempt = 100 * 2 ^ nat attempt"

function retry_loop ::
  "'w network \<Rightarrow> int \<Rightarrow> bool \<Rightarrow> int \<Rightarrow> wire_request \<Rightarrow> 'w \<Rightarrow> (go_error, wire_response) result \<times> 'w" where
  "retry_loop net limit retriable attempt req w =
     (case net_round_trip net req w of (r, w1) \<Rightarrow>
        if \<not> retriable \<or> attempt \<ge> limit then (r, w1)
        else if (case r of Inr resp \<Rightarrow> \<not> is_retriable_status (wr_status resp) | Inl e \<Rightarrow> False) then (r, w1)
        else
          (case net_wait net (backoff_ms attempt) w1 of
             (Some e, w2) \<Rightarrow> (Inl e, w2)
           | (None, w2) \<Rightarrow> retry_loop net limit retriable (attempt + 1) (req\<lparr>wq_body := spent (wq_body req)\<rparr>) w2))"
  by pat_completeness auto
termination
  by (relation "measure (\<lambda>(net, limit, retriable, attempt, req, w). nat (limit - attempt))") auto

declare retry_loop.simps [simp del]

definition retrying_round_trip :: "'w network \<Rightarrow> int \<Rightarrow> 'w transport" where
  "retrying_round_trip net limit req =
     retry_loop net limit (wq_method req = ''GET'' \<or> wq_method req = ''DELETE'') 0 req"

definition http_client_do :: "'w network \<Rightarrow> gateway \<Rightarrow> 'w transport" where
  "http_client_do net g = net_do net (retrying_round_trip net (gt_max_retries g))"

section \<open>One call\<close>

definition apply_auth :: "gateway \<Rightarrow> header \<Rightarrow> header" where
  "apply_auth g h =
     (let h1 = fold (\<lambda>(k, v). header_set k v) (gt_headers g) h
      in if gt_auth_value g \<noteq> [] then header_set (gt_auth_header_key g) (gt_auth_value g) h1 else h1)"

definition auth_header :: "gateway \<Rightarrow> header" where
  "auth_header g = apply_auth g []"

definition session_path :: "string \<Rightarrow> string" where
  "session_path k = sessions_endpoint @ ''/'' @ path_escape k"

definition kernel_path :: "string \<Rightarrow> string" where
  "kernel_path k = kernels_endpoint @ ''/'' @ path_escape k"

text \<open>
  The answer of \<open>call\<close>: body, status and content type. Encoding the request structs cannot fail.
\<close>

definition gateway_target :: "gateway \<Rightarrow> string \<Rightarrow> url" where
  "gateway_target g path = (gt_http_target g)\<lparr>url_path := single_joining_slash (url_path (gt_http_target g)) path\<rparr>"

definition call_request :: "gateway \<Rightarrow> string \<Rightarrow> string \<Rightarrow> json option \<Rightarrow> wire_request" where
  "call_request g meth path body =
     \<lparr>wq_method = meth, wq_url = url_string (gateway_target g path), wq_host = url_host (gt_http_target g),
      wq_header = apply_auth g (if body \<noteq> None then header_set ''Content-Type'' ''application/json'' [] else []),
      wq_body = (case body of Some j \<Rightarrow> Bytes (json_text j) | None \<Rightarrow> NoBody)\<rparr>"

definition call_http ::
  "'w network \<Rightarrow> gateway \<Rightarrow> string \<Rightarrow> string \<Rightarrow> json option \<Rightarrow> 'w \<Rightarrow> (go_error, string \<times> nat \<times> string) result \<times> 'w" where
  "call_http net g meth path body =
     (case net_build net meth (url_string (gateway_target g path)) of
        Some e \<Rightarrow> give (Inl (wrap_error ''build gateway request'' e))
      | None \<Rightarrow>
          after (http_client_do net g (call_request g meth path body)) (\<lambda>r. give (case r of
            Inl e \<Rightarrow> Inl (wrap_error ''gateway request'' e)
          | Inr resp \<Rightarrow>
              (case wr_read_error resp of
                 Some e \<Rightarrow> Inl (wrap_error ''read gateway response'' e)
               | None \<Rightarrow> Inr (wr_body resp, wr_status resp, header_get (wr_header resp) ''Content-Type'')))))"

definition success_status :: "nat \<Rightarrow> bool" where
  "success_status s \<longleftrightarrow> \<not> (s < 200 \<or> s \<ge> 300)"

text \<open>
  \<open>doJSON\<close>: the zero value of the result, unless the body is there and decodes. The text of a
  decoding error is an argument of the model, as a function of the body.
\<close>

definition do_json ::
  "'w network \<Rightarrow> (string \<Rightarrow> string) \<Rightarrow> gateway \<Rightarrow> string \<Rightarrow> string \<Rightarrow> json option \<Rightarrow> 'a \<Rightarrow> (json \<Rightarrow> 'a \<Rightarrow> 'a option) \<Rightarrow> 'w \<Rightarrow>
   (gateway_error, 'a) result \<times> 'w" where
  "do_json net err_of g meth path body zero dec =
     after (call_http net g meth path body) (\<lambda>r. give (case r of
       Inl e \<Rightarrow> Inl (GatewayFailure e)
     | Inr (data, status, ct) \<Rightarrow>
         if \<not> success_status status then Inl (APIError status ct data)
         else if data = [] then Inr zero
         else
           (case Option.bind (json_parse data) (\<lambda>j. dec j zero) of
              None \<Rightarrow> Inl (GatewayFailure (wrap_error ''decode gateway response'' (text_error (err_of data))))
            | Some x \<Rightarrow> Inr x)))"

definition do_no_content ::
  "'w network \<Rightarrow> gateway \<Rightarrow> string \<Rightarrow> string \<Rightarrow> json option \<Rightarrow> 'w \<Rightarrow> gateway_error option \<times> 'w" where
  "do_no_content net g meth path body =
     after (call_http net g meth path body) (\<lambda>r. give (case r of
       Inl e \<Rightarrow> Some (GatewayFailure e)
     | Inr (data, status, ct) \<Rightarrow>
         if status = StatusNotFound then None
         else if \<not> success_status status then Some (APIError status ct data)
         else None))"

section \<open>The operations\<close>

definition client_create_session ::
  "'w network \<Rightarrow> (string \<Rightarrow> string) \<Rightarrow> gateway \<Rightarrow> create_session_request \<Rightarrow> 'w \<Rightarrow> (gateway_error, session) result \<times> 'w" where
  "client_create_session net err_of g req =
     do_json net err_of g ''POST'' sessions_endpoint (Some (create_session_json req)) zero_session session_of_json"

definition client_list_sessions ::
  "'w network \<Rightarrow> (string \<Rightarrow> string) \<Rightarrow> gateway \<Rightarrow> 'w \<Rightarrow> (gateway_error, session list option) result \<times> 'w" where
  "client_list_sessions net err_of g =
     do_json net err_of g ''GET'' sessions_endpoint None None (decode_list zero_session session_of_json)"

definition client_get_session ::
  "'w network \<Rightarrow> (string \<Rightarrow> string) \<Rightarrow> gateway \<Rightarrow> string \<Rightarrow> 'w \<Rightarrow> (gateway_error, session) result \<times> 'w" where
  "client_get_session net err_of g k =
     do_json net err_of g ''GET'' (session_path k) None zero_session session_of_json"

definition client_update_session ::
  "'w network \<Rightarrow> (string \<Rightarrow> string) \<Rightarrow> gateway \<Rightarrow> string \<Rightarrow> update_session_request \<Rightarrow> 'w \<Rightarrow>
   (gateway_error, session) result \<times> 'w" where
  "client_update_session net err_of g k req =
     do_json net err_of g ''PATCH'' (session_path k) (Some (update_session_json req)) zero_session session_of_json"

definition client_delete_session :: "'w network \<Rightarrow> gateway \<Rightarrow> string \<Rightarrow> 'w \<Rightarrow> gateway_error option \<times> 'w" where
  "client_delete_session net g k = do_no_content net g ''DELETE'' (session_path k) None"

definition client_create_kernel ::
  "'w network \<Rightarrow> (string \<Rightarrow> string) \<Rightarrow> gateway \<Rightarrow> create_kernel_request \<Rightarrow> 'w \<Rightarrow> (gateway_error, kernel) result \<times> 'w" where
  "client_create_kernel net err_of g req =
     do_json net err_of g ''POST'' kernels_endpoint (Some (create_kernel_json req)) zero_kernel kernel_of_json"

definition client_list_kernels ::
  "'w network \<Rightarrow> (string \<Rightarrow> string) \<Rightarrow> gateway \<Rightarrow> 'w \<Rightarrow> (gateway_error, kernel list option) result \<times> 'w" where
  "client_list_kernels net err_of g =
     do_json net err_of g ''GET'' kernels_endpoint None None (decode_list zero_kernel kernel_of_json)"

definition client_get_kernel ::
  "'w network \<Rightarrow> (string \<Rightarrow> string) \<Rightarrow> gateway \<Rightarrow> string \<Rightarrow> 'w \<Rightarrow> (gateway_error, kernel) result \<times> 'w" where
  "client_get_kernel net err_of g k =
     do_json net err_of g ''GET'' (kernel_path k) None zero_kernel kernel_of_json"

definition client_delete_kernel :: "'w network \<Rightarrow> gateway \<Rightarrow> string \<Rightarrow> 'w \<Rightarrow> gateway_error option \<times> 'w" where
  "client_delete_kernel net g k = do_no_content net g ''DELETE'' (kernel_path k) None"

definition client_interrupt_kernel :: "'w network \<Rightarrow> gateway \<Rightarrow> string \<Rightarrow> 'w \<Rightarrow> gateway_error option \<times> 'w" where
  "client_interrupt_kernel net g k = do_no_content net g ''POST'' (kernel_path k @ ''/interrupt'') (Some (JObj []))"

definition client_restart_kernel ::
  "'w network \<Rightarrow> (string \<Rightarrow> string) \<Rightarrow> gateway \<Rightarrow> string \<Rightarrow> 'w \<Rightarrow> (gateway_error, kernel) result \<times> 'w" where
  "client_restart_kernel net err_of g k =
     after (do_no_content net g ''POST'' (kernel_path k @ ''/restart'') (Some (JObj []))) (\<lambda>r. case r of
       Some e \<Rightarrow> give (Inl e)
     | None \<Rightarrow> client_get_kernel net err_of g k)"

definition client_list_kernel_specs ::
  "'w network \<Rightarrow> (string \<Rightarrow> string) \<Rightarrow> gateway \<Rightarrow> 'w \<Rightarrow> (gateway_error, kernel_specs) result \<times> 'w" where
  "client_list_kernel_specs net err_of g =
     do_json net err_of g ''GET'' kernel_specs_endpoint None zero_kernel_specs kernel_specs_of_json"

definition client_get_kernel_spec ::
  "'w network \<Rightarrow> (string \<Rightarrow> string) \<Rightarrow> gateway \<Rightarrow> string \<Rightarrow> 'w \<Rightarrow> (gateway_error, kernel_spec) result \<times> 'w" where
  "client_get_kernel_spec net err_of g name =
     do_json net err_of g ''GET'' (kernel_specs_endpoint @ ''/'' @ path_escape name) None zero_kernel_spec kernel_spec_of_json"

definition client_get_kernel_spec_resource ::
  "'w network \<Rightarrow> gateway \<Rightarrow> string \<Rightarrow> 'w \<Rightarrow> (gateway_error, kernel_spec_resource) result \<times> 'w" where
  "client_get_kernel_spec_resource net g path =
     after (call_http net g ''GET'' path None) (\<lambda>r. give (case r of
       Inl e \<Rightarrow> Inl (GatewayFailure e)
     | Inr (data, status, ct) \<Rightarrow>
         if \<not> success_status status then Inl (APIError status ct data)
         else Inr \<lparr>kres_content_type = ct, kres_data = data\<rparr>))"

end
