(* ===== verification/GatewayProxy.thy ===== *)
theory GatewayProxy
  imports GatewayClient
begin

text \<open>
  \<open>internal/infra/gateway/http_proxy.go\<close> and \<open>websocket_proxy.go\<close>: the relay of HTTP requests and
  of WebSocket frames to the gateway.
\<close>

section \<open>HTTP\<close>

definition hop_by_hop_headers :: "string list" where
  "hop_by_hop_headers =
     [''connection'', ''keep-alive'', ''proxy-authenticate'', ''proxy-authorization'', ''te'', ''trailers'',
      ''transfer-encoding'', ''upgrade'']"

definition is_hop_by_hop_header :: "string \<Rightarrow> bool" where
  "is_hop_by_hop_header key \<longleftrightarrow> to_lower key \<in> set hop_by_hop_headers"

text \<open>The keys of the source header are distinct, so the order of the loop over it does not matter.\<close>

definition copy_forward_headers :: "header \<Rightarrow> header \<Rightarrow> header" where
  "copy_forward_headers dst src =
     fold (\<lambda>(key, values) h. if is_hop_by_hop_header key then h else fold (header_add key) values h) src dst"

text \<open>\<open>http.Error\<close>: the text with a newline, as plain text that must not be sniffed.\<close>

definition http_error :: "header \<Rightarrow> string \<Rightarrow> nat \<Rightarrow> http_reply" where
  "http_error h msg status =
     \<lparr>rp_status = status,
      rp_header = header_set ''X-Content-Type-Options'' ''nosniff''
        (header_set ''Content-Type'' ''text/plain; charset=utf-8''
          (AList.delete ''Content-Length'' h)),
      rp_body = RawBody (msg @ [CHR 0x0A])\<rparr>"

definition proxy_target :: "gateway \<Rightarrow> http_request \<Rightarrow> url" where
  "proxy_target g r = (gateway_target g (rq_path r))\<lparr>url_raw_query := rq_raw_query r\<rparr>"

definition proxy_request :: "gateway \<Rightarrow> http_request \<Rightarrow> wire_request" where
  "proxy_request g r =
     \<lparr>wq_method = rq_method r, wq_url = url_string (proxy_target g r),
      wq_host = (if rq_host r \<noteq> [] then rq_host r else url_host (gt_http_target g)),
      wq_header = apply_auth g (copy_forward_headers [] (rq_header r)),
      wq_body = (case rq_body r of
          Some b \<Rightarrow> if rq_length r \<noteq> 0 then Bytes b else NoBody
        | None \<Rightarrow> NoBody)\<rparr>"

text \<open>
  \<open>h0\<close> is the header the reply has so far. The body is streamed: when reading it fails the status
  is already sent, and the reply ends where the reading did.
\<close>

definition proxy_http :: "'w network \<Rightarrow> gateway \<Rightarrow> header \<Rightarrow> http_request \<Rightarrow> 'w \<Rightarrow> http_reply \<times> 'w" where
  "proxy_http net g h0 r =
     (case net_build net (rq_method r) (url_string (proxy_target g r)) of
        Some e \<Rightarrow> give (http_error h0 ''gateway proxy request failed'' StatusBadGateway)
      | None \<Rightarrow>
          after (http_client_do net g (proxy_request g r)) (\<lambda>res. give (case res of
            Inl e \<Rightarrow> http_error h0 ''gateway proxy request failed'' StatusBadGateway
          | Inr resp \<Rightarrow>
              \<lparr>rp_status = wr_status resp, rp_header = copy_forward_headers h0 (wr_header resp),
               rp_body = RawBody (wr_body resp)\<rparr>)))"

section \<open>WebSockets\<close>

definition requested_subprotocols :: "header \<Rightarrow> string list" where
  "requested_subprotocols h =
     concat (map (\<lambda>v. filter (\<lambda>p. p \<noteq> []) (map trim_space (split_on CHR '','' v)))
       (header_values h ''Sec-WebSocket-Protocol''))"

text \<open>
  The errors a connection can give: the peer closed it with a status, the context was cancelled,
  or anything else.
\<close>

datatype ws_error = WsClosed nat | WsCancelled | WsFailed go_error

definition status_normal_closure :: nat where "status_normal_closure = 1000"
definition status_internal_error :: nat where "status_internal_error = 1011"

fun close_status :: "ws_error option \<Rightarrow> nat \<times> string" where
  "close_status None = (status_normal_closure, [])"
| "close_status (Some (WsClosed status)) = (status, [])"
| "close_status (Some WsCancelled) = (status_normal_closure, [])"
| "close_status (Some (WsFailed e)) = (status_internal_error, [])"

text \<open>
  The bridge once both connections are up. Each of its two goroutines reads a frame from one
  side and writes it to the other until an error; the request ends with the error that is
  reported first, and the other goroutine is cancelled. A frame is its type and its data.
  A goroutine is between two frames, holds the one it has read, or has ended.
\<close>

datatype message_type = MessageText | MessageBinary

type_synonym ws_frame = "message_type \<times> string"

datatype pump_point = Reading | Writing ws_frame | Ended ws_error

text \<open>
  One direction: the frames that have been read, those that have been written, and the point the
  goroutine is at. What a read gives and whether a write fails is up to the network.
\<close>

record pump =
  pm_read :: "ws_frame list"
  pm_written :: "ws_frame list"
  pm_at :: pump_point

definition new_pump :: pump where
  "new_pump = \<lparr>pm_read = [], pm_written = [], pm_at = Reading\<rparr>"

text \<open>One step of \<open>pumpWS\<close>; the event says what the network did.\<close>

datatype pump_event = ReadFrame ws_frame | ReadError ws_error | WriteDone | WriteError ws_error

definition pump_step :: "pump_event \<Rightarrow> pump \<Rightarrow> pump option" where
  "pump_step ev p =
     (case (pm_at p, ev) of
        (Reading, ReadFrame f) \<Rightarrow> Some (p\<lparr>pm_read := pm_read p @ [f], pm_at := Writing f\<rparr>)
      | (Reading, ReadError e) \<Rightarrow> Some (p\<lparr>pm_at := Ended e\<rparr>)
      | (Writing f, WriteDone) \<Rightarrow> Some (p\<lparr>pm_written := pm_written p @ [f], pm_at := Reading\<rparr>)
      | (Writing f, WriteError e) \<Rightarrow> Some (p\<lparr>pm_at := Ended e\<rparr>)
      | _ \<Rightarrow> None)"

text \<open>
  The bridge: the pump to the gateway, the pump to the client, the errors in the channel in the
  order they were sent, and the close frames sent to both sides once the first was received.
\<close>

record bridge =
  br_up :: pump
  br_down :: pump
  br_errs :: "ws_error list"
  br_closed :: "(nat \<times> string) option"

definition new_bridge :: bridge where
  "new_bridge = \<lparr>br_up = new_pump, br_down = new_pump, br_errs = [], br_closed = None\<rparr>"

definition ended_with :: "pump \<Rightarrow> ws_error list" where
  "ended_with p = (case pm_at p of Ended e \<Rightarrow> [e] | _ \<Rightarrow> [])"

inductive bridge_step :: "bridge \<Rightarrow> bridge \<Rightarrow> bool" where
  step_up: "pump_step ev (br_up b) = Some p \<Longrightarrow>
    bridge_step b (b\<lparr>br_up := p, br_errs := br_errs b @ ended_with p\<rparr>)"
| step_down: "pump_step ev (br_down b) = Some p \<Longrightarrow>
    bridge_step b (b\<lparr>br_down := p, br_errs := br_errs b @ ended_with p\<rparr>)"
| step_close: "br_closed b = None \<Longrightarrow> br_errs b = e # es \<Longrightarrow>
    bridge_step b (b\<lparr>br_closed := Some (close_status (Some e))\<rparr>)"

inductive_cases bridge_stepE: "bridge_step b b'"

definition bridge_reachable :: "bridge \<Rightarrow> bool" where
  "bridge_reachable b \<longleftrightarrow> bridge_step\<^sup>*\<^sup>* new_bridge b"

text \<open>
  The handler around the bridge: dial first, offer the caller the subprotocol the gateway chose.
  \<open>dial\<close> and \<open>accept\<close> stand for the library.
\<close>

record 'w ws_library =
  wl_dial :: "string \<Rightarrow> header \<Rightarrow> string list \<Rightarrow> 'w \<Rightarrow> (go_error, string) result \<times> 'w"
  wl_accept :: "string list \<Rightarrow> http_request \<Rightarrow> 'w \<Rightarrow> go_error option \<times> 'w"
  wl_bridge :: "'w \<Rightarrow> 'w"

definition ws_target_url :: "gateway \<Rightarrow> http_request \<Rightarrow> string" where
  "ws_target_url g r = url_string ((gt_ws_target g)
     \<lparr>url_path := single_joining_slash (url_path (gt_ws_target g)) (rq_path r), url_raw_query := rq_raw_query r\<rparr>)"

text \<open>When the handshake with the caller fails the library has written the reply itself.\<close>

definition proxy_websocket ::
  "'w ws_library \<Rightarrow> gateway \<Rightarrow> header \<Rightarrow> http_request \<Rightarrow> 'w \<Rightarrow> proxy_outcome \<times> 'w" where
  "proxy_websocket lib g h0 r =
     after (wl_dial lib (ws_target_url g r) (auth_header g) (requested_subprotocols (rq_header r))) (\<lambda>d. case d of
       Inl e \<Rightarrow> give (Replied (http_error h0 ''gateway websocket dial failed'' StatusBadGateway))
     | Inr negotiated \<Rightarrow>
         after (wl_accept lib (if negotiated \<noteq> [] then [negotiated] else []) r) (\<lambda>a. case a of
           Some e \<Rightarrow> give TakenOver
         | None \<Rightarrow> (\<lambda>w. (TakenOver, wl_bridge lib w))))"

section \<open>The gateway as a port\<close>

definition gateway_port ::
  "'w network \<Rightarrow> 'w ws_library \<Rightarrow> (string \<Rightarrow> string) \<Rightarrow> gateway \<Rightarrow> 'w gateway_port" where
  "gateway_port net lib err_of g =
     \<lparr>gw_create_session = \<lambda>ctx. client_create_session net err_of g,
      gw_list_sessions = \<lambda>ctx. client_list_sessions net err_of g,
      gw_get_session = \<lambda>ctx. client_get_session net err_of g,
      gw_update_session = \<lambda>ctx. client_update_session net err_of g,
      gw_delete_session = \<lambda>ctx. client_delete_session net g,
      gw_create_kernel = \<lambda>ctx. client_create_kernel net err_of g,
      gw_list_kernels = \<lambda>ctx. client_list_kernels net err_of g,
      gw_get_kernel = \<lambda>ctx. client_get_kernel net err_of g,
      gw_delete_kernel = \<lambda>ctx. client_delete_kernel net g,
      gw_interrupt_kernel = \<lambda>ctx. client_interrupt_kernel net g,
      gw_restart_kernel = \<lambda>ctx. client_restart_kernel net err_of g,
      gw_list_kernel_specs = \<lambda>ctx. client_list_kernel_specs net err_of g,
      gw_get_kernel_spec = \<lambda>ctx. client_get_kernel_spec net err_of g,
      gw_get_kernel_spec_resource = \<lambda>ctx. client_get_kernel_spec_resource net g,
      gw_proxy_http = proxy_http net g,
      gw_proxy_websocket = proxy_websocket lib g\<rparr>"

end
