(* ===== verification/GatewayGuarantees.thy ===== *)
theory GatewayGuarantees
  imports PersistingGateway GatewayProxy "HOL-Library.Multiset"
begin

text \<open>
  What the gateway client and its wrappers promise: the session table follows the gateway, retries
  are bounded, ids and headers on the wire, and the order of relayed frames.
\<close>

section \<open>Logged networks\<close>

text \<open>The network with a log of what is sent and how long is waited.\<close>

datatype net_event = Sent wire_request | Waited nat

definition logged :: "'w network \<Rightarrow> ('w \<times> net_event list) network" where
  "logged net =
     \<lparr>net_build = net_build net,
      net_round_trip = \<lambda>req (w, log). (case net_round_trip net req w of (r, w1) \<Rightarrow> (r, (w1, log @ [Sent req]))),
      net_wait = \<lambda>ms (w, log). (case net_wait net ms w of (r, w1) \<Rightarrow> (r, (w1, log @ [Waited ms]))),
      net_do = \<lambda>t. t\<rparr>"

definition sent_in :: "net_event list \<Rightarrow> wire_request list" where
  "sent_in log = concat (map (\<lambda>ev. case ev of Sent req \<Rightarrow> [req] | Waited ms \<Rightarrow> []) log)"

definition waited_in :: "net_event list \<Rightarrow> nat" where
  "waited_in log = sum_list (map (\<lambda>ev. case ev of Sent req \<Rightarrow> 0 | Waited ms \<Rightarrow> ms) log)"

lemma log_simps [simp]:
  "sent_in (xs @ ys) = sent_in xs @ sent_in ys" "sent_in (Sent req # xs) = req # sent_in xs"
  "sent_in (Waited ms # xs) = sent_in xs" "sent_in [] = []"
  "waited_in (xs @ ys) = waited_in xs + waited_in ys" "waited_in (Sent req # xs) = waited_in xs"
  "waited_in (Waited ms # xs) = ms + waited_in xs" "waited_in [] = 0"
  by (simp_all add: sent_in_def waited_in_def)

lemma spent_spent [simp]: "spent (spent b) = spent b"
  by (simp add: spent_def)

lemma logged_simps [simp]:
  "net_round_trip (logged net) req (w, log) = (case net_round_trip net req w of (r, w1) \<Rightarrow> (r, (w1, log @ [Sent req])))"
  "net_wait (logged net) ms (w, log) = (case net_wait net ms w of (r, w1) \<Rightarrow> (r, (w1, log @ [Waited ms])))"
  by (simp_all add: logged_def)

text \<open>
  From attempt number \<open>a\<close> on the loop sends at most one request for each attempt left and one
  more, the repeated ones with a spent body, and waits less than the power of two after the limit.
\<close>

lemma retry_loop_log:
  assumes "retry_loop (logged net) limit retriable a req (w, log) = (r, (w', log'))" "0 \<le> a"
  shows "\<exists>new n. log' = log @ new \<and> sent_in new = req # replicate n (req\<lparr>wq_body := spent (wq_body req)\<rparr>) \<and>
    n \<le> nat (limit - a) \<and> waited_in new + 100 * 2 ^ nat a \<le> 100 * 2 ^ nat (max a limit) \<and>
    (\<not> retriable \<longrightarrow> new = [Sent req])"
  using assms
proof (induction "nat (limit - a)" arbitrary: a req w log)
  case 0
  obtain x w1 where x: "net_round_trip net req w = (x, w1)" by (cases "net_round_trip net req w")
  from 0 x have "log' = log @ [Sent req]" by (subst (asm) retry_loop.simps) auto
  with 0 show ?case by (intro exI [of _ "[Sent req]"] exI [of _ 0]) (simp add: max_def)
next
  case (Suc n)
  have lt: "a < limit" using Suc.hyps(2) by simp
  obtain x w1 where x: "net_round_trip net req w = (x, w1)" by (cases "net_round_trip net req w")
  obtain y w2 where y: "net_wait net (backoff_ms a) w1 = (y, w2)" by (cases "net_wait net (backoff_ms a) w1")
  define req1 where "req1 = req\<lparr>wq_body := spent (wq_body req)\<rparr>"
  have two: "(2::nat) ^ nat (a + 1) = 2 * 2 ^ nat a" using Suc.prems(2) by (simp add: nat_add_distrib)
  have mono: "(2::nat) ^ nat (a + 1) \<le> 2 ^ nat limit" using lt by (intro power_increasing) simp_all
  show ?case
  proof (cases "\<not> retriable \<or> (case x of Inr resp \<Rightarrow> \<not> is_retriable_status (wr_status resp) | Inl e \<Rightarrow> False)")
    case True
    with Suc.prems x lt have "log' = log @ [Sent req]" by (subst (asm) retry_loop.simps) (auto split: if_splits)
    with lt two mono show ?thesis by (intro exI [of _ "[Sent req]"] exI [of _ 0]) (simp add: max_def)
  next
    case again: False
    show ?thesis
    proof (cases y)
      case (Some e)
      with Suc.prems x y lt again have "log' = log @ [Sent req, Waited (backoff_ms a)]"
        by (subst (asm) retry_loop.simps) (auto split: if_splits)
      with lt two mono again show ?thesis
        by (intro exI [of _ "[Sent req, Waited (backoff_ms a)]"] exI [of _ 0]) (simp add: max_def backoff_ms_def)
    next
      case None
      with Suc.prems x y lt again
      have "retry_loop (logged net) limit retriable (a + 1) req1 (w2, log @ [Sent req, Waited (backoff_ms a)]) = (r, (w', log'))"
        by (subst (asm) retry_loop.simps) (auto simp: req1_def split: if_splits)
      from Suc.hyps(1) [OF _ this] Suc.hyps(2) Suc.prems(2) obtain new m where
        IH: "log' = log @ [Sent req, Waited (backoff_ms a)] @ new"
          "sent_in new = req1 # replicate m (req1\<lparr>wq_body := spent (wq_body req1)\<rparr>)"
          "m \<le> nat (limit - (a + 1))" "waited_in new + 100 * 2 ^ nat (a + 1) \<le> 100 * 2 ^ nat (max (a + 1) limit)"
        by fastforce
      have "req1\<lparr>wq_body := spent (wq_body req1)\<rparr> = req1" by (simp add: req1_def)
      with IH lt two again Suc.hyps(2) show ?thesis
        by (intro exI [of _ "[Sent req, Waited (backoff_ms a)] @ new"] exI [of _ "Suc m"])
          (simp add: req1_def backoff_ms_def max_def split: if_splits)
    qed
  qed
qed

lemma max_retries_range:
  "new_optional_gateway env cfg = Inr (Some g) \<Longrightarrow> 0 \<le> gt_max_retries g \<and> gt_max_retries g \<le> 10"
  by (auto simp: new_optional_gateway_def Let_def default_max_retries_def max_retries_cap_def
      split: if_splits sum.splits)

section \<open>The session table\<close>

text \<open>
  C27. The wrapper with the in-memory session store is transparent, and the table follows the
  gateway: for every gateway and every sequence of calls the caller gets what the gateway alone
  would have answered, the gateway sees the same calls, and the rows are those of before with
  the effect of each answer: the row of a created or updated session, none for a deleted one.
\<close>

theorem sessions_follow_the_gateway:
  assumes "mem_sessions_ok s"
    and "wrap_with_session_store (Some (gateway_of gw)) (Some (store_of (mem_session_store id))) = Some port"
    and "call_all port cs (g, s) = (rs, (g', s'))"
  shows "call_all gw cs g = (rs, g') \<and> mem_live s' = fold row_effect (zip cs rs) (mem_live s) \<and> mem_sessions_ok s'"
proof -
  have "port = persisting_gateway (gateway_of gw) (store_of (mem_session_store id))"
    using assms(2) by (simp add: wrap_with_session_store_def)
  with assms(3) show ?thesis using mem_obedient.persisting_calls [OF assms(1)] by simp
qed

text \<open>
  C28. An update forgets what only the creation knew: after a successful update the row of the
  session has no cluster and no custom environment, and when the update carried no identity it
  has no owner either.
\<close>

theorem update_forgets_the_creation:
  assumes "mem_sessions_ok s" "se_id sess \<noteq> []"
    and "wrap_with_session_store (Some (gateway_of gw)) (Some (store_of (mem_session_store id))) = Some port"
    and "call_gateway port (UpdateSession ctx k req) (g, s) = (SessionR (Inr sess), (g', s'))"
  shows "\<exists>row. mem_live s' (se_id sess) = Some row \<and> row_cluster row = [] \<and> row_custom_envs row = None \<and>
    (cx_identity ctx \<noteq> None \<or> row_owner_uin row = [] \<and> row_app_id row = [])"
proof -
  define row where "row = record_from_gateway sess (fst (request_context_from ctx))"
  have row: "row_session_id row = se_id sess" "row_cluster row = []" "row_custom_envs row = None"
    "cx_identity ctx \<noteq> None \<or> row_owner_uin row = [] \<and> row_app_id row = []"
    by (auto simp: row_def record_from_gateway_def Let_def request_context_from_def empty_context_def split: option.splits)
  have port: "port = persisting_gateway (gateway_of gw) (store_of (mem_session_store id))"
    using assms(3) by (simp add: wrap_with_session_store_def)
  have "mem_live s' = row_effect (UpdateSession ctx k req, SessionR (Inr sess)) (mem_live s)"
    using mem_obedient.persisting_call [OF assms(1) assms(4) [unfolded port]] by simp
  then have "mem_live s' (se_id sess) = Some row" using assms(2) row(1) by (simp add: row_put_def row_def [symmetric])
  with row show ?thesis by blast
qed

section \<open>Retries\<close>

text \<open>
  C29. However the network behaves, a request through a configured gateway is sent at most eleven
  times, and the waits between the attempts add up to less than 102.4 seconds. Only \<open>GET\<close> and
  \<open>DELETE\<close> are repeated. Each repetition is the first request, except that a body it had is spent.
\<close>

theorem retries_are_bounded:
  assumes "new_optional_gateway env cfg = Inr (Some g)"
    and "retrying_round_trip (logged net) (gt_max_retries g) req (w, []) = (r, (w', log))"
  shows "\<exists>n \<le> 10. sent_in log = req # replicate n (req\<lparr>wq_body := spent (wq_body req)\<rparr>) \<and> waited_in log < 102400 \<and>
    (wq_method req = ''GET'' \<or> wq_method req = ''DELETE'' \<or> log = [Sent req])"
proof -
  have range: "0 \<le> gt_max_retries g" "gt_max_retries g \<le> 10" using max_retries_range [OF assms(1)] by simp_all
  from retry_loop_log [OF assms(2) [unfolded retrying_round_trip_def]] obtain n where
    n: "sent_in log = req # replicate n (req\<lparr>wq_body := spent (wq_body req)\<rparr>)" "n \<le> nat (gt_max_retries g)"
      "waited_in log + 100 \<le> 100 * 2 ^ nat (gt_max_retries g)"
      "wq_method req = ''GET'' \<or> wq_method req = ''DELETE'' \<or> log = [Sent req]"
    using range by (auto simp: max_def)
  have "(2::nat) ^ nat (gt_max_retries g) \<le> 2 ^ 10" using range by (intro power_increasing) simp_all
  then have "waited_in log < 102400" using n(3) by simp
  moreover have "n \<le> 10" using n(2) range by linarith
  ultimately show ?thesis using n by blast
qed

section \<open>Ids and headers on the wire\<close>

lemma single_joining_slash_length: "length b \<le> Suc (length (single_joining_slash a b))"
  by (auto simp: single_joining_slash_def Let_def)

lemma url_escape_length: "length (url_escape p s) = length s + 2 * length (filter p s)"
  by (induction s) (simp_all add: url_escape_def escape_byte_def)

lemma path_escape_fixed: "path_escape k = k \<longleftrightarrow> (\<forall>c \<in> set k. \<not> escape_in_segment c)"
proof
  assume "path_escape k = k"
  then have "filter escape_in_segment k = []"
    using url_escape_length [of escape_in_segment k] by (simp add: path_escape_def)
  then show "\<forall>c \<in> set k. \<not> escape_in_segment c" by (simp add: filter_empty_conv)
qed (simp add: path_escape_def url_escape_id list_all_iff)

text \<open>
  C30. A session id is escaped before it becomes part of the path, and the path is escaped again
  when the URL is written: the gateway decodes the escaped id. It is the id itself exactly when
  no byte of it needs an escape, and it is always a single segment.
\<close>

theorem session_id_on_the_wire:
  assumes "url_raw_path (gt_http_target g) = []"
  shows "path_unescape (escaped_path (gateway_target g (session_path k))) =
      Some (single_joining_slash (url_path (gt_http_target g)) (sessions_endpoint @ ''/'' @ path_escape k)) \<and>
    (path_escape k = k \<longleftrightarrow> (\<forall>c \<in> set k. \<not> escape_in_segment c)) \<and> CHR ''/'' \<notin> set (path_escape k)"
proof -
  define p where "p = single_joining_slash (url_path (gt_http_target g)) (session_path k)"
  have "13 \<le> length (session_path k)" by (simp add: session_path_def sessions_endpoint_def)
  then have "p \<noteq> ''*''"
    using single_joining_slash_length [of "session_path k" "url_path (gt_http_target g)"] by (auto simp: p_def)
  then have "escaped_path (gateway_target g (session_path k)) = url_escape escape_in_path p"
    using assms by (simp add: escaped_path_def gateway_target_def p_def)
  then show ?thesis
    using path_escape_segment [of "CHR ''/''" k] path_escape_fixed [of k]
    by (auto simp: path_unescape_escape p_def session_path_def)
qed

text \<open>The headers of a request the server has read: canonical keys, each once.\<close>

definition header_ok :: "header \<Rightarrow> bool" where
  "header_ok h \<longleftrightarrow> distinct (map fst h) \<and> (\<forall>k \<in> fst ` set h. canonical_key k = k)"

lemma header_values_fold_add:
  "header_values (fold (header_add key) vs h) k =
     header_values h k @ (if canonical_key key = canonical_key k then vs else [])"
  by (induction vs arbitrary: h) (simp_all add: header_values_add)

lemma header_values_copy:
  assumes "header_ok src"
  shows "header_values (copy_forward_headers dst src) k =
    header_values dst k @ (if is_hop_by_hop_header (canonical_key k) then [] else header_values src k)"
  using assms
proof (induction src arbitrary: dst)
  case Nil
  then show ?case by (simp add: copy_forward_headers_def header_values_def)
next
  case (Cons e src)
  obtain key vs where e: "e = (key, vs)" by (cases e)
  have ok: "header_ok src" and key: "canonical_key key = key" "key \<notin> fst ` set src"
    using Cons.prems by (auto simp: header_ok_def e)
  have step: "copy_forward_headers dst (e # src) =
      copy_forward_headers (if is_hop_by_hop_header key then dst else fold (header_add key) vs dst) src"
    by (simp add: copy_forward_headers_def e)
  have "map_of src (canonical_key k) = None" if "key = canonical_key k"
    using key(2) that by (simp add: map_of_eq_None_iff)
  then show ?case
    unfolding step Cons.IH [OF ok] using key(1)
    by (auto simp: header_values_fold_add) (auto simp: header_values_def e)
qed

lemma header_values_static:
  "canonical_key k \<notin> canonical_key ` fst ` set kvs \<Longrightarrow>
   header_values (fold (\<lambda>(k, v). header_set k v) kvs h) k = header_values h k"
  by (induction kvs arbitrary: h) (auto simp: header_values_set)

lemma header_values_auth:
  "gt_auth_value g \<noteq> [] \<Longrightarrow> header_values (apply_auth g h) (gt_auth_header_key g) = [gt_auth_value g]"
  "canonical_key k \<notin> canonical_key ` fst ` set (gt_headers g) \<Longrightarrow>
   gt_auth_value g = [] \<or> canonical_key (gt_auth_header_key g) \<noteq> canonical_key k \<Longrightarrow>
   header_values (apply_auth g h) k = header_values h k"
  by (auto simp: apply_auth_def Let_def header_values_set header_values_static)

text \<open>
  C31. A proxied request carries the configured authorization and never the caller's in its
  place; every other header that the configuration does not set is the caller's, value by value,
  unless it is in the table of hop-by-hop headers: then it is absent.
\<close>

theorem proxied_headers:
  assumes "header_ok (rq_header r)"
  shows "(gt_auth_value g = [] \<or>
      header_values (wq_header (proxy_request g r)) (gt_auth_header_key g) = [gt_auth_value g]) \<and>
    (\<forall>k. canonical_key k \<in> canonical_key ` fst ` set (gt_headers g) \<or>
      gt_auth_value g \<noteq> [] \<and> canonical_key (gt_auth_header_key g) = canonical_key k \<or>
      header_values (wq_header (proxy_request g r)) k =
        (if is_hop_by_hop_header (canonical_key k) then [] else header_values (rq_header r) k))"
proof -
  have nil: "header_values [] k = []" for k by (simp add: header_values_def)
  have "wq_header (proxy_request g r) = apply_auth g (copy_forward_headers [] (rq_header r))"
    by (simp add: proxy_request_def)
  moreover have "header_values (apply_auth g (copy_forward_headers [] (rq_header r))) k =
      (if is_hop_by_hop_header (canonical_key k) then [] else header_values (rq_header r) k)"
    if "canonical_key k \<notin> canonical_key ` fst ` set (gt_headers g)"
      "gt_auth_value g = [] \<or> canonical_key (gt_auth_header_key g) \<noteq> canonical_key k" for k
    using header_values_auth(2) [OF that] header_values_copy [OF assms, of "[]"] by (simp add: nil)
  ultimately show ?thesis using header_values_auth(1) [of g] by metis
qed

section \<open>Frames\<close>

text \<open>
  The frames a pump has written are those it has read, in order, but for the one it holds; what an
  ended pump has not written is at most the last frame it read.
\<close>

definition pump_ok :: "pump \<Rightarrow> bool" where
  "pump_ok p \<longleftrightarrow> (case pm_at p of
      Reading \<Rightarrow> pm_written p = pm_read p
    | Writing f \<Rightarrow> pm_read p = pm_written p @ [f]
    | Ended e \<Rightarrow> pm_written p = pm_read p \<or> (\<exists>f. pm_read p = pm_written p @ [f]))"

lemma pump_step_ok: "pump_step ev p = Some p' \<Longrightarrow> pump_ok p \<Longrightarrow> pump_ok p' \<and> ended_with p = []"
  by (cases "pm_at p"; cases ev) (auto simp: pump_step_def pump_ok_def ended_with_def)

definition bridge_ok :: "bridge \<Rightarrow> bool" where
  "bridge_ok b \<longleftrightarrow> pump_ok (br_up b) \<and> pump_ok (br_down b) \<and>
     mset (br_errs b) = mset (ended_with (br_up b)) + mset (ended_with (br_down b)) \<and>
     (case br_closed b of None \<Rightarrow> True
      | Some s \<Rightarrow> br_errs b \<noteq> [] \<and> s = close_status (Some (hd (br_errs b))))"

lemma bridge_step_ok: "bridge_step b b' \<Longrightarrow> bridge_ok b \<Longrightarrow> bridge_ok b'"
proof (induction rule: bridge_step.induct)
  case (step_up ev b p)
  with pump_step_ok [OF step_up(1)] show ?case by (auto simp: bridge_ok_def hd_append split: option.splits)
next
  case (step_down ev b p)
  with pump_step_ok [OF step_down(1)] show ?case by (auto simp: bridge_ok_def hd_append split: option.splits)
next
  case (step_close b e es)
  then show ?case by (simp add: bridge_ok_def)
qed

lemma bridge_reachable_ok: "bridge_reachable b \<Longrightarrow> bridge_ok b"
  unfolding bridge_reachable_def
  by (induction rule: rtranclp_induct)
    (auto simp: bridge_ok_def new_bridge_def new_pump_def pump_ok_def ended_with_def dest: bridge_step_ok)

lemma pump_ok_prefix: "pump_ok p \<Longrightarrow> prefix (pm_written p) (pm_read p) \<and> length (pm_read p) \<le> Suc (length (pm_written p))"
  by (cases "pm_at p") (auto simp: pump_ok_def)

text \<open>
  C32. Under every interleaving of the two goroutines of a bridge the frames written to one side are
  a prefix of the frames read from the other, with at most one frame in flight; at most one error
  per direction is reported, and both sides are closed with the status of the first.
\<close>

theorem frames_are_relayed_in_order:
  assumes "bridge_reachable b"
  shows "prefix (pm_written (br_up b)) (pm_read (br_up b)) \<and> length (pm_read (br_up b)) \<le> Suc (length (pm_written (br_up b))) \<and>
    prefix (pm_written (br_down b)) (pm_read (br_down b)) \<and>
    length (pm_read (br_down b)) \<le> Suc (length (pm_written (br_down b))) \<and>
    length (br_errs b) \<le> 2 \<and>
    (br_closed b = None \<or> br_errs b \<noteq> [] \<and> br_closed b = Some (close_status (Some (hd (br_errs b)))))"
proof -
  have ok: "bridge_ok b" using assms by (rule bridge_reachable_ok)
  have "length (ended_with p) \<le> 1" for p by (simp add: ended_with_def split: pump_point.split)
  moreover have "length (br_errs b) = length (ended_with (br_up b)) + length (ended_with (br_down b))"
    using ok by (simp add: bridge_ok_def) (metis size_mset size_union)
  ultimately have "length (br_errs b) \<le> 2" by (metis add_mono one_add_one)
  with ok pump_ok_prefix show ?thesis by (auto simp: bridge_ok_def split: option.splits)
qed

end
