(* ===== verification/GatewayRuns.thy ===== *)
theory GatewayRuns
  imports GatewayGuarantees
begin

text \<open>
  The gateway properties on concrete runs: a gateway that echoes, one that is unavailable, a
  configured client and a bridge.
\<close>

section \<open>A gateway that echoes\<close>

definition gateway_off :: "'w \<Rightarrow> (gateway_error, 'a) result \<times> 'w" where
  "gateway_off = give (Inl (GatewayFailure (text_error ''gateway is off'')))"

definition echo_session :: "string \<Rightarrow> session" where
  "echo_session n = \<lparr>se_id = ''s1'', se_path = ''a.ipynb'', se_name = n, se_type = ''notebook'', se_kernel = None\<rparr>"

definition echo_gateway :: "nat gateway_port" where
  "echo_gateway =
     \<lparr>gw_create_session = \<lambda>ctx req n. (Inr (echo_session (cs_name req)), Suc n),
      gw_list_sessions = \<lambda>ctx. gateway_off,
      gw_get_session = \<lambda>ctx k. gateway_off,
      gw_update_session = \<lambda>ctx k req n. (Inr (echo_session ''new''), Suc n),
      gw_delete_session = \<lambda>ctx k n. (None, Suc n),
      gw_create_kernel = \<lambda>ctx req. gateway_off,
      gw_list_kernels = \<lambda>ctx. gateway_off,
      gw_get_kernel = \<lambda>ctx k. gateway_off,
      gw_delete_kernel = \<lambda>ctx k. give None,
      gw_interrupt_kernel = \<lambda>ctx k. give None,
      gw_restart_kernel = \<lambda>ctx k. gateway_off,
      gw_list_kernel_specs = \<lambda>ctx. gateway_off,
      gw_get_kernel_spec = \<lambda>ctx n. gateway_off,
      gw_get_kernel_spec_resource = \<lambda>ctx p. gateway_off,
      gw_proxy_http = \<lambda>h r. give (http_error h ''off'' StatusBadGateway),
      gw_proxy_websocket = \<lambda>h r. give TakenOver\<rparr>"

definition user_ctx :: go_ctx where
  "user_ctx = \<lparr>cx_identity = Some \<lparr>rc_owner_uin = ''o'', rc_uin = ''u'', rc_app_id = ''a'', rc_workspace_id = ''w''\<rparr>,
     cx_request_id = None\<rparr>"

definition no_ctx :: go_ctx where
  "no_ctx = \<lparr>cx_identity = None, cx_request_id = None\<rparr>"

definition echo_calls :: "gateway_call list" where
  "echo_calls = [CreateSession user_ctx (zero_create_session\<lparr>cs_name := ''n'', cs_cluster := ''c1''\<rparr>), ListSessions no_ctx]"

definition echo_port :: "(nat \<times> mem_sessions) gateway_port" where
  "echo_port = persisting_gateway (gateway_of echo_gateway) (store_of (mem_session_store id))"

lemma echo_port_wrapped:
  "wrap_with_session_store (Some (gateway_of echo_gateway)) (Some (store_of (mem_session_store id))) = Some echo_port"
  by (simp add: wrap_with_session_store_def echo_port_def)

definition echo_run :: "call_result list \<times> nat \<times> mem_sessions" where
  "echo_run = call_all echo_port echo_calls (0, new_mem_sessions)"

definition row_of :: "call_result list \<times> nat \<times> mem_sessions \<Rightarrow> string \<Rightarrow> (string \<times> string \<times> string) option" where
  "row_of run k = map_option (\<lambda>r. (row_name r, row_cluster r, row_owner_uin r)) (mem_live (snd (snd run)) k)"

lemma echo_run_row: "row_of echo_run ''s1'' = Some (''n'', ''c1'', ''o'')"
  by code_simp

theorem sessions_follow_the_gateway_witness:
  "\<exists>rs g' s'. echo_run = (rs, (g', s')) \<and> call_all echo_gateway echo_calls 0 = (rs, g') \<and>
     mem_live s' = fold row_effect (zip echo_calls rs) (mem_live new_mem_sessions) \<and>
     row_of echo_run ''s1'' = Some (''n'', ''c1'', ''o'')"
proof -
  obtain rs g' s' where run: "echo_run = (rs, (g', s'))" by (metis prod_cases3)
  from sessions_follow_the_gateway [OF new_mem_sessions_ok echo_port_wrapped run [unfolded echo_run_def]]
  show ?thesis using run echo_run_row by blast
qed

definition echo_update :: "call_result \<times> nat \<times> mem_sessions" where
  "echo_update = call_gateway echo_port (UpdateSession no_ctx ''s1'' zero_update_session) (snd echo_run)"

lemma echo_update_ok: "fst echo_update = SessionR (Inr (echo_session ''new''))"
  by code_simp

lemma echo_run_ok: "mem_sessions_ok (snd (snd echo_run))"
  by code_simp

theorem update_forgets_the_creation_witness:
  "\<exists>row. mem_live (snd (snd echo_update)) ''s1'' = Some row \<and> row_cluster row = [] \<and> row_owner_uin row = []"
proof -
  obtain rs g s where run: "echo_run = (rs, (g, s))" by (metis prod_cases3)
  obtain g' s' where up: "echo_update = (SessionR (Inr (echo_session ''new'')), (g', s'))"
    using echo_update_ok by (metis prod_cases3 fst_conv)
  have ok: "mem_sessions_ok s" using echo_run_ok by (simp add: run)
  have ne: "se_id (echo_session ''new'') \<noteq> []" by (simp add: echo_session_def)
  from update_forgets_the_creation [OF ok ne echo_port_wrapped up [unfolded echo_update_def run snd_conv]]
  show ?thesis by (simp add: up echo_session_def no_ctx_def) blast
qed

section \<open>A configured client\<close>

definition sample_url :: url where
  "sample_url =
     \<lparr>url_scheme = ''http'', url_opaque = [], url_user = None, url_host = ''gw:8888'', url_path = ''/base'',
      url_raw_path = [], url_raw_query = [], url_fragment = []\<rparr>"

definition sample_start :: start_env where
  "sample_start =
     \<lparr>st_parse_url = \<lambda>s. Inr sample_url, st_quote = \<lambda>s. s, st_read_file = \<lambda>p. Inr [], st_has_certs = \<lambda>p. False,
      st_key_pair = \<lambda>c k. None\<rparr>"

definition sample_config :: gateway_config where
  "sample_config =
     \<lparr>gc_url = ''http://gw:8888/base'', gc_ws_url = [], gc_auth_header_key = [], gc_auth_scheme = ''token'',
      gc_auth_token = ''t1'', gc_headers = [(''x-team'', ''ws'')], gc_connect_timeout = 0, gc_request_timeout = 0,
      gc_max_request_retries = -1, gc_validate_cert = True, gc_ca_certs = [], gc_client_cert = [], gc_client_key = []\<rparr>"

definition sample_gateway :: gateway where
  "sample_gateway =
     \<lparr>gt_http_target = sample_url, gt_ws_target = sample_url\<lparr>url_scheme := ''ws''\<rparr>,
      gt_connect_timeout = default_connect_timeout, gt_request_timeout = default_request_timeout, gt_max_retries = 2,
      gt_tls = \<lparr>tc_insecure = False, tc_root_cas = None, tc_certificate = None\<rparr>,
      gt_auth_header_key = ''Authorization'', gt_auth_value = ''token t1'', gt_headers = [(''x-team'', ''ws'')]\<rparr>"

lemma sample_gateway_made: "new_optional_gateway sample_start sample_config = Inr (Some sample_gateway)"
  by code_simp

text \<open>A network whose gateway is unavailable.\<close>

definition busy_network :: "nat network" where
  "busy_network =
     \<lparr>net_build = \<lambda>m u. None,
      net_round_trip = \<lambda>req n. (Inr \<lparr>wr_status = 503, wr_header = [], wr_body = [], wr_read_error = None\<rparr>, Suc n),
      net_wait = \<lambda>ms n. (None, n), net_do = \<lambda>t. t\<rparr>"

definition delete_with_body :: wire_request where
  "delete_with_body =
     \<lparr>wq_method = ''DELETE'', wq_url = ''http://gw:8888/x'', wq_host = ''gw:8888'', wq_header = [], wq_body = Bytes ''data''\<rparr>"

definition busy_run :: "(go_error, wire_response) result \<times> nat \<times> net_event list" where
  "busy_run = retrying_round_trip (logged busy_network) (gt_max_retries sample_gateway) delete_with_body (0, [])"

lemma busy_run_log:
  "snd (snd busy_run) =
     [Sent delete_with_body, Waited 100, Sent (delete_with_body\<lparr>wq_body := SpentBody\<rparr>), Waited 200,
      Sent (delete_with_body\<lparr>wq_body := SpentBody\<rparr>)]"
  by code_simp

theorem retries_are_bounded_witness:
  "\<exists>n \<le> 10. sent_in (snd (snd busy_run)) =
     delete_with_body # replicate n (delete_with_body\<lparr>wq_body := SpentBody\<rparr>) \<and> waited_in (snd (snd busy_run)) < 102400"
proof -
  obtain r w log where run: "busy_run = (r, (w, log))" by (metis prod_cases3)
  have "spent (wq_body delete_with_body) = SpentBody" by (simp add: spent_def delete_with_body_def)
  with retries_are_bounded [OF sample_gateway_made run [unfolded busy_run_def]] show ?thesis by (auto simp: run)
qed

theorem session_id_on_the_wire_witness:
  "path_unescape (escaped_path (gateway_target sample_gateway (session_path ''a b''))) = Some ''/base/api/sessions/a%20b''"
proof -
  have "url_raw_path (gt_http_target sample_gateway) = []" by (simp add: sample_gateway_def sample_url_def)
  from session_id_on_the_wire [OF this, of "''a b''"]
  have "path_unescape (escaped_path (gateway_target sample_gateway (session_path ''a b''))) =
    Some (single_joining_slash (url_path (gt_http_target sample_gateway)) (sessions_endpoint @ ''/'' @ path_escape ''a b''))"
    by blast
  also have "\<dots> = Some ''/base/api/sessions/a%20b''" by code_simp
  finally show ?thesis .
qed

definition caller_request :: http_request where
  "caller_request =
     \<lparr>rq_method = ''GET'', rq_path = ''/api/spark-app/status'', rq_raw_query = [], rq_host = ''ws'',
      rq_header = [(''Authorization'', [''mine'']), (''Connection'', [''close'']), (''Accept'', [''a'', ''b''])],
      rq_params = [], rq_body = None, rq_length = 0, rq_ctx = no_ctx\<rparr>"

lemma caller_keys:
  "header_ok (rq_header caller_request)" "canonical_key ''Accept'' \<notin> canonical_key ` fst ` set (gt_headers sample_gateway)"
  "canonical_key (gt_auth_header_key sample_gateway) \<noteq> canonical_key ''Accept''"
  "\<not> is_hop_by_hop_header (canonical_key ''Accept'')"
  "header_values (rq_header caller_request) ''Accept'' = [''a'', ''b'']"
  "gt_auth_value sample_gateway = ''token t1''"
  by code_simp+

theorem proxied_headers_witness:
  "header_values (wq_header (proxy_request sample_gateway caller_request)) (gt_auth_header_key sample_gateway) = [''token t1''] \<and>
   header_values (wq_header (proxy_request sample_gateway caller_request)) ''Accept'' = [''a'', ''b'']"
proof -
  note headers = proxied_headers [OF caller_keys(1), of sample_gateway]
  from conjunct2 [OF headers, THEN spec, of "''Accept''"] conjunct1 [OF headers] caller_keys show ?thesis by simp
qed

section \<open>A bridge\<close>

definition busy_bridge :: bridge where
  "busy_bridge =
     \<lparr>br_up = \<lparr>pm_read = [(MessageText, ''m1''), (MessageText, ''m2'')], pm_written = [(MessageText, ''m1'')],
              pm_at = Writing (MessageText, ''m2'')\<rparr>,
      br_down = \<lparr>pm_read = [], pm_written = [], pm_at = Ended (WsClosed 1001)\<rparr>,
      br_errs = [WsClosed 1001], br_closed = Some (1001, [])\<rparr>"

text \<open>A run of the bridge, event by event.\<close>

datatype bridge_event = Up pump_event | Down pump_event | Close

definition bridge_do :: "bridge_event \<Rightarrow> bridge \<Rightarrow> bridge" where
  "bridge_do ev b =
     (case ev of
        Up e \<Rightarrow> (case pump_step e (br_up b) of Some p \<Rightarrow> b\<lparr>br_up := p, br_errs := br_errs b @ ended_with p\<rparr> | None \<Rightarrow> b)
      | Down e \<Rightarrow> (case pump_step e (br_down b) of Some p \<Rightarrow> b\<lparr>br_down := p, br_errs := br_errs b @ ended_with p\<rparr> | None \<Rightarrow> b)
      | Close \<Rightarrow> (case br_errs b of
            e # es \<Rightarrow> if br_closed b = None then b\<lparr>br_closed := Some (close_status (Some e))\<rparr> else b
          | [] \<Rightarrow> b))"

lemma bridge_do_step: "bridge_do ev b = b \<or> bridge_step b (bridge_do ev b)"
  by (cases ev) (auto simp: bridge_do_def intro: bridge_step.intros split: option.splits list.splits)

lemma bridge_do_reachable: "bridge_reachable b \<Longrightarrow> bridge_reachable (fold bridge_do evs b)"
proof (induction evs arbitrary: b)
  case (Cons ev evs)
  have "bridge_reachable (bridge_do ev b)"
    using Cons.prems bridge_do_step [of ev b] unfolding bridge_reachable_def by (metis rtranclp.rtrancl_into_rtrancl)
  then show ?case using Cons.IH by simp
qed simp

lemma busy_bridge_reachable: "bridge_reachable busy_bridge"
proof -
  have "bridge_reachable (fold bridge_do
      [Up (ReadFrame (MessageText, ''m1'')), Up WriteDone, Down (ReadError (WsClosed 1001)),
       Up (ReadFrame (MessageText, ''m2'')), Close] new_bridge)"
    by (rule bridge_do_reachable) (simp add: bridge_reachable_def)
  also have "fold bridge_do
      [Up (ReadFrame (MessageText, ''m1'')), Up WriteDone, Down (ReadError (WsClosed 1001)),
       Up (ReadFrame (MessageText, ''m2'')), Close] new_bridge = busy_bridge"
    by code_simp
  finally show ?thesis .
qed

theorem frames_are_relayed_in_order_witness:
  "prefix (pm_written (br_up busy_bridge)) (pm_read (br_up busy_bridge)) \<and>
   length (pm_read (br_up busy_bridge)) \<le> Suc (length (pm_written (br_up busy_bridge))) \<and>
   br_closed busy_bridge = Some (close_status (Some (hd (br_errs busy_bridge))))"
  using frames_are_relayed_in_order [OF busy_bridge_reachable] by (simp add: busy_bridge_def)

end
