(* ===== verification/RequestBinding.thy ===== *)
theory RequestBinding
  imports Http JsonStructs
begin

text \<open>
  \<open>internal/adapter/http/req\<close>: the JSON bodies of the service's own endpoints and the identity of
  the caller. Every body embeds the same block of four identity fields; the block and the
  fields of the endpoint are decoded side by side.
\<close>

section \<open>The identity block\<close>

type_synonym workspace_context = request_context

definition to_identity :: "workspace_context \<Rightarrow> request_context" where
  "to_identity w = normalize
     \<lparr>rc_owner_uin = trim_space (rc_owner_uin w), rc_uin = trim_space (rc_uin w),
      rc_app_id = trim_space (rc_app_id w), rc_workspace_id = trim_space (rc_workspace_id w)\<rparr>"

definition HeaderOwnerUIN :: string where "HeaderOwnerUIN = ''X-Wedata-Owner-Uin''"
definition HeaderUIN :: string where "HeaderUIN = ''X-Wedata-Uin''"
definition HeaderAppID :: string where "HeaderAppID = ''X-Wedata-App-Id''"
definition HeaderWorkspaceID :: string where "HeaderWorkspaceID = ''X-Wedata-Workspace-Id''"

definition resolve_workspace_context :: "header \<Rightarrow> workspace_context \<Rightarrow> (go_error, request_context) result" where
  "resolve_workspace_context h ws =
     (let rc0 = to_identity ws;
          fill = (\<lambda>v k. if v = [] then trim_space (header_get h k) else v);
          rc1 = normalize
            \<lparr>rc_owner_uin = fill (rc_owner_uin rc0) HeaderOwnerUIN, rc_uin = fill (rc_uin rc0) HeaderUIN,
             rc_app_id = fill (rc_app_id rc0) HeaderAppID,
             rc_workspace_id = fill (rc_workspace_id rc0) HeaderWorkspaceID\<rparr>
      in case validate rc1 of Some e \<Rightarrow> Inl e | None \<Rightarrow> Inr rc1)"

definition is_invalid_context :: "go_error \<Rightarrow> bool" where
  "is_invalid_context e = errors_is e ErrInvalidContext"

definition context_fields :: "workspace_context fields" where
  "context_fields =
     [(''owner_uin'', str_field rc_owner_uin_update), (''uin'', str_field rc_uin_update),
      (''app_id'', str_field rc_app_id_update), (''workspace_id'', str_field rc_workspace_id_update)]"

definition decode_body :: "'b fields \<Rightarrow> 'b \<Rightarrow> json \<Rightarrow> (workspace_context \<times> 'b) option" where
  "decode_body own zero j =
     decode_struct
       (map (\<lambda>(n, f). (n, \<lambda>v (ws, b). map_option (\<lambda>ws1. (ws1, b)) (f v ws))) context_fields @
        map (\<lambda>(n, f). (n, \<lambda>v (ws, b). map_option (\<lambda>b1. (ws, b1)) (f v b))) own)
       (empty_context, zero) j"

text \<open>
  \<open>ShouldBindJSON\<close>: an error without a body and for one that does not decode. The request structs
  have no validation tags.
\<close>

definition bind_json :: "(json \<Rightarrow> 'a option) \<Rightarrow> http_request \<Rightarrow> 'a option" where
  "bind_json dec r =
     (case rq_body r of
        None \<Rightarrow> None
      | Some b \<Rightarrow> Option.bind (json_decode_first b) dec)"

section \<open>Bodies of the file endpoints\<close>

record path_body =
  pb_path :: string

record file_body =
  fb_path :: string
  fb_content_base64 :: string
  fb_overwrite :: bool

record notebook_body =
  nb_path :: string
  nb_kernel_name :: string
  nb_overwrite :: bool

record delete_body =
  db_path :: string
  db_soft_delete :: bool
  db_permanent :: bool

record move_body =
  mb_src_path :: string
  mb_dest_path :: string
  mb_overwrite :: bool

record rename_body =
  rb_path :: string
  rb_new_name :: string
  rb_overwrite :: bool

record list_body =
  lb_path :: string
  lb_recursive :: bool

record validate_body =
  vb_parent_path :: string
  vb_name :: string

record restore_body =
  tb_trash_path :: string
  tb_target_parent :: string

definition path_body_of :: "json \<Rightarrow> (workspace_context \<times> path_body) option" where
  "path_body_of = decode_body [(''path'', str_field pb_path_update)] \<lparr>pb_path = []\<rparr>"

definition file_body_of :: "json \<Rightarrow> (workspace_context \<times> file_body) option" where
  "file_body_of = decode_body
     [(''path'', str_field fb_path_update), (''content_base64'', str_field fb_content_base64_update),
      (''overwrite'', bool_field fb_overwrite_update)]
     \<lparr>fb_path = [], fb_content_base64 = [], fb_overwrite = False\<rparr>"

definition notebook_body_of :: "json \<Rightarrow> (workspace_context \<times> notebook_body) option" where
  "notebook_body_of = decode_body
     [(''path'', str_field nb_path_update), (''kernel_name'', str_field nb_kernel_name_update),
      (''overwrite'', bool_field nb_overwrite_update)]
     \<lparr>nb_path = [], nb_kernel_name = [], nb_overwrite = False\<rparr>"

definition delete_body_of :: "json \<Rightarrow> (workspace_context \<times> delete_body) option" where
  "delete_body_of = decode_body
     [(''path'', str_field db_path_update), (''soft_delete'', bool_field db_soft_delete_update),
      (''permanent'', bool_field db_permanent_update)]
     \<lparr>db_path = [], db_soft_delete = False, db_permanent = False\<rparr>"

definition move_body_of :: "json \<Rightarrow> (workspace_context \<times> move_body) option" where
  "move_body_of = decode_body
     [(''src_path'', str_field mb_src_path_update), (''dest_path'', str_field mb_dest_path_update),
      (''overwrite'', bool_field mb_overwrite_update)]
     \<lparr>mb_src_path = [], mb_dest_path = [], mb_overwrite = False\<rparr>"

definition rename_body_of :: "json \<Rightarrow> (workspace_context \<times> rename_body) option" where
  "rename_body_of = decode_body
     [(''path'', str_field rb_path_update), (''new_name'', str_field rb_new_name_update),
      (''overwrite'', bool_field rb_overwrite_update)]
     \<lparr>rb_path = [], rb_new_name = [], rb_overwrite = False\<rparr>"

definition list_body_of :: "json \<Rightarrow> (workspace_context \<times> list_body) option" where
  "list_body_of = decode_body
     [(''path'', str_field lb_path_update), (''recursive'', bool_field lb_recursive_update)]
     \<lparr>lb_path = [], lb_recursive = False\<rparr>"

definition validate_body_of :: "json \<Rightarrow> (workspace_context \<times> validate_body) option" where
  "validate_body_of = decode_body
     [(''parent_path'', str_field vb_parent_path_update), (''name'', str_field vb_name_update)]
     \<lparr>vb_parent_path = [], vb_name = []\<rparr>"

definition restore_body_of :: "json \<Rightarrow> (workspace_context \<times> restore_body) option" where
  "restore_body_of = decode_body
     [(''trash_path'', str_field tb_trash_path_update), (''target_parent'', str_field tb_target_parent_update)]
     \<lparr>tb_trash_path = [], tb_target_parent = []\<rparr>"

definition context_body_of :: "json \<Rightarrow> (workspace_context \<times> unit) option" where
  \<comment> \<open>\<open>ListRecycleBinReq\<close>, \<open>EmptyRecycleBinReq\<close>\<close>
  "context_body_of = decode_body [] ()"

section \<open>Bodies of the git endpoints\<close>

record clone_body =
  cb_repo_url :: string
  cb_target_path :: string
  cb_branch_name :: string

record git_folder_body =
  gb_target_path :: string
  gb_repo_url :: string
  gb_branch :: string
  gb_git_username :: string
  gb_git_token :: string

record sync_body =
  sb_path :: string
  sb_remote_name :: string
  sb_branch :: string
  sb_git_username :: string
  sb_git_token :: string

record commit_body =
  ob_path :: string
  ob_message :: string
  ob_author_name :: string
  ob_author_email :: string

record commit_and_push_body =
  pub_path :: string
  pub_message :: string
  pub_author_name :: string
  pub_author_email :: string
  pub_remote_name :: string
  pub_push :: "bool option"
  pub_git_username :: string
  pub_git_token :: string

record branch_body =
  bb_path :: string
  bb_branch :: string
  bb_flag :: bool

record diff_body =
  ib_path :: string
  ib_file :: string

record history_body =
  hb_path :: string
  hb_limit :: int

record stage_body =
  gab_path :: string
  gab_files :: "string list"
  gab_all :: bool

definition clone_body_of :: "json \<Rightarrow> (workspace_context \<times> clone_body) option" where
  "clone_body_of = decode_body
     [(''repo_url'', str_field cb_repo_url_update), (''target_path'', str_field cb_target_path_update),
      (''branch'', str_field cb_branch_name_update)]
     \<lparr>cb_repo_url = [], cb_target_path = [], cb_branch_name = []\<rparr>"

definition git_folder_body_of :: "json \<Rightarrow> (workspace_context \<times> git_folder_body) option" where
  "git_folder_body_of = decode_body
     [(''target_path'', str_field gb_target_path_update), (''repo_url'', str_field gb_repo_url_update),
      (''branch'', str_field gb_branch_update), (''git_username'', str_field gb_git_username_update),
      (''git_token'', str_field gb_git_token_update)]
     \<lparr>gb_target_path = [], gb_repo_url = [], gb_branch = [], gb_git_username = [], gb_git_token = []\<rparr>"

definition sync_body_of :: "json \<Rightarrow> (workspace_context \<times> sync_body) option" where
  \<comment> \<open>\<open>PullRepoReq\<close>, \<open>PushRepoReq\<close>\<close>
  "sync_body_of = decode_body
     [(''path'', str_field sb_path_update), (''remote_name'', str_field sb_remote_name_update),
      (''branch'', str_field sb_branch_update), (''git_username'', str_field sb_git_username_update),
      (''git_token'', str_field sb_git_token_update)]
     \<lparr>sb_path = [], sb_remote_name = [], sb_branch = [], sb_git_username = [], sb_git_token = []\<rparr>"

definition commit_body_of :: "json \<Rightarrow> (workspace_context \<times> commit_body) option" where
  "commit_body_of = decode_body
     [(''path'', str_field ob_path_update), (''message'', str_field ob_message_update),
      (''author_name'', str_field ob_author_name_update), (''author_email'', str_field ob_author_email_update)]
     \<lparr>ob_path = [], ob_message = [], ob_author_name = [], ob_author_email = []\<rparr>"

definition commit_and_push_body_of :: "json \<Rightarrow> (workspace_context \<times> commit_and_push_body) option" where
  "commit_and_push_body_of = decode_body
     [(''path'', str_field pub_path_update), (''message'', str_field pub_message_update),
      (''author_name'', str_field pub_author_name_update), (''author_email'', str_field pub_author_email_update),
      (''remote_name'', str_field pub_remote_name_update),
      (''push'', ptr_field pub_push pub_push_update False bool_value),
      (''git_username'', str_field pub_git_username_update), (''git_token'', str_field pub_git_token_update)]
     \<lparr>pub_path = [], pub_message = [], pub_author_name = [], pub_author_email = [], pub_remote_name = [],
      pub_push = None, pub_git_username = [], pub_git_token = []\<rparr>"

definition create_branch_body_of :: "json \<Rightarrow> (workspace_context \<times> branch_body) option" where
  "create_branch_body_of = decode_body
     [(''path'', str_field bb_path_update), (''branch'', str_field bb_branch_update),
      (''checkout'', bool_field bb_flag_update)]
     \<lparr>bb_path = [], bb_branch = [], bb_flag = False\<rparr>"

definition checkout_branch_body_of :: "json \<Rightarrow> (workspace_context \<times> branch_body) option" where
  "checkout_branch_body_of = decode_body
     [(''path'', str_field bb_path_update), (''branch'', str_field bb_branch_update),
      (''create'', bool_field bb_flag_update)]
     \<lparr>bb_path = [], bb_branch = [], bb_flag = False\<rparr>"

definition diff_body_of :: "json \<Rightarrow> (workspace_context \<times> diff_body) option" where
  "diff_body_of = decode_body
     [(''path'', str_field ib_path_update), (''file'', str_field ib_file_update)] \<lparr>ib_path = [], ib_file = []\<rparr>"

definition history_body_of :: "json \<Rightarrow> (workspace_context \<times> history_body) option" where
  "history_body_of = decode_body
     [(''path'', str_field hb_path_update), (''limit'', int_field hb_limit_update)] \<lparr>hb_path = [], hb_limit = 0\<rparr>"

definition stage_body_of :: "json \<Rightarrow> (workspace_context \<times> stage_body) option" where
  \<comment> \<open>\<open>StageFilesReq\<close>, \<open>UnstageFilesReq\<close>\<close>
  "stage_body_of = decode_body
     [(''path'', str_field gab_path_update), (''files'', list_field gab_files_update [] str_value),
      (''all'', bool_field gab_all_update)]
     \<lparr>gab_path = [], gab_files = [], gab_all = False\<rparr>"

section \<open>The resolved identity\<close>

text \<open>
  An accepted identity is normal and complete. Its application and workspace are those of the body
  unless the body has none.
\<close>

lemma to_identity_fields:
  "rc_app_id (to_identity w) = trim_space (rc_app_id w)"
  "rc_workspace_id (to_identity w) = trim_space (rc_workspace_id w)"
  "rc_uin (to_identity w) = (if trim_space (rc_uin w) = [] then trim_space (rc_owner_uin w) else trim_space (rc_uin w))"
  "rc_owner_uin (to_identity w) =
     (if trim_space (rc_owner_uin w) = [] then trim_space (rc_uin w) else trim_space (rc_owner_uin w))"
  by (simp_all add: to_identity_def normalize_fields)

lemma resolved_valid:
  assumes "resolve_workspace_context h ws = Inr rc"
  shows "normalize rc = rc" "validate rc = None"
  using assms by (auto simp: resolve_workspace_context_def Let_def split: option.splits)

lemma resolved_invalid: "resolve_workspace_context h ws = Inl e \<Longrightarrow> is_invalid_context e"
  by (auto simp: resolve_workspace_context_def Let_def is_invalid_context_def
      split: option.splits dest: validate_is_invalid_context)

end
