(* ===== verification/Handlers.thy ===== *)
theory Handlers
  imports RequestBinding
begin

text \<open>
  What the HTTP handlers share: \<open>internal/adapter/http/response\<close>, the binding of the caller's
  identity (\<open>bind_context.go\<close>, \<open>gateway_context.go\<close>), the health endpoints and the two pieces of
  middleware. A handler maps the reply header set so far, the request and the state to the reply
  and the new state; \<open>None\<close> is a handler that never answers.
\<close>

type_synonym 'w handler = "header \<Rightarrow> http_request \<Rightarrow> 'w \<Rightarrow> (http_reply \<times> 'w) option"

section \<open>Replies\<close>

text \<open>\<open>c.JSON\<close> and \<open>c.Data\<close> set the content type unless the header has one.\<close>

definition with_content_type :: "string \<Rightarrow> header \<Rightarrow> header" where
  "with_content_type ct h = (if header_values h ''Content-Type'' = [] then header_set ''Content-Type'' ct h else h)"

text \<open>A status without a body has none, whatever is rendered.\<close>

definition body_allowed :: "nat \<Rightarrow> bool" where
  "body_allowed status \<longleftrightarrow> \<not> (100 \<le> status \<and> status \<le> 199) \<and> status \<noteq> 204 \<and> status \<noteq> 304"

definition json_reply :: "header \<Rightarrow> nat \<Rightarrow> json \<Rightarrow> http_reply" where
  "json_reply h status j =
     \<lparr>rp_status = status, rp_header = with_content_type ''application/json; charset=utf-8'' h, 
      rp_body = (if body_allowed status then JsonBody j else EmptyBody)\<rparr>"

definition data_reply :: "header \<Rightarrow> nat \<Rightarrow> string \<Rightarrow> string \<Rightarrow> http_reply" where
  "data_reply h status ct data =
     \<lparr>rp_status = status, rp_header = with_content_type ct h, 
      rp_body = (if body_allowed status then RawBody data else EmptyBody)\<rparr>"

definition status_reply :: "header \<Rightarrow> nat \<Rightarrow> http_reply" where
  "status_reply h status = \<lparr>rp_status = status, rp_header = h, rp_body = EmptyBody\<rparr>"

definition reply_request_id :: "go_ctx \<Rightarrow> string" where
  "reply_request_id ctx = fst (request_id_from_context ctx)"

definition body_json :: "int \<Rightarrow> string \<Rightarrow> json option \<Rightarrow> string \<Rightarrow> json" where
  "body_json code msg data rid = JObj
     ([(''common'', JObj [(''code'', int_json code), (''msg'', JStr msg)])] @ omit_none ''data'' id data @
      omit_empty ''request_id'' rid)"

definition ok_reply :: "header \<Rightarrow> go_ctx \<Rightarrow> json \<Rightarrow> http_reply" where
  "ok_reply h ctx data = json_reply h StatusOK (body_json 0 ''ok'' (Some data) (reply_request_id ctx))"

definition error_reply :: "header \<Rightarrow> go_ctx \<Rightarrow> nat \<Rightarrow> string \<Rightarrow> http_reply" where
  "error_reply h ctx status msg = json_reply h status (body_json (int status) msg None (reply_request_id ctx))"

lemma reply_simps [simp]:
  "rp_status (json_reply h s j) = s" "rp_status (data_reply h s ct d) = s" "rp_status (status_reply h s) = s"
  "rp_status (ok_reply h ctx data) = StatusOK" "rp_status (error_reply h ctx s msg) = s"
  by (simp_all add: json_reply_def data_reply_def status_reply_def ok_reply_def error_reply_def)

section \<open>Identity\<close>

definition bind_workspace_context ::
  "header \<Rightarrow> http_request \<Rightarrow> workspace_context \<Rightarrow> (http_reply, request_context \<times> go_ctx) result" where
  "bind_workspace_context h r ws =
     (case resolve_workspace_context (rq_header r) ws of
        Inl e \<Rightarrow>
          if is_invalid_context e then Inl (error_reply h (rq_ctx r) StatusBadRequest (err_text e))
          else Inl (error_reply h (rq_ctx r) StatusBadRequest ''invalid request context'')
      | Inr rc \<Rightarrow> Inr (rc, with_request_context (rq_ctx r) rc))"

definition bind_gateway_context :: "http_request \<Rightarrow> http_request" where
  "bind_gateway_context r =
     (let get = (\<lambda>k. trim_space (header_get (rq_header r) k));
          rc = normalize
            \<lparr>rc_owner_uin = get HeaderOwnerUIN, rc_uin = get HeaderUIN, rc_app_id = get HeaderAppID,
             rc_workspace_id = get HeaderWorkspaceID\<rparr>
      in if rc_owner_uin rc = [] \<and> rc_uin rc = [] \<and> rc_app_id rc = [] \<and> rc_workspace_id rc = [] then r
         else r\<lparr>rq_ctx := with_request_context (rq_ctx r) rc\<rparr>)"

text \<open>
  The first lines of every handler of files and git: bind the body, then the identity; either
  failure is answered and the rest does not run.
\<close>

definition with_body ::
  "(json \<Rightarrow> (workspace_context \<times> 'b) option) \<Rightarrow>
   (header \<Rightarrow> go_ctx \<Rightarrow> request_context \<Rightarrow> 'b \<Rightarrow> 'w \<Rightarrow> (http_reply \<times> 'w) option) \<Rightarrow> 'w handler" where
  "with_body dec k h r w =
     (case bind_json dec r of
        None \<Rightarrow> Some (error_reply h (rq_ctx r) StatusBadRequest ''invalid request body'', w)
      | Some (ws, b) \<Rightarrow>
          (case bind_workspace_context h r ws of
             Inl reply \<Rightarrow> Some (reply, w)
           | Inr (rc, ctx) \<Rightarrow> k h ctx rc b w))"

text \<open>A handler either answers 400 and leaves the state alone, or runs with a complete identity.\<close>

lemma with_body_cases:
  assumes "with_body dec k h r w = Some (reply, w')"
  obtains (refused) "w' = w" "rp_status reply = StatusBadRequest"
    | (run) ws b rc ctx where "bind_json dec r = Some (ws, b)"
        "resolve_workspace_context (rq_header r) ws = Inr rc" "ctx = with_request_context (rq_ctx r) rc"
        "validate rc = None" "normalize rc = rc" "k h ctx rc b w = Some (reply, w')"
proof (cases "bind_json dec r")
  case None
  with assms refused show thesis by (auto simp: with_body_def)
next
  case (Some wb)
  then obtain ws b where b: "bind_json dec r = Some (ws, b)" by (cases wb) auto
  show thesis
  proof (cases "resolve_workspace_context (rq_header r) ws")
    case (Inl e)
    with assms b refused show thesis by (auto simp: with_body_def bind_workspace_context_def split: if_splits)
  next
    case (Inr rc)
    with assms b run [OF b Inr refl resolved_valid(2) [OF Inr] resolved_valid(1) [OF Inr]] show thesis
      by (auto simp: with_body_def bind_workspace_context_def)
  qed
qed

section \<open>Health\<close>

definition handle_healthz :: "'w handler" where
  "handle_healthz h r w = Some (json_reply h StatusOK (JObj [(''status'', JStr ''ok'')]), w)"

definition handle_readyz :: "'w handler" where
  "handle_readyz h r w = Some (json_reply h StatusOK (JObj [(''status'', JStr ''ok'')]), w)"

section \<open>Middleware\<close>

text \<open>
  \<open>RequestID\<close>: the id of the caller, or a new one; \<open>fresh\<close> is what \<open>newRequestID\<close> returns. The id
  goes into the reply header and into the context.
\<close>

definition request_id_middleware :: "string \<Rightarrow> 'w handler \<Rightarrow> 'w handler" where
  "request_id_middleware fresh next_handler h r =
     (let given = trim_space (header_get (rq_header r) HeaderRequestID);
          rid = (if given = [] then fresh else given)
      in next_handler (header_set HeaderRequestID rid h) (r\<lparr>rq_ctx := with_request_id (rq_ctx r) rid\<rparr>))"

text \<open>
  \<open>newRequestID\<close>: sixteen random bytes in hexadecimal, or the time text when there are none.
\<close>

definition hex_encode :: "string \<Rightarrow> string" where
  "hex_encode s = concat (map (\<lambda>c. [hex_digit (of_char c div 16), hex_digit (of_char c)]) s)"

definition new_request_id :: "string option \<Rightarrow> string \<Rightarrow> string" where
  "new_request_id random now = (case random of Some b \<Rightarrow> hex_encode b | None \<Rightarrow> hex_encode now)"

text \<open>The reply to a panic of a handler; what it wrote before is not modelled.\<close>

definition recovery_reply :: "header \<Rightarrow> http_reply" where
  "recovery_reply h = json_reply h StatusInternalServerError
     (JObj [(''code'', JStr ''INTERNAL_ERROR''), (''message'', JStr ''internal server error'')])"

end
