(* ===== verification/FileHandlers.thy ===== *)
theory FileHandlers
  imports Handlers FileService
begin

text \<open>
  \<open>internal/adapter/http/handler/fs.go\<close>: the endpoints of the file service. Each binds its body,
  calls one method of the service and writes the result in the common envelope.
\<close>

section \<open>Documents\<close>

text \<open>A slice that is nil because nothing was appended to it is written as \<open>null\<close>.\<close>

definition slice_json :: "('a \<Rightarrow> json) \<Rightarrow> 'a list \<Rightarrow> json" where
  "slice_json f xs = (if xs = [] then JNull else JArr (map f xs))"

definition omit_zero :: "string \<Rightarrow> uint64 \<Rightarrow> (string \<times> json) list" where
  "omit_zero k n = (if n = 0 then [] else [(k, JNum (decimal (unat n)))])"

definition omit_false :: "string \<Rightarrow> bool \<Rightarrow> (string \<times> json) list" where
  "omit_false k b = (if b then [(k, JBool True)] else [])"

definition file_info_json :: "file_info_resp \<Rightarrow> json" where
  "file_info_json f = JObj
     ([(''name'', JStr (fr_name f)), (''path'', JStr (fr_path f)), (''is_dir'', JBool (fr_is_dir f)),
       (''size'', int_json (fr_size f)), (''modify_time'', JStr (fr_modify_time f))] @
      omit_zero ''inode_id'' (fr_inode_id f) @ omit_empty ''owner_uin'' (fr_owner_uin f) @
      omit_empty ''creator_uin'' (fr_creator_uin f) @ omit_empty ''node_type'' (fr_node_type f) @
      [(''is_git_folder'', JBool (fr_is_git_folder f))] @ omit_empty ''git_branch'' (fr_git_branch f) @
      omit_false ''in_recycle'' (fr_in_recycle f) @ omit_empty ''origin_path'' (fr_origin_path f) @
      omit_empty ''file_id'' (fr_file_id f))"

definition folder_node_json :: "folder_node_resp \<Rightarrow> json" where
  "folder_node_json f = JObj
     ([(''name'', JStr (no_name f)), (''path'', JStr (no_path f)), (''is_dir'', JBool (no_is_dir f)),
       (''size'', int_json (no_size f)), (''modify_time'', JStr (no_modify_time f))] @
      omit_zero ''inode_id'' (no_inode_id f) @ omit_empty ''owner_uin'' (no_owner_uin f) @
      omit_empty ''creator_uin'' (no_creator_uin f) @ omit_empty ''node_type'' (no_node_type f) @
      [(''is_git_folder'', JBool (no_is_git_folder f))] @ omit_empty ''git_branch'' (no_git_branch f) @
      omit_empty ''file_id'' (no_file_id f))"

definition files_json :: "file_info_resp list \<Rightarrow> json" where
  "files_json fs = JObj [(''files'', slice_json file_info_json fs)]"

definition read_file_json :: "read_file_resp \<Rightarrow> json" where
  "read_file_json x = JObj
     [(''file'', file_info_json (rr_file x)), (''content_base64'', JStr (rr_b64 x)), (''size'', int_json (rr_size x))]"

section \<open>Errors\<close>

definition fs_error_status :: "go_error \<Rightarrow> nat" where
  "fs_error_status e =
     (if errors_is e ErrInvalidFileRequest \<or> is_invalid_context e then StatusBadRequest
      else if errors_is e ErrNotFound then StatusNotFound
      else if errors_is e ErrAlreadyExists then StatusConflict
      else if errors_is e ErrNotAFile \<or> errors_is e ErrNotADirectory then StatusBadRequest
      else if errors_is e ErrFileTooLarge then StatusRequestEntityTooLarge
      else StatusInternalServerError)"

definition write_fs_error :: "header \<Rightarrow> go_ctx \<Rightarrow> go_error \<Rightarrow> http_reply" where
  "write_fs_error h ctx e = error_reply h ctx (fs_error_status e) (err_text e)"

definition write_fs_reply :: "header \<Rightarrow> go_ctx \<Rightarrow> ('a \<Rightarrow> json) \<Rightarrow> (go_error, 'a) result \<Rightarrow> http_reply" where
  "write_fs_reply h ctx f r = (case r of Inl e \<Rightarrow> write_fs_error h ctx e | Inr x \<Rightarrow> ok_reply h ctx (f x))"

definition write_fs_result :: "header \<Rightarrow> go_ctx \<Rightarrow> (go_error, file_info_resp) result \<Rightarrow> http_reply" where
  "write_fs_result h ctx r = write_fs_reply h ctx file_info_json r"

definition write_fs_done :: "header \<Rightarrow> go_ctx \<Rightarrow> string \<Rightarrow> go_error option \<Rightarrow> http_reply" where
  "write_fs_done h ctx what r =
     (case r of Some e \<Rightarrow> write_fs_error h ctx e | None \<Rightarrow> ok_reply h ctx (JObj [(what, JBool True)]))"

text \<open>The reply to a call that always returns.\<close>

definition replying :: "('r \<Rightarrow> http_reply) \<Rightarrow> ('w \<Rightarrow> 'r \<times> 'w) \<Rightarrow> 'w \<Rightarrow> (http_reply \<times> 'w) option" where
  "replying f m w = Some (apfst f (m w))"

section \<open>Endpoints\<close>

text \<open>\<open>iid\<close> is the intent id the service draws for a journalled call.\<close>

definition handle_create_folder :: "'w file_service \<Rightarrow> string \<Rightarrow> 'w handler" where
  "handle_create_folder sv iid = with_body path_body_of (\<lambda>h ctx rc b.
     replying (write_fs_result h ctx) (create_folder sv iid \<lparr>sp_context = rc, sp_path = pb_path b\<rparr>))"

definition handle_create_file :: "'w file_service \<Rightarrow> string \<Rightarrow> 'w handler" where
  "handle_create_file sv iid = with_body file_body_of (\<lambda>h ctx rc b.
     replying (write_fs_result h ctx) (create_file sv iid
       \<lparr>sf_context = rc, sf_path = fb_path b, sf_content = [], sf_content_b64 = fb_content_base64 b,
        sf_overwrite = fb_overwrite b\<rparr>))"

definition handle_create_notebook :: "'w file_service \<Rightarrow> string \<Rightarrow> 'w handler" where
  "handle_create_notebook sv iid = with_body notebook_body_of (\<lambda>h ctx rc b.
     replying (write_fs_result h ctx) (create_notebook sv iid
       \<lparr>sn_context = rc, sn_path = nb_path b, sn_kernel_name = nb_kernel_name b, sn_overwrite = nb_overwrite b\<rparr>))"

definition handle_delete_path :: "'w file_service \<Rightarrow> 'w handler" where
  "handle_delete_path sv = with_body delete_body_of (\<lambda>h ctx rc b.
     replying (write_fs_done h ctx ''deleted'') (delete_path sv
       \<lparr>sd_context = rc, sd_path = db_path b, sd_soft_delete = db_soft_delete b, sd_permanent = db_permanent b\<rparr>))"

definition handle_move_path :: "'w file_service \<Rightarrow> 'w handler" where
  "handle_move_path sv = with_body move_body_of (\<lambda>h ctx rc b.
     replying (write_fs_result h ctx) (move_path sv
       \<lparr>sm_context = rc, sm_src_path = mb_src_path b, sm_dest_path = mb_dest_path b, sm_overwrite = mb_overwrite b\<rparr>))"

definition handle_copy_path :: "'w file_service \<Rightarrow> 'w handler" where
  "handle_copy_path sv = with_body move_body_of (\<lambda>h ctx rc b w.
     map_option (apfst (write_fs_result h ctx)) (copy_path sv
       \<lparr>sm_context = rc, sm_src_path = mb_src_path b, sm_dest_path = mb_dest_path b, sm_overwrite = mb_overwrite b\<rparr> w))"

definition handle_rename_path :: "'w file_service \<Rightarrow> 'w handler" where
  "handle_rename_path sv = with_body rename_body_of (\<lambda>h ctx rc b.
     replying (write_fs_result h ctx) (rename_path sv
       \<lparr>sr_context = rc, sr_path = rb_path b, sr_new_name = rb_new_name b, sr_overwrite = rb_overwrite b\<rparr>))"

definition handle_list_files :: "'w file_service \<Rightarrow> 'w handler" where
  "handle_list_files sv = with_body list_body_of (\<lambda>h ctx rc b w.
     map_option (apfst (write_fs_reply h ctx files_json)) (list_files sv
       \<lparr>sl_context = rc, sl_path = lb_path b, sl_recursive = lb_recursive b\<rparr> w))"

definition handle_get_file_info :: "'w file_service \<Rightarrow> 'w handler" where
  "handle_get_file_info sv = with_body path_body_of (\<lambda>h ctx rc b.
     replying (write_fs_result h ctx)
       (get_file_info sv \<lparr>sp_context = rc, sp_path = pb_path b\<rparr> (fst (request_context_from ctx))))"

definition handle_read_file :: "'w file_service \<Rightarrow> 'w handler" where
  "handle_read_file sv = with_body path_body_of (\<lambda>h ctx rc b.
     replying (write_fs_reply h ctx read_file_json) (read_file sv \<lparr>sp_context = rc, sp_path = pb_path b\<rparr>))"

definition handle_write_file :: "'w file_service \<Rightarrow> string \<Rightarrow> 'w handler" where
  "handle_write_file sv iid = with_body file_body_of (\<lambda>h ctx rc b.
     replying (write_fs_result h ctx) (write_file sv iid
       \<lparr>sf_context = rc, sf_path = fb_path b, sf_content = [], sf_content_b64 = fb_content_base64 b,
        sf_overwrite = fb_overwrite b\<rparr>))"

definition handle_validate_path :: "'w file_service \<Rightarrow> 'w handler" where
  "handle_validate_path sv = with_body validate_body_of (\<lambda>h ctx rc b.
     replying (write_fs_reply h ctx (\<lambda>x. JObj [(''exists'', JBool x)])) (validate_path sv
       \<lparr>sva_context = rc, sva_parent_path = vb_parent_path b, sva_name = vb_name b\<rparr>))"

definition handle_get_folder_node_path :: "'w file_service \<Rightarrow> 'w handler" where
  "handle_get_folder_node_path sv = with_body path_body_of (\<lambda>h ctx rc b w.
     map_option (apfst (write_fs_reply h ctx (\<lambda>ns. JObj [(''nodes'', slice_json folder_node_json ns)])))
       (get_folder_node_path sv \<lparr>sp_context = rc, sp_path = pb_path b\<rparr> w))"

definition handle_list_recycle_bin :: "'w file_service \<Rightarrow> 'w handler" where
  "handle_list_recycle_bin sv = with_body context_body_of (\<lambda>h ctx rc b w.
     map_option (apfst (write_fs_reply h ctx files_json)) (list_recycle_bin sv rc w))"

definition handle_restore_path :: "'w file_service \<Rightarrow> 'w handler" where
  "handle_restore_path sv = with_body restore_body_of (\<lambda>h ctx rc b.
     replying (write_fs_result h ctx) (restore_path sv
       \<lparr>srp_context = rc, srp_trash_path = tb_trash_path b, srp_target_parent = tb_target_parent b\<rparr>))"

definition handle_empty_recycle_bin :: "'w file_service \<Rightarrow> 'w handler" where
  "handle_empty_recycle_bin sv = with_body context_body_of (\<lambda>h ctx rc b.
     replying (write_fs_done h ctx ''emptied'') (empty_recycle_bin sv rc))"

definition handle_download_file :: "'w file_service \<Rightarrow> 'w handler" where
  "handle_download_file sv = with_body path_body_of (\<lambda>h ctx rc b.
     replying (\<lambda>r. case r of
         Inl e \<Rightarrow> write_fs_error h ctx e
       | Inr (data, name) \<Rightarrow>
           data_reply (header_set ''Content-Disposition'' (''attachment; filename='' @ name) h) StatusOK
             ''application/octet-stream'' data)
       (download_file sv \<lparr>sp_context = rc, sp_path = pb_path b\<rparr>))"

end
