(* ===== verification/GitHandlers.thy ===== *)
theory GitHandlers
  imports FileHandlers CloneJobs
begin

text \<open>
  \<open>internal/adapter/http/handler/git.go\<close>: the endpoints of the git service. The state has the
  storage and the clone jobs; only the two endpoints of git folders look at the jobs.
\<close>

section \<open>Documents\<close>

definition clone_json :: "clone_result \<Rightarrow> json" where
  \<comment> \<open>\<open>gin.H\<close> is a map: its keys are written in order\<close>
  "clone_json x = map_json JStr [(''repo_url'', clr_repo_url x), (''path'', clr_path x), (''branch'', clr_branch x)]"

definition git_folder_json :: "create_git_folder_resp \<Rightarrow> json" where
  "git_folder_json x = JObj
     [(''path'', JStr (cgr_path x)), (''status'', int_json (cgr_status x)), (''branch'', JStr (cgr_branch x)),
      (''repo_url'', JStr (cgr_repo_url x))]"

definition git_folder_status_json :: "git_folder_status_resp \<Rightarrow> json" where
  "git_folder_status_json x = JObj
     ([(''status'', int_json (gfs_status x))] @ omit_empty ''message'' (gfs_message x) @
      [(''path'', JStr (gfs_path x))] @ omit_empty ''branch'' (gfs_branch x) @ omit_empty ''repo_url'' (gfs_repo_url x))"

definition pull_json :: "pull_result \<Rightarrow> json" where
  "pull_json x = JObj
     [(''already_up_to_date'', JBool (plr_already_up_to_date x)), (''head_commit'', JStr (plr_head_commit x)),
      (''current_branch'', JStr (plr_current_branch x))]"

definition commit_json :: "commit_result \<Rightarrow> json" where
  "commit_json x = JObj
     [(''nothing_to_commit'', JBool (cmr_nothing_to_commit x)), (''commit_hash'', JStr (cmr_commit_hash x))]"

definition commit_and_push_json :: "commit_and_push_result \<Rightarrow> json" where
  "commit_and_push_json x = JObj
     [(''nothing_to_commit'', JBool (capr_nothing_to_commit x)), (''commit_hash'', JStr (capr_commit_hash x)),
      (''pushed'', JBool (capr_pushed x))]"

definition branch_json :: "string \<Rightarrow> json" where
  "branch_json b = JObj [(''current_branch'', JStr b)]"

definition list_branches_json :: "list_branches_result \<Rightarrow> json" where
  "list_branches_json x = JObj
     [(''current_branch'', JStr (lbr_current_branch x)), (''branches'', slice_json JStr (lbr_branches x))]"

definition file_status_json :: "file_status \<Rightarrow> json" where
  "file_status_json x = JObj
     [(''path'', JStr (fs_path_of x)), (''staging'', JStr (fs_staging x)), (''worktree'', JStr (fs_worktree x))]"

definition status_json :: "status_result \<Rightarrow> json" where
  "status_json x = JObj [(''clean'', JBool (str_clean x)), (''files'', slice_json file_status_json (str_files x))]"

definition file_diff_json :: "file_diff_result \<Rightarrow> json" where
  "file_diff_json x = JObj
     ([(''file'', JStr (fdr_file x))] @ omit_empty ''head_content_base64'' (fdr_head_content_base64 x) @
      omit_empty ''worktree_content_base64'' (fdr_worktree_content_base64 x) @
      omit_false ''head_missing'' (fdr_head_missing x) @ omit_false ''worktree_missing'' (fdr_worktree_missing x))"

definition commit_info_json :: "commit_info_resp \<Rightarrow> json" where
  "commit_info_json x = JObj
     [(''hash'', JStr (cir_hash x)), (''author'', JStr (cir_author x)), (''email'', JStr (cir_email x)),
      (''message'', JStr (cir_message x)), (''when'', JStr (cir_when x))]"

definition history_json :: "commit_info_resp list \<Rightarrow> json" where
  "history_json xs = JObj [(''commits'', slice_json commit_info_json xs)]"

section \<open>Errors\<close>

definition git_error_status :: "go_error \<Rightarrow> nat" where
  "git_error_status e =
     (if errors_is e ErrInvalidCloneReq \<or> errors_is e ErrInvalidGitRequest then StatusBadRequest
      else if is_invalid_context e then StatusBadRequest
      else StatusInternalServerError)"

definition write_git_error :: "header \<Rightarrow> go_ctx \<Rightarrow> go_error \<Rightarrow> http_reply" where
  "write_git_error h ctx e = error_reply h ctx (git_error_status e) (err_text e)"

text \<open>The endpoint \<open>CloneRepository\<close> has a mapping of its own.\<close>

definition write_clone_error :: "header \<Rightarrow> go_ctx \<Rightarrow> go_error \<Rightarrow> http_reply" where
  "write_clone_error h ctx e =
     (if errors_is e ErrInvalidCloneReq then error_reply h ctx StatusBadRequest (err_text e)
      else error_reply h ctx StatusInternalServerError (err_text e))"

definition write_git_reply :: "header \<Rightarrow> go_ctx \<Rightarrow> ('a \<Rightarrow> json) \<Rightarrow> (go_error, 'a) result \<Rightarrow> http_reply" where
  "write_git_reply h ctx f r = (case r of Inl e \<Rightarrow> write_git_error h ctx e | Inr x \<Rightarrow> ok_reply h ctx (f x))"

definition write_git_done :: "header \<Rightarrow> go_ctx \<Rightarrow> string \<Rightarrow> go_error option \<Rightarrow> http_reply" where
  "write_git_done h ctx what r =
     (case r of Some e \<Rightarrow> write_git_error h ctx e | None \<Rightarrow> ok_reply h ctx (JObj [(what, JBool True)]))"

section \<open>Endpoints\<close>

definition handle_clone_repository :: "'w git_service \<Rightarrow> 'w handler" where
  "handle_clone_repository sv = with_body clone_body_of (\<lambda>h ctx rc b.
     replying (\<lambda>r. case r of Inl e \<Rightarrow> write_clone_error h ctx e | Inr x \<Rightarrow> ok_reply h ctx (clone_json x))
       (clone_repository sv
         \<lparr>crq_context = rc, crq_repo_url = cb_repo_url b, crq_target_path = cb_target_path b, crq_branch = cb_branch_name b\<rparr>))"

definition handle_create_git_folder :: "'x world git_service \<Rightarrow> 'x git_world handler" where
  "handle_create_git_folder sv = with_body git_folder_body_of (\<lambda>h ctx rc b.
     replying (write_git_reply h ctx git_folder_json) (create_git_folder sv
       \<lparr>cgf_context = rc, cgf_target_path = gb_target_path b, cgf_repo_url = gb_repo_url b, cgf_branch = gb_branch b,
        cgf_git_username = gb_git_username b, cgf_git_token = gb_git_token b\<rparr>))"

definition handle_get_git_folder_status :: "'x world git_service \<Rightarrow> 'x git_world handler" where
  "handle_get_git_folder_status sv = with_body path_body_of (\<lambda>h ctx rc b.
     replying (write_git_reply h ctx git_folder_status_json)
       (get_git_folder_status sv \<lparr>srq_context = rc, srq_path = pb_path b\<rparr>))"

definition handle_stage_files :: "'w git_service \<Rightarrow> 'w handler" where
  "handle_stage_files sv = with_body stage_body_of (\<lambda>h ctx rc b.
     replying (write_git_done h ctx ''staged'') (stage_files sv
       \<lparr>sfq_context = rc, sfq_path = gab_path b, sfq_files = gab_files b, sfq_all = gab_all b\<rparr>))"

definition handle_unstage_files :: "'w git_service \<Rightarrow> 'w handler" where
  "handle_unstage_files sv = with_body stage_body_of (\<lambda>h ctx rc b.
     replying (write_git_done h ctx ''unstaged'') (unstage_files sv
       \<lparr>sfq_context = rc, sfq_path = gab_path b, sfq_files = gab_files b, sfq_all = gab_all b\<rparr>))"

definition handle_commit :: "'w git_service \<Rightarrow> 'w handler" where
  "handle_commit sv = with_body commit_body_of (\<lambda>h ctx rc b.
     replying (write_git_reply h ctx commit_json) (svc_commit sv
       \<lparr>scq_context = rc, scq_path = ob_path b, scq_message = ob_message b, scq_author_name = ob_author_name b,
        scq_author_email = ob_author_email b\<rparr>))"

definition handle_push_repo :: "'w git_service \<Rightarrow> 'w handler" where
  "handle_push_repo sv = with_body sync_body_of (\<lambda>h ctx rc b.
     replying (write_git_reply h ctx (\<lambda>x. JObj [(''pushed'', JBool x)])) (push_repository sv
       \<lparr>puq_context = rc, puq_path = sb_path b, puq_remote_name = sb_remote_name b, puq_branch = sb_branch b,
        puq_git_username = sb_git_username b, puq_git_token = sb_git_token b\<rparr>))"

definition handle_pull_repo :: "'w git_service \<Rightarrow> 'w handler" where
  "handle_pull_repo sv = with_body sync_body_of (\<lambda>h ctx rc b.
     replying (write_git_reply h ctx pull_json) (pull_repository sv
       \<lparr>prq_context = rc, prq_path = sb_path b, prq_remote_name = sb_remote_name b, prq_branch = sb_branch b,
        prq_credentials = \<lparr>gc_username = sb_git_username b, gc_token = sb_git_token b\<rparr>\<rparr>))"

definition handle_commit_and_push :: "'w git_service \<Rightarrow> 'w handler" where
  "handle_commit_and_push sv = with_body commit_and_push_body_of (\<lambda>h ctx rc b.
     replying (write_git_reply h ctx commit_and_push_json) (svc_commit_and_push sv
       \<lparr>sca_context = rc, sca_path = pub_path b, sca_message = pub_message b, sca_author_name = pub_author_name b,
        sca_author_email = pub_author_email b, sca_remote_name = pub_remote_name b,
        sca_push = (case pub_push b of Some p \<Rightarrow> p | None \<Rightarrow> True),
        sca_credentials = \<lparr>gc_username = pub_git_username b, gc_token = pub_git_token b\<rparr>\<rparr>))"

definition handle_create_branch :: "'w git_service \<Rightarrow> 'w handler" where
  "handle_create_branch sv = with_body create_branch_body_of (\<lambda>h ctx rc b.
     replying (write_git_reply h ctx branch_json) (svc_create_branch sv
       \<lparr>scb_context = rc, scb_path = bb_path b, scb_branch = bb_branch b, scb_checkout = bb_flag b\<rparr>))"

definition handle_checkout_branch :: "'w git_service \<Rightarrow> 'w handler" where
  "handle_checkout_branch sv = with_body checkout_branch_body_of (\<lambda>h ctx rc b.
     replying (write_git_reply h ctx branch_json) (svc_checkout_branch sv
       \<lparr>sco_context = rc, sco_path = bb_path b, sco_branch = bb_branch b, sco_create = bb_flag b\<rparr>))"

definition handle_list_branches :: "'w git_service \<Rightarrow> 'w handler" where
  "handle_list_branches sv = with_body path_body_of (\<lambda>h ctx rc b.
     replying (write_git_reply h ctx list_branches_json) (svc_list_branches sv \<lparr>srq_context = rc, srq_path = pb_path b\<rparr>))"

definition handle_get_status :: "'w git_service \<Rightarrow> 'w handler" where
  "handle_get_status sv = with_body path_body_of (\<lambda>h ctx rc b.
     replying (write_git_reply h ctx status_json) (svc_get_status sv \<lparr>srq_context = rc, srq_path = pb_path b\<rparr>))"

definition handle_get_file_diff :: "'w git_service \<Rightarrow> 'w handler" where
  "handle_get_file_diff sv = with_body diff_body_of (\<lambda>h ctx rc b.
     replying (write_git_reply h ctx file_diff_json) (svc_get_file_diff sv
       \<lparr>sfd_context = rc, sfd_path = ib_path b, sfd_file = ib_file b\<rparr>))"

definition handle_get_commit_history :: "'w git_service \<Rightarrow> 'w handler" where
  "handle_get_commit_history sv = with_body history_body_of (\<lambda>h ctx rc b.
     replying (write_git_reply h ctx history_json) (svc_get_commit_history sv
       \<lparr>sch_context = rc, sch_path = hb_path b, sch_limit = hb_limit b\<rparr>))"

definition handle_discard_changes :: "'w git_service \<Rightarrow> 'w handler" where
  "handle_discard_changes sv = with_body path_body_of (\<lambda>h ctx rc b.
     replying (write_git_done h ctx ''discarded'') (svc_discard_changes sv \<lparr>srq_context = rc, srq_path = pb_path b\<rparr>))"

definition handle_delete_repo :: "'w git_service \<Rightarrow> 'w handler" where
  "handle_delete_repo sv = with_body path_body_of (\<lambda>h ctx rc b.
     replying (write_git_done h ctx ''deleted'') (delete_repository sv \<lparr>srq_context = rc, srq_path = pb_path b\<rparr>))"

text \<open>An endpoint of the service on the state with the clone jobs.\<close>

definition beside_jobs :: "'x world handler \<Rightarrow> 'x git_world handler" where
  "beside_jobs f h r g = map_option (\<lambda>(reply, w). (reply, g\<lparr>gw_world := w\<rparr>)) (f h r (gw_world g))"

end
