(* ===== verification/GatewayHandlers.thy ===== *)
theory GatewayHandlers
  imports Handlers GatewayDomain
begin

text \<open>
  \<open>internal/adapter/http/handler/gateway.go\<close>: the Jupyter endpoints. They answer with the models of
  the gateway, not in the common envelope, and relay its errors.
\<close>

section \<open>Errors and bodies\<close>

definition write_gateway_error :: "header \<Rightarrow> gateway_error \<Rightarrow> http_reply" where
  "write_gateway_error h e =
     (case e of
        APIError status ct body \<Rightarrow> data_reply h status (if ct = [] then ''application/json'' else ct) body
      | GatewayFailure err \<Rightarrow> json_reply h StatusBadGateway
          (map_json JStr [(''message'', ''gateway request failed''), (''reason'', err_text err)]))"

definition respond :: "header \<Rightarrow> nat \<Rightarrow> ('a \<Rightarrow> json) \<Rightarrow> (gateway_error, 'a) result \<Rightarrow> http_reply" where
  "respond h status f r = (case r of Inl e \<Rightarrow> write_gateway_error h e | Inr x \<Rightarrow> json_reply h status (f x))"

definition respond_no_content :: "header \<Rightarrow> gateway_error option \<Rightarrow> http_reply" where
  "respond_no_content h r = (case r of Some e \<Rightarrow> write_gateway_error h e | None \<Rightarrow> status_reply h StatusNoContent)"

text \<open>The text of a decoding error is an argument, as a function of the body.\<close>

definition bind_gateway_json ::
  "(string \<Rightarrow> string) \<Rightarrow> (json \<Rightarrow> 'b option) \<Rightarrow> header \<Rightarrow> http_request \<Rightarrow> (http_reply, 'b) result" where
  "bind_gateway_json err_of dec h r =
     (case bind_json dec r of
        Some b \<Rightarrow> Inr b
      | None \<Rightarrow> Inl (json_reply h StatusBadRequest
          (map_json JStr [(''message'', ''invalid request body''),
             (''reason'', err_of (case rq_body r of Some b \<Rightarrow> b | None \<Rightarrow> []))])))"

definition bind_json_allow_empty ::
  "(string \<Rightarrow> string) \<Rightarrow> (json \<Rightarrow> 'b option) \<Rightarrow> 'b \<Rightarrow> header \<Rightarrow> http_request \<Rightarrow> (http_reply, 'b) result" where
  "bind_json_allow_empty err_of dec zero h r =
     (if rq_body r = None \<or> rq_length r = 0 then Inr zero else bind_gateway_json err_of dec h r)"

definition gateway_call :: "('r \<Rightarrow> http_reply) \<Rightarrow> ('w \<Rightarrow> 'r \<times> 'w) \<Rightarrow> 'w \<Rightarrow> (http_reply \<times> 'w) option" where
  "gateway_call f m w = Some (apfst f (m w))"

section \<open>Sessions\<close>

definition handle_create_session :: "'w gateway_port \<Rightarrow> (string \<Rightarrow> string) \<Rightarrow> 'w handler" where
  "handle_create_session gw err_of h r0 w =
     (let r = bind_gateway_context r0
      in case bind_gateway_json err_of (\<lambda>j. create_session_of_json j zero_create_session) h r of
           Inl reply \<Rightarrow> Some (reply, w)
         | Inr req \<Rightarrow> gateway_call (respond h StatusCreated session_json) (gw_create_session gw (rq_ctx r) req) w)"

definition handle_list_sessions :: "'w gateway_port \<Rightarrow> 'w handler" where
  "handle_list_sessions gw h r =
     gateway_call (respond h StatusOK (list_json session_json))
       (gw_list_sessions gw (rq_ctx r))"

definition handle_get_session :: "'w gateway_port \<Rightarrow> 'w handler" where
  "handle_get_session gw h r =
     gateway_call (respond h StatusOK session_json) (gw_get_session gw (rq_ctx r) (param r ''session_id''))"

definition handle_update_session :: "'w gateway_port \<Rightarrow> (string \<Rightarrow> string) \<Rightarrow> 'w handler" where
  "handle_update_session gw err_of h r0 w =
     (let r = bind_gateway_context r0
      in case bind_gateway_json err_of (\<lambda>j. update_session_of_json j zero_update_session) h r of
           Inl reply \<Rightarrow> Some (reply, w)
         | Inr req \<Rightarrow> gateway_call (respond h StatusOK session_json)
             (gw_update_session gw (rq_ctx r) (param r ''session_id'') req) w)"

definition handle_delete_session :: "'w gateway_port \<Rightarrow> 'w handler" where
  "handle_delete_session gw h r0 =
     (let r = bind_gateway_context r0
      in gateway_call (respond_no_content h) (gw_delete_session gw (rq_ctx r) (param r ''session_id'')))"

section \<open>Kernels\<close>

definition handle_create_kernel :: "'w gateway_port \<Rightarrow> (string \<Rightarrow> string) \<Rightarrow> 'w handler" where
  "handle_create_kernel gw err_of h r w =
     (case bind_json_allow_empty err_of (\<lambda>j. create_kernel_of_json j zero_create_kernel) zero_create_kernel h r of
        Inl reply \<Rightarrow> Some (reply, w)
      | Inr req \<Rightarrow> gateway_call (respond h StatusCreated kernel_json) (gw_create_kernel gw (rq_ctx r) req) w)"

definition handle_list_kernels :: "'w gateway_port \<Rightarrow> 'w handler" where
  "handle_list_kernels gw h r =
     gateway_call (respond h StatusOK (list_json kernel_json))
       (gw_list_kernels gw (rq_ctx r))"

definition handle_get_kernel :: "'w gateway_port \<Rightarrow> 'w handler" where
  "handle_get_kernel gw h r =
     gateway_call (respond h StatusOK kernel_json) (gw_get_kernel gw (rq_ctx r) (param r ''kernel_id''))"

definition handle_delete_kernel :: "'w gateway_port \<Rightarrow> 'w handler" where
  "handle_delete_kernel gw h r =
     gateway_call (respond_no_content h) (gw_delete_kernel gw (rq_ctx r) (param r ''kernel_id''))"

definition handle_interrupt_kernel :: "'w gateway_port \<Rightarrow> 'w handler" where
  "handle_interrupt_kernel gw h r =
     gateway_call (respond_no_content h) (gw_interrupt_kernel gw (rq_ctx r) (param r ''kernel_id''))"

definition handle_restart_kernel :: "'w gateway_port \<Rightarrow> 'w handler" where
  "handle_restart_kernel gw h r =
     gateway_call (respond h StatusOK kernel_json) (gw_restart_kernel gw (rq_ctx r) (param r ''kernel_id''))"

section \<open>Kernelspecs\<close>

definition handle_list_kernel_specs :: "'w gateway_port \<Rightarrow> 'w handler" where
  "handle_list_kernel_specs gw h r =
     gateway_call (respond h StatusOK kernel_specs_json) (gw_list_kernel_specs gw (rq_ctx r))"

definition handle_get_kernel_spec :: "'w gateway_port \<Rightarrow> 'w handler" where
  "handle_get_kernel_spec gw h r =
     gateway_call (respond h StatusOK kernel_spec_json) (gw_get_kernel_spec gw (rq_ctx r) (param r ''name''))"

definition handle_get_kernel_spec_resource :: "'w gateway_port \<Rightarrow> 'w handler" where
  "handle_get_kernel_spec_resource gw h r =
     gateway_call
       (\<lambda>x. case x of
          Inl e \<Rightarrow> write_gateway_error h e
        | Inr res \<Rightarrow> data_reply h StatusOK
            (if kres_content_type res = [] then ''application/octet-stream'' else kres_content_type res) (kres_data res))
       (gw_get_kernel_spec_resource gw (rq_ctx r) (''/kernelspecs'' @ param r ''resource''))"

section \<open>Relayed endpoints\<close>

text \<open>A connection that was taken over has no reply of the handler: the empty one stands for it.\<close>

definition relay_websocket :: "'w gateway_port \<Rightarrow> 'w handler" where
  "relay_websocket gw h r =
     gateway_call (\<lambda>x. case x of Replied reply \<Rightarrow> reply | TakenOver \<Rightarrow> status_reply h StatusOK)
       (gw_proxy_websocket gw h r)"

definition handle_channels :: "'w gateway_port \<Rightarrow> 'w handler" where
  "handle_channels gw h r = relay_websocket gw h (bind_gateway_context r)"

definition handle_execute_task_ws :: "'w gateway_port \<Rightarrow> 'w handler" where
  "handle_execute_task_ws gw h r = relay_websocket gw h r"

text \<open>
  \<open>SaveExecutionOutputs\<close>, \<open>SparkAppStage\<close>, \<open>SparkAppStatus\<close>, \<open>DeleteSparkApp\<close>,
  \<open>ListPythonPackages\<close> and \<open>WritePythonPackageRequirements\<close>.
\<close>

definition handle_proxied :: "'w gateway_port \<Rightarrow> 'w handler" where
  "handle_proxied gw h r = gateway_call id (gw_proxy_http gw h r)"

definition proxy_with_backend_path :: "'w gateway_port \<Rightarrow> string \<Rightarrow> 'w handler" where
  "proxy_with_backend_path gw path h r = gateway_call id (gw_proxy_http gw h (r\<lparr>rq_path := path\<rparr>))"

definition handle_delete_spark_sessions :: "'w gateway_port \<Rightarrow> 'w handler" where
  "handle_delete_spark_sessions gw = proxy_with_backend_path gw ''/api/sessions/spark-app''"

end
