(* ===== verification/Router.thy ===== *)
theory Router
  imports GitHandlers GatewayHandlers
begin

text \<open>
  \<open>internal/adapter/http/router\<close>: the table of routes. A route is a method, a pattern of the
  library's router and the endpoint it is bound to; which route a request takes is the library's
  decision.
\<close>

datatype file_route =
    FCreateFolder | FCreateFile | FCreateNotebook | FDeletePath | FMovePath | FCopyPath
  | FRenamePath | FListFiles | FValidatePath | FGetFolderNodePath | FListRecycleBin | FRestorePath
  | FEmptyRecycleBin | FGetFileInfo | FReadFile | FWriteFile | FDownloadFile

datatype git_route =
    GCloneRepository | GCreateGitFolder | GGetGitFolderStatus | GPullRepo | GStageFiles | GUnstageFiles
  | GCommit | GPushRepo | GCommitAndPush | GCreateBranch | GCheckoutBranch | GListBranches
  | GGetStatus | GGetFileDiff | GGetCommitHistory | GDiscardChanges | GDeleteRepo

datatype gateway_route =
    JCreateSession | JListSessions | JGetSession | JUpdateSession | JDeleteSession | JCreateKernel
  | JListKernels | JGetKernel | JDeleteKernel | JInterruptKernel | JRestartKernel | JChannels
  | JExecuteTaskWebSocket | JSaveExecutionOutputs | JSparkAppStage | JSparkAppStatus | JDeleteSparkApp | JDeleteSparkSessions
  | JListPythonPackages | JWritePythonPackageRequirements | JListKernelSpecs | JGetKernelSpec | JGetKernelSpecResource

datatype endpoint = Healthz | Readyz | FileEndpoint file_route | GitEndpoint git_route | GatewayEndpoint gateway_route

type_synonym route = "string \<times> string \<times> endpoint"

definition trim_slashes :: "string \<Rightarrow> string" where
  \<comment> \<open>\<open>strings.Trim(s, "/")\<close>\<close>
  "trim_slashes s = rev (dropWhile (\<lambda>c. c = CHR ''/'') (rev (dropWhile (\<lambda>c. c = CHR ''/'') s)))"

definition join_route :: "string \<Rightarrow> string \<Rightarrow> string" where
  "join_route prefix0 path =
     (let pre = trim_space prefix0
      in if pre = [] \<or> pre = ''/'' then path
         else ''/'' @ trim_slashes (trim_suffix pre ''/'' @ ''/'' @ trim_prefix path ''/''))"

definition register_file_routes :: "string \<Rightarrow> route list" where
  "register_file_routes url_prefix =
     map (\<lambda>(name, ep). (''POST'', join_route url_prefix name, FileEndpoint ep))
       [(''/CreateFolder'', FCreateFolder), (''/CreateFile'', FCreateFile), (''/CreateNotebook'', FCreateNotebook),
        (''/DeletePath'', FDeletePath), (''/MovePath'', FMovePath), (''/CopyPath'', FCopyPath),
        (''/RenamePath'', FRenamePath), (''/ListFiles'', FListFiles), (''/ValidatePath'', FValidatePath),
        (''/GetFolderNodePath'', FGetFolderNodePath), (''/ListRecycleBin'', FListRecycleBin),
        (''/RestorePath'', FRestorePath), (''/EmptyRecycleBin'', FEmptyRecycleBin), (''/GetFileInfo'', FGetFileInfo),
        (''/ReadFile'', FReadFile), (''/WriteFile'', FWriteFile), (''/DownloadFile'', FDownloadFile)]"

definition register_git_routes :: "string \<Rightarrow> route list" where
  "register_git_routes url_prefix =
     map (\<lambda>(name, ep). (''POST'', join_route url_prefix name, GitEndpoint ep))
       [(''/CloneRepo'', GCloneRepository), (''/CreateGitFolder'', GCreateGitFolder),
        (''/GetGitFolderStatus'', GGetGitFolderStatus), (''/PullRepo'', GPullRepo), (''/StageFiles'', GStageFiles),
        (''/UnstageFiles'', GUnstageFiles), (''/Commit'', GCommit), (''/PushRepo'', GPushRepo),
        (''/CommitAndPush'', GCommitAndPush), (''/CreateBranch'', GCreateBranch), (''/CheckoutBranch'', GCheckoutBranch),
        (''/ListBranches'', GListBranches), (''/GetStatus'', GGetStatus), (''/GetFileDiff'', GGetFileDiff),
        (''/GetCommitHistory'', GGetCommitHistory), (''/DiscardChanges'', GDiscardChanges), (''/DeleteRepo'', GDeleteRepo)]"

definition register_gateway_routes :: "route list" where
  "register_gateway_routes =
     map (\<lambda>(verb, path, ep). (verb, path, GatewayEndpoint ep))
     [(''POST'', ''/api/sessions'', JCreateSession), (''GET'', ''/api/sessions'', JListSessions),
      (''GET'', ''/api/sessions/:session_id'', JGetSession), (''PATCH'', ''/api/sessions/:session_id'', JUpdateSession),
      (''DELETE'', ''/api/sessions/:session_id'', JDeleteSession),
      (''POST'', ''/api/kernels'', JCreateKernel), (''GET'', ''/api/kernels'', JListKernels),
      (''GET'', ''/api/kernels/:kernel_id'', JGetKernel), (''DELETE'', ''/api/kernels/:kernel_id'', JDeleteKernel),
      (''POST'', ''/api/kernels/:kernel_id/interrupt'', JInterruptKernel),
      (''POST'', ''/api/kernels/:kernel_id/restart'', JRestartKernel),
      (''GET'', ''/api/kernels/:kernel_id/channels'', JChannels),
      (''GET'', ''/api/kernels/execute_task/ws'', JExecuteTaskWebSocket),
      (''POST'', ''/api/kernels/execute_task/save_outputs'', JSaveExecutionOutputs),
      (''GET'', ''/api/sessions/spark-app/stage'', JSparkAppStage), (''GET'', ''/api/spark-app/status'', JSparkAppStatus),
      (''DELETE'', ''/api/sessions/spark-app'', JDeleteSparkApp), (''DELETE'', ''/api/spark-sessions'', JDeleteSparkSessions),
      (''GET'', ''/api/sessions/python-packages'', JListPythonPackages),
      (''POST'', ''/api/sessions/python-packages/requirements'', JWritePythonPackageRequirements),
      (''GET'', ''/api/kernelspecs'', JListKernelSpecs), (''GET'', ''/api/kernelspecs/:name'', JGetKernelSpec),
      (''GET'', ''/kernelspecs/*resource'', JGetKernelSpecResource)]"

text \<open>The bundle of handlers: a service that is absent has no routes.\<close>

record 'x handlers =
  hs_file :: "'x world file_service option"
  hs_git :: "'x world git_service option"
  hs_gateway :: "'x git_world gateway_port option"

definition new_with_handlers :: "string \<Rightarrow> 'x handlers option \<Rightarrow> route list" where
  "new_with_handlers url_prefix hs =
     [(''GET'', ''/healthz'', Healthz), (''GET'', ''/readyz'', Readyz)] @
     (case hs of
        None \<Rightarrow> []
      | Some b \<Rightarrow>
          (if hs_file b \<noteq> None then register_file_routes url_prefix else []) @
          (if hs_git b \<noteq> None then register_git_routes url_prefix else []) @
          (if hs_gateway b \<noteq> None then register_gateway_routes else []))"

definition new_router :: "route list" where
  "new_router = new_with_handlers [] (None :: unit handlers option)"

text \<open>
  The handler of an endpoint, on the state with the storage and the clone jobs, behind the
  middleware. \<open>iid\<close> is a fresh intent id, \<open>err_of\<close> the text of a decoding error.
\<close>

fun file_endpoint :: "'w file_service \<Rightarrow> string \<Rightarrow> file_route \<Rightarrow> 'w handler" where
  "file_endpoint sv iid FCreateFolder = handle_create_folder sv iid"
| "file_endpoint sv iid FCreateFile = handle_create_file sv iid"
| "file_endpoint sv iid FCreateNotebook = handle_create_notebook sv iid"
| "file_endpoint sv iid FDeletePath = handle_delete_path sv"
| "file_endpoint sv iid FMovePath = handle_move_path sv"
| "file_endpoint sv iid FCopyPath = handle_copy_path sv"
| "file_endpoint sv iid FRenamePath = handle_rename_path sv"
| "file_endpoint sv iid FListFiles = handle_list_files sv"
| "file_endpoint sv iid FValidatePath = handle_validate_path sv"
| "file_endpoint sv iid FGetFolderNodePath = handle_get_folder_node_path sv"
| "file_endpoint sv iid FListRecycleBin = handle_list_recycle_bin sv"
| "file_endpoint sv iid FRestorePath = handle_restore_path sv"
| "file_endpoint sv iid FEmptyRecycleBin = handle_empty_recycle_bin sv"
| "file_endpoint sv iid FGetFileInfo = handle_get_file_info sv"
| "file_endpoint sv iid FReadFile = handle_read_file sv"
| "file_endpoint sv iid FWriteFile = handle_write_file sv iid"
| "file_endpoint sv iid FDownloadFile = handle_download_file sv"

fun git_endpoint :: "'x world git_service \<Rightarrow> git_route \<Rightarrow> 'x git_world handler" where
  "git_endpoint sv GCloneRepository = beside_jobs (handle_clone_repository sv)"
| "git_endpoint sv GCreateGitFolder = handle_create_git_folder sv"
| "git_endpoint sv GGetGitFolderStatus = handle_get_git_folder_status sv"
| "git_endpoint sv GPullRepo = beside_jobs (handle_pull_repo sv)"
| "git_endpoint sv GStageFiles = beside_jobs (handle_stage_files sv)"
| "git_endpoint sv GUnstageFiles = beside_jobs (handle_unstage_files sv)"
| "git_endpoint sv GCommit = beside_jobs (handle_commit sv)"
| "git_endpoint sv GPushRepo = beside_jobs (handle_push_repo sv)"
| "git_endpoint sv GCommitAndPush = beside_jobs (handle_commit_and_push sv)"
| "git_endpoint sv GCreateBranch = beside_jobs (handle_create_branch sv)"
| "git_endpoint sv GCheckoutBranch = beside_jobs (handle_checkout_branch sv)"
| "git_endpoint sv GListBranches = beside_jobs (handle_list_branches sv)"
| "git_endpoint sv GGetStatus = beside_jobs (handle_get_status sv)"
| "git_endpoint sv GGetFileDiff = beside_jobs (handle_get_file_diff sv)"
| "git_endpoint sv GGetCommitHistory = beside_jobs (handle_get_commit_history sv)"
| "git_endpoint sv GDiscardChanges = beside_jobs (handle_discard_changes sv)"
| "git_endpoint sv GDeleteRepo = beside_jobs (handle_delete_repo sv)"

fun gateway_endpoint :: "'w gateway_port \<Rightarrow> (string \<Rightarrow> string) \<Rightarrow> gateway_route \<Rightarrow> 'w handler" where
  "gateway_endpoint gw err_of JCreateSession = handle_create_session gw err_of"
| "gateway_endpoint gw err_of JListSessions = handle_list_sessions gw"
| "gateway_endpoint gw err_of JGetSession = handle_get_session gw"
| "gateway_endpoint gw err_of JUpdateSession = handle_update_session gw err_of"
| "gateway_endpoint gw err_of JDeleteSession = handle_delete_session gw"
| "gateway_endpoint gw err_of JCreateKernel = handle_create_kernel gw err_of"
| "gateway_endpoint gw err_of JListKernels = handle_list_kernels gw"
| "gateway_endpoint gw err_of JGetKernel = handle_get_kernel gw"
| "gateway_endpoint gw err_of JDeleteKernel = handle_delete_kernel gw"
| "gateway_endpoint gw err_of JInterruptKernel = handle_interrupt_kernel gw"
| "gateway_endpoint gw err_of JRestartKernel = handle_restart_kernel gw"
| "gateway_endpoint gw err_of JChannels = handle_channels gw"
| "gateway_endpoint gw err_of JExecuteTaskWebSocket = handle_execute_task_ws gw"
| "gateway_endpoint gw err_of JSaveExecutionOutputs = handle_proxied gw"
| "gateway_endpoint gw err_of JSparkAppStage = handle_proxied gw"
| "gateway_endpoint gw err_of JSparkAppStatus = handle_proxied gw"
| "gateway_endpoint gw err_of JDeleteSparkApp = handle_proxied gw"
| "gateway_endpoint gw err_of JDeleteSparkSessions = handle_delete_spark_sessions gw"
| "gateway_endpoint gw err_of JListPythonPackages = handle_proxied gw"
| "gateway_endpoint gw err_of JWritePythonPackageRequirements = handle_proxied gw"
| "gateway_endpoint gw err_of JListKernelSpecs = handle_list_kernel_specs gw"
| "gateway_endpoint gw err_of JGetKernelSpec = handle_get_kernel_spec gw"
| "gateway_endpoint gw err_of JGetKernelSpecResource = handle_get_kernel_spec_resource gw"

definition endpoint_handler :: "'x handlers \<Rightarrow> string \<Rightarrow> (string \<Rightarrow> string) \<Rightarrow> endpoint \<Rightarrow> 'x git_world handler option" where
  "endpoint_handler hs iid err_of ep =
     (case ep of
        Healthz \<Rightarrow> Some handle_healthz
      | Readyz \<Rightarrow> Some handle_readyz
      | FileEndpoint f \<Rightarrow> map_option (\<lambda>sv. beside_jobs (file_endpoint sv iid f)) (hs_file hs)
      | GitEndpoint f \<Rightarrow> map_option (\<lambda>sv. git_endpoint sv f) (hs_git hs)
      | GatewayEndpoint f \<Rightarrow> map_option (\<lambda>gw. gateway_endpoint gw err_of f) (hs_gateway hs))"

definition serve :: "'x handlers \<Rightarrow> string \<Rightarrow> string \<Rightarrow> (string \<Rightarrow> string) \<Rightarrow> endpoint \<Rightarrow> 'x git_world handler option" where
  "serve hs rid iid err_of ep = map_option (request_id_middleware rid) (endpoint_handler hs iid err_of ep)"

end
