(* ===== verification/Endpoints.thy ===== *)
theory Endpoints
  imports Router Storage
begin

text \<open>
  The service seen from HTTP: what a request to an endpoint of the file service does to the
  storage, and what its reply says.
\<close>

section \<open>From a request to a call of the service\<close>

text \<open>The identity and the body of a request, when both are accepted.\<close>

definition bound :: "(json \<Rightarrow> (workspace_context \<times> 'b) option) \<Rightarrow> http_request \<Rightarrow> (request_context \<times> 'b) option" where
  "bound dec r =
     (case bind_json dec r of
        None \<Rightarrow> None
      | Some (ws, b) \<Rightarrow> (case resolve_workspace_context (rq_header r) ws of Inl e \<Rightarrow> None | Inr rc \<Rightarrow> Some (rc, b)))"

lemma with_body_bound:
  assumes "with_body dec k h r w = Some (reply, w')"
  shows "bound dec r = None \<and> w' = w \<and> rp_status reply = StatusBadRequest \<or>
    (\<exists>rc b. bound dec r = Some (rc, b) \<and> validate rc = None \<and> normalize rc = rc \<and>
       k h (with_request_context (rq_ctx r) rc) rc b w = Some (reply, w'))"
  using assms
  by (auto simp: with_body_def bound_def bind_workspace_context_def resolved_valid
      split: option.splits prod.splits sum.splits if_splits)

lemma with_body_run:
  "bound dec r = Some (rc, b) \<Longrightarrow>
   with_body dec k h r w = k h (with_request_context (rq_ctx r) rc) rc b w"
  by (auto simp: with_body_def bound_def bind_workspace_context_def split: option.splits prod.splits sum.splits)

text \<open>The call of the service a changing endpoint makes.\<close>

definition request_call :: "file_route \<Rightarrow> http_request \<Rightarrow> service_call option" where
  "request_call f r =
     (case f of
           FCreateFolder \<Rightarrow> map_option (\<lambda>(rc, b). CallCreateFolder \<lparr>sp_context = rc, sp_path = pb_path b\<rparr>) (bound path_body_of r)
         | FCreateFile \<Rightarrow> map_option (\<lambda>(rc, b). CallCreateFile
             \<lparr>sf_context = rc, sf_path = fb_path b, sf_content = [], sf_content_b64 = fb_content_base64 b,
              sf_overwrite = fb_overwrite b\<rparr>) (bound file_body_of r)
         | FWriteFile \<Rightarrow> map_option (\<lambda>(rc, b). CallWriteFile
             \<lparr>sf_context = rc, sf_path = fb_path b, sf_content = [], sf_content_b64 = fb_content_base64 b,
              sf_overwrite = fb_overwrite b\<rparr>) (bound file_body_of r)
         | FCreateNotebook \<Rightarrow> map_option (\<lambda>(rc, b). CallCreateNotebook
             \<lparr>sn_context = rc, sn_path = nb_path b, sn_kernel_name = nb_kernel_name b, sn_overwrite = nb_overwrite b\<rparr>)
             (bound notebook_body_of r)
         | FDeletePath \<Rightarrow> map_option (\<lambda>(rc, b). CallDelete
             \<lparr>sd_context = rc, sd_path = db_path b, sd_soft_delete = db_soft_delete b, sd_permanent = db_permanent b\<rparr>)
             (bound delete_body_of r)
         | FMovePath \<Rightarrow> map_option (\<lambda>(rc, b). CallMove
             \<lparr>sm_context = rc, sm_src_path = mb_src_path b, sm_dest_path = mb_dest_path b, sm_overwrite = mb_overwrite b\<rparr>)
             (bound move_body_of r)
         | FCopyPath \<Rightarrow> map_option (\<lambda>(rc, b). CallCopy
             \<lparr>sm_context = rc, sm_src_path = mb_src_path b, sm_dest_path = mb_dest_path b, sm_overwrite = mb_overwrite b\<rparr>)
             (bound move_body_of r)
         | FRenamePath \<Rightarrow> map_option (\<lambda>(rc, b). CallRename
             \<lparr>sr_context = rc, sr_path = rb_path b, sr_new_name = rb_new_name b, sr_overwrite = rb_overwrite b\<rparr>)
             (bound rename_body_of r)
         | FEmptyRecycleBin \<Rightarrow> map_option (\<lambda>(rc, b). CallEmptyBin rc) (bound context_body_of r)
         | _ \<Rightarrow> None)"

definition changing_routes :: "file_route set" where
  "changing_routes = {FCreateFolder, FCreateFile, FWriteFile, FCreateNotebook, FDeletePath, FMovePath, FCopyPath,
     FRenamePath, FEmptyRecycleBin}"

lemma replying_snd: "replying f m w = Some (reply, w') \<Longrightarrow> snd (m w) = w'"
  by (cases "m w") (simp add: replying_def)

lemma request_runs_call:
  assumes "f \<in> changing_routes" "file_endpoint sv iid f h r w = Some (reply, w')"
  shows "request_call f r = None \<and> w' = w \<and> rp_status reply = StatusBadRequest \<or>
    (\<exists>call. request_call f r = Some call \<and> run_call sv iid call w = Some w')"
  using assms
  by (auto simp: changing_routes_def request_call_def handle_create_folder_def handle_create_file_def
      handle_write_file_def handle_create_notebook_def handle_delete_path_def handle_move_path_def handle_copy_path_def
      handle_rename_path_def handle_empty_recycle_bin_def dest!: with_body_bound replying_snd)

section \<open>Creating what exists\<close>

lemma mkdir_all_there:
  assumes "plain es" "fs_map s es = Some (FDir i)"
  shows "os_mkdir_all (abs_path es) s = (None, s)"
proof -
  have "mkdir_all_rev (rev es) s = (None, s)"
    using assms(2) by (cases es rule: rev_cases) simp_all
  then show ?thesis using assms(1) by (simp add: os_mkdir_all_def fs_path_abs) (simp add: abs_path_def)
qed

lemma lookup_there:
  "fs_wf s \<Longrightarrow> plain es \<Longrightarrow> fs_map s es = Some n \<Longrightarrow> fs_lookup s (abs_path es) = Inr n"
  by (simp add: fs_lookup_def fs_path_abs fs_find_iff) (simp add: abs_path_def)

lemma stat_there:
  assumes "fs_wf s" "plain es" "fs_map s es = Some n" "fault_tick s = (flt, s1)"
  shows "os_stat (abs_path es) s =
    (case flt of Some x \<Rightarrow> Inl (OsError ''stat'' (abs_path es) EIO) | None \<Rightarrow> Inr (node_info s1 (abs_path es) es n), s1)"
proof -
  note same = fs_sameD [OF fault_tick_same [OF assms(4)]]
  have "fs_lookup s1 (abs_path es) = Inr n" using lookup_there [OF assms(1-3)] same by simp
  then show ?thesis using assms(2,4) by (simp add: os_stat_op_def fs_path_abs split: option.splits)
qed

lemma create_existing:
  assumes "fs_wf (w_os w)" "plain (es @ [b])" "fs_map (w_os w) (es @ [b]) = Some n"
    and "cf_path req = abs_path (es @ [b])" "\<not> cf_overwrite req" "fault_tick (w_os w) = (flt, s1)"
  shows "client_create_file c req w =
    (Inl (if flt \<noteq> None then os_go_error (OsError ''stat'' (cf_path req) EIO)
          else if is_dir_node n then sentinel_error ErrNotAFile else sentinel_error ErrAlreadyExists), w\<lparr>w_os := s1\<rparr>)"
proof -
  obtain i where "fs_map (w_os w) es = Some (FDir i)"
    using fs_wf_above [OF assms(1,3)] by blast
  then have mk: "os_mkdir_all (dir_path (cf_path req)) (w_os w) = (None, w_os w)"
    using assms(2,4) mkdir_all_there [of es] dir_abs_path [of es b] by simp
  note st = stat_there [OF assms(1-3,6)]
  show ?thesis
    using mk st assms(4,5)
    by (simp add: client_create_file_def Let_def after_def on_os_def give_def node_info_def os_is_not_exist_def
        split: option.splits)
qed

text \<open>The status of a wrapped error is that of the error.\<close>

lemma fs_error_status_wrap [simp]: "fs_error_status (wrap_error what e) = fs_error_status e"
  by (simp add: fs_error_status_def is_invalid_context_def)

lemma fs_error_status_sentinel:
  "fs_error_status (sentinel_error ErrNotAFile) = StatusBadRequest"
  "fs_error_status (sentinel_error ErrAlreadyExists) = StatusConflict"
  "fs_error_status (sentinel_error ErrNotFound) = StatusNotFound"
  "fs_error_status (sentinel_error ErrFileTooLarge) = StatusRequestEntityTooLarge"
  "fs_error_status (os_go_error e) = StatusInternalServerError"
  by (simp_all add: fs_error_status_def is_invalid_context_def)

lemma write_fs_result_status:
  "rp_status (write_fs_result h ctx (finish sv what r)) =
     (case r of Inl e \<Rightarrow> fs_error_status e | Inr info \<Rightarrow> StatusOK)"
  by (cases r) (simp_all add: write_fs_result_def write_fs_reply_def write_fs_error_def finish_def)

end
