(* ===== verification/HttpGuarantees.thy ===== *)
theory HttpGuarantees
  imports Endpoints
begin

text \<open>
  The properties of the HTTP side: what a request can reach, whose identity it has, and what the
  replies say.
\<close>

section \<open>Requests stay in the area of their caller\<close>

lemma bound_ctx [simp]: "bound dec (r\<lparr>rq_ctx := x\<rparr>) = bound dec r"
  by (simp add: bound_def bind_json_def cong del: option.case_cong_weak)

lemma request_call_ctx [simp]: "request_call f (r\<lparr>rq_ctx := x\<rparr>) = request_call f r"
  by (cases f) (simp_all add: request_call_def)

lemma serve_file:
  assumes "hs_file hs = Some sv" "serve hs rid iid err_of (FileEndpoint f) = Some handler"
    and "handler h r g = Some (reply, g')"
  obtains h' x w' where "file_endpoint sv iid f h' (r\<lparr>rq_ctx := x\<rparr>) (gw_world g) = Some (reply, w')"
    "g' = g\<lparr>gw_world := w'\<rparr>"
  using assms that
  by (auto simp: serve_def endpoint_handler_def request_id_middleware_def Let_def beside_jobs_def)


section \<open>The identity of a request\<close>

definition first_given :: "string list \<Rightarrow> string" where
  "first_given xs = (case filter (\<lambda>x. x \<noteq> []) xs of [] \<Rightarrow> [] | x # _ \<Rightarrow> x)"

lemma first_given_simps [simp]:
  "first_given [] = []" "first_given (x # xs) = (if x = [] then first_given xs else x)"
  by (simp_all add: first_given_def)

lemma trim_first_given [simp]: "\<forall>x \<in> set xs. trim_space x = x \<Longrightarrow> trim_space (first_given xs) = first_given xs"
  by (induction xs) auto

lemma context_eqI:
  fixes a b :: request_context
  assumes "rc_owner_uin a = rc_owner_uin b" "rc_uin a = rc_uin b" "rc_app_id a = rc_app_id b"
    "rc_workspace_id a = rc_workspace_id b"
  shows "a = b"
  using assms by simp

lemma given_in_order:
  "(if first_given [first_given [b1, b2], h1] = [] then first_given [first_given [b2, b1], h2]
    else first_given [first_given [b1, b2], h1]) = first_given [b1, b2, h1, h2]"
  by simp

lemma resolve_in_order:
  defines "body \<equiv> \<lambda>ws f. trim_space (f ws)" and "head \<equiv> \<lambda>h k. trim_space (header_get h k)"
  shows "resolve_workspace_context h ws =
    (let rc = \<lparr>rc_owner_uin = first_given [body ws rc_owner_uin, body ws rc_uin, head h HeaderOwnerUIN, head h HeaderUIN],
               rc_uin = first_given [body ws rc_uin, body ws rc_owner_uin, head h HeaderUIN, head h HeaderOwnerUIN],
               rc_app_id = first_given [body ws rc_app_id, head h HeaderAppID],
               rc_workspace_id = first_given [body ws rc_workspace_id, head h HeaderWorkspaceID]\<rparr>
     in case validate rc of Some e \<Rightarrow> Inl e | None \<Rightarrow> Inr rc)"
proof -
  let ?rc0 = "to_identity ws"
  let ?fill = "\<lambda>v k. if v = [] then trim_space (header_get h k) else v"
  have fill: "?fill v k = first_given [v, head h k]" for v k by (simp add: head_def)
  have trimmed: "trim_space (first_given [v, head h k]) = first_given [v, head h k]" if "trim_space v = v" for v k
    using that by (simp add: head_def)
  have first2: "trim_space (first_given [body ws f, body ws g]) = first_given [body ws f, body ws g]" for f g
    by (simp add: body_def)
  have body: "trim_space (body ws f) = body ws f" for f by (simp add: body_def)
  have given: "rc_app_id ?rc0 = body ws rc_app_id" "rc_workspace_id ?rc0 = body ws rc_workspace_id"
    "rc_uin ?rc0 = first_given [body ws rc_uin, body ws rc_owner_uin]"
    "rc_owner_uin ?rc0 = first_given [body ws rc_owner_uin, body ws rc_uin]"
    by (simp_all add: to_identity_fields body_def)
  have "normalize \<lparr>rc_owner_uin = ?fill (rc_owner_uin ?rc0) HeaderOwnerUIN, rc_uin = ?fill (rc_uin ?rc0) HeaderUIN,
      rc_app_id = ?fill (rc_app_id ?rc0) HeaderAppID, rc_workspace_id = ?fill (rc_workspace_id ?rc0) HeaderWorkspaceID\<rparr> =
    \<lparr>rc_owner_uin = first_given [body ws rc_owner_uin, body ws rc_uin, head h HeaderOwnerUIN, head h HeaderUIN],
     rc_uin = first_given [body ws rc_uin, body ws rc_owner_uin, head h HeaderUIN, head h HeaderOwnerUIN],
     rc_app_id = first_given [body ws rc_app_id, head h HeaderAppID],
     rc_workspace_id = first_given [body ws rc_workspace_id, head h HeaderWorkspaceID]\<rparr>"
    by (rule context_eqI)
      (simp_all only: normalize_fields request_context.select_convs fill given trimmed body first2 given_in_order)
  then show ?thesis by (simp only: resolve_workspace_context_def Let_def)
qed

text \<open>
  C34. Where the identity comes from: the body before the headers for every field, and an owner in
  the body counts as the user before the header of the user is looked at. A request without an
  application, a workspace or any user is refused.
\<close>

theorem body_identity_first:
  "let body = (\<lambda>f. trim_space (f ws)); head = (\<lambda>k. trim_space (header_get h k));
       app = first_given [body rc_app_id, head HeaderAppID];
       wks = first_given [body rc_workspace_id, head HeaderWorkspaceID];
       uin = first_given [body rc_uin, body rc_owner_uin, head HeaderUIN, head HeaderOwnerUIN];
       owner = first_given [body rc_owner_uin, body rc_uin, head HeaderOwnerUIN, head HeaderUIN]
   in case resolve_workspace_context h ws of
        Inl e \<Rightarrow> is_invalid_context e \<and> (app = [] \<or> wks = [] \<or> uin = [])
      | Inr rc \<Rightarrow> rc = \<lparr>rc_owner_uin = owner, rc_uin = uin, rc_app_id = app, rc_workspace_id = wks\<rparr> \<and>
          app \<noteq> [] \<and> wks \<noteq> [] \<and> uin \<noteq> [] \<and> owner \<noteq> []"
proof -
  let ?body = "\<lambda>f. trim_space (f ws)" and ?head = "\<lambda>k. trim_space (header_get h k)"
  define app where "app = first_given [?body rc_app_id, ?head HeaderAppID]"
  define wks where "wks = first_given [?body rc_workspace_id, ?head HeaderWorkspaceID]"
  define uin where "uin = first_given [?body rc_uin, ?body rc_owner_uin, ?head HeaderUIN, ?head HeaderOwnerUIN]"
  define owner where "owner = first_given [?body rc_owner_uin, ?body rc_uin, ?head HeaderOwnerUIN, ?head HeaderUIN]"
  have trimmed: "trim_space app = app" "trim_space wks = wks" "trim_space uin = uin" "trim_space owner = owner"
    by (simp_all add: app_def wks_def uin_def owner_def del: first_given_simps)
  have same: "uin = [] \<longleftrightarrow> owner = []" by (auto simp: uin_def owner_def)
  let ?rc = "\<lparr>rc_owner_uin = owner, rc_uin = uin, rc_app_id = app, rc_workspace_id = wks\<rparr>"
  have "resolve_workspace_context h ws = (case validate ?rc of Some e \<Rightarrow> Inl e | None \<Rightarrow> Inr ?rc)"
    by (simp only: resolve_in_order Let_def app_def wks_def uin_def owner_def)
  moreover have "validate ?rc = None \<longleftrightarrow> app \<noteq> [] \<and> wks \<noteq> [] \<and> uin \<noteq> []"
    using same by (auto simp: validate_def trimmed)
  moreover have "is_invalid_context e" if "validate ?rc = Some e" for e
    using validate_is_invalid_context [OF that] by (simp add: is_invalid_context_def)
  ultimately have "case resolve_workspace_context h ws of
        Inl e \<Rightarrow> is_invalid_context e \<and> (app = [] \<or> wks = [] \<or> uin = [])
      | Inr rc \<Rightarrow> rc = ?rc \<and> app \<noteq> [] \<and> wks \<noteq> [] \<and> uin \<noteq> [] \<and> owner \<noteq> []"
    using same by (cases "validate ?rc") auto
  then show ?thesis by (simp only: Let_def app_def wks_def uin_def owner_def)
qed

section \<open>Creating and reading over HTTP\<close>

lemma creating_endpoint:
  assumes "f = FCreateFile \<or> f = FWriteFile" "file_endpoint sv iid f h r w = Some (reply, w')"
    and "bound file_body_of r = Some (rc, b)" "decode_content [] (fb_content_base64 b) = Some d"
    and "sv_fs sv = workspace_fs_client c" "recorder_off_disk (sv_recorder sv)"
    and "resolve_actor_and_path sv rc (fb_path b) = Inr (a, p)"
  obtains res w1 w2 where "w_os w1 = w_os w" "w_os w' = w_os w2"
    "client_create_file c \<lparr>cf_actor = a, cf_path = p, cf_content = d, cf_overwrite = fb_overwrite b\<rparr> w1 = (res, w2)"
    "rp_status reply = (case res of Inl e \<Rightarrow> fs_error_status e | Inr info \<Rightarrow> StatusOK)"
proof -
  let ?ctx = "with_request_context (rq_ctx r) rc"
  have "\<exists>op what res. recorder_run (sv_recorder sv) iid op p a NodeTypeFile
      (client_create_file c \<lparr>cf_actor = a, cf_path = p, cf_content = d, cf_overwrite = fb_overwrite b\<rparr>) w = (res, w') \<and>
      reply = write_fs_result h ?ctx (finish sv what res)"
    using assms(1)
  proof (elim disjE)
    assume "f = FCreateFile"
    with assms(2-5,7) show ?thesis
      by (auto simp: handle_create_file_def with_body_run replying_def create_file_def after_def give_def
          split: prod.splits)
  next
    assume "f = FWriteFile"
    with assms(2-5,7) show ?thesis
      by (auto simp: handle_write_file_def with_body_run replying_def write_file_def client_write_file_def after_def give_def
          split: prod.splits)
  qed
  then obtain op what res where run: "recorder_run (sv_recorder sv) iid op p a NodeTypeFile
      (client_create_file c \<lparr>cf_actor = a, cf_path = p, cf_content = d, cf_overwrite = fb_overwrite b\<rparr>) w = (res, w')"
    and reply: "reply = write_fs_result h ?ctx (finish sv what res)" by blast
  have "rp_status reply = (case res of Inl e \<Rightarrow> fs_error_status e | Inr info \<Rightarrow> StatusOK)"
    by (simp add: reply write_fs_result_status)
  with recorder_run_os [OF assms(6) run] that show thesis by blast
qed

lemma reading_endpoint:
  assumes "file_endpoint sv iid FReadFile h r w = Some (reply, w')" "bound path_body_of r = Some (rc, b)"
    and "sv_fs sv = workspace_fs_client c" "resolve_actor_and_path sv rc (pb_path b) = Inr (a, p)"
  obtains res where "client_read_file c \<lparr>rf_actor = a, rf_path = p\<rparr> w = (res, w')"
    "reply = write_fs_reply h (with_request_context (rq_ctx r) rc) read_file_json
      (case res of Inl e \<Rightarrow> Inl (wrap_error ''read file'' e)
       | Inr (info, content) \<Rightarrow> Inr \<lparr>rr_file = map_file_info info (sv_mount_root sv), rr_b64 = base64_encode content,
           rr_size = int (length content)\<rparr>)"
  using assms that
  by (auto simp: handle_read_file_def with_body_run replying_def read_file_def after_def give_def split: prod.splits)

lemma read_reply:
  "rp_status (write_fs_reply h ctx read_file_json (Inr x)) = StatusOK"
  "rp_body (write_fs_reply h ctx read_file_json (Inr x)) = JsonBody (body_json 0 ''ok'' (Some (JObj
     [(''file'', file_info_json (rr_file x)), (''content_base64'', JStr (rr_b64 x)), (''size'', int_json (rr_size x))]))
     (reply_request_id ctx))"
  by (simp_all add: write_fs_reply_def ok_reply_def json_reply_def read_file_json_def body_allowed_def status_defs)

text \<open>
  C35. Creating or writing a file without \<open>overwrite\<close> where something exists changes nothing on
  the disk, whatever faults occur, and the status says why: 500 when the path could not be looked
  at, 400 for a directory, 409 for a file.
\<close>

theorem existing_path_is_kept:
  assumes "f = FCreateFile \<or> f = FWriteFile" "file_endpoint sv iid f h r w = Some (reply, w')"
    and "bound file_body_of r = Some (rc, b)" "decode_content [] (fb_content_base64 b) = Some d"
    and "sv_fs sv = workspace_fs_client c" "recorder_off_disk (sv_recorder sv)"
    and "resolve_actor_and_path sv rc (fb_path b) = Inr (a, abs_path (es @ [n]))" "plain (es @ [n])"
    and "\<not> fb_overwrite b" "fs_wf (w_os w)" "fs_map (w_os w) (es @ [n]) = Some node"
  shows "fs_map (w_os w') = fs_map (w_os w) \<and>
    rp_status reply =
      (if fst (fault_tick (w_os w)) \<noteq> None then StatusInternalServerError
       else if is_dir_node node then StatusBadRequest else StatusConflict)"
  using assms(1-7)
proof (rule creating_endpoint)
  fix res w1 w2
  assume w: "w_os w1 = w_os w" "w_os w' = w_os w2"
    and run: "client_create_file c \<lparr>cf_actor = a, cf_path = abs_path (es @ [n]), cf_content = d, cf_overwrite = fb_overwrite b\<rparr> w1 = (res, w2)"
    and st: "rp_status reply = (case res of Inl e \<Rightarrow> fs_error_status e | Inr info \<Rightarrow> StatusOK)"
  obtain flt s1 where t: "fault_tick (w_os w) = (flt, s1)" by (cases "fault_tick (w_os w)")
  have "fs_map s1 = fs_map (w_os w)" using fs_sameD(1) [OF fault_tick_same [OF t]] by simp
  with create_existing [of w1 es n node _ flt s1 c, OF _ assms(8)] run w t st assms(9-11) show ?thesis
    by (auto simp: fs_error_status_sentinel)
qed

text \<open>
  C36. The status of a read, complete for a disk without faults: 404 for a missing path, 500 when a
  component of it is not a directory, 400 for a directory, 413 for a file above 32 MiB, and else 200
  with the base64 text of exactly the bytes of the file. Nothing changes on the disk.
\<close>

theorem read_replies:
  assumes "file_endpoint sv iid FReadFile h r w = Some (reply, w')" "bound path_body_of r = Some (rc, b)"
    and "sv_fs sv = workspace_fs_client c" "store_off_disk c"
    and "resolve_actor_and_path sv rc (pb_path b) = Inr (a, abs_path es)" "plain es"
    and "fs_wf (w_os w)" "fs_faults (w_os w) = []"
  shows "fs_map (w_os w') = fs_map (w_os w) \<and>
    (case fs_lookup (w_os w) (abs_path es) of
       Inl e \<Rightarrow> rp_status reply = (if e = ENOENT then StatusNotFound else StatusInternalServerError)
     | Inr (FDir i) \<Rightarrow> rp_status reply = StatusBadRequest
     | Inr (FFile i d) \<Rightarrow>
         if max_inline_read_size < int (length d) then rp_status reply = StatusRequestEntityTooLarge
         else rp_status reply = StatusOK \<and> (\<exists>fi rid. rp_body reply = JsonBody (body_json 0 ''ok''
           (Some (JObj [(''file'', fi), (''content_base64'', JStr (base64_encode d)), (''size'', int_json (int (length d)))])) rid)))"
proof -
  let ?req = "\<lparr>rf_actor = a, rf_path = abs_path es\<rparr>"
  let ?ctx = "with_request_context (rq_ctx r) rc"
  have w: "w\<lparr>w_os := w_os w\<rparr> = w" by simp
  have tick: "fault_tick (w_os w) = (None, w_os w)" using assms(8) by (simp add: fault_tick_def)
  obtain res where run: "client_read_file c ?req w = (res, w')"
    and reply: "reply = write_fs_reply h ?ctx read_file_json
      (case res of Inl e \<Rightarrow> Inl (wrap_error ''read file'' e)
       | Inr (info, content) \<Rightarrow> Inr \<lparr>rr_file = map_file_info info (sv_mount_root sv), rr_b64 = base64_encode content,
           rr_size = int (length content)\<rparr>)"
    by (rule reading_endpoint [OF assms(1-3,5)])
  have map: "fs_map (w_os w') = fs_map (w_os w)"
    using fs_sameD(1) [OF looks [OF looking.keeps_read [of ?req a] assms(4) run]] by simp
  have bad: "rp_status reply = fs_error_status e" if "res = Inl e" for e
    using that by (simp add: reply write_fs_reply_def write_fs_error_def)
  show ?thesis
  proof (cases "fs_lookup (w_os w) (abs_path es)")
    case (Inl e)
    then have "res = Inl (if e = ENOENT then sentinel_error ErrNotFound else os_go_error (OsError ''stat'' (abs_path es) e))"
      using run tick by (auto simp: client_read_file_def after_def on_os_def os_stat_op_def give_def os_is_not_exist_def)
    with Inl map bad show ?thesis by (simp add: fs_error_status_sentinel)
  next
    case (Inr node)
    then have st: "on_os (os_stat (abs_path es)) w = (Inr (node_info (w_os w) (abs_path es) es node), w)"
      using tick assms(6) by (simp add: on_os_def os_stat_op_def fs_path_abs)
    show ?thesis
    proof (cases node)
      case (FDir i)
      with st run have "res = Inl (sentinel_error ErrNotAFile)"
        by (auto simp: client_read_file_def after_def give_def node_info_def)
      with Inr FDir map bad show ?thesis by (simp add: fs_error_status_sentinel)
    next
      case (FFile i d)
      show ?thesis
      proof (cases "max_inline_read_size < int (length d)")
        case True
        with FFile st run have "res = Inl (sentinel_error ErrFileTooLarge)"
          by (auto simp: client_read_file_def after_def give_def node_info_def)
        with True Inr FFile map bad show ?thesis by (simp add: fs_error_status_sentinel)
      next
        case False
        have "fs_map (w_os w) es = Some (FFile i d)"
          using Inr FFile assms(6,7) by (auto simp: fs_lookup_def fs_path_abs fs_find_iff split: if_splits)
        with read_file_quiet [OF assms(7,8,6), of i d ?req c] False obtain fi where "res = Inr (fi, d)"
          using run by auto
        with False Inr FFile map show ?thesis
          by (auto simp: reply read_reply)
      qed
    qed
  qed
qed

text \<open>
  C37. The bytes of an accepted write come back: after a \<open>CreateFile\<close> or \<open>WriteFile\<close> answered with
  200, whatever faults occurred meanwhile, a \<open>ReadFile\<close> of the same path by the same identity
  answers, once the disk is free of faults and the file is not above 32 MiB, with base64 text that
  decodes to the bytes that were sent.
\<close>

theorem written_over_http_is_read:
  assumes "f = FCreateFile \<or> f = FWriteFile" "file_endpoint sv iid f h r w = Some (reply, w1)"
    and "rp_status reply = StatusOK"
    and "bound file_body_of r = Some (rc, b)" "decode_content [] (fb_content_base64 b) = Some d"
    and "sv_fs sv = workspace_fs_client c" "recorder_off_disk (sv_recorder sv)" "store_off_disk c"
    and "resolve_actor_and_path sv rc (fb_path b) = Inr (a, abs_path (es @ [n]))" "plain (es @ [n])"
    and "fs_wf (w_os w)" "int (length d) \<le> max_inline_read_size"
    and "file_endpoint sv iid2 FReadFile h2 r2 w1 = Some (reply2, w2)" "fs_faults (w_os w1) = []"
    and "bound path_body_of r2 = Some (rc, b2)" "pb_path b2 = fb_path b"
  shows "rp_status reply2 = StatusOK \<and>
    (\<exists>fi text rid. rp_body reply2 = JsonBody (body_json 0 ''ok''
        (Some (JObj [(''file'', fi), (''content_base64'', JStr text), (''size'', int_json (int (length d)))])) rid) \<and>
      base64_decode text = Some d)"
proof -
  from assms(1,2,4-7,9) obtain res v v2 where v: "w_os v = w_os w" "w_os w1 = w_os v2"
    and run: "client_create_file c \<lparr>cf_actor = a, cf_path = abs_path (es @ [n]), cf_content = d, cf_overwrite = fb_overwrite b\<rparr> v = (res, v2)"
    and st: "rp_status reply = (case res of Inl e \<Rightarrow> fs_error_status e | Inr info \<Rightarrow> StatusOK)"
    by (rule creating_endpoint)
  have ok: "is_ok res" using st assms(3) by (cases res) (auto simp: fs_error_status_def status_defs split: if_splits)
  have "fs_wf (w_os v)" using v assms(11) by simp
  then obtain s1 i where eff: "fs_wf (w_os v2)" "fs_map (w_os v2) = (fs_map s1)(es @ [n] \<mapsto> FFile i d)"
    by (rule create_file_effect [OF assms(8) _ assms(10) _ run]) (use ok that in auto)
  have "resolve_actor_and_path sv rc (pb_path b2) = Inr (a, abs_path (es @ [n]))" using assms(9,16) by simp
  note path = this
  have wf: "fs_wf (w_os w1)" using eff v by simp
  have "fs_lookup (w_os w1) (abs_path (es @ [n])) = Inr (FFile i d)"
    using lookup_there [OF wf assms(10)] eff(2) v by simp
  obtain res2 where "client_read_file c \<lparr>rf_actor = a, rf_path = abs_path (es @ [n])\<rparr> w1 = (res2, w2)"
    and reply: "reply2 = write_fs_reply h2 (with_request_context (rq_ctx r2) rc) read_file_json
      (case res2 of Inl e \<Rightarrow> Inl (wrap_error ''read file'' e)
       | Inr (info, content) \<Rightarrow> Inr \<lparr>rr_file = map_file_info info (sv_mount_root sv), rr_b64 = base64_encode content,
           rr_size = int (length content)\<rparr>)"
    by (rule reading_endpoint [OF assms(13,15,6) path])
  moreover have "fs_map (w_os w1) (es @ [n]) = Some (FFile i d)" using eff v by simp
  ultimately obtain fi where "res2 = Inr (fi, d)"
    using read_file_quiet [OF wf assms(14,10), of i d "\<lparr>rf_actor = a, rf_path = abs_path (es @ [n])\<rparr>" c] assms(12) by auto
  then have res: "reply2 = write_fs_reply h2 (with_request_context (rq_ctx r2) rc) read_file_json
      (Inr \<lparr>rr_file = map_file_info fi (sv_mount_root sv), rr_b64 = base64_encode d, rr_size = int (length d)\<rparr>)"
    by (simp add: reply)
  show ?thesis
  proof (intro conjI exI)
    show "rp_status reply2 = StatusOK" by (simp add: res read_reply)
    show "rp_body reply2 = JsonBody (body_json 0 ''ok'' (Some (JObj
        [(''file'', file_info_json (map_file_info fi (sv_mount_root sv))), (''content_base64'', JStr (base64_encode d)),
         (''size'', int_json (int (length d)))])) (reply_request_id (with_request_context (rq_ctx r2) rc)))"
      by (simp add: res read_reply)
    show "base64_decode (base64_encode d) = Some d" by (rule base64_decode_encode)
  qed
qed

end
