(* ===== verification/Envelopes.thy ===== *)
theory Envelopes
  imports Router
begin

text \<open>
  The shape of the replies: every answer of a file or git endpoint is the common envelope, apart
  from a download, and carries the id of the request in its header and in the envelope.
\<close>

section \<open>Envelopes\<close>

definition envelope :: "string \<Rightarrow> http_reply \<Rightarrow> bool" where
  "envelope rid reply \<longleftrightarrow>
     (if rp_status reply = StatusOK
      then \<exists>data. rp_body reply = JsonBody (body_json 0 ''ok'' (Some data) rid)
      else (\<exists>msg. rp_body reply = JsonBody (body_json (int (rp_status reply)) msg None rid)) \<and>
        rp_status reply \<in> {StatusBadRequest, StatusNotFound, StatusConflict, StatusRequestEntityTooLarge, StatusInternalServerError})"

definition download :: "http_reply \<Rightarrow> bool" where
  "download reply \<longleftrightarrow> rp_status reply = StatusOK \<and> (\<exists>data. rp_body reply = RawBody data) \<and>
     (\<exists>name. header_values (rp_header reply) ''Content-Disposition'' = [''attachment; filename='' @ name])"

definition tagged :: "string \<Rightarrow> http_reply \<Rightarrow> bool" where
  "tagged rid reply \<longleftrightarrow> header_values (rp_header reply) HeaderRequestID = [rid]"

definition answers :: "string \<Rightarrow> http_reply \<Rightarrow> bool" where
  "answers rid reply \<longleftrightarrow> tagged rid reply \<and> envelope rid reply"

lemma other_headers [simp]:
  "header_values (with_content_type ct h) HeaderRequestID = header_values h HeaderRequestID"
  "header_values (header_set ''Content-Disposition'' v h) HeaderRequestID = header_values h HeaderRequestID"
  "header_values (with_content_type ct h) ''Content-Disposition'' = header_values h ''Content-Disposition''"
proof -
  have keys: "canonical_key HeaderRequestID \<noteq> canonical_key ''Content-Type''"
    "canonical_key HeaderRequestID \<noteq> canonical_key ''Content-Disposition''"
    "canonical_key ''Content-Type'' \<noteq> canonical_key ''Content-Disposition''" by code_simp+
  show "header_values (with_content_type ct h) HeaderRequestID = header_values h HeaderRequestID"
  "header_values (header_set ''Content-Disposition'' v h) HeaderRequestID = header_values h HeaderRequestID"
  "header_values (with_content_type ct h) ''Content-Disposition'' = header_values h ''Content-Disposition''"
    using keys by (auto simp: with_content_type_def header_values_set)
qed

lemma header_values_same: "header_values (header_set k v h) k = [v]"
  by (simp add: header_values_set)

text \<open>The two kinds of envelope.\<close>

lemma answers_ok:
  "header_values h HeaderRequestID = [rid] \<Longrightarrow> reply_request_id ctx = rid \<Longrightarrow> answers rid (ok_reply h ctx data)"
  by (auto simp: answers_def tagged_def envelope_def ok_reply_def json_reply_def body_allowed_def status_defs)

lemma answers_error:
  "header_values h HeaderRequestID = [rid] \<Longrightarrow> reply_request_id ctx = rid \<Longrightarrow>
   status \<in> {StatusBadRequest, StatusNotFound, StatusConflict, StatusRequestEntityTooLarge, StatusInternalServerError} \<Longrightarrow>
   answers rid (error_reply h ctx status msg)"
  by (auto simp: answers_def tagged_def envelope_def error_reply_def json_reply_def body_allowed_def status_defs)

lemma answers_fs_error:
  "header_values h HeaderRequestID = [rid] \<Longrightarrow> reply_request_id ctx = rid \<Longrightarrow> answers rid (write_fs_error h ctx e)"
  unfolding write_fs_error_def by (erule (1) answers_error) (simp add: fs_error_status_def)

lemma answers_git_error:
  "header_values h HeaderRequestID = [rid] \<Longrightarrow> reply_request_id ctx = rid \<Longrightarrow> answers rid (write_git_error h ctx e)"
  unfolding write_git_error_def by (erule (1) answers_error) (simp add: git_error_status_def)

lemma answers_results:
  assumes "header_values h HeaderRequestID = [rid]" "reply_request_id ctx = rid"
  shows "answers rid (write_fs_reply h ctx f r)" "answers rid (write_fs_result h ctx q)"
    "answers rid (write_fs_done h ctx what e)" "answers rid (write_git_reply h ctx f r)"
    "answers rid (write_git_done h ctx what e)" "answers rid (write_clone_error h ctx err)"
  using assms
  by (auto simp: write_fs_reply_def write_fs_result_def write_fs_done_def write_git_reply_def write_git_done_def
      write_clone_error_def answers_ok answers_fs_error answers_git_error answers_error split: sum.splits option.splits)

text \<open>An endpoint of one state answers, whatever it is asked.\<close>

definition answering :: "(string \<Rightarrow> http_reply \<Rightarrow> bool) \<Rightarrow> 'w handler \<Rightarrow> bool" where
  "answering ok handler \<longleftrightarrow>
     (\<forall>h r w reply w'. handler h r w = Some (reply, w') \<longrightarrow>
        header_values h HeaderRequestID = [reply_request_id (rq_ctx r)] \<longrightarrow> ok (reply_request_id (rq_ctx r)) reply)"

lemma answering_with_body:
  assumes "\<And>h ctx rc b w reply w'. header_values h HeaderRequestID = [reply_request_id ctx] \<Longrightarrow>
      k h ctx rc b w = Some (reply, w') \<Longrightarrow> ok (reply_request_id ctx) reply"
    and "\<And>rid reply. answers rid reply \<Longrightarrow> ok rid reply"
  shows "answering ok (with_body dec k)"
proof -
  have same: "reply_request_id (with_request_context ctx rc) = reply_request_id ctx" for ctx rc
    by (simp add: reply_request_id_def with_request_context_def request_id_from_context_def)
  have bad: "ok (reply_request_id ctx) (error_reply h ctx StatusBadRequest msg)"
    if "header_values h HeaderRequestID = [reply_request_id ctx]" for ctx h msg
    using assms(2) answers_error [OF that refl, of StatusBadRequest msg] by simp
  show ?thesis
    unfolding answering_def
  proof (intro allI impI)
    fix h r w reply w' assume run: "with_body dec k h r w = Some (reply, w')"
      and h: "header_values h HeaderRequestID = [reply_request_id (rq_ctx r)]"
    show "ok (reply_request_id (rq_ctx r)) reply"
    proof (cases "bind_json dec r")
      case None
      with run h bad show ?thesis by (auto simp: with_body_def)
    next
      case (Some wb)
      with run h bad assms(1) [of h "with_request_context (rq_ctx r) rc" rc b w reply w' for rc b] show ?thesis
        by (auto simp: with_body_def bind_workspace_context_def same split: prod.splits sum.splits if_splits)
    qed
  qed
qed

lemma answering_jobs: "answering ok handler \<Longrightarrow> answering ok (beside_jobs handler)"
  unfolding answering_def beside_jobs_def by fastforce

lemma replyingE: "replying f m w = Some (reply, w') \<Longrightarrow> \<exists>r. reply = f r"
  by (cases "m w") (auto simp: replying_def)

lemma map_replyE: "map_option (apfst f) x = Some (reply, w') \<Longrightarrow> \<exists>r. reply = f r"
  by (cases x) auto

lemma file_endpoints_answer:
  "f \<noteq> FDownloadFile \<Longrightarrow> answering answers (file_endpoint sv iid f)"
  by (cases f)
    (auto simp: handle_create_folder_def handle_create_file_def handle_create_notebook_def handle_delete_path_def
      handle_move_path_def handle_copy_path_def handle_rename_path_def handle_list_files_def handle_get_file_info_def
      handle_read_file_def handle_write_file_def handle_validate_path_def handle_get_folder_node_path_def
      handle_list_recycle_bin_def handle_restore_path_def handle_empty_recycle_bin_def
      intro!: answering_with_body answers_results dest!: replyingE map_replyE)

lemma download_answers:
  "answering (\<lambda>rid reply. answers rid reply \<or> tagged rid reply \<and> download reply) (handle_download_file sv)"
  unfolding handle_download_file_def
  by (rule answering_with_body)
    (auto dest!: replyingE simp: answers_fs_error tagged_def download_def data_reply_def header_values_same
      body_allowed_def status_defs split: sum.splits prod.splits)

lemma git_endpoints_answer: "answering answers (git_endpoint sv f)"
  by (cases f)
    (auto simp: handle_clone_repository_def handle_create_git_folder_def handle_get_git_folder_status_def
      handle_stage_files_def handle_unstage_files_def handle_commit_def handle_push_repo_def handle_pull_repo_def
      handle_commit_and_push_def handle_create_branch_def handle_checkout_branch_def handle_list_branches_def
      handle_get_status_def handle_get_file_diff_def handle_get_commit_history_def handle_discard_changes_def
      handle_delete_repo_def answers_ok
      intro!: answering_jobs answering_with_body answers_results dest!: replyingE split: sum.splits)

section \<open>Every answer\<close>

text \<open>
  C38. Every request to a file or git endpoint, whatever its body and the state, is answered with the
  envelope: code 0, the text \<open>ok\<close> and a document with status 200, or the status as code, the text
  of the error and no document with 400, 404, 409, 413 or 500; only \<open>DownloadFile\<close> answers with the
  bytes themselves. The id of the request, the caller's or else the drawn one, is in the header and
  in the envelope.
\<close>

theorem every_answer_is_an_envelope:
  assumes "ep = FileEndpoint f \<or> ep = GitEndpoint g" "serve hs fresh iid err_of ep = Some handler"
    and "handler h r w = Some (reply, w')"
  shows "let given = trim_space (header_get (rq_header r) HeaderRequestID); rid = (if given = [] then fresh else given)
    in tagged rid reply \<and> (envelope rid reply \<or> ep = FileEndpoint FDownloadFile \<and> download reply)"
proof -
  let ?given = "trim_space (header_get (rq_header r) HeaderRequestID)"
  define rid where "rid = (if ?given = [] then fresh else ?given)"
  let ?ok = "\<lambda>rid reply. tagged rid reply \<and> (envelope rid reply \<or> ep = FileEndpoint FDownloadFile \<and> download reply)"
  let ?h = "header_set HeaderRequestID rid h" and ?r = "r\<lparr>rq_ctx := with_request_id (rq_ctx r) rid\<rparr>"
  obtain inner where inner: "endpoint_handler hs iid err_of ep = Some inner"
    and run: "inner ?h ?r w = Some (reply, w')"
    using assms(2,3) by (auto simp: serve_def request_id_middleware_def Let_def rid_def)
  have weaken: "answering ?ok k" if "answering answers k" for k :: "'a git_world handler"
    using that unfolding answering_def answers_def by blast
  have "answering ?ok inner"
    using assms(1)
  proof (elim disjE)
    assume ep: "ep = FileEndpoint f"
    then obtain sv where sv: "inner = beside_jobs (file_endpoint sv iid f)"
      using inner by (auto simp: endpoint_handler_def)
    show ?thesis
    proof (cases "f = FDownloadFile")
      case True
      have "answering ?ok (beside_jobs (handle_download_file sv))"
        using answering_jobs [OF download_answers [of sv]] ep True unfolding answering_def answers_def by blast
      with True sv show ?thesis by simp
    next
      case False
      then show ?thesis unfolding sv by (intro weaken answering_jobs file_endpoints_answer)
    qed
  next
    assume "ep = GitEndpoint g"
    then obtain sv where "inner = git_endpoint sv g"
      using inner by (auto simp: endpoint_handler_def)
    then show ?thesis by (simp add: weaken git_endpoints_answer)
  qed
  moreover have "reply_request_id (rq_ctx ?r) = rid"
    by (simp add: reply_request_id_def with_request_id_def request_id_from_context_def)
  ultimately have "?ok rid reply"
    using run header_values_same [of HeaderRequestID rid h] unfolding answering_def by metis
  then show ?thesis by (simp only: Let_def rid_def)
qed

end
