(* ===== verification/HttpRuns.thy ===== *)
theory HttpRuns
  imports HttpGuarantees Envelopes
begin

text \<open>
  Requests to the service on the sample file system: the witnesses of the HTTP properties.
\<close>

definition sample_handlers :: "(mem_nodes \<times> mem_intents) handlers" where
  "sample_handlers = \<lparr>hs_file = Some sample_service, hs_git = None, hs_gateway = None\<rparr>"

definition served_world :: "(mem_nodes \<times> mem_intents) git_world" where
  "served_world = \<lparr>gw_world = sample_world, gw_jobs = [], gw_threads = []\<rparr>"

definition post :: "string \<Rightarrow> http_request" where
  "post body =
     \<lparr>rq_method = ''POST'', rq_path = [], rq_raw_query = [], rq_host = ''h'', rq_header = [],
      rq_params = [], rq_body = Some body, rq_length = int (length body), rq_ctx = \<lparr>cx_identity = None, cx_request_id = None\<rparr>\<rparr>"

text \<open>A JSON body with the fields of the identity.\<close>

definition quoted :: "string \<Rightarrow> string" where
  "quoted s = [CHR 0x22] @ s @ [CHR 0x22]"

definition body_text :: "(string \<times> string) list \<Rightarrow> string" where
  "body_text fs = ''{'' @ join_with '','' (map (\<lambda>(k, v). quoted k @ '':'' @ v)
     ([(''uin'', quoted ''u''), (''owner_uin'', quoted ''o''), (''app_id'', quoted ''a''),
       (''workspace_id'', quoted ''w'')] @ fs)) @ ''}''"

definition write_post :: http_request where
  "write_post = post (body_text [(''path'', quoted ''d/g''), (''content_base64'', quoted ''eA=='')])"

lemma write_post_bound:
  "bound file_body_of write_post =
     Some (sample_actor, \<lparr>fb_path = ''d/g'', fb_content_base64 = ''eA=='', fb_overwrite = False\<rparr>)"
  by code_simp


section \<open>Creating, reading, reading back\<close>

definition create_post :: http_request where
  "create_post = post (body_text [(''path'', quoted ''d/f'')])"

definition overwrite_post :: http_request where
  "overwrite_post = post (body_text [(''path'', quoted ''d/f''), (''content_base64'', quoted ''eA==''), (''overwrite'', ''true'')])"

lemma posts_bound:
  "bound file_body_of create_post = Some (sample_actor, \<lparr>fb_path = ''d/f'', fb_content_base64 = [], fb_overwrite = False\<rparr>)"
  "bound path_body_of create_post = Some (sample_actor, \<lparr>pb_path = ''d/f''\<rparr>)"
  "bound file_body_of overwrite_post = Some (sample_actor, \<lparr>fb_path = ''d/f'', fb_content_base64 = ''eA=='', fb_overwrite = True\<rparr>)"
  by code_simp+

definition plain_service :: "mem_world file_service" where
  "plain_service = new_service None (workspace_fs_client sample_client) ''/m'' None"

lemma plain_service_simps:
  "sv_fs plain_service = workspace_fs_client sample_client" "sv_recorder plain_service = None"
  by (simp_all add: plain_service_def new_service_def new_service_with_stores_def new_node_recorder_def)

lemma sample_path_resolved:
  "resolve_actor_and_path sample_service sample_actor ''d/f'' = Inr (sample_actor, abs_path (sample_elems @ [''f'']))"
  "resolve_actor_and_path plain_service sample_actor ''d/f'' = Inr (sample_actor, abs_path (sample_elems @ [''f'']))"
  by code_simp+

lemma sample_file_there:
  "fs_map (w_os sample_world) (sample_elems @ [''f'']) = Some (FFile 8 ''abc'')" "fs_faults (w_os sample_world) = []"
  "fs_wf (w_os sample_world)"
  by (simp_all add: sample_world_def sample_fs_wf) (simp_all add: sample_fs_def)

theorem existing_path_is_kept_witness:
  "\<exists>reply w'. file_endpoint sample_service ''k'' FCreateFile [] create_post sample_world = Some (reply, w') \<and>
     rp_status reply = 409 \<and> fs_map (w_os w') = fs_map (w_os sample_world)"
proof -
  have "file_endpoint sample_service ''k'' FCreateFile [] create_post sample_world \<noteq> None"
    by (simp add: handle_create_file_def with_body_run [where rc = sample_actor] posts_bound replying_def)
  then obtain reply w' where run: "file_endpoint sample_service ''k'' FCreateFile [] create_post sample_world = Some (reply, w')"
    by auto
  have d: "decode_content [] [] = Some []" by (simp add: decode_content_def)
  have rec: "recorder_off_disk (sv_recorder sample_service)"
    by (simp add: sample_service_simps world_recorder_off_disk)
  from existing_path_is_kept [OF _ run posts_bound(1) _ sample_service_simps(1) rec, of "[]" sample_actor sample_elems "''f''" "FFile 8 ''abc''"]
    run d sample_path_resolved(1) sample_plain(1) sample_file_there
  show ?thesis by (simp add: fault_tick_def status_defs)
qed

theorem read_replies_witness:
  "\<exists>reply w'. file_endpoint sample_service ''k'' FReadFile [] create_post sample_world = Some (reply, w') \<and> rp_status reply = 200 \<and>
     (\<exists>fi rid. rp_body reply = JsonBody (body_json 0 ''ok''
       (Some (JObj [(''file'', fi), (''content_base64'', JStr ''YWJj''), (''size'', int_json 3)])) rid))"
proof -
  have "file_endpoint sample_service ''k'' FReadFile [] create_post sample_world \<noteq> None"
    by (simp add: handle_read_file_def with_body_run [where rc = sample_actor] posts_bound replying_def)
  then obtain reply w' where run: "file_endpoint sample_service ''k'' FReadFile [] create_post sample_world = Some (reply, w')"
    by auto
  have b64: "base64_encode ''abc'' = ''YWJj''" by code_simp
  have look: "fs_lookup (w_os sample_world) (abs_path (sample_elems @ [''f''])) = Inr (FFile 8 ''abc'')"
    by (rule lookup_there) (simp_all only: sample_file_there sample_plain)
  from read_replies [OF run posts_bound(2) sample_service_simps(1) sample_off_disk, of sample_actor "sample_elems @ [''f'']"]
    run sample_path_resolved(1) sample_plain(1) sample_file_there look b64
  show ?thesis by (simp add: status_defs max_inline_read_size_def)
qed

theorem written_over_http_is_read_witness:
  "\<exists>reply w1 reply2 w2. file_endpoint plain_service ''k'' FWriteFile [] overwrite_post sample_world = Some (reply, w1) \<and>
     file_endpoint plain_service ''k'' FReadFile [] create_post w1 = Some (reply2, w2) \<and> rp_status reply2 = 200 \<and>
     (\<exists>fi text rid. rp_body reply2 = JsonBody (body_json 0 ''ok''
       (Some (JObj [(''file'', fi), (''content_base64'', JStr text), (''size'', int_json 1)])) rid) \<and> base64_decode text = Some ''x'')"
proof -
  let ?req = "\<lparr>cf_actor = sample_actor, cf_path = abs_path (sample_elems @ [''f'']), cf_content = ''x'', cf_overwrite = True\<rparr>"
  have d: "decode_content [] ''eA=='' = Some ''x''" by code_simp
  have quiet: "case client_create_file sample_client ?req sample_world of (r, w) \<Rightarrow> is_ok r \<and> fs_faults (w_os w) = []"
    by code_simp
  have "file_endpoint plain_service ''k'' FWriteFile [] overwrite_post sample_world \<noteq> None"
    by (simp add: handle_write_file_def with_body_run [where rc = sample_actor] posts_bound replying_def)
  then obtain reply w1 where run: "file_endpoint plain_service ''k'' FWriteFile [] overwrite_post sample_world = Some (reply, w1)"
    by auto
  have "rp_status reply = StatusOK \<and> fs_faults (w_os w1) = []"
    using run quiet
    by (auto simp: handle_write_file_def with_body_run [where rc = sample_actor] posts_bound replying_def write_file_def d
        sample_path_resolved plain_service_simps recorder_run_def client_write_file_def after_def give_def
        write_fs_result_status split: prod.splits sum.splits)
  then have ok: "rp_status reply = StatusOK" "fs_faults (w_os w1) = []" by simp_all
  have "file_endpoint plain_service ''k'' FReadFile [] create_post w1 \<noteq> None"
    by (simp add: handle_read_file_def with_body_run [where rc = sample_actor] posts_bound replying_def)
  then obtain reply2 w2 where run2: "file_endpoint plain_service ''k'' FReadFile [] create_post w1 = Some (reply2, w2)"
    by auto
  have rec: "recorder_off_disk (sv_recorder plain_service)" by (simp add: plain_service_simps recorder_off_disk_def)
  from written_over_http_is_read [OF _ run ok(1) posts_bound(3) _ plain_service_simps(1) rec sample_off_disk,
      of "''x''" sample_actor sample_elems "''f''" "''k''" "[]" create_post reply2 w2 "\<lparr>pb_path = ''d/f''\<rparr>"]
    run run2 d ok sample_path_resolved(2) sample_plain(1) sample_file_there posts_bound(2)
  show ?thesis by (simp add: status_defs max_inline_read_size_def)
qed

section \<open>An envelope\<close>

definition empty_post :: http_request where
  "empty_post = (post [])\<lparr>rq_body := None, rq_header := header_set HeaderRequestID '' r1'' []\<rparr>"

theorem every_answer_is_an_envelope_witness:
  "\<exists>handler reply w'. serve sample_handlers ''i'' ''k'' id (FileEndpoint FListFiles) = Some handler \<and>
     handler [] empty_post served_world = Some (reply, w') \<and> tagged ''r1'' reply \<and> envelope ''r1'' reply"
proof -
  have hs: "hs_file sample_handlers = Some sample_service" by (simp add: sample_handlers_def)
  then obtain handler where sv: "serve sample_handlers ''i'' ''k'' id (FileEndpoint FListFiles) = Some handler"
    and hd: "handler = request_id_middleware ''i'' (beside_jobs (file_endpoint sample_service ''k'' FListFiles))"
    by (simp add: serve_def endpoint_handler_def)
  have "handler [] empty_post served_world \<noteq> None"
    by (simp add: hd request_id_middleware_def Let_def beside_jobs_def handle_list_files_def with_body_def bind_json_def
        empty_post_def)
  then obtain reply w' where run: "handler [] empty_post served_world = Some (reply, w')" by auto
  have given: "trim_space (header_get (rq_header empty_post) HeaderRequestID) = ''r1''" by code_simp
  note answered = every_answer_is_an_envelope [OF disjI1 [OF refl] sv run]
  have "tagged ''r1'' reply" "envelope ''r1'' reply"
    using answered by (simp_all add: given Let_def)
  with sv run show ?thesis by blast
qed

end
