(* ===== verification/Routes.thy ===== *)
theory Routes
  imports Router
begin

text \<open>The route table: no two routes collide, and it holds exactly the endpoints that have a handler.\<close>

definition last_segment :: "string \<Rightarrow> string" where
  "last_segment p = rev (takeWhile (\<lambda>c. c \<noteq> CHR ''/'') (rev p))"

lemma last_segment_append: "CHR ''/'' \<notin> set n \<Longrightarrow> last_segment (x @ CHR ''/'' # n) = n"
  by (simp add: last_segment_def takeWhile_append)

lemma trim_slashes_name:
  assumes "n \<noteq> []" "CHR ''/'' \<notin> set n"
  obtains y where "CHR ''/'' # trim_slashes (x @ CHR ''/'' # n) = y @ CHR ''/'' # n"
proof -
  have keep: "rev (dropWhile (\<lambda>c. c = CHR ''/'') (rev (z @ n))) = z @ n" for z
    using assms by (cases n rule: rev_cases) auto
  define z where "z = dropWhile (\<lambda>c. c = CHR ''/'') x"
  have "dropWhile (\<lambda>c. c = CHR ''/'') (x @ CHR ''/'' # n) = (if z = [] then n else (z @ [CHR ''/'']) @ n)"
    using assms by (cases n) (auto simp: z_def dropWhile_append dropWhile_eq_Nil_conv)
  then have "trim_slashes (x @ CHR ''/'' # n) = (if z = [] then n else z @ CHR ''/'' # n)"
    using keep [of "[]"] keep [of "z @ [CHR ''/'']"] by (simp add: trim_slashes_def)
  then show thesis
    using that [of "[]"] that [of "CHR ''/'' # z"] by (cases "z = []") simp_all
qed

lemma join_route_name:
  assumes "n \<noteq> []" "CHR ''/'' \<notin> set n"
  shows "last_segment (join_route pre (CHR ''/'' # n)) = n" "\<exists>y. join_route pre (CHR ''/'' # n) = CHR ''/'' # y"
proof -
  have trim: "trim_prefix (CHR ''/'' # n) ''/'' = n" by (simp add: trim_prefix_def has_prefix_def)
  obtain y where y: "CHR ''/'' # trim_slashes (trim_suffix (trim_space pre) ''/'' @ CHR ''/'' # n) = y @ CHR ''/'' # n"
    using trim_slashes_name [OF assms] by blast
  then show "last_segment (join_route pre (CHR ''/'' # n)) = n"
    using last_segment_append [OF assms(2), of y] last_segment_append [OF assms(2), of "[]"]
    by (simp add: join_route_def Let_def trim)
  show "\<exists>y. join_route pre (CHR ''/'' # n) = CHR ''/'' # y"
    by (simp add: join_route_def Let_def)
qed

abbreviation verb_and_name :: "route \<Rightarrow> string \<times> string" where
  "verb_and_name \<equiv> \<lambda>(verb, path, ep). (verb, last_segment path)"

definition file_names :: "string list" where
  "file_names =
     [''CreateFolder'', ''CreateFile'', ''CreateNotebook'', ''DeletePath'', ''MovePath'', ''CopyPath'',
       ''RenamePath'', ''ListFiles'', ''ValidatePath'', ''GetFolderNodePath'', ''ListRecycleBin'',
       ''RestorePath'', ''EmptyRecycleBin'', ''GetFileInfo'', ''ReadFile'', ''WriteFile'', ''DownloadFile'']"

definition git_names :: "string list" where
  "git_names =
     [''CloneRepo'', ''CreateGitFolder'', ''GetGitFolderStatus'', ''PullRepo'', ''StageFiles'',
       ''UnstageFiles'', ''Commit'', ''PushRepo'', ''CommitAndPush'', ''CreateBranch'', ''CheckoutBranch'',
       ''ListBranches'', ''GetStatus'', ''GetFileDiff'', ''GetCommitHistory'', ''DiscardChanges'',
       ''DeleteRepo'']"

lemma table_names:
  "map verb_and_name (register_file_routes pre) = map (Pair ''POST'') file_names"
  "map verb_and_name (register_git_routes pre) = map (Pair ''POST'') git_names"
  by (simp_all add: register_file_routes_def register_git_routes_def file_names_def git_names_def join_route_name)

text \<open>The other patterns, and what tells the two groups apart: the capital of the file and git names.\<close>

definition other_names :: "(string \<times> string) list" where
  "other_names =
     [(''POST'', ''sessions''), (''GET'', ''sessions''), (''GET'', '':session_id''), (''PATCH'', '':session_id''),
      (''DELETE'', '':session_id''), (''POST'', ''kernels''), (''GET'', ''kernels''), (''GET'', '':kernel_id''),
      (''DELETE'', '':kernel_id''), (''POST'', ''interrupt''), (''POST'', ''restart''), (''GET'', ''channels''),
      (''GET'', ''ws''), (''POST'', ''save_outputs''), (''GET'', ''stage''), (''GET'', ''status''), (''DELETE'', ''spark-app''),
      (''DELETE'', ''spark-sessions''), (''GET'', ''python-packages''), (''POST'', ''requirements''), (''GET'', ''kernelspecs''),
      (''GET'', '':name''), (''GET'', ''*resource'')]"

lemma other_table: "map verb_and_name register_gateway_routes = other_names"
  by (simp add: register_gateway_routes_def other_names_def last_segment_def)

lemma service_names_distinct: "distinct (file_names @ git_names)"
  by (simp add: file_names_def git_names_def)

lemma other_names_distinct: "distinct ((''GET'', ''healthz'') # (''GET'', ''readyz'') # other_names)"
  by (simp add: other_names_def)

lemma capitals: "\<forall>n \<in> set (file_names @ git_names). byte_in (hd n) 65 90" 
  "\<forall>(verb, n) \<in> set other_names. \<not> byte_in (hd n) 65 90"
  by (simp_all add: file_names_def git_names_def other_names_def byte_in_def)

lemma names_distinct:
  "distinct ([(''GET'', ''healthz''), (''GET'', ''readyz'')] @ map (Pair ''POST'') file_names @
     map (Pair ''POST'') git_names @ other_names)"
proof -
  have pair: "distinct (map (Pair v) ns) \<longleftrightarrow> distinct ns" for v :: string and ns :: "string list"
    by (simp add: distinct_map inj_on_def)
  have apart: "(v, n) \<notin> set other_names" if "n \<in> set (file_names @ git_names)" for v n
    using capitals that by blast
  show ?thesis
    using service_names_distinct other_names_distinct apart by (auto simp: pair)
qed

lemma distinct_some:
  "distinct (as @ bs @ cs @ ds) \<Longrightarrow>
   distinct (as @ (if x then bs else []) @ (if y then cs else []) @ (if z then ds else []))"
  by auto

lemma health_names: "last_segment ''/healthz'' = ''healthz''" "last_segment ''/readyz'' = ''readyz''"
  by (simp_all add: last_segment_def)

lemma starts_with_slash:
  "\<forall>(verb, path, ep) \<in> set (register_file_routes pre). take 1 path = ''/''"
  "\<forall>(verb, path, ep) \<in> set (register_git_routes pre). take 1 path = ''/''"
  "\<forall>(verb, path, ep) \<in> set register_gateway_routes. take 1 path = ''/''"
  by (simp_all add: register_file_routes_def register_git_routes_def register_gateway_routes_def join_route_def Let_def)

lemma endpoints_of_tables:
  "(\<exists>verb path. (verb, path, ep) \<in> set (register_file_routes pre)) \<longleftrightarrow> (\<exists>f. ep = FileEndpoint f)"
  "(\<exists>verb path. (verb, path, ep) \<in> set (register_git_routes pre)) \<longleftrightarrow> (\<exists>f. ep = GitEndpoint f)"
  "(\<exists>verb path. (verb, path, ep) \<in> set register_gateway_routes) \<longleftrightarrow> (\<exists>f. ep = GatewayEndpoint f)"
proof -
  have f: "f \<in> set (map (\<lambda>(verb, path, ep). case ep of FileEndpoint f \<Rightarrow> f) (register_file_routes pre))" for f
    by (cases f) (simp_all add: register_file_routes_def)
  have "\<forall>(verb, path, ep) \<in> set (register_file_routes pre). \<exists>f. ep = FileEndpoint f"
    by (simp add: register_file_routes_def)
  with f show "(\<exists>verb path. (verb, path, ep) \<in> set (register_file_routes pre)) \<longleftrightarrow> (\<exists>f. ep = FileEndpoint f)"
    by fastforce
  have g: "f \<in> set (map (\<lambda>(verb, path, ep). case ep of GitEndpoint f \<Rightarrow> f) (register_git_routes pre))" for f
    by (cases f) (simp_all add: register_git_routes_def)
  have "\<forall>(verb, path, ep) \<in> set (register_git_routes pre). \<exists>f. ep = GitEndpoint f"
    by (simp add: register_git_routes_def)
  with g show "(\<exists>verb path. (verb, path, ep) \<in> set (register_git_routes pre)) \<longleftrightarrow> (\<exists>f. ep = GitEndpoint f)"
    by fastforce
  have j: "f \<in> set (map (\<lambda>(verb, path, ep). case ep of GatewayEndpoint f \<Rightarrow> f) register_gateway_routes)" for f
    by (cases f) (simp_all add: register_gateway_routes_def)
  have "\<forall>(verb, path, ep) \<in> set register_gateway_routes. \<exists>f. ep = GatewayEndpoint f"
    by (simp add: register_gateway_routes_def)
  with j show "(\<exists>verb path. (verb, path, ep) \<in> set register_gateway_routes) \<longleftrightarrow> (\<exists>f. ep = GatewayEndpoint f)"
    by fastforce
qed

text \<open>
  For every prefix and every bundle of handlers the table of routes has no two routes with the
  same method and pattern, every pattern starts with a slash, and an endpoint is in the table
  exactly when the bundle has a handler for it.
\<close>

lemma routes_are_consistent:
  "distinct (map (\<lambda>(verb, path, ep). (verb, path)) (new_with_handlers url_prefix (Some hs))) \<and>
   list_all (\<lambda>(verb, path, ep). take 1 path = ''/'') (new_with_handlers url_prefix (Some hs)) \<and>
   ((\<exists>verb path. (verb, path, ep) \<in> set (new_with_handlers url_prefix (Some hs))) \<longleftrightarrow> endpoint_handler hs iid err_of ep \<noteq> None)"
proof (intro conjI)
  let ?routes = "new_with_handlers url_prefix (Some hs)"
  have "map verb_and_name ?routes =
      [(''GET'', ''healthz''), (''GET'', ''readyz'')] @ (if hs_file hs \<noteq> None then map (Pair ''POST'') file_names else []) @
      (if hs_git hs \<noteq> None then map (Pair ''POST'') git_names else []) @ (if hs_gateway hs \<noteq> None then other_names else [])"
    by (simp add: new_with_handlers_def table_names other_table health_names)
  with distinct_some [OF names_distinct] have "distinct (map verb_and_name ?routes)" by (simp only:)
  then show "distinct (map (\<lambda>(verb, path, ep). (verb, path)) ?routes)"
    by (simp add: distinct_map inj_on_def split_beta)
  show "list_all (\<lambda>(verb, path, ep). take 1 path = ''/'') ?routes"
    using starts_with_slash(1) [of url_prefix] starts_with_slash(2) [of url_prefix] starts_with_slash(3)
    by (auto simp: new_with_handlers_def list_all_iff)
  have "(\<exists>verb path. (verb, path, ep) \<in> set ?routes) \<longleftrightarrow>
      ep = Healthz \<or> ep = Readyz \<or> hs_file hs \<noteq> None \<and> (\<exists>f. ep = FileEndpoint f) \<or>
      hs_git hs \<noteq> None \<and> (\<exists>f. ep = GitEndpoint f) \<or> hs_gateway hs \<noteq> None \<and> (\<exists>f. ep = GatewayEndpoint f)"
    unfolding endpoints_of_tables(1,2) [of ep url_prefix, symmetric] endpoints_of_tables(3) [of ep, symmetric]
    by (auto simp: new_with_handlers_def split: if_splits) blast
  also have "\<dots> \<longleftrightarrow> endpoint_handler hs iid err_of ep \<noteq> None"
    by (cases ep) (auto simp: endpoint_handler_def)
  finally show "(\<exists>verb path. (verb, path, ep) \<in> set ?routes) \<longleftrightarrow> endpoint_handler hs iid err_of ep \<noteq> None" .
qed

end
