(* ===== verification/Gorm.thy ===== *)
theory Gorm
  imports FileDomain GoErrors JsonStructs
begin

text \<open>
  The library gorm on a MySQL server, as far as the stores use it: a record of the four calls they
  make, and a locale with what they rely on. A row is the list of its columns; a table has a
  unique column and, when its Go struct has a field \<open>gorm.DeletedAt\<close>, is soft-deleted: gorm adds
  \<open>deleted_at IS NULL\<close> to every query and update of it. Neither library nor server are part of the
  program; the laws are instances of what their documentation says, for keys that do not end in
  a space (the collation of the schema ignores trailing spaces).
\<close>

section \<open>Rows, queries, assignments\<close>

datatype sql_value = SqlNull | SqlInt int | SqlText string | SqlTime int | SqlJson json

type_synonym sql_row = "(string \<times> sql_value) list"

datatype sql_expr = SqlVal sql_value | CurrentTimestamp | ColumnPlusOne string

datatype sql_cond = ColumnIs string sql_value | ColumnIn string "sql_value list" | ColumnIsNull string

datatype sql_order = NoOrder | Ascending string | Descending string

record sql_table =
  tb_name :: string
  tb_key :: string
  tb_soft_delete :: bool

definition column :: "sql_row \<Rightarrow> string \<Rightarrow> sql_value" where
  "column r c = (case map_of r c of Some v \<Rightarrow> v | None \<Rightarrow> SqlNull)"

definition drop_pad :: "string \<Rightarrow> string" where
  "drop_pad s = rev (dropWhile (\<lambda>c. c = CHR '' '') (rev s))"

text \<open>Comparing with NULL is never true.\<close>

fun sql_equal :: "sql_value \<Rightarrow> sql_value \<Rightarrow> bool" where
  "sql_equal (SqlText a) (SqlText b) = (drop_pad a = drop_pad b)"
| "sql_equal a b = (a = b \<and> a \<noteq> SqlNull)"

fun sql_holds :: "sql_cond \<Rightarrow> sql_row \<Rightarrow> bool" where
  "sql_holds (ColumnIs c v) r = sql_equal (column r c) v"
| "sql_holds (ColumnIn c vs) r = list_ex (sql_equal (column r c)) vs"
| "sql_holds (ColumnIsNull c) r = (column r c = SqlNull)"

definition selected :: "sql_table \<Rightarrow> sql_cond list \<Rightarrow> sql_row \<Rightarrow> bool" where
  "selected tb conds r \<longleftrightarrow> list_all (\<lambda>c. sql_holds c r) conds \<and>
     (tb_soft_delete tb \<longrightarrow> column r ''deleted_at'' = SqlNull)"

fun sql_eval :: "int \<Rightarrow> sql_row \<Rightarrow> sql_expr \<Rightarrow> sql_value" where
  "sql_eval now r (SqlVal v) = v"
| "sql_eval now r CurrentTimestamp = SqlTime now"
| "sql_eval now r (ColumnPlusOne c) = (case column r c of SqlInt n \<Rightarrow> SqlInt (n + 1) | _ \<Rightarrow> SqlNull)"

definition sql_assign :: "int \<Rightarrow> (string \<times> sql_expr) list \<Rightarrow> sql_row \<Rightarrow> sql_row" where
  "sql_assign now ups r = fold (\<lambda>(c, e) r1. AList.update c (sql_eval now r1 e) r1) ups r"

text \<open>A value that is compared exactly.\<close>

fun exact_value :: "sql_value \<Rightarrow> bool" where
  "exact_value SqlNull = False"
| "exact_value (SqlText s) = (drop_pad s = s)"
| "exact_value v = True"

section \<open>The calls\<close>

text \<open>
  \<open>Clauses(OnConflict{key, updates}).Create(&row)\<close>; \<open>Model().Where(..).Updates(map)\<close>;
  \<open>Where(..).Order(..).Limit(..).Find(&rows)\<close>; \<open>Where(..).Order(..).First(&row)\<close>. A negative limit is
  none.
\<close>

record 'w gorm_db =
  db_create :: "sql_table \<Rightarrow> sql_row \<Rightarrow> (string \<times> sql_expr) list \<Rightarrow> 'w \<Rightarrow> go_error option \<times> 'w"
  db_updates :: "sql_table \<Rightarrow> sql_cond list \<Rightarrow> (string \<times> sql_expr) list \<Rightarrow> 'w \<Rightarrow> go_error option \<times> 'w"
  db_find :: "sql_table \<Rightarrow> sql_cond list \<Rightarrow> sql_order \<Rightarrow> int \<Rightarrow> 'w \<Rightarrow> (go_error, sql_row list) result \<times> 'w"
  db_first :: "sql_table \<Rightarrow> sql_cond list \<Rightarrow> sql_order \<Rightarrow> 'w \<Rightarrow> (go_error, sql_row) result \<times> 'w"

text \<open>
  \<open>tab w k\<close> is the row of the table with the value \<open>k\<close> in its unique column. The laws speak of the
  columns of a row only, since the server fills columns such as the id on its own.
\<close>

locale gorm =
  fixes db :: "'w gorm_db" and tb :: sql_table and tab :: "'w \<Rightarrow> sql_value \<Rightarrow> sql_row option"
  assumes create_new: "db_create db tb new ups w = (None, w') \<Longrightarrow> exact_value (column new (tb_key tb)) \<Longrightarrow>
      tab w (column new (tb_key tb)) = None \<Longrightarrow>
      \<exists>r. tab w' = (tab w)(column new (tb_key tb) \<mapsto> r) \<and> (\<forall>c \<in> fst ` set new. column r c = column new c)"
    and create_old: "db_create db tb new ups w = (None, w') \<Longrightarrow> exact_value (column new (tb_key tb)) \<Longrightarrow>
      tab w (column new (tb_key tb)) = Some r \<Longrightarrow> tb_key tb \<notin> fst ` set ups \<Longrightarrow>
      \<exists>r' now. tab w' = (tab w)(column new (tb_key tb) \<mapsto> r') \<and> column r' = column (sql_assign now ups r)"
    and updates_ok: "db_updates db tb conds ups w = (None, w') \<Longrightarrow> tb_key tb \<notin> fst ` set ups \<Longrightarrow>
      \<exists>now f. tab w' = (\<lambda>k. map_option f (tab w k)) \<and>
        (\<forall>k r. tab w k = Some r \<longrightarrow> column (f r) = column (if selected tb conds r then sql_assign now ups r else r))"
    and find_ok: "db_find db tb conds order limit w = (Inr rs, w') \<Longrightarrow> limit < 0 \<Longrightarrow>
      \<exists>ks. distinct ks \<and> map Some rs = map (tab w) ks \<and>
        set ks = {k. \<exists>r. tab w k = Some r \<and> selected tb conds r}"
    and first_ok: "db_first db tb conds order w = (Inr r, w') \<Longrightarrow> \<exists>k. tab w k = Some r \<and> selected tb conds r"
    and failed: "db_create db tb new ups w = (Some e, w') \<Longrightarrow> tab w' = tab w"
      "db_updates db tb conds ups w = (Some e, w') \<Longrightarrow> tab w' = tab w"
    and asked: "db_find db tb conds order limit w = (fr, w') \<Longrightarrow> tab w' = tab w"
      "db_first db tb conds order w = (r1, w') \<Longrightarrow> tab w' = tab w"
    and keyed: "tab w k = Some r \<Longrightarrow> column r (tb_key tb) = k"
    and find_limited: "db_find db tb conds order limit w = (Inr rs, w') \<Longrightarrow> 0 < limit \<Longrightarrow>
      \<exists>ks. distinct ks \<and> map Some rs = map (tab w) ks \<and> length ks \<le> nat limit \<and>
        set ks \<subseteq> {k. \<exists>r. tab w k = Some r \<and> selected tb conds r} \<and>
        (length ks < nat limit \<longrightarrow> set ks = {k. \<exists>r. tab w k = Some r \<and> selected tb conds r})"

section \<open>An engine\<close>

text \<open>
  The laws hold of a list of rows, each stored under the value of its unique column.
\<close>

type_synonym stored = "(sql_value \<times> sql_row) list"

definition stored_row :: "sql_table \<Rightarrow> sql_value \<Rightarrow> sql_row \<Rightarrow> sql_row" where
  "stored_row tb k r = (tb_key tb, k) # r"

definition without_key :: "sql_table \<Rightarrow> sql_row \<Rightarrow> sql_row" where
  "without_key tb r = filter (\<lambda>(c, v). c \<noteq> tb_key tb) r"

definition stored_tab :: "sql_table \<Rightarrow> stored \<Rightarrow> sql_value \<Rightarrow> sql_row option" where
  "stored_tab tb w k = map_option (stored_row tb k) (map_of w k)"

definition stored_rows :: "sql_table \<Rightarrow> sql_cond list \<Rightarrow> stored \<Rightarrow> sql_row list" where
  "stored_rows tb conds w =
     filter (selected tb conds) (map (\<lambda>k. stored_row tb k (the (map_of w k))) (remdups (map fst w)))"

definition stored_db :: "stored gorm_db" where
  "stored_db =
     \<lparr>db_create = (\<lambda>tb new ups w. (None, let k = column new (tb_key tb) in
        AList.update k (without_key tb (case map_of w k of
            None \<Rightarrow> new | Some r \<Rightarrow> sql_assign 0 ups (stored_row tb k r))) w)),
      db_updates = (\<lambda>tb conds ups w. (None, map (\<lambda>(k, r). (k, let r1 = stored_row tb k r in
        if selected tb conds r1 then without_key tb (sql_assign 0 ups r1) else r)) w)),
      db_find = (\<lambda>tb conds order limit w.
        (Inr (if limit < 0 then stored_rows tb conds w else take (nat limit) (stored_rows tb conds w)), w)),
      db_first = (\<lambda>tb conds order w. (case stored_rows tb conds w of
          [] \<Rightarrow> Inl (text_error ''record not found'') | r # rs \<Rightarrow> Inr r, w))\<rparr>"

lemma stored_rows_keys:
  "\<exists>ks. distinct ks \<and> map Some (stored_rows tb conds w) = map (stored_tab tb w) ks \<and>
     set ks = {k. \<exists>r. stored_tab tb w k = Some r \<and> selected tb conds r}"
proof -
  let ?row = "\<lambda>k. stored_row tb k (the (map_of w k))"
  let ?ks = "filter (\<lambda>k. selected tb conds (?row k)) (remdups (map fst w))"
  have there: "map_of w k \<noteq> None \<longleftrightarrow> k \<in> fst ` set w" for k by (simp add: map_of_eq_None_iff)
  have "Some (?row k) = stored_tab tb w k" if "k \<in> set (map fst w)" for k
    using there [of k] that by (auto simp: stored_tab_def)
  then have "map Some (stored_rows tb conds w) = map (stored_tab tb w) ?ks"
    by (simp add: stored_rows_def filter_map o_def)
  moreover have "k \<in> set ?ks \<longleftrightarrow> (\<exists>r. stored_tab tb w k = Some r \<and> selected tb conds r)" for k
    using there [of k] by (cases "map_of w k") (auto simp: stored_tab_def)
  then have "set ?ks = {k. \<exists>r. stored_tab tb w k = Some r \<and> selected tb conds r}" by blast
  moreover have "distinct ?ks" by simp
  ultimately show ?thesis by blast
qed

lemma stored_row_simps [simp]: "column (stored_row tb k r) (tb_key tb) = k" "tl (stored_row tb k r) = r"
  by (simp_all add: column_def stored_row_def)

lemma column_without_key:
  "column (stored_row tb k (without_key tb r)) c = (if c = tb_key tb then k else column r c)"
proof -
  have "c \<noteq> tb_key tb \<Longrightarrow> map_of (without_key tb r) c = map_of r c"
    unfolding without_key_def by (induction r) auto
  then show ?thesis by (simp add: column_def stored_row_def)
qed

lemma column_assign_other:
  "c \<notin> fst ` set ups \<Longrightarrow> column (sql_assign now ups r) c = column r c"
  unfolding sql_assign_def
  by (induction ups arbitrary: r) (auto simp: column_def update_conv)

lemma stored_assign:
  assumes "tb_key tb \<notin> fst ` set ups"
  shows "column (stored_row tb k (without_key tb (sql_assign now ups (stored_row tb k r)))) =
    column (sql_assign now ups (stored_row tb k r))"
proof
  fix c
  have "column (sql_assign now ups (stored_row tb k r)) (tb_key tb) = k"
    using column_assign_other [OF assms] by (simp add: column_def stored_row_def)
  then show "column (stored_row tb k (without_key tb (sql_assign now ups (stored_row tb k r)))) c =
    column (sql_assign now ups (stored_row tb k r)) c"
    by (simp add: column_without_key)
qed

lemma stored_tab_update:
  "stored_tab tb (AList.update k r w) = (stored_tab tb w)(k \<mapsto> stored_row tb k r)"
  by (auto simp: stored_tab_def update_conv')

lemma stored_updates:
  assumes "tb_key tb \<notin> fst ` set ups"
  shows "\<exists>f. stored_tab tb (snd (db_updates stored_db tb conds ups w)) = (\<lambda>k. map_option f (stored_tab tb w k)) \<and>
    (\<forall>k r. stored_tab tb w k = Some r \<longrightarrow> column (f r) = column (if selected tb conds r then sql_assign 0 ups r else r))"
proof -
  let ?f = "\<lambda>r. stored_row tb (column r (tb_key tb))
    (if selected tb conds r then without_key tb (sql_assign 0 ups r) else tl r)"
  let ?g = "\<lambda>k r. let r1 = stored_row tb k r in if selected tb conds r1 then without_key tb (sql_assign 0 ups r1) else r"
  have same: "?f (stored_row tb k r) = stored_row tb k (?g k r)" for k r
    by (simp add: Let_def)
  have "map_of (map (\<lambda>(k, r). (k, ?g k r)) w) k = map_option (?g k) (map_of w k)" for k
    by (induction w) (auto simp: Let_def)
  then have "stored_tab tb (snd (db_updates stored_db tb conds ups w)) = (\<lambda>k. map_option ?f (stored_tab tb w k))"
    using same by (simp add: stored_tab_def stored_db_def fun_eq_iff option.map_comp o_def)
  moreover have "column (?f r1) = column (if selected tb conds r1 then sql_assign 0 ups r1 else r1)"
    if row: "stored_tab tb w k = Some r1" for k r1
  proof -
    from row obtain r where r1: "r1 = stored_row tb k r" by (auto simp: stored_tab_def)
    show ?thesis
      using stored_assign [OF assms, of k 0 r] by (simp add: r1)
  qed
  ultimately show ?thesis by blast
qed

lemma stored_db_asked:
  "snd (db_find stored_db tb conds order limit w) = w" "snd (db_first stored_db tb conds order w) = w"
  "fst (db_create stored_db tb new ups w) = None" "fst (db_updates stored_db tb conds ups w) = None"
  by (simp_all add: stored_db_def)

lemma stored_db_laws: "gorm stored_db tb (stored_tab tb)"
proof (unfold_locales, goal_cases)
  case (1 new ups w w')
  let ?k = "column new (tb_key tb)"
  have none: "map_of w ?k = None" using 1(3) by (simp add: stored_tab_def)
  with 1(1) have w': "w' = AList.update ?k (without_key tb new) w" by (simp add: stored_db_def Let_def)
  have "column (stored_row tb ?k (without_key tb new)) c = column new c" for c by (simp add: column_without_key)
  then show ?case by (auto simp: w' stored_tab_update)
next
  case (2 new ups w w' r)
  let ?k = "column new (tb_key tb)"
  obtain s where s: "map_of w ?k = Some s" "r = stored_row tb ?k s" using 2(3) by (auto simp: stored_tab_def)
  with 2(1) have "w' = AList.update ?k (without_key tb (sql_assign 0 ups r)) w" by (simp add: stored_db_def Let_def)
  with stored_assign [OF 2(4), of ?k 0 s] s(2) show ?case by (auto simp: stored_tab_update)
next
  case (3 conds ups w w')
  then have "w' = snd (db_updates stored_db tb conds ups w)" by simp
  with stored_updates [OF 3(2), of conds w] show ?case by blast
next
  case (4 conds order limit w rs w')
  then have "rs = stored_rows tb conds w" by (auto simp: stored_db_def)
  with stored_rows_keys [of tb conds w] show ?case by blast
next
  case (5 conds order w r w')
  then have "r \<in> set (stored_rows tb conds w)" by (auto simp: stored_db_def split: list.splits)
  moreover obtain ks where ks: "map Some (stored_rows tb conds w) = map (stored_tab tb w) ks"
    "set ks = {k. \<exists>r. stored_tab tb w k = Some r \<and> selected tb conds r}"
    using stored_rows_keys by blast
  ultimately have "Some r \<in> set (map (stored_tab tb w) ks)" by (simp only: ks(1) [symmetric]) simp
  then have "Some r \<in> stored_tab tb w ` {k. \<exists>r. stored_tab tb w k = Some r \<and> selected tb conds r}"
    by (simp only: set_map ks(2))
  then show ?case by force
next
  case (6 new ups w e w')
  then show ?case using stored_db_asked(3) [of tb new ups w] by simp
next
  case (7 conds ups w e w')
  then show ?case using stored_db_asked(4) [of tb conds ups w] by simp
next
  case (8 conds order limit w fr w')
  then show ?case using stored_db_asked(1) [of tb conds order limit w] by simp
next
  case (9 conds order w r1 w')
  then show ?case using stored_db_asked(2) [of tb conds order w] by simp
next
  case (10 w k r)
  then show ?case by (auto simp: stored_tab_def)
next
  case (11 conds order limit w rs w')
  then have rs: "rs = take (nat limit) (stored_rows tb conds w)" by (auto simp: stored_db_def)
  from stored_rows_keys [of tb conds w] obtain ks where ks: "distinct ks"
    "map Some (stored_rows tb conds w) = map (stored_tab tb w) ks"
    "set ks = {k. \<exists>r. stored_tab tb w k = Some r \<and> selected tb conds r}" by blast
  have "map Some rs = map (stored_tab tb w) (take (nat limit) ks)" using ks(2) by (simp add: rs take_map [symmetric])
  moreover have "set (take (nat limit) ks) = set ks" if "length (take (nat limit) ks) < nat limit" using that by simp
  moreover have "set (take (nat limit) ks) \<subseteq> set ks" by (rule set_take_subset)
  ultimately show ?case using ks(1,3) by (intro exI [of _ "take (nat limit) ks"]) auto
qed

interpretation stored: gorm stored_db tb "stored_tab tb" for tb
  by (rule stored_db_laws)

end
