(* ===== verification/Config.thy ===== *)
theory Config
  imports GatewayClient
begin

text \<open>
  \<open>internal/config\<close> and \<open>internal/infra/logger\<close>: the settings of the service. The library viper
  merges file, environment and defaults; a loaded viper is a record of its typed getters. Times are
  nanoseconds. Log output itself is not modelled, the level it is configured with is.
\<close>

section \<open>Settings\<close>

record server_config =
  sc_name :: string
  sc_address :: string
  sc_mode :: string
  sc_url_prefix :: string
  sc_shutdown_timeout :: int

record workspace_config =
  wc_mount_root :: string
  wc_git_meta_root :: string

record log_config =
  lc_level :: string
  lc_encoding :: string
  lc_development :: bool
  lc_output_paths :: "string list"

record mysql_config =
  my_dsn :: string
  my_max_open_conns :: int
  my_max_idle_conns :: int
  my_conn_max_lifetime :: int

record config =
  cfg_server :: server_config
  cfg_workspace :: workspace_config
  cfg_log :: log_config
  cfg_mysql :: mysql_config
  cfg_gateway :: gateway_config

section \<open>Loading\<close>

datatype setting = SetString string | SetBool bool | SetInt int | SetStrings "string list"

record viper =
  vp_string :: "string \<Rightarrow> string"
  vp_bool :: "string \<Rightarrow> bool"
  vp_int :: "string \<Rightarrow> int"
  vp_duration :: "string \<Rightarrow> int"
  vp_strings :: "string \<Rightarrow> string list"
  vp_string_map :: "string \<Rightarrow> (string \<times> string) list"

definition set_defaults :: "(string \<times> setting) list" where
  "set_defaults =
     [(''server.name'', SetString ''workspace-service''), (''server.address'', SetString '':8080''),
      (''server.mode'', SetString ''release''), (''server.url_prefix'', SetString []),
      (''server.shutdown_timeout'', SetString ''10s''),
      (''workspace.mount_root'', SetString ''~/mnt/studio''), (''workspace.git_meta_root'', SetString []),
      (''log.level'', SetString ''info''), (''log.encoding'', SetString ''json''), (''log.development'', SetBool False),
      (''log.output_paths'', SetStrings [''stdout'']),
      (''mysql.max_open_conns'', SetInt 20), (''mysql.max_idle_conns'', SetInt 10),
      (''mysql.conn_max_lifetime'', SetString ''30m''),
      (''gateway.url'', SetString []), (''gateway.ws_url'', SetString []),
      (''gateway.auth_header_key'', SetString ''Authorization''), (''gateway.auth_scheme'', SetString ''token''),
      (''gateway.auth_token'', SetString []), (''gateway.connect_timeout'', SetString ''40s''),
      (''gateway.request_timeout'', SetString ''42s''), (''gateway.max_request_retries'', SetInt 2),
      (''gateway.validate_cert'', SetBool True)]"

text \<open>
  Where viper looks: a file that is named, or the name and the directories to search; the type, the
  prefix and the key replacement of environment variables.
\<close>

record viper_source =
  vs_defaults :: "(string \<times> setting) list"
  vs_type :: string
  vs_file :: "string option"
  vs_name :: string
  vs_dirs :: "string list"
  vs_env_prefix :: string
  vs_env_replace :: "(string \<times> string) list"

definition config_source :: "string \<Rightarrow> viper_source" where
  "config_source config_file =
     \<lparr>vs_defaults = set_defaults, vs_type = ''yaml'',
      vs_file = (if config_file \<noteq> [] then Some config_file else None),
      vs_name = (if config_file \<noteq> [] then [] else ''workspace-service''),
      vs_dirs = (if config_file \<noteq> [] then [] else [''./conf'', ''.'']),
      vs_env_prefix = ''WORKSPACE_SERVICE'', vs_env_replace = [(''.'', ''_'')]\<rparr>"

definition load :: "(viper_source \<Rightarrow> (go_error, viper) result) \<Rightarrow> string \<Rightarrow> (go_error, config) result" where
  "load read_in config_file =
     (case read_in (config_source config_file) of
        Inl e \<Rightarrow> Inl (wrap_error ''read config'' e)
      | Inr v \<Rightarrow> Inr
          \<lparr>cfg_server =
             \<lparr>sc_name = vp_string v ''server.name'', sc_address = vp_string v ''server.address'',
              sc_mode = vp_string v ''server.mode'', sc_url_prefix = vp_string v ''server.url_prefix'',
              sc_shutdown_timeout = vp_duration v ''server.shutdown_timeout''\<rparr>,
           cfg_workspace =
             \<lparr>wc_mount_root = vp_string v ''workspace.mount_root'',
              wc_git_meta_root = vp_string v ''workspace.git_meta_root''\<rparr>,
           cfg_log =
             \<lparr>lc_level = vp_string v ''log.level'', lc_encoding = vp_string v ''log.encoding'',
              lc_development = vp_bool v ''log.development'', lc_output_paths = vp_strings v ''log.output_paths''\<rparr>,
           cfg_mysql =
             \<lparr>my_dsn = vp_string v ''mysql.dsn'', my_max_open_conns = vp_int v ''mysql.max_open_conns'',
              my_max_idle_conns = vp_int v ''mysql.max_idle_conns'',
              my_conn_max_lifetime = vp_duration v ''mysql.conn_max_lifetime''\<rparr>,
           cfg_gateway =
             \<lparr>gc_url = vp_string v ''gateway.url'', gc_ws_url = vp_string v ''gateway.ws_url'',
              gc_auth_header_key = vp_string v ''gateway.auth_header_key'',
              gc_auth_scheme = vp_string v ''gateway.auth_scheme'', gc_auth_token = vp_string v ''gateway.auth_token'',
              gc_headers = vp_string_map v ''gateway.headers'',
              gc_connect_timeout = vp_duration v ''gateway.connect_timeout'',
              gc_request_timeout = vp_duration v ''gateway.request_timeout'',
              gc_max_request_retries = vp_int v ''gateway.max_request_retries'',
              gc_validate_cert = vp_bool v ''gateway.validate_cert'', gc_ca_certs = vp_string v ''gateway.ca_certs'',
              gc_client_cert = vp_string v ''gateway.client_cert'', gc_client_key = vp_string v ''gateway.client_key''\<rparr>\<rparr>)"

section \<open>The logger\<close>

datatype log_level = DebugLevel | InfoLevel | WarnLevel | ErrorLevel | DPanicLevel | PanicLevel | FatalLevel

text \<open>\<open>quote\<close> is the verb \<open>%q\<close>.\<close>

definition parse_level :: "(string \<Rightarrow> string) \<Rightarrow> string \<Rightarrow> (go_error, log_level) result" where
  "parse_level quote level =
     (let l = to_lower (trim_space level)
      in if l = [] \<or> l = ''info'' then Inr InfoLevel
         else if l = ''debug'' then Inr DebugLevel
         else if l = ''warn'' \<or> l = ''warning'' then Inr WarnLevel
         else if l = ''error'' then Inr ErrorLevel
         else if l = ''dpanic'' then Inr DPanicLevel
         else if l = ''panic'' then Inr PanicLevel
         else if l = ''fatal'' then Inr FatalLevel
         else Inl (text_error (''unsupported log level '' @ quote level)))"

record zap_config =
  zc_level :: log_level
  zc_encoding :: string
  zc_output_paths :: "string list"

text \<open>The two presets and \<open>Build\<close> are the library's.\<close>

record 'l zap =
  zap_production :: zap_config
  zap_development :: zap_config
  zap_build :: "zap_config \<Rightarrow> (go_error, 'l) result"

definition new_logger :: "(string \<Rightarrow> string) \<Rightarrow> 'l zap \<Rightarrow> log_config \<Rightarrow> (go_error, 'l) result" where
  "new_logger quote lib cfg =
     (let z0 = (if lc_development cfg then zap_development lib else zap_production lib);
          z1 = (if lc_encoding cfg \<noteq> [] then z0\<lparr>zc_encoding := lc_encoding cfg\<rparr> else z0);
          z2 = (if lc_output_paths cfg \<noteq> [] then z1\<lparr>zc_output_paths := lc_output_paths cfg\<rparr> else z1)
      in case parse_level quote (lc_level cfg) of
           Inl e \<Rightarrow> Inl e
         | Inr level \<Rightarrow> zap_build lib (z2\<lparr>zc_level := level\<rparr>))"

text \<open>Levels are read in any case and with white space around.\<close>

lemma parse_level_total:
  "(\<exists>l. parse_level quote level = Inr l) \<longleftrightarrow>
     to_lower (trim_space level) \<in> {[], ''info'', ''debug'', ''warn'', ''warning'', ''error'', ''dpanic'', ''panic'', ''fatal''}"
  by (simp add: parse_level_def Let_def)

end
