(* ===== verification/MysqlStores.thy ===== *)
theory MysqlStores
  imports Gorm Config MemoryStores Sessions
begin

text \<open>
  \<open>internal/infra/persistence/mysql\<close>: the three stores on MySQL. Each method is one call of gorm,
  whose model and laws are in \<open>Gorm\<close>. The columns a store leaves to the server (id and times) are
  not part of its rows.
\<close>

section \<open>FileNodeStore\<close>

text \<open>\<open>FileNode\<close>, without the columns only the server writes.\<close>

record file_node =
  fn_inode_id :: uint64
  fn_owner_uin :: string
  fn_uin :: string
  fn_app_id :: string
  fn_workspace_id :: string
  fn_node_type :: string

definition file_node_table :: sql_table where
  "file_node_table = \<lparr>tb_name = ''ws_file_node'', tb_key = ''inode_id'', tb_soft_delete = True\<rparr>"

fun sql_text :: "sql_value \<Rightarrow> string" where
  "sql_text (SqlText s) = s"
| "sql_text v = []"

fun sql_int :: "sql_value \<Rightarrow> int" where
  "sql_int (SqlInt n) = n"
| "sql_int v = 0"

definition inode_value :: "uint64 \<Rightarrow> sql_value" where
  "inode_value i = SqlInt (uint i)"

definition file_node_row :: "file_node \<Rightarrow> sql_row" where
  "file_node_row n =
     [(''inode_id'', inode_value (fn_inode_id n)), (''owner_uin'', SqlText (fn_owner_uin n)), (''uin'', SqlText (fn_uin n)),
      (''app_id'', SqlText (fn_app_id n)), (''workspace_id'', SqlText (fn_workspace_id n)),
      (''node_type'', SqlText (fn_node_type n)), (''deleted_at'', SqlNull)]"

definition file_node_of_row :: "sql_row \<Rightarrow> file_node" where
  "file_node_of_row r =
     \<lparr>fn_inode_id = word_of_int (sql_int (column r ''inode_id'')), fn_owner_uin = sql_text (column r ''owner_uin''),
      fn_uin = sql_text (column r ''uin''), fn_app_id = sql_text (column r ''app_id''),
      fn_workspace_id = sql_text (column r ''workspace_id''), fn_node_type = sql_text (column r ''node_type'')\<rparr>"

definition file_node_from_mutation :: "node_mutation \<Rightarrow> file_node" where
  "file_node_from_mutation m =
     (let t = normalize_node_type (nm_node_type m)
      in \<lparr>fn_inode_id = nm_inode_id m, fn_owner_uin = na_owner_uin (nm_actor m), fn_uin = na_uin (nm_actor m),
          fn_app_id = na_app_id (nm_actor m), fn_workspace_id = na_workspace_id (nm_actor m),
          fn_node_type = (if t = [] then NodeTypeFile else t)\<rparr>)"

definition scope_assignments :: "node_actor \<Rightarrow> string \<Rightarrow> (string \<times> sql_expr) list" where
  "scope_assignments a node_type =
     (let t = normalize_node_type node_type
      in [(''owner_uin'', SqlVal (SqlText (na_owner_uin a))), (''uin'', SqlVal (SqlText (na_uin a))),
          (''app_id'', SqlVal (SqlText (na_app_id a))), (''workspace_id'', SqlVal (SqlText (na_workspace_id a))),
          (''updated_at'', CurrentTimestamp)] @
         (if t \<noteq> [] then [(''node_type'', SqlVal (SqlText t))] else []))"

definition mysql_upsert :: "'w gorm_db \<Rightarrow> node_mutation \<Rightarrow> 'w \<Rightarrow> go_error option \<times> 'w" where
  "mysql_upsert db m =
     db_create db file_node_table (file_node_row (file_node_from_mutation m))
       (scope_assignments (nm_actor m) (nm_node_type m) @ [(''deleted_at'', SqlVal SqlNull)])"

definition mysql_mark_deleted :: "'w gorm_db \<Rightarrow> node_mutation \<Rightarrow> 'w \<Rightarrow> go_error option \<times> 'w" where
  "mysql_mark_deleted db m =
     db_updates db file_node_table [ColumnIs ''inode_id'' (inode_value (nm_inode_id m))]
       (scope_assignments (nm_actor m) [] @ [(''deleted_at'', CurrentTimestamp)])"

definition node_record_of :: "file_node \<Rightarrow> node_record" where
  "node_record_of n =
     \<lparr>nr_inode_id = fn_inode_id n, nr_owner_uin = fn_owner_uin n, nr_uin = fn_uin n, nr_app_id = fn_app_id n,
      nr_workspace_id = fn_workspace_id n, nr_node_type = fn_node_type n\<rparr>"

definition mysql_lookup :: "'w gorm_db \<Rightarrow> uint64 list \<Rightarrow> 'w \<Rightarrow> (go_error, (uint64 \<times> node_record) list) result \<times> 'w" where
  "mysql_lookup db ids w =
     (if ids = [] then (Inr [], w)
      else case db_find db file_node_table [ColumnIn ''inode_id'' (map inode_value ids), ColumnIsNull ''deleted_at'']
                  NoOrder (- 1) w of
             (Inl e, w') \<Rightarrow> (Inl e, w')
           | (Inr rows, w') \<Rightarrow>
               (Inr (fold (\<lambda>n out. AList.update (fn_inode_id n) (node_record_of n) out) (map file_node_of_row rows) []), w'))"

definition mysql_node_store :: "'w gorm_db \<Rightarrow> 'w node_store_ops" where
  "mysql_node_store db =
     \<lparr>ns_upsert = mysql_upsert db, ns_mark_deleted = mysql_mark_deleted db, ns_lookup = mysql_lookup db\<rparr>"

text \<open>
  \<open>gorm.Open\<close> with the limits of the connection pool is the argument: it opens the database of a
  configuration or fails. The three stores open one each.
\<close>

definition new_optional_file_node_store ::
  "(mysql_config \<Rightarrow> (go_error, 'w gorm_db) result) \<Rightarrow> mysql_config \<Rightarrow> (go_error, 'w node_store_ops option) result" where
  "new_optional_file_node_store open_db cfg =
     (if my_dsn cfg = [] then Inr None
      else case open_db cfg of Inl e \<Rightarrow> Inl e | Inr db \<Rightarrow> Inr (Some (mysql_node_store db)))"

section \<open>FileIntentStore\<close>

fun intent_op_text :: "intent_op \<Rightarrow> string" where
  "intent_op_text IntentOpCreateFolder = ''create_folder''"
| "intent_op_text IntentOpCreateFile = ''create_file''"
| "intent_op_text IntentOpWriteFile = ''write_file''"
| "intent_op_text IntentOpCreateNotebook = ''create_notebook''"

fun intent_status_text :: "intent_status \<Rightarrow> string" where
  "intent_status_text IntentPending = ''pending''"
| "intent_status_text IntentDone = ''done''"
| "intent_status_text IntentAborted = ''aborted''"

definition file_intent_table :: sql_table where
  "file_intent_table = \<lparr>tb_name = ''ws_file_intent'', tb_key = ''intent_id'', tb_soft_delete = False\<rparr>"

text \<open>
  The program writes no other text into the two columns; a text someone else put there has no
  counterpart in the types of the model.
\<close>

definition intent_op_of :: "string \<Rightarrow> intent_op" where
  "intent_op_of s =
     (if s = ''create_folder'' then IntentOpCreateFolder else if s = ''create_file'' then IntentOpCreateFile
      else if s = ''write_file'' then IntentOpWriteFile else IntentOpCreateNotebook)"

definition intent_status_of :: "string \<Rightarrow> intent_status" where
  "intent_status_of s = (if s = ''done'' then IntentDone else if s = ''aborted'' then IntentAborted else IntentPending)"

definition file_intent_row :: "intent \<Rightarrow> sql_row" where
  "file_intent_row i =
     (let t = normalize_node_type (it_node_type i)
      in [(''intent_id'', SqlText (it_id i)), (''op'', SqlText (intent_op_text (it_op i))),
          (''abs_path'', SqlText (it_abs_path i)), (''owner_uin'', SqlText (na_owner_uin (it_actor i))),
          (''uin'', SqlText (na_uin (it_actor i))), (''app_id'', SqlText (na_app_id (it_actor i))),
          (''workspace_id'', SqlText (na_workspace_id (it_actor i))),
          (''node_type'', SqlText (if t = [] then NodeTypeFile else t)),
          (''status'', SqlText (intent_status_text IntentPending)), (''attempts'', SqlInt 0), (''last_error'', SqlText [])])"

definition mysql_enqueue :: "'w gorm_db \<Rightarrow> intent \<Rightarrow> 'w \<Rightarrow> go_error option \<times> 'w" where
  "mysql_enqueue db i w =
     (if it_id i = [] then (Some (text_error ''intent id is required''), w)
      else
        let row = file_intent_row i;
            again = (\<lambda>c. (c, SqlVal (column row c)))
        in db_create db file_intent_table row
             [again ''op'', again ''abs_path'', again ''node_type'',
              (''status'', SqlVal (SqlText (intent_status_text IntentPending))), (''last_error'', SqlVal (SqlText [])),
              (''updated_at'', CurrentTimestamp)] w)"

definition truncate_error :: "string \<Rightarrow> string" where
  "truncate_error msg = (if 512 < length msg then take 512 msg else msg)"

definition mysql_mark_done :: "'w gorm_db \<Rightarrow> string \<Rightarrow> 'w \<Rightarrow> go_error option \<times> 'w" where
  "mysql_mark_done db k =
     db_updates db file_intent_table [ColumnIs ''intent_id'' (SqlText k)]
       [(''status'', SqlVal (SqlText (intent_status_text IntentDone))), (''updated_at'', CurrentTimestamp)]"

definition mysql_mark_aborted :: "'w gorm_db \<Rightarrow> string \<Rightarrow> string \<Rightarrow> 'w \<Rightarrow> go_error option \<times> 'w" where
  "mysql_mark_aborted db k reason =
     db_updates db file_intent_table [ColumnIs ''intent_id'' (SqlText k)]
       [(''status'', SqlVal (SqlText (intent_status_text IntentAborted))),
        (''last_error'', SqlVal (SqlText (truncate_error reason))), (''updated_at'', CurrentTimestamp)]"

definition mysql_increment_attempt :: "'w gorm_db \<Rightarrow> string \<Rightarrow> string \<Rightarrow> 'w \<Rightarrow> go_error option \<times> 'w" where
  "mysql_increment_attempt db k last_err =
     db_updates db file_intent_table [ColumnIs ''intent_id'' (SqlText k)]
       [(''attempts'', ColumnPlusOne ''attempts''), (''last_error'', SqlVal (SqlText (truncate_error last_err))),
        (''updated_at'', CurrentTimestamp)]"

definition intent_from_row :: "sql_row \<Rightarrow> intent" where
  "intent_from_row r =
     (let text = (\<lambda>c. sql_text (column r c))
      in \<lparr>it_id = text ''intent_id'', it_op = intent_op_of (text ''op''), it_abs_path = text ''abs_path'',
          it_actor = new_node_actor (text ''owner_uin'') (text ''uin'') (text ''app_id'') (text ''workspace_id''),
          it_node_type = text ''node_type'', it_status = intent_status_of (text ''status''),
          it_attempts = sql_int (column r ''attempts''), it_last_error = text ''last_error''\<rparr>)"

definition mysql_list_pending :: "'w gorm_db \<Rightarrow> int \<Rightarrow> 'w \<Rightarrow> (go_error, intent list) result \<times> 'w" where
  "mysql_list_pending db limit0 w =
     (let limit = (if limit0 \<le> 0 then 100 else limit0)
      in case db_find db file_intent_table [ColumnIs ''status'' (SqlText (intent_status_text IntentPending))]
                (Ascending ''id'') limit w of
           (Inl e, w') \<Rightarrow> (Inl e, w')
         | (Inr rows, w') \<Rightarrow> (Inr (map intent_from_row rows), w'))"

definition mysql_intent_store :: "'w gorm_db \<Rightarrow> 'w intent_store_ops" where
  "mysql_intent_store db =
     \<lparr>is_enqueue = mysql_enqueue db, is_mark_done = mysql_mark_done db, is_mark_aborted = mysql_mark_aborted db,
      is_increment_attempt = mysql_increment_attempt db, is_list_pending = mysql_list_pending db\<rparr>"

definition new_optional_file_intent_store ::
  "(mysql_config \<Rightarrow> (go_error, 'w gorm_db) result) \<Rightarrow> mysql_config \<Rightarrow> (go_error, 'w intent_store_ops option) result" where
  "new_optional_file_intent_store open_db cfg =
     (if my_dsn cfg = [] then Inr None
      else case open_db cfg of Inl e \<Rightarrow> Inl e | Inr db \<Rightarrow> Inr (Some (mysql_intent_store db)))"

section \<open>KernelSessionStore\<close>

definition kernel_session_table :: sql_table where
  "kernel_session_table = \<lparr>tb_name = ''ws_kernel_session'', tb_key = ''session_id'', tb_soft_delete = True\<rparr>"

text \<open>An absent JSON text is NULL.\<close>

definition json_value :: "raw_json \<Rightarrow> sql_value" where
  "json_value j = (case j of None \<Rightarrow> SqlNull | Some v \<Rightarrow> SqlJson v)"

fun sql_json :: "sql_value \<Rightarrow> raw_json" where
  "sql_json (SqlJson v) = Some v"
| "sql_json v = None"

definition session_columns :: "session_record \<Rightarrow> (string \<times> sql_value) list" where
  "session_columns r =
     [(''path'', SqlText (row_path r)), (''name'', SqlText (row_name r)), (''type'', SqlText (row_type r)),
      (''kernel_id'', SqlText (row_kernel_id r)), (''kernel_name'', SqlText (row_kernel_name r)),
      (''cluster'', SqlText (row_cluster r)), (''custom_envs'', json_value (row_custom_envs r)),
      (''launch_plan'', json_value (row_launch_plan r)), (''state'', SqlText (row_state r)),
      (''owner_uin'', SqlText (row_owner_uin r)), (''uin'', SqlText (row_uin r)), (''app_id'', SqlText (row_app_id r)),
      (''workspace_id'', SqlText (row_workspace_id r))]"

definition kernel_session_from_record :: "session_record \<Rightarrow> sql_row" where
  "kernel_session_from_record r =
     (''session_id'', SqlText (row_session_id r)) # session_columns r @ [(''deleted_at'', SqlNull)]"

definition record_from_row :: "sql_row \<Rightarrow> session_record" where
  "record_from_row r =
     (let text = (\<lambda>c. sql_text (column r c))
      in \<lparr>row_session_id = text ''session_id'', row_path = text ''path'', row_name = text ''name'', row_type = text ''type'',
          row_kernel_id = text ''kernel_id'', row_kernel_name = text ''kernel_name'', row_cluster = text ''cluster'',
          row_custom_envs = sql_json (column r ''custom_envs''), row_launch_plan = sql_json (column r ''launch_plan''),
          row_state = text ''state'', row_owner_uin = text ''owner_uin'', row_uin = text ''uin'', row_app_id = text ''app_id'',
          row_workspace_id = text ''workspace_id''\<rparr>)"

definition mysql_session_upsert :: "'w gorm_db \<Rightarrow> session_record \<Rightarrow> 'w \<Rightarrow> go_error option \<times> 'w" where
  "mysql_session_upsert db r w =
     (if row_session_id r = [] then (Some (text_error ''session_id is required''), w)
      else db_create db kernel_session_table (kernel_session_from_record r)
             (map (\<lambda>(c, v). (c, SqlVal v)) (session_columns r) @
              [(''deleted_at'', SqlVal SqlNull), (''updated_at'', CurrentTimestamp)]) w)"

definition mysql_session_update_state :: "'w gorm_db \<Rightarrow> string \<Rightarrow> string \<Rightarrow> 'w \<Rightarrow> go_error option \<times> 'w" where
  "mysql_session_update_state db k state =
     db_updates db kernel_session_table [ColumnIs ''session_id'' (SqlText k)]
       [(''state'', SqlVal (SqlText state)), (''updated_at'', CurrentTimestamp)]"

definition mysql_session_mark_deleted :: "'w gorm_db \<Rightarrow> string \<Rightarrow> 'w \<Rightarrow> go_error option \<times> 'w" where
  "mysql_session_mark_deleted db k =
     db_updates db kernel_session_table [ColumnIs ''session_id'' (SqlText k)]
       [(''deleted_at'', CurrentTimestamp), (''updated_at'', CurrentTimestamp)]"

definition first_record :: "(go_error, sql_row) result \<times> 'w \<Rightarrow> (go_error, session_record) result \<times> 'w" where
  "first_record x = (case x of (Inl e, w') \<Rightarrow> (Inl e, w') | (Inr r, w') \<Rightarrow> (Inr (record_from_row r), w'))"

definition mysql_session_get :: "'w gorm_db \<Rightarrow> string \<Rightarrow> 'w \<Rightarrow> (go_error, session_record) result \<times> 'w" where
  "mysql_session_get db k w =
     first_record (db_first db kernel_session_table [ColumnIs ''session_id'' (SqlText k), ColumnIsNull ''deleted_at''] NoOrder w)"

definition mysql_session_get_by_kernel :: "'w gorm_db \<Rightarrow> string \<Rightarrow> 'w \<Rightarrow> (go_error, session_record) result \<times> 'w" where
  "mysql_session_get_by_kernel db k w =
     first_record (db_first db kernel_session_table [ColumnIs ''kernel_id'' (SqlText k), ColumnIsNull ''deleted_at'']
       (Descending ''updated_at'') w)"

definition mysql_session_store :: "'w gorm_db \<Rightarrow> 'w session_store_ops" where
  "mysql_session_store db =
     \<lparr>ss_upsert = mysql_session_upsert db, ss_update_state = mysql_session_update_state db,
      ss_mark_deleted = mysql_session_mark_deleted db, ss_get_by_session_id = mysql_session_get db,
      ss_get_by_kernel_id = mysql_session_get_by_kernel db\<rparr>"

definition new_optional_kernel_session_store ::
  "(mysql_config \<Rightarrow> (go_error, 'w gorm_db) result) \<Rightarrow> mysql_config \<Rightarrow> (go_error, 'w session_store_ops option) result" where
  "new_optional_kernel_session_store open_db cfg =
     (if my_dsn cfg = [] then Inr None
      else case open_db cfg of Inl e \<Rightarrow> Inl e | Inr db \<Rightarrow> Inr (Some (mysql_session_store db)))"

text \<open>A row that is written is read back as the record it was made from.\<close>

lemma session_row_round_trip: "record_from_row (kernel_session_from_record r) = r"
  by (cases r) (auto simp: record_from_row_def kernel_session_from_record_def session_columns_def column_def
      json_value_def split: option.splits)

lemma intent_text_round_trip [simp]: "intent_op_of (intent_op_text op) = op" "intent_status_of (intent_status_text st) = st"
  by (cases op; simp add: intent_op_of_def) (cases st; simp add: intent_status_of_def)

lemma intent_row_round_trip:
  "known_node_type (it_node_type i) \<Longrightarrow>
   intent_from_row (file_intent_row i) = i\<lparr>it_status := IntentPending, it_attempts := 0, it_last_error := []\<rparr>"
proof -
  assume t: "known_node_type (it_node_type i)"
  then have "it_node_type i \<noteq> []" by auto
  with t show ?thesis
    by (cases i) (simp add: intent_from_row_def file_intent_row_def Let_def column_def new_node_actor_def intent_status_of_def)
qed

end
