(* ===== verification/MysqlGuarantees.thy ===== *)
theory MysqlGuarantees
  imports MysqlStores
begin

text \<open>
  The node store on MySQL keeps the contract of the port \<open>NodeStore\<close>, hence answers like the
  in-memory one.
\<close>

section \<open>The contract\<close>

definition node_view :: "('w \<Rightarrow> sql_value \<Rightarrow> sql_row option) \<Rightarrow> 'w \<Rightarrow> uint64 \<Rightarrow> node_record option" where
  "node_view tab w i =
     (case tab w (inode_value i) of
        None \<Rightarrow> None
      | Some r \<Rightarrow> if column r ''deleted_at'' = SqlNull then Some (node_record_of (file_node_of_row r)) else None)"

lemma inode_value_inj [simp]: "inode_value i = inode_value j \<longleftrightarrow> i = j"
  by (simp add: inode_value_def word_uint_eq_iff)

lemma inode_value_exact [simp]: "exact_value (inode_value i)"
  by (simp add: inode_value_def)

lemma sql_equal_inode [simp]: "sql_equal (inode_value i) v \<longleftrightarrow> v = inode_value i" "sql_equal v (inode_value i) \<longleftrightarrow> v = inode_value i"
  by (cases v; auto simp: inode_value_def)+

lemma table_simps [simp]: "tb_key file_node_table = ''inode_id''" "tb_soft_delete file_node_table"
  by (simp_all add: file_node_table_def)

lemma new_node_columns:
  "column (file_node_row n) ''inode_id'' = inode_value (fn_inode_id n)"
  "column (file_node_row n) ''deleted_at'' = SqlNull"
  "file_node_of_row (file_node_row n) = n"
  by (simp_all add: file_node_row_def column_def file_node_of_row_def inode_value_def)

lemma of_row_cong: "column r = column r' \<Longrightarrow> file_node_of_row r = file_node_of_row r'"
  by (simp add: file_node_of_row_def)

lemma node_row_columns: "fst ` set (file_node_row n) =
    {''inode_id'', ''owner_uin'', ''uin'', ''app_id'', ''workspace_id'', ''node_type'', ''deleted_at''}"
  by (simp add: file_node_row_def)

lemma column_update [simp]: "column (AList.update c v r) d = (if c = d then v else column r d)"
  by (simp add: column_def update_conv')

lemma assigned_node:
  assumes "known_node_type (nm_node_type m)" "column r ''inode_id'' = inode_value (nm_inode_id m)"
  defines "ups \<equiv> scope_assignments (nm_actor m) (nm_node_type m) @ [(''deleted_at'', SqlVal SqlNull)]"
  shows "node_record_of (file_node_of_row (sql_assign now ups r)) = record_of_mutation m"
    "column (sql_assign now ups r) ''deleted_at'' = SqlNull" "''inode_id'' \<notin> fst ` set ups"
proof -
  have "nm_node_type m \<noteq> []" using assms(1) by auto
  then have ups: "ups =
    [(''owner_uin'', SqlVal (SqlText (na_owner_uin (nm_actor m)))), (''uin'', SqlVal (SqlText (na_uin (nm_actor m)))),
     (''app_id'', SqlVal (SqlText (na_app_id (nm_actor m)))), (''workspace_id'', SqlVal (SqlText (na_workspace_id (nm_actor m)))),
     (''updated_at'', CurrentTimestamp), (''node_type'', SqlVal (SqlText (nm_node_type m))), (''deleted_at'', SqlVal SqlNull)]"
    using assms(1) by (simp add: ups_def scope_assignments_def Let_def)
  show "node_record_of (file_node_of_row (sql_assign now ups r)) = record_of_mutation m"
    "column (sql_assign now ups r) ''deleted_at'' = SqlNull" "''inode_id'' \<notin> fst ` set ups"
    using assms(2)
    by (simp_all add: ups sql_assign_def file_node_of_row_def node_record_of_def record_of_mutation_def inode_value_def)
qed

lemma new_node:
  "known_node_type (nm_node_type m) \<Longrightarrow> node_record_of (file_node_from_mutation m) = record_of_mutation m"
  by (auto simp: node_record_of_def file_node_from_mutation_def record_of_mutation_def Let_def)

lemma node_view_update:
  assumes "tab w' = (tab w)(inode_value i \<mapsto> r)" "column r ''deleted_at'' = SqlNull"
  shows "node_view tab w' = (node_view tab w)(i \<mapsto> node_record_of (file_node_of_row r))"
  using assms by (auto simp: node_view_def fun_eq_iff)

lemma map_of_fold_update:
  "distinct (map f xs) \<Longrightarrow> map_of (fold (\<lambda>n out. AList.update (f n) (g n) out) xs out) i =
     (case find (\<lambda>n. f n = i) xs of Some n \<Rightarrow> Some (g n) | None \<Rightarrow> map_of out i)"
proof (induction xs arbitrary: out)
  case (Cons x xs)
  then have "find (\<lambda>n. f n = i) xs = None" if "f x = i"
    using that Cons.prems by (auto simp: find_None_iff image_iff)
  with Cons show ?case by (auto simp: update_conv' split: option.splits)
qed simp

lemma mysql_node_store_contract:
  assumes "gorm db file_node_table tab"
  shows "node_store (mysql_node_store db) (node_view tab)"
proof (unfold_locales, goal_cases)
  case (1 m w w')
  let ?new = "file_node_row (file_node_from_mutation m)" and ?i = "nm_inode_id m"
  let ?ups = "scope_assignments (nm_actor m) (nm_node_type m) @ [(''deleted_at'', SqlVal SqlNull)]"
  have run: "db_create db file_node_table ?new ?ups w = (None, w')" using 1(1) by (simp add: mysql_node_store_def mysql_upsert_def)
  have key: "column ?new (tb_key file_node_table) = inode_value ?i"
    by (simp add: new_node_columns file_node_from_mutation_def Let_def)
  then have exact: "exact_value (column ?new (tb_key file_node_table))" by simp
  show ?case
  proof (cases "tab w (inode_value ?i)")
    case None
    then obtain r where r: "tab w' = (tab w)(inode_value ?i \<mapsto> r)" "\<forall>c \<in> fst ` set ?new. column r c = column ?new c"
      using gorm.create_new [OF assms run exact] key by auto
    then have "file_node_of_row r = file_node_of_row ?new" "column r ''deleted_at'' = column ?new ''deleted_at''"
      unfolding node_row_columns by (simp_all add: file_node_of_row_def)
    with node_view_update [of tab w' w ?i r] r(1) show ?thesis
      using new_node [OF 1(2)] by (simp add: new_node_columns)
  next
    case (Some r)
    have inode: "column r ''inode_id'' = inode_value ?i" using gorm.keyed [OF assms Some] by simp
    have "tb_key file_node_table \<notin> fst ` set ?ups" using assigned_node(3) [OF 1(2) inode] by simp
    then obtain r' now where r: "tab w' = (tab w)(inode_value ?i \<mapsto> r')" "column r' = column (sql_assign now ?ups r)"
      using gorm.create_old [OF assms run exact] Some key by auto
    with node_view_update [of tab w' w ?i r'] assigned_node(1,2) [OF 1(2) inode, of now] of_row_cong [OF r(2)]
    show ?thesis by simp
  qed
next
  case (2 m w e w')
  then show ?case using gorm.failed(1) [OF assms] by (auto simp: mysql_node_store_def mysql_upsert_def node_view_def fun_eq_iff)
next
  case (3 m w w')
  let ?i = "nm_inode_id m" and ?conds = "[ColumnIs ''inode_id'' (inode_value (nm_inode_id m))]"
  let ?ups = "scope_assignments (nm_actor m) [] @ [(''deleted_at'', CurrentTimestamp)]"
  have run: "db_updates db file_node_table ?conds ?ups w = (None, w')"
    using 3 by (simp add: mysql_node_store_def mysql_mark_deleted_def)
  have ups: "?ups = [(''owner_uin'', SqlVal (SqlText (na_owner_uin (nm_actor m)))), (''uin'', SqlVal (SqlText (na_uin (nm_actor m)))),
     (''app_id'', SqlVal (SqlText (na_app_id (nm_actor m)))), (''workspace_id'', SqlVal (SqlText (na_workspace_id (nm_actor m)))),
     (''updated_at'', CurrentTimestamp), (''deleted_at'', CurrentTimestamp)]"
    by (simp add: scope_assignments_def Let_def normalize_node_type_def)
  then have "tb_key file_node_table \<notin> fst ` set ?ups" by simp
  from gorm.updates_ok [OF assms run this] obtain now f where f: "tab w' = (\<lambda>k. map_option f (tab w k))"
    "\<And>k r. tab w k = Some r \<Longrightarrow> column (f r) = column (if selected file_node_table ?conds r then sql_assign now ?ups r else r)"
    by blast
  have gone: "column (sql_assign now ?ups r) ''deleted_at'' \<noteq> SqlNull" for r
    unfolding ups by (simp add: sql_assign_def)
  have "node_view tab w' j = ((node_view tab w)(?i := None)) j" for j
  proof (cases "tab w (inode_value j)")
    case None
    then show ?thesis by (simp add: node_view_def f(1))
  next
    case (Some r)
    have "column r ''inode_id'' = inode_value j" using gorm.keyed [OF assms Some] by simp
    then have "selected file_node_table ?conds r \<longleftrightarrow> j = ?i \<and> column r ''deleted_at'' = SqlNull"
      by (auto simp: selected_def)
    with f(2) [OF Some] gone [of r] Some of_row_cong [of "f r" r] show ?thesis
      by (auto simp: node_view_def f(1) split: if_splits)
  qed
  then show ?case by (rule ext)
next
  case (4 m w e w')
  then show ?case
    using gorm.failed(2) [OF assms] by (auto simp: mysql_node_store_def mysql_mark_deleted_def node_view_def fun_eq_iff)
next
  case (5 ids w recs w')
  show ?case
  proof (cases "ids = []")
    case True
    with 5 show ?thesis by (auto simp: mysql_node_store_def mysql_lookup_def)
  next
    case False
    let ?conds = "[ColumnIn ''inode_id'' (map inode_value ids), ColumnIsNull ''deleted_at'']"
    obtain rs where run: "db_find db file_node_table ?conds NoOrder (- 1) w = (Inr rs, w')"
      and recs: "recs = fold (\<lambda>n out. AList.update (fn_inode_id n) (node_record_of n) out) (map file_node_of_row rs) []"
      using 5 False by (auto simp: mysql_node_store_def mysql_lookup_def split: prod.splits sum.splits)
    from gorm.find_ok [OF assms run] obtain ks where ks: "distinct ks" "map Some rs = map (tab w) ks"
      "set ks = {k. \<exists>r. tab w k = Some r \<and> selected file_node_table ?conds r}" by auto
    let ?node = "\<lambda>k. file_node_of_row (the (tab w k))"
    have "rs = map (\<lambda>k. the (tab w k)) ks" using arg_cong [OF ks(2), of "map the"] by (simp add: o_def)
    then have nodes: "map file_node_of_row rs = map ?node ks" by simp
    have there: "\<exists>r. tab w k = Some r \<and> selected file_node_table ?conds r" if "k \<in> set ks" for k
      using that unfolding ks(3) by (rule CollectD)
    have key: "inode_value (fn_inode_id (?node k)) = k \<and> k \<in> inode_value ` set ids \<and> column (the (tab w k)) ''deleted_at'' = SqlNull"
      if "k \<in> set ks" for k
    proof -
      from there [OF that] obtain r where r: "tab w k = Some r" "selected file_node_table ?conds r" by (elim exE conjE)
      have col: "column r ''inode_id'' = k" using gorm.keyed [OF assms r(1)] by simp
      with r(2) obtain j where j: "j \<in> set ids" "k = inode_value j"
        by (auto simp: selected_def list_ex_iff simp del: sql_equal.simps)
      have "fn_inode_id (file_node_of_row r) = j" using col j(2) by (simp add: file_node_of_row_def inode_value_def)
      moreover have "column r ''deleted_at'' = SqlNull" using r(2) by (simp add: selected_def)
      ultimately show ?thesis using r(1) j by simp
    qed
    have "distinct (map (fn_inode_id \<circ> ?node) ks)"
      using ks(1) key by (auto simp: distinct_map inj_on_def) metis
    then have dist: "distinct (map fn_inode_id (map ?node ks))" by (simp add: o_def)
    have "map_of recs i = (if i \<in> set ids then node_view tab w i else None)" for i
    proof (cases "inode_value i \<in> set ks")
      case True
      obtain n where n: "find (\<lambda>n. fn_inode_id n = i) (map ?node ks) = Some n"
        using key [OF True] True by (cases "find (\<lambda>n. fn_inode_id n = i) (map ?node ks)") (auto simp: find_None_iff)
      then obtain k where k: "k \<in> set ks" "n = ?node k" "fn_inode_id n = i" by (auto simp: find_Some_iff) (metis nth_mem)
      with key [OF k(1)] have "k = inode_value i" by simp
      moreover obtain r where "tab w (inode_value i) = Some r" using True ks(3) by auto
      moreover have "i \<in> set ids" using key [OF True] by auto
      ultimately show ?thesis
        using k key [OF k(1)] n by (simp add: recs nodes map_of_fold_update [OF dist] node_view_def)
    next
      case False
      have none: "find (\<lambda>n. fn_inode_id n = i) (map ?node ks) = None"
        using False key by (force simp: find_None_iff)
      have "node_view tab w i = None" if "i \<in> set ids"
      proof (cases "tab w (inode_value i)")
        case (Some r)
        then have "column r ''inode_id'' = inode_value i" using gorm.keyed [OF assms Some] by simp
        with False Some that ks(3) show ?thesis by (auto simp: node_view_def selected_def list_ex_iff)
      qed (simp add: node_view_def)
      with none show ?thesis by (simp add: recs nodes map_of_fold_update [OF dist])
    qed
    then show ?thesis by auto
  qed
next
  case (6 ids w lr w')
  then have "tab w' = tab w"
    using gorm.asked(1) [OF assms]
    by (auto simp: mysql_node_store_def mysql_lookup_def split: if_splits prod.splits sum.splits)
  then show ?case by (simp add: node_view_def fun_eq_iff)
qed

locale node_table = gorm db file_node_table tab
  for db :: "'w gorm_db" and tab :: "'w \<Rightarrow> sql_value \<Rightarrow> sql_row option"

sublocale node_table < nodes: node_store "mysql_node_store db" "node_view tab"
  by (rule mysql_node_store_contract) unfold_locales

interpretation stored_nodes: node_table stored_db "stored_tab file_node_table"
  by (simp add: node_table_def stored_db_laws)

section \<open>Two stores side by side\<close>

datatype node_call = UpsertNode node_mutation | DeleteNode node_mutation | LookupNodes "uint64 list"

fun known_call :: "node_call \<Rightarrow> bool" where
  "known_call (UpsertNode m) = known_node_type (nm_node_type m)"
| "known_call c = True"

text \<open>
  The calls of \<open>cs\<close> on the two stores: a call that fails on the first is skipped on the second, and
  what the first finds is what the second finds.
\<close>

fun follows :: "'w node_store_ops \<Rightarrow> 'v node_store_ops \<Rightarrow> node_call list \<Rightarrow> 'w \<Rightarrow> 'v \<Rightarrow> bool" where
  "follows a b [] w v = True"
| "follows a b (UpsertNode m # cs) w v =
     (case ns_upsert a m w of
        (Some e, w1) \<Rightarrow> follows a b cs w1 v
      | (None, w1) \<Rightarrow> (case ns_upsert b m v of (r, v1) \<Rightarrow> r = None \<and> follows a b cs w1 v1))"
| "follows a b (DeleteNode m # cs) w v =
     (case ns_mark_deleted a m w of
        (Some e, w1) \<Rightarrow> follows a b cs w1 v
      | (None, w1) \<Rightarrow> (case ns_mark_deleted b m v of (r, v1) \<Rightarrow> r = None \<and> follows a b cs w1 v1))"
| "follows a b (LookupNodes ids # cs) w v =
     (case ns_lookup a ids w of
        (Inl e, w1) \<Rightarrow> follows a b cs w1 v
      | (Inr found, w1) \<Rightarrow>
          (case ns_lookup b ids v of
             (Inr found2, v1) \<Rightarrow> map_of found = map_of found2 \<and> follows a b cs w1 v1
           | (Inl e, v1) \<Rightarrow> False))"

context node_store
begin

lemma follows_memory:
  "list_all known_call cs \<Longrightarrow> rows w = map_of v \<Longrightarrow> follows ops mem_node_store cs w v"
proof (induction cs arbitrary: w v)
  case (Cons c cs)
  show ?case
  proof (cases c)
    case (UpsertNode m)
    obtain r w1 where run: "ns_upsert ops m w = (r, w1)" by (cases "ns_upsert ops m w")
    obtain v1 where mem: "mem_upsert m v = (None, v1)" by (simp add: mem_upsert_def Let_def)
    have known: "known_node_type (nm_node_type m)" using Cons.prems UpsertNode by simp
    with mem_nodes.upsert_ok [of m v v1] mem have "map_of v1 = (map_of v)(nm_inode_id m \<mapsto> record_of_mutation m)" by simp
    with run mem upsert_rows_cases [OF run known] UpsertNode Cons show ?thesis by (cases r) simp_all
  next
    case (DeleteNode m)
    obtain r w1 where run: "ns_mark_deleted ops m w = (r, w1)" by (cases "ns_mark_deleted ops m w")
    obtain v1 where mem: "mem_mark_deleted m v = (None, v1)" by (simp add: mem_mark_deleted_def)
    with mem_nodes.mark_deleted_ok [of m v v1] have "map_of v1 = (map_of v)(nm_inode_id m := None)" by simp
    with run mem DeleteNode Cons show ?thesis
      using mark_deleted_ok [of m w w1] mark_deleted_err [of m w _ w1] by (cases r) simp_all
  next
    case (LookupNodes ids)
    obtain r w1 where run: "ns_lookup ops ids w = (r, w1)" by (cases "ns_lookup ops ids w")
    obtain found where mem: "mem_lookup ids v = (Inr found, v)" by (simp add: mem_lookup_def)
    with mem_nodes.lookup_ok [of ids v found v] have "map_of found = (\<lambda>i. if i \<in> set ids then map_of v i else None)" by simp
    moreover have "rows w1 = rows w" using lookup_rows [OF run] .
    moreover have "(\<lambda>i. if i \<in> set ids then rows w i else None) = (\<lambda>i. if i \<in> set ids then map_of v i else None)"
      unfolding Cons.prems(2) by (rule refl)
    ultimately show ?thesis using run mem LookupNodes Cons lookup_ok [of ids w _ w1] by (cases r) simp_all
  qed
qed simp

end

text \<open>
  C40. The node store on MySQL is equivalent to the in-memory store: whatever the server does, from
  equal rows and for every sequence of calls with known node types in which the failing ones are
  skipped, each lookup finds the same records, although deleted rows stay in the table and are
  revived by the next upsert.
\<close>

theorem mysql_nodes_follow_memory:
  assumes "gorm db file_node_table tab" "list_all known_call cs" "node_view tab w = map_of v"
  shows "follows (mysql_node_store db) mem_node_store cs w v"
  by (rule node_store.follows_memory [OF mysql_node_store_contract [OF assms(1)] assms(2,3)])

definition sample_mutation :: "uint64 \<Rightarrow> string \<Rightarrow> node_mutation" where
  "sample_mutation i uin =
     \<lparr>nm_inode_id = i, nm_actor = \<lparr>na_owner_uin = ''o'', na_uin = uin, na_app_id = ''a'', na_workspace_id = ''w''\<rparr>,
      nm_node_type = ''file''\<rparr>"

definition sample_calls :: "node_call list" where
  "sample_calls = [UpsertNode (sample_mutation 8 ''u''), DeleteNode (sample_mutation 8 ''v''), LookupNodes [8],
     UpsertNode (sample_mutation 8 ''w''), LookupNodes [8, 9]]"

theorem mysql_nodes_follow_memory_witness:
  "follows (mysql_node_store stored_db) mem_node_store sample_calls [] []"
proof -
  have "list_all known_call sample_calls" by (simp add: sample_calls_def sample_mutation_def)
  moreover have "node_view (stored_tab file_node_table) [] = map_of []"
    by (simp add: node_view_def stored_tab_def fun_eq_iff)
  ultimately show ?thesis by (rule mysql_nodes_follow_memory [OF stored_db_laws])
qed

end
