(* ===== verification/Startup.thy ===== *)
theory Startup
  imports MysqlStores Router Recovery GitClient GatewayProxy PersistingGateway
begin

text \<open>
  \<open>cmd/server/main.go\<close>: how the parts are put together from the configuration, and how the process
  ends. The machine (home directory, files, databases, network) and the libraries are one record.
  The listening socket and the log lines are left out; the goroutines are in theory Serving.
\<close>

section \<open>The environment\<close>

record ('x, 'f, 'g, 'l) machine =
  mc_home :: "string option"
  mc_read_config :: "viper_source \<Rightarrow> (go_error, viper) result"
  mc_zap :: "'l zap"
  mc_open_db :: "mysql_config \<Rightarrow> (go_error, 'x world gorm_db) result"
  mc_open_session_db :: "mysql_config \<Rightarrow> (go_error, 'x git_world gorm_db) result"
  mc_go_git :: "('x, 'f, 'g) go_git"
  mc_start :: start_env
  mc_network :: "'x git_world network"
  mc_websockets :: "'x git_world ws_library"
  mc_decode_error :: "string \<Rightarrow> string"

text \<open>The flag \<open>-config\<close>, \<open>None\<close> when it is not given.\<close>

definition config_flag :: "string option \<Rightarrow> string" where
  "config_flag given = (case given of Some f \<Rightarrow> f | None \<Rightarrow> ''conf/workspace-service.yaml'')"

section \<open>Putting the parts together\<close>

text \<open>The process stops with a panic or with \<open>log.Fatal\<close>.\<close>

datatype start_error = Panicked go_error | Fatal string go_error

record 'x server =
  srv_address :: string
  srv_mode :: "string option"
  srv_handlers :: "'x handlers"
  srv_routes :: "route list"
  srv_recoverer :: "'x world recoverer"
  srv_read_header_timeout :: int
  srv_shutdown_timeout :: int

definition or_fatal :: "string \<Rightarrow> (go_error, 'a) result \<Rightarrow> ('a \<Rightarrow> (start_error, 'b) result) \<Rightarrow> (start_error, 'b) result" where
  "or_fatal msg r k = (case r of Inl e \<Rightarrow> Inl (Fatal msg e) | Inr x \<Rightarrow> k x)"

definition build_server :: "('x, 'f, 'g, 'l) machine \<Rightarrow> config \<Rightarrow> (start_error, 'x server) result" where
  "build_server mc cfg =
     or_fatal ''init file node store failed'' (new_optional_file_node_store (mc_open_db mc) (cfg_mysql cfg)) (\<lambda>nodes.
     or_fatal ''init file intent store failed'' (new_optional_file_intent_store (mc_open_db mc) (cfg_mysql cfg)) (\<lambda>intents.
       let mount_root = clean_mount_root (mc_home mc) (wc_mount_root (cfg_workspace cfg));
           fs_client = new_workspace_fs_client (mc_home mc) nodes mount_root;
           git_meta_root = clean_mount_root (mc_home mc) (wc_git_meta_root (cfg_workspace cfg));
           git_client = new_workspace_git_client (mc_go_git mc) nodes mount_root git_meta_root;
           git_service = new_git_service (mc_home mc) (git_client_of git_client) mount_root nodes;
           file_service = new_service_with_stores (mc_home mc) (workspace_fs_client fs_client) mount_root
             (Some (lookup_git_branch git_service)) nodes intents;
           recoverer = new_recoverer intents nodes (Some stat_inode)
       in or_fatal ''init kernel session store failed'' (new_optional_kernel_session_store (mc_open_session_db mc) (cfg_mysql cfg)) (\<lambda>sessions.
          or_fatal ''init gateway client failed'' (new_optional_gateway (mc_start mc) (cfg_gateway cfg)) (\<lambda>gw.
            let port = (case gw of
                  None \<Rightarrow> None
                | Some g \<Rightarrow> wrap_with_session_store
                    (Some (gateway_port (mc_network mc) (mc_websockets mc) (mc_decode_error mc) g)) sessions);
                hs = \<lparr>hs_file = Some file_service, hs_git = Some git_service, hs_gateway = port\<rparr>;
                timeout = sc_shutdown_timeout (cfg_server cfg)
            in Inr
              \<lparr>srv_address = sc_address (cfg_server cfg),
               srv_mode = (if sc_mode (cfg_server cfg) \<noteq> [] then Some (sc_mode (cfg_server cfg)) else None),
               srv_handlers = hs, srv_routes = new_with_handlers (sc_url_prefix (cfg_server cfg)) (Some hs),
               srv_recoverer = recoverer, srv_read_header_timeout = 10 * 10 ^ 9,
               srv_shutdown_timeout = (if timeout \<le> 0 then 10 * 10 ^ 9 else timeout)\<rparr>))))"

definition start :: "('x, 'f, 'g, 'l) machine \<Rightarrow> string \<Rightarrow> (start_error, 'l \<times> 'x server) result" where
  "start mc config_file =
     (case load (mc_read_config mc) config_file of
        Inl e \<Rightarrow> Inl (Panicked e)
      | Inr cfg \<Rightarrow>
          (case new_logger (st_quote (mc_start mc)) (mc_zap mc) (cfg_log cfg) of
             Inl e \<Rightarrow> Inl (Panicked e)
           | Inr log \<Rightarrow> map_sum id (Pair log) (build_server mc cfg)))"

section \<open>The end of the process\<close>

text \<open>
  What the main goroutine waits for: a signal or the end of \<open>ListenAndServe\<close>, whose error is nil when
  the server was closed. After a signal the server is shut down within the timeout.
\<close>

datatype run_event = SignalReceived | ServerStopped "go_error option"

datatype exit = Stopped | Returned | Died string go_error

definition run_until :: "run_event \<Rightarrow> (int \<Rightarrow> go_error option) \<Rightarrow> 'x server \<Rightarrow> exit" where
  "run_until ev shutdown srv =
     (case ev of
        ServerStopped (Some e) \<Rightarrow> Died ''server stopped unexpectedly'' e
      | ServerStopped None \<Rightarrow> Returned
      | SignalReceived \<Rightarrow>
          (case shutdown (srv_shutdown_timeout srv) of
             Some e \<Rightarrow> Died ''server shutdown failed'' e
           | None \<Rightarrow> Stopped))"

section \<open>Optional parts\<close>

text \<open>
  Every server that starts has the file and git endpoints and a positive time to shut down; the
  Jupyter endpoints are there exactly when a gateway is configured; without a database nothing is
  journalled and the recovery has nothing to do.
\<close>

lemma or_fatal_Inr [simp]: "or_fatal msg r k = Inr y \<longleftrightarrow> (\<exists>x. r = Inr x \<and> k x = Inr y)"
  by (cases r) (simp_all add: or_fatal_def)

lemma optional_gateway_given:
  "new_optional_gateway env cfg = Inr gw \<Longrightarrow> gw \<noteq> None \<longleftrightarrow> trim_space (gc_url cfg) \<noteq> []"
  by (auto simp: new_optional_gateway_def Let_def split: sum.splits if_splits option.splits)

lemma wrapped_gateway: "wrap_with_session_store (Some g) s \<noteq> None"
  by (simp add: wrap_with_session_store_def split: option.splits)

lemma started_server:
  assumes "build_server mc cfg = Inr srv"
  shows "hs_file (srv_handlers srv) \<noteq> None" "hs_git (srv_handlers srv) \<noteq> None"
    "hs_gateway (srv_handlers srv) \<noteq> None \<longleftrightarrow> trim_space (gc_url (cfg_gateway cfg)) \<noteq> []"
    "0 < srv_shutdown_timeout srv"
    "my_dsn (cfg_mysql cfg) = [] \<Longrightarrow> hs_file (srv_handlers srv) = Some sv \<Longrightarrow> sv_recorder sv = None"
    "my_dsn (cfg_mysql cfg) = [] \<Longrightarrow> recover (Some (srv_recoverer srv)) ctx_err w = Some (zero_stats, None, w)"
proof -
  from assms obtain nodes intents sessions gw where
    n: "new_optional_file_node_store (mc_open_db mc) (cfg_mysql cfg) = Inr nodes"
    and i: "new_optional_file_intent_store (mc_open_db mc) (cfg_mysql cfg) = Inr intents"
    and g: "new_optional_gateway (mc_start mc) (cfg_gateway cfg) = Inr gw"
    and hs: "hs_file (srv_handlers srv) \<noteq> None" "hs_git (srv_handlers srv) \<noteq> None"
      "hs_gateway (srv_handlers srv) = (case gw of None \<Rightarrow> None | Some g \<Rightarrow> wrap_with_session_store
         (Some (gateway_port (mc_network mc) (mc_websockets mc) (mc_decode_error mc) g)) sessions)"
      "\<And>sv. hs_file (srv_handlers srv) = Some sv \<Longrightarrow> sv_recorder sv = new_node_recorder nodes intents"
    and rec: "srv_recoverer srv = new_recoverer intents nodes (Some stat_inode)"
    and t: "0 < srv_shutdown_timeout srv"
    by (auto simp: build_server_def Let_def new_service_with_stores_def)
  show "hs_file (srv_handlers srv) \<noteq> None" "hs_git (srv_handlers srv) \<noteq> None" "0 < srv_shutdown_timeout srv"
    using hs t by simp_all
  show "hs_gateway (srv_handlers srv) \<noteq> None \<longleftrightarrow> trim_space (gc_url (cfg_gateway cfg)) \<noteq> []"
    using optional_gateway_given [OF g] hs(3) wrapped_gateway by (cases gw) auto
  show "sv_recorder sv = None" if "my_dsn (cfg_mysql cfg) = []" "hs_file (srv_handlers srv) = Some sv"
    using that n i hs(4) by (simp add: new_optional_file_node_store_def new_optional_file_intent_store_def new_node_recorder_def)
  show "recover (Some (srv_recoverer srv)) ctx_err w = Some (zero_stats, None, w)" if "my_dsn (cfg_mysql cfg) = []"
    using that i rec by (simp add: new_optional_file_intent_store_def recover_def new_recoverer_def)
qed

end
