(* ===== verification/Serving.thy ===== *)
theory Serving
  imports Durability Startup
begin

text \<open>
  The running process of \<open>cmd/server/main.go\<close>: the main goroutine, the one that serves, the one that
  recovers, and one for each journalled request. A goroutine has the program point it is at, an event
  says which of them moves, and every interleaving is a list of events. The recovery of \<open>recovery.go\<close>
  and the recorder of \<open>recorder.go\<close> are here the same code cut into the steps between which another
  goroutine can run; run alone they are the functions of the theories Journal and Recovery.
\<close>

section \<open>A journalled request\<close>

text \<open>One call of \<open>nodeRecorder.run\<close>: the identifier it draws, its arguments and its action.\<close>

record 'w request =
  rq_key :: string
  rq_op :: intent_op
  rq_path :: string
  rq_actor :: actor
  rq_type :: string
  rq_action :: "'w \<Rightarrow> (go_error, file_info) result \<times> 'w"

datatype request_point =
    AtEnqueue
  | AtAction string
  | AtAbort string go_error
  | AtUpsert string file_info
  | AtDone string file_info
  | AtAnswer "(go_error, file_info) result"

definition journal_of :: "'w node_recorder option \<Rightarrow> 'w intent_store_ops option" where
  "journal_of ro = (case ro of None \<Rightarrow> None | Some r \<Rightarrow> rec_intents r)"

definition table_of :: "'w node_recorder option \<Rightarrow> 'w node_store_ops option" where
  "table_of ro = (case ro of None \<Rightarrow> None | Some r \<Rightarrow> rec_nodes r)"

fun request_step ::
  "'w node_recorder option \<Rightarrow> 'w request \<Rightarrow> request_point \<Rightarrow> 'w \<Rightarrow> request_point \<times> 'w" where
  "request_step ro q AtEnqueue w =
     (case ro of
        None \<Rightarrow> (AtAction [], w)
      | Some r \<Rightarrow>
          (case recorder_enqueue r (rq_key q) (rq_op q) (rq_path q) (rq_actor q) (rq_type q) w of
             (k, w1) \<Rightarrow> (AtAction k, w1)))"
| "request_step ro q (AtAction k) w =
     (case rq_action q w of
        (Inl e, w1) \<Rightarrow> (if k \<noteq> [] then AtAbort k e else AtAnswer (Inl e), w1)
      | (Inr info, w1) \<Rightarrow> (case ro of None \<Rightarrow> AtAnswer (Inr info) | Some r \<Rightarrow> AtUpsert k info, w1))"
| "request_step ro q (AtAbort k e) w =
     (AtAnswer (Inl e),
      case journal_of ro of Some store \<Rightarrow> snd (is_mark_aborted store k (err_text e) w) | None \<Rightarrow> w)"
| "request_step ro q (AtUpsert k info) w =
     (case table_of ro of
        None \<Rightarrow> (AtDone k info, w)
      | Some nodes \<Rightarrow>
          if fi_inode_id info = 0 then (AtAnswer (Inr info), w)
          else (case ns_upsert nodes
                      \<lparr>nm_inode_id = fi_inode_id info, nm_actor = to_node_actor (rq_actor q),
                       nm_node_type = rq_type q\<rparr> w of
                  (Some e, w1) \<Rightarrow> (AtAnswer (Inr info), w1)
                | (None, w1) \<Rightarrow> (AtDone k info, w1)))"
| "request_step ro q (AtDone k info) w =
     (AtAnswer (Inr info),
      if k \<noteq> []
      then (case journal_of ro of Some store \<Rightarrow> snd (is_mark_done store k w) | None \<Rightarrow> w)
      else w)"
| "request_step ro q (AtAnswer res) w = (AtAnswer res, w)"

text \<open>The calls of the file service that are journalled, with the arguments of \<open>operations.go\<close>.\<close>

datatype write_call =
    CreatesFolder create_folder_req
  | CreatesFile create_file_req
  | CreatesNotebook create_notebook_req
  | Writes write_file_req

fun request_of :: "'x fs_client \<Rightarrow> string \<Rightarrow> write_call \<Rightarrow> 'x world request" where
  "request_of c k (CreatesFolder req) =
     \<lparr>rq_key = k, rq_op = IntentOpCreateFolder, rq_path = cd_path req, rq_actor = cd_actor req,
      rq_type = NodeTypeDirectory, rq_action = client_create_folder c req\<rparr>"
| "request_of c k (CreatesFile req) =
     \<lparr>rq_key = k, rq_op = IntentOpCreateFile, rq_path = cf_path req, rq_actor = cf_actor req,
      rq_type = NodeTypeFile, rq_action = client_create_file c req\<rparr>"
| "request_of c k (CreatesNotebook req) =
     \<lparr>rq_key = k, rq_op = IntentOpCreateNotebook, rq_path = cn_path req, rq_actor = cn_actor req,
      rq_type = NodeTypeNotebook, rq_action = client_create_notebook c req\<rparr>"
| "request_of c k (Writes req) =
     \<lparr>rq_key = k, rq_op = IntentOpWriteFile, rq_path = wf_path req, rq_actor = wf_actor req,
      rq_type = NodeTypeFile, rq_action = client_write_file c req\<rparr>"

section \<open>The recovery scan\<close>

text \<open>The batch a scan is in: its current intent, those after it, its size and what was counted.\<close>

record scan_batch =
  sb_intent :: intent
  sb_rest :: "intent list"
  sb_size :: int
  sb_stats :: recovery_stats
  sb_progressed :: bool

datatype verdict = SettleDone uint64 | SettleAborted string | CountAttempt string

datatype scan_point =
    ScanList recovery_stats
  | ScanStat scan_batch
  | ScanUpsert uint64 scan_batch
  | ScanMark verdict scan_batch
  | ScanEnd recovery_stats "go_error option"

definition retry_verdict :: "int \<Rightarrow> intent \<Rightarrow> string \<Rightarrow> verdict" where
  "retry_verdict max_tries i reason =
     (if max_tries \<le> it_attempts i + 1 then SettleAborted (''max attempts exceeded: '' @ reason)
      else CountAttempt reason)"

definition apply_verdict :: "'w intent_store_ops \<Rightarrow> verdict \<Rightarrow> string \<Rightarrow> 'w \<Rightarrow> 'w" where
  "apply_verdict store v k w =
     (case v of
        SettleDone ino \<Rightarrow> snd (is_mark_done store k w)
      | SettleAborted s \<Rightarrow> snd (is_mark_aborted store k s w)
      | CountAttempt s \<Rightarrow> snd (is_increment_attempt store k s w))"

definition outcome_of :: "verdict \<Rightarrow> recover_outcome" where
  "outcome_of v =
     (case v of SettleDone ino \<Rightarrow> OutcomeCompleted | SettleAborted s \<Rightarrow> OutcomeAborted
      | CountAttempt s \<Rightarrow> OutcomeRetried)"

text \<open>After an intent: the context is asked, then comes the next intent or the end of the batch.\<close>

definition scan_next :: "int \<Rightarrow> go_error option \<Rightarrow> recover_outcome \<Rightarrow> scan_batch \<Rightarrow> scan_point" where
  "scan_next batch_size ctx_err out b =
     (let st = count_outcome out (sb_stats b); pr = (sb_progressed b \<or> out \<noteq> OutcomeRetried)
      in (case ctx_err of
            Some e \<Rightarrow> ScanEnd st (Some e)
          | None \<Rightarrow>
              (case sb_rest b of
                 i # is \<Rightarrow> ScanStat (b\<lparr>sb_intent := i, sb_rest := is, sb_stats := st, sb_progressed := pr\<rparr>)
               | [] \<Rightarrow> if \<not> pr \<or> sb_size b < batch_size then ScanEnd st None else ScanList st)))"

fun scan_step ::
  "'w intent_store_ops \<Rightarrow> 'w node_store_ops option \<Rightarrow>
   (string \<Rightarrow> 'w \<Rightarrow> (go_error, uint64 \<times> bool) result \<times> 'w) \<Rightarrow> int \<Rightarrow> int \<Rightarrow> go_error option \<Rightarrow>
   scan_point \<Rightarrow> 'w \<Rightarrow> scan_point \<times> 'w" where
  "scan_step store nodes stat max_tries batch_size ctx_err (ScanList st) w =
     (case is_list_pending store batch_size w of
        (Inl e, w1) \<Rightarrow> (ScanEnd st (Some e), w1)
      | (Inr [], w1) \<Rightarrow> (ScanEnd st None, w1)
      | (Inr (i # is), w1) \<Rightarrow>
          (ScanStat \<lparr>sb_intent = i, sb_rest = is, sb_size = int (length (i # is)), sb_stats = st,
             sb_progressed = False\<rparr>, w1))"
| "scan_step store nodes stat max_tries batch_size ctx_err (ScanStat b) w =
     (case stat (it_abs_path (sb_intent b)) w of
        (Inl err, w1) \<Rightarrow> (ScanMark (retry_verdict max_tries (sb_intent b) (''stat target: '' @ err_text err)) b, w1)
      | (Inr (inode, exists), w1) \<Rightarrow>
          (if \<not> exists then ScanMark (SettleAborted ''target path absent on storage'') b
           else if inode = 0
           then ScanMark (retry_verdict max_tries (sb_intent b) ''inode unresolved for existing path'') b
           else (case nodes of None \<Rightarrow> ScanMark (SettleDone inode) b | Some ns \<Rightarrow> ScanUpsert inode b), w1))"
| "scan_step store nodes stat max_tries batch_size ctx_err (ScanUpsert inode b) w =
     (case nodes of
        None \<Rightarrow> (ScanMark (SettleDone inode) b, w)
      | Some ns \<Rightarrow>
          (case ns_upsert ns \<lparr>nm_inode_id = inode, nm_actor = it_actor (sb_intent b),
                              nm_node_type = it_node_type (sb_intent b)\<rparr> w of
             (Some e, w1) \<Rightarrow>
               (ScanMark (retry_verdict max_tries (sb_intent b) (''upsert node: '' @ err_text e)) b, w1)
           | (None, w1) \<Rightarrow> (ScanMark (SettleDone inode) b, w1)))"
| "scan_step store nodes stat max_tries batch_size ctx_err (ScanMark v b) w =
     (scan_next batch_size ctx_err (outcome_of v) b, apply_verdict store v (it_id (sb_intent b)) w)"
| "scan_step store nodes stat max_tries batch_size ctx_err (ScanEnd st e) w = (ScanEnd st e, w)"

text \<open>The goroutine that \<open>main\<close> starts; without an intent store or an inspector it ends at once.\<close>

definition recover_step :: "'w recoverer \<Rightarrow> go_error option \<Rightarrow> scan_point \<Rightarrow> 'w \<Rightarrow> scan_point \<times> 'w" where
  "recover_step rv ctx_err p w =
     (case (rv_intents rv, rv_inspector rv) of
        (Some store, Some stat) \<Rightarrow>
          scan_step store (rv_nodes rv) stat (rv_max_tries rv) (rv_batch_size rv) ctx_err p w
      | _ \<Rightarrow> (ScanEnd zero_stats None, w))"

section \<open>The process\<close>

text \<open>
  The main goroutine builds the server, waits for a signal or for the end of \<open>ListenAndServe\<close>, and
  shuts down. \<open>Ended\<close> is the value the serving goroutine has put into \<open>errCh\<close>, which has room for
  it, so that goroutine never blocks. A process that is over or was killed has no goroutines.
\<close>

datatype main_point = Building | Waiting | Stopping | Over exit | Killed

datatype serve_point = NotServing | Listening | Ended "go_error option"

record 'w process =
  pr_world :: 'w
  pr_main :: main_point
  pr_serve :: serve_point
  pr_scan :: "scan_point option"
  pr_requests :: "('w request \<times> request_point) list"

text \<open>
  The recovery goroutine is started while the server is still being built, before the session store
  and the gateway client are opened.
\<close>

definition boot :: "'w \<Rightarrow> 'w process" where
  "boot w =
     \<lparr>pr_world = w, pr_main = Building, pr_serve = NotServing, pr_scan = Some (ScanList zero_stats),
      pr_requests = []\<rparr>"

definition leave :: "main_point \<Rightarrow> 'w process \<Rightarrow> 'w process" where
  "leave m s = s\<lparr>pr_main := m, pr_serve := NotServing, pr_scan := None, pr_requests := []\<rparr>"

fun running :: "main_point \<Rightarrow> bool" where
  "running (Over x) = False"
| "running Killed = False"
| "running m = True"

text \<open>
  What can happen next: the rest of the start-up ends (with a message and an error if it fails), the
  listener fails, a signal arrives, main receives from \<open>errCh\<close>, \<open>Shutdown\<close> returns, the process is
  killed or started again, a request arrives, a request or the scan takes a step (the scan then asks
  its context, whose answer is the argument), another request deletes a node row, or the storage is
  changed by others.
\<close>

datatype 'w event =
    EvBuilt "(string \<times> go_error) option"
  | EvListenFails go_error
  | EvSignal
  | EvReceive
  | EvShutdown "go_error option"
  | EvKill
  | EvRestart
  | EvArrive "'w request"
  | EvRequest nat
  | EvScan "go_error option"
  | EvDelete node_mutation
  | EvStorage "'w \<Rightarrow> 'w"

text \<open>What an observer sees of a step.\<close>

datatype 'w happening =
    MainAt main_point
  | ServingEnded go_error
  | Arrived "'w request"
  | Ran "'w request" request_point request_point
  | Answered "'w request" "(go_error, file_info) result"
  | Scanned scan_point scan_point
  | Removed uint64
  | StorageChanged "'w \<Rightarrow> 'w"

definition main_to :: "main_point \<Rightarrow> 'w process \<Rightarrow> ('w happening \<times> 'w process) option" where
  "main_to m s = Some (MainAt m, if running m then s\<lparr>pr_main := m\<rparr> else leave m s)"

text \<open>
  \<open>Shutdown\<close> closes the listener at once, upon which \<open>ListenAndServe\<close> returns \<open>ErrServerClosed\<close>; it
  returns nil when no request is under way and otherwise waits until its context ends.
\<close>

fun process_next ::
  "'w node_recorder option \<Rightarrow> 'w recoverer \<Rightarrow> 'w event \<Rightarrow> 'w process \<Rightarrow> ('w happening \<times> 'w process) option" where
  "process_next ro rv (EvBuilt r) s =
     (if pr_main s = Building
      then (case r of
              Some (msg, e) \<Rightarrow> main_to (Over (Died msg e)) s
            | None \<Rightarrow> main_to Waiting (s\<lparr>pr_serve := Listening\<rparr>))
      else None)"
| "process_next ro rv (EvListenFails e) s =
     (if pr_serve s = Listening then Some (ServingEnded e, s\<lparr>pr_serve := Ended (Some e)\<rparr>) else None)"
| "process_next ro rv EvSignal s =
     (if pr_main s = Waiting
      then main_to Stopping (if pr_serve s = Listening then s\<lparr>pr_serve := Ended None\<rparr> else s)
      else None)"
| "process_next ro rv EvReceive s =
     (case (pr_main s, pr_serve s) of
        (Waiting, Ended (Some e)) \<Rightarrow> main_to (Over (Died ''server stopped unexpectedly'' e)) s
      | (Waiting, Ended None) \<Rightarrow> main_to (Over Returned) s
      | _ \<Rightarrow> None)"
| "process_next ro rv (EvShutdown r) s =
     (if pr_main s = Stopping
      then (case r of
              Some e \<Rightarrow> main_to (Over (Died ''server shutdown failed'' e)) s
            | None \<Rightarrow> (case pr_requests s of [] \<Rightarrow> main_to (Over Stopped) s | x # xs \<Rightarrow> None))
      else None)"
| "process_next ro rv EvKill s = (if running (pr_main s) then main_to Killed s else None)"
| "process_next ro rv EvRestart s =
     (if running (pr_main s) then None else Some (MainAt Building, boot (pr_world s)))"
| "process_next ro rv (EvArrive q) s =
     (if pr_serve s = Listening
      then Some (Arrived q, s\<lparr>pr_requests := pr_requests s @ [(q, AtEnqueue)]\<rparr>) else None)"
| "process_next ro rv (EvRequest i) s =
     (if i < length (pr_requests s)
      then (case pr_requests s ! i of
              (q, AtAnswer res) \<Rightarrow>
                Some (Answered q res, s\<lparr>pr_requests := take i (pr_requests s) @ drop (Suc i) (pr_requests s)\<rparr>)
            | (q, p) \<Rightarrow>
                (case request_step ro q p (pr_world s) of
                   (p', w) \<Rightarrow> Some (Ran q p p', s\<lparr>pr_world := w, pr_requests := (pr_requests s)[i := (q, p')]\<rparr>)))
      else None)"
| "process_next ro rv (EvScan ctx_err) s =
     (case pr_scan s of
        None \<Rightarrow> None
      | Some (ScanEnd st e) \<Rightarrow> None
      | Some p \<Rightarrow>
          (case recover_step rv ctx_err p (pr_world s) of
             (p', w) \<Rightarrow> Some (Scanned p p', s\<lparr>pr_world := w, pr_scan := Some p'\<rparr>)))"
| "process_next ro rv (EvDelete m) s =
     (case table_of ro of
        None \<Rightarrow> None
      | Some nodes \<Rightarrow>
          if pr_serve s = NotServing then None
          else Some (Removed (nm_inode_id m), s\<lparr>pr_world := snd (ns_mark_deleted nodes m (pr_world s))\<rparr>))"
| "process_next ro rv (EvStorage f) s = Some (StorageChanged f, s\<lparr>pr_world := f (pr_world s)\<rparr>)"

text \<open>A run and what was seen of it, the last step last; the executable form takes the events.\<close>

inductive process_run ::
  "'w node_recorder option \<Rightarrow> 'w recoverer \<Rightarrow> 'w process \<Rightarrow> 'w happening list \<Rightarrow> 'w process \<Rightarrow> bool"
  for ro rv s0 where
  run_start: "process_run ro rv s0 [] s0"
| run_step: "process_run ro rv s0 ls s \<Longrightarrow> process_next ro rv ev s = Some (l, s') \<Longrightarrow>
    process_run ro rv s0 (ls @ [l]) s'"

fun play ::
  "'w node_recorder option \<Rightarrow> 'w recoverer \<Rightarrow> 'w event list \<Rightarrow> 'w process \<Rightarrow> ('w happening list \<times> 'w process) option" where
  "play ro rv [] s = Some ([], s)"
| "play ro rv (ev # evs) s =
     (case process_next ro rv ev s of
        None \<Rightarrow> None
      | Some (l, s1) \<Rightarrow> (case play ro rv evs s1 of None \<Rightarrow> None | Some (ls, s2) \<Rightarrow> Some (l # ls, s2)))"

lemma run_append:
  "process_run ro rv s0 ls s \<Longrightarrow> play ro rv evs s = Some (ls', s') \<Longrightarrow> process_run ro rv s0 (ls @ ls') s'"
proof (induction evs arbitrary: ls ls' s)
  case (Cons ev evs)
  then obtain l s1 ls1 where n: "process_next ro rv ev s = Some (l, s1)"
    and p: "play ro rv evs s1 = Some (ls1, s')" and ls': "ls' = l # ls1"
    by (auto split: option.splits)
  from Cons.IH [OF run_step [OF Cons.prems(1) n] p] show ?case by (simp add: ls')
qed simp

text \<open>The requests and the changes of the storage in a run are those of its events.\<close>

lemma played_events:
  "play ro rv evs s = Some (ls, s') \<Longrightarrow>
   (\<forall>q. Arrived q \<in> set ls \<longrightarrow> EvArrive q \<in> set evs) \<and> (\<forall>f. StorageChanged f \<in> set ls \<longrightarrow> EvStorage f \<in> set evs) \<and>
   (\<forall>i. Removed i \<in> set ls \<longrightarrow> (\<exists>m. EvDelete m \<in> set evs))"
proof (induction evs arbitrary: s ls)
  case (Cons ev evs)
  then obtain l s1 ls1 where n: "process_next ro rv ev s = Some (l, s1)"
    and p: "play ro rv evs s1 = Some (ls1, s')" and ls: "ls = l # ls1"
    by (auto split: option.splits)
  have "(\<forall>q. l = Arrived q \<longrightarrow> ev = EvArrive q) \<and> (\<forall>f. l = StorageChanged f \<longrightarrow> ev = EvStorage f) \<and>
      (\<forall>i. l = Removed i \<longrightarrow> (\<exists>m. ev = EvDelete m))"
    using n by (cases ev) (auto simp: main_to_def split: if_splits option.splits prod.splits request_point.splits
        scan_point.splits main_point.splits serve_point.splits list.splits)
  with Cons.IH [OF p] ls show ?case by auto
qed simp

lemma played_run: "play ro rv evs s = Some (ls, s') \<Longrightarrow> process_run ro rv s ls s'"
  using run_append [OF run_start] by fastforce

section \<open>Run alone, the goroutines are the functions\<close>

text \<open>
  The cut into steps changes nothing: a request that nobody interrupts answers and leaves what
  \<open>recorder_run\<close> does after four steps, and a scan that nobody interrupts ends as \<open>recover_loop\<close> does.
\<close>

lemma request_alone:
  "((\<lambda>(p, w). request_step ro q p w) ^^ 4) (AtEnqueue, w) =
   (case recorder_run ro (rq_key q) (rq_op q) (rq_path q) (rq_actor q) (rq_type q) (rq_action q) w of
      (res, w') \<Rightarrow> (AtAnswer res, w'))"
  by (auto simp: recorder_run_def recorder_finalize_def journal_of_def table_of_def Let_def eval_nat_numeral
      split: option.splits prod.splits sum.splits)

definition scan_alone ::
  "'w intent_store_ops \<Rightarrow> 'w node_store_ops option \<Rightarrow>
   (string \<Rightarrow> 'w \<Rightarrow> (go_error, uint64 \<times> bool) result \<times> 'w) \<Rightarrow> int \<Rightarrow> int \<Rightarrow> ('w \<Rightarrow> go_error option) \<Rightarrow>
   scan_point \<times> 'w \<Rightarrow> scan_point \<times> 'w \<Rightarrow> bool" where
  "scan_alone store nodes stat mt n ctx x y \<longleftrightarrow>
     scan_step store nodes stat mt n (ctx (snd y)) (fst x) (snd x) = y"

lemma scan_alone_first:
  assumes "scan_step store nodes stat mt n (ctx w1) p w = (p1, w1)"
    and "(scan_alone store nodes stat mt n ctx)\<^sup>*\<^sup>* (p1, w1) z"
  shows "(scan_alone store nodes stat mt n ctx)\<^sup>*\<^sup>* (p, w) z"
  by (rule converse_rtranclp_into_rtranclp [OF _ assms(2)]) (simp add: scan_alone_def assms(1))

lemma scan_alone_last:
  assumes "(scan_alone store nodes stat mt n ctx)\<^sup>*\<^sup>* x (p, w)"
    and "scan_step store nodes stat mt n (ctx w1) p w = (p1, w1)"
  shows "(scan_alone store nodes stat mt n ctx)\<^sup>*\<^sup>* x (p1, w1)"
  by (rule rtranclp.rtrancl_into_rtrancl [OF assms(1)]) (simp add: scan_alone_def assms(2))

lemma reconcile_steps:
  fixes stat :: "string \<Rightarrow> 'w \<Rightarrow> (go_error, uint64 \<times> bool) result \<times> 'w"
  assumes "reconcile store nodes stat mt (sb_intent b) w = (out, w')"
  shows "\<exists>v w1. (scan_alone store nodes stat mt n ctx)\<^sup>*\<^sup>* (ScanStat b, w) (ScanMark v b, w1) \<and>
    out = outcome_of v \<and> w' = apply_verdict store v (it_id (sb_intent b)) w1"
proof -
  note defs = outcome_of_def apply_verdict_def retry_verdict_def retry_or_abort_def
  have one: "\<exists>v w2. (scan_alone store nodes stat mt n ctx)\<^sup>*\<^sup>* (p, v0) (ScanMark v b, w2) \<and>
      out = outcome_of v \<and> w' = apply_verdict store v (it_id (sb_intent b)) w2"
    if "\<And>c. scan_step store nodes stat mt n c p v0 = (ScanMark v b, w2)" "out = outcome_of v"
      "w' = apply_verdict store v (it_id (sb_intent b)) w2" for p v0 v w2
    using that scan_alone_first [OF that(1) rtranclp.rtrancl_refl] by blast
  obtain r w1 where st: "stat (it_abs_path (sb_intent b)) w = (r, w1)"
    by (cases "stat (it_abs_path (sb_intent b)) w")
  show ?thesis
  proof (cases r)
    case (Inl e)
    let ?v = "retry_verdict mt (sb_intent b) (''stat target: '' @ err_text e)"
    show ?thesis
      by (rule one [of _ _ ?v w1]) (use assms st Inl in \<open>auto simp: reconcile_def defs split: if_splits\<close>)
  next
    case (Inr x)
    obtain ino ex where x: "x = (ino, ex)" by (cases x)
    consider (absent) "\<not> ex" | (unresolved) "ex" "ino = 0" | (bare) "ex" "ino \<noteq> 0" "nodes = None"
      | (row) ns where "ex" "ino \<noteq> 0" "nodes = Some ns" by (cases nodes) blast+
    then show ?thesis
    proof cases
      case absent
      show ?thesis
        by (rule one [of _ _ "SettleAborted ''target path absent on storage''" w1])
          (use assms st Inr x absent in \<open>auto simp: reconcile_def defs\<close>)
    next
      case unresolved
      let ?v = "retry_verdict mt (sb_intent b) ''inode unresolved for existing path''"
      show ?thesis
        by (rule one [of _ _ ?v w1]) (use assms st Inr x unresolved in \<open>auto simp: reconcile_def defs split: if_splits\<close>)
    next
      case bare
      show ?thesis
        by (rule one [of _ _ "SettleDone ino" w1]) (use assms st Inr x bare in \<open>auto simp: reconcile_def defs\<close>)
    next
      case row
      let ?m = "\<lparr>nm_inode_id = ino, nm_actor = it_actor (sb_intent b), nm_node_type = it_node_type (sb_intent b)\<rparr>"
      obtain u w2 where u: "ns_upsert ns ?m w1 = (u, w2)" by (cases "ns_upsert ns ?m w1")
      have s1: "scan_step store nodes stat mt n (ctx w1) (ScanStat b) w = (ScanUpsert ino b, w1)"
        using st Inr x row by simp
      have "\<exists>v w3. (scan_alone store nodes stat mt n ctx)\<^sup>*\<^sup>* (ScanUpsert ino b, w1) (ScanMark v b, w3) \<and>
          out = outcome_of v \<and> w' = apply_verdict store v (it_id (sb_intent b)) w3"
      proof (cases u)
        case None
        show ?thesis
          by (rule one [of _ _ "SettleDone ino" w2]) (use assms st Inr x row u None in \<open>auto simp: reconcile_def defs\<close>)
      next
        case (Some e)
        let ?v = "retry_verdict mt (sb_intent b) (''upsert node: '' @ err_text e)"
        show ?thesis
          by (rule one [of _ _ ?v w2])
            (use assms st Inr x row u Some in \<open>auto simp: reconcile_def defs split: if_splits\<close>)
      qed
      with scan_alone_first [where ctx = ctx, OF s1] show ?thesis by blast
    qed
  qed
qed

lemma intent_steps:
  assumes "reconcile store nodes stat mt (sb_intent b) w = (out, w1)"
  shows "(scan_alone store nodes stat mt n ctx)\<^sup>*\<^sup>* (ScanStat b, w) (scan_next n (ctx w1) out b, w1)"
proof -
  from reconcile_steps [OF assms, of n ctx] obtain v w2 where
    v: "(scan_alone store nodes stat mt n ctx)\<^sup>*\<^sup>* (ScanStat b, w) (ScanMark v b, w2)"
      "out = outcome_of v" "w1 = apply_verdict store v (it_id (sb_intent b)) w2" by blast
  from v(1) show ?thesis by (rule scan_alone_last) (simp add: v(2,3))
qed

lemma batch_steps:
  assumes "recover_batch (reconcile store nodes stat mt) ctx (i # is) st pr w = (e, st', pr', w')"
  shows "(scan_alone store nodes stat mt n ctx)\<^sup>*\<^sup>*
    (ScanStat \<lparr>sb_intent = i, sb_rest = is, sb_size = m, sb_stats = st, sb_progressed = pr\<rparr>, w)
    (case e of Some x \<Rightarrow> ScanEnd st' (Some x)
     | None \<Rightarrow> if \<not> pr' \<or> m < n then ScanEnd st' None else ScanList st', w')"
  using assms
proof (induction "is" arbitrary: i st pr w)
  case Nil
  obtain out w1 where r: "reconcile store nodes stat mt i w = (out, w1)"
    by (cases "reconcile store nodes stat mt i w")
  let ?b = "\<lparr>sb_intent = i, sb_rest = [], sb_size = m, sb_stats = st, sb_progressed = pr\<rparr>"
  from r have first: "(scan_alone store nodes stat mt n ctx)\<^sup>*\<^sup>* (ScanStat ?b, w) (scan_next n (ctx w1) out ?b, w1)"
    by (intro intent_steps) simp
  show ?case
  proof (cases "ctx w1")
    case None
    with Nil r first show ?thesis by (simp add: scan_next_def Let_def)
  next
    case (Some x)
    with Nil r have "e = Some x" "st' = count_outcome out st" "w' = w1" by (auto simp: Let_def)
    with Some first show ?thesis by (simp add: scan_next_def Let_def)
  qed
next
  case (Cons j js)
  obtain out w1 where r: "reconcile store nodes stat mt i w = (out, w1)"
    by (cases "reconcile store nodes stat mt i w")
  let ?b = "\<lparr>sb_intent = i, sb_rest = j # js, sb_size = m, sb_stats = st, sb_progressed = pr\<rparr>"
  from r have first: "(scan_alone store nodes stat mt n ctx)\<^sup>*\<^sup>* (ScanStat ?b, w) (scan_next n (ctx w1) out ?b, w1)"
    by (intro intent_steps) simp
  show ?case
  proof (cases "ctx w1")
    case (Some x)
    with Cons.prems r have "e = Some x" "st' = count_outcome out st" "w' = w1" by (auto simp: Let_def)
    with Some first show ?thesis by (simp add: scan_next_def Let_def)
  next
    case None
    have "recover_batch (reconcile store nodes stat mt) ctx (j # js) (count_outcome out st)
        (pr \<or> out \<noteq> OutcomeRetried) w1 = (e, st', pr', w')"
      using Cons.prems r None by (simp add: Let_def)
    note rest = Cons.IH [OF this]
    from first have "(scan_alone store nodes stat mt n ctx)\<^sup>*\<^sup>* (ScanStat ?b, w)
        (ScanStat \<lparr>sb_intent = j, sb_rest = js, sb_size = m, sb_stats = count_outcome out st,
           sb_progressed = (pr \<or> out \<noteq> OutcomeRetried)\<rparr>, w1)"
      using None by (simp add: scan_next_def Let_def)
    from rtranclp_trans [OF this rest] show ?thesis .
  qed
qed

lemma scan_is_recover_loop:
  assumes "recover_loop store (reconcile store nodes stat mt) n ctx st w = Some (st', e, w')"
  shows "(scan_alone store nodes stat mt n ctx)\<^sup>*\<^sup>* (ScanList st, w) (ScanEnd st' e, w')"
proof -
  define P where "P s stp m c t v o' \<longleftrightarrow>
      (s = store \<and> stp = reconcile store nodes stat mt \<and> m = n \<and> c = ctx \<longrightarrow>
       (scan_alone store nodes stat mt n ctx)\<^sup>*\<^sup>* (ScanList t, v) (ScanEnd (fst o') (fst (snd o')), snd (snd o')))"
    for s stp m c t v and o' :: "recovery_stats \<times> go_error option \<times> 'a"
  have "P store (reconcile store nodes stat mt) n ctx st w (st', e, w')"
  proof (rule recover_loop.raw_induct [of P, OF _ assms])
    fix rec s stp m c t v o'
    assume ih: "\<And>s stp m c t v o'. rec s stp m c t v = Some o' \<Longrightarrow> P s stp m c t v o'"
      and body: "(case is_list_pending s m v of
          (Inl e, w1) \<Rightarrow> Some (t, Some e, w1)
        | (Inr pending, w1) \<Rightarrow>
            if pending = [] then Some (t, None, w1)
            else case recover_batch stp c pending t False w1 of
                 (None, st1, progressed, w2) \<Rightarrow>
                   if \<not> progressed \<or> int (length pending) < m then Some (st1, None, w2)
                   else rec s stp m c st1 w2
               | (Some e, st1, progressed, w2) \<Rightarrow> Some (st1, Some e, w2)) = Some o'"
    show "P s stp m c t v o'"
      unfolding P_def
    proof
      assume eqs: "s = store \<and> stp = reconcile store nodes stat mt \<and> m = n \<and> c = ctx"
      obtain r w1 where l: "is_list_pending store n v = (r, w1)" by (cases "is_list_pending store n v")
      show "(scan_alone store nodes stat mt n ctx)\<^sup>*\<^sup>* (ScanList t, v) (ScanEnd (fst o') (fst (snd o')), snd (snd o'))"
      proof (cases r)
        case (Inl x)
        with body eqs l show ?thesis
          by (intro scan_alone_last [OF rtranclp.rtrancl_refl]) auto
      next
        case (Inr pending)
        show ?thesis
        proof (cases pending)
          case Nil
          with body eqs l Inr show ?thesis by (intro scan_alone_last [OF rtranclp.rtrancl_refl]) auto
        next
          case (Cons i "is")
          obtain x st1 pr1 w2 where b: "recover_batch (reconcile store nodes stat mt) ctx (i # is) t False w1 = (x, st1, pr1, w2)"
            by (cases "recover_batch (reconcile store nodes stat mt) ctx (i # is) t False w1")
          note run = scan_alone_first [where ctx = ctx, OF _ batch_steps [OF b, of n "int (length (i # is))"]]
          have run: "(scan_alone store nodes stat mt n ctx)\<^sup>*\<^sup>* (ScanList t, v)
              (case x of Some y \<Rightarrow> ScanEnd st1 (Some y)
               | None \<Rightarrow> if \<not> pr1 \<or> int (length (i # is)) < n then ScanEnd st1 None else ScanList st1, w2)"
            by (rule run) (simp add: l Inr Cons)
          show ?thesis
          proof (cases "x = None \<and> pr1 \<and> \<not> int (length (i # is)) < n")
            case False
            with body eqs l Inr Cons b run show ?thesis by (cases x) (auto split: if_splits)
          next
            case True
            with body eqs l Inr Cons b have "rec store (reconcile store nodes stat mt) n ctx st1 w2 = Some o'" by simp
            from ih [OF this] have "(scan_alone store nodes stat mt n ctx)\<^sup>*\<^sup>* (ScanList st1, w2)
                (ScanEnd (fst o') (fst (snd o')), snd (snd o'))" by (simp add: P_def)
            with run True show ?thesis by (simp add: rtranclp_trans)
          qed
        qed
      qed
    qed
  qed
  then show ?thesis by (simp add: P_def)
qed

section \<open>How a process ends\<close>

text \<open>
  \<open>errCh\<close> holds nil only after \<open>Shutdown\<close> was called, so main never returns from its \<open>select\<close> without
  an error; and a process that stops after a signal has answered every request that arrived, unless
  an earlier life of it was killed or died.
\<close>

definition ending :: "'w process \<Rightarrow> bool" where
  "ending s \<longleftrightarrow> (pr_serve s = Ended None \<longrightarrow> pr_main s = Stopping) \<and> (\<not> running (pr_main s) \<longrightarrow> pr_requests s = [])"

lemma goroutine_steps:
  assumes "process_next ro rv ev s = Some (l, s')" "(\<exists>i. ev = EvRequest i) \<or> (\<exists>c. ev = EvScan c)"
  shows "pr_main s' = pr_main s \<and> pr_serve s' = pr_serve s \<and> (\<forall>m. l \<noteq> MainAt m) \<and>
    (pr_requests s = [] \<longrightarrow> pr_requests s' = [])"
  using assms(2)
proof
  assume "\<exists>i. ev = EvRequest i"
  then obtain i where "ev = EvRequest i" ..
  with assms(1) show ?thesis by (auto split: if_splits prod.splits request_point.splits)
next
  assume "\<exists>c. ev = EvScan c"
  then obtain c where "ev = EvScan c" ..
  with assms(1) show ?thesis by (auto split: option.splits prod.splits scan_point.splits)
qed

lemma ending_step:
  assumes "process_next ro rv ev s = Some (l, s')" "ending s" "pr_serve s \<noteq> NotServing \<longrightarrow> running (pr_main s)"
  shows "ending s' \<and> l \<noteq> MainAt (Over Returned) \<and> (pr_serve s' \<noteq> NotServing \<longrightarrow> running (pr_main s'))"
proof (cases "(\<exists>i. ev = EvRequest i) \<or> (\<exists>c. ev = EvScan c)")
  case True
  from goroutine_steps [OF assms(1) this] assms(2,3) show ?thesis by (auto simp: ending_def)
next
  case False
  with assms show ?thesis
    by (cases ev) (auto simp: ending_def main_to_def leave_def boot_def split: if_splits option.splits main_point.splits
        serve_point.splits list.splits)
qed

lemma never_returns:
  "process_run ro rv (boot w) ls s \<Longrightarrow>
   ending s \<and> MainAt (Over Returned) \<notin> set ls \<and> (pr_serve s \<noteq> NotServing \<longrightarrow> running (pr_main s))"
proof (induction rule: process_run.induct)
  case (run_step ls s ev l s')
  with ending_step [OF run_step.hyps(2)] show ?case by auto
qed (simp add: ending_def boot_def)

definition cut_short :: "'w happening list \<Rightarrow> bool" where
  "cut_short ls \<longleftrightarrow> MainAt Killed \<in> set ls \<or> (\<exists>msg e. MainAt (Over (Died msg e)) \<in> set ls)"

definition served :: "'w happening list \<Rightarrow> 'w process \<Rightarrow> bool" where
  "served ls s \<longleftrightarrow> (\<forall>q. Arrived q \<in> set ls \<longrightarrow>
     q \<in> fst ` set (pr_requests s) \<or> (\<exists>res. Answered q res \<in> set ls) \<or> cut_short ls)"

lemma removed_request:
  assumes "i < length xs" "xs ! i = (q, p)"
  shows "fst ` set xs \<subseteq> insert q (fst ` set (take i xs @ drop (Suc i) xs))"
proof -
  have "set xs = set (take i xs @ xs ! i # drop (Suc i) xs)" using id_take_nth_drop [OF assms(1)] by simp
  with assms(2) show ?thesis by auto
qed

lemma other_requests:
  assumes "process_next ro rv ev s = Some (l, s')" "\<And>i. ev \<noteq> EvRequest i" "ending s"
  shows "(\<forall>q. l = Arrived q \<longrightarrow> (q, AtEnqueue) \<in> set (pr_requests s')) \<and>
    (set (pr_requests s) \<subseteq> set (pr_requests s') \<or> cut_short [l] \<or> pr_requests s = [])"
proof (cases "\<exists>c. ev = EvScan c")
  case True
  then obtain c where "ev = EvScan c" ..
  with assms(1) show ?thesis by (auto split: option.splits prod.splits scan_point.splits)
next
  case False
  with assms show ?thesis
    by (cases ev) (auto simp: ending_def main_to_def leave_def boot_def cut_short_def split: if_splits option.splits
        main_point.splits serve_point.splits list.splits)
qed

lemma served_step:
  assumes "process_next ro rv ev s = Some (l, s')" "served ls s" "ending s"
  shows "served (ls @ [l]) s'"
proof -
  have kept: "served (ls @ [l]) s'" if now: "\<And>q. l = Arrived q \<Longrightarrow> q \<in> fst ` set (pr_requests s')"
    and before: "fst ` set (pr_requests s) \<subseteq> fst ` set (pr_requests s') \<union> {q. \<exists>res. l = Answered q res} \<or> cut_short [l]"
    unfolding served_def
  proof (intro allI impI)
    fix q assume "Arrived q \<in> set (ls @ [l])"
    then consider "l = Arrived q" | "q \<in> fst ` set (pr_requests s)" | "\<exists>res. Answered q res \<in> set ls" | "cut_short ls"
      using assms(2) by (auto simp: served_def)
    then show "q \<in> fst ` set (pr_requests s') \<or> (\<exists>res. Answered q res \<in> set (ls @ [l])) \<or> cut_short (ls @ [l])"
    proof cases
      case 1
      then show ?thesis using now by blast
    next
      case 2
      with before consider "q \<in> fst ` set (pr_requests s')" | res where "l = Answered q res" | "cut_short [l]" by blast
      then show ?thesis by cases (auto simp: cut_short_def)
    next
      case 3
      then show ?thesis by auto
    next
      case 4
      then show ?thesis by (auto simp: cut_short_def)
    qed
  qed
  show ?thesis
  proof (cases "\<exists>i. ev = EvRequest i")
    case True
    then obtain i where ev: "ev = EvRequest i" by blast
    obtain q p where qp: "pr_requests s ! i = (q, p)" by (cases "pr_requests s ! i")
    from ev assms(1) have i: "i < length (pr_requests s)" by (auto split: if_splits)
    show ?thesis
    proof (cases "\<exists>res. p = AtAnswer res")
      case True
      then obtain res where "p = AtAnswer res" by blast
      with ev assms(1) qp i have l: "l = Answered q res"
        "pr_requests s' = take i (pr_requests s) @ drop (Suc i) (pr_requests s)" by auto
      show ?thesis by (rule kept) (use removed_request [OF i qp] l in auto)
    next
      case False
      with ev assms(1) qp i obtain p' where l: "l = Ran q p p'" "pr_requests s' = (pr_requests s)[i := (q, p')]"
        by (auto split: prod.splits request_point.splits)
      have "map fst (pr_requests s') = map fst (pr_requests s)" using i qp l(2) by (simp add: map_update list_update_same_conv)
      then have "fst ` set (pr_requests s') = fst ` set (pr_requests s)" by (metis list.set_map)
      then show ?thesis by (intro kept) (use l in auto)
    qed
  next
    case False
    note o = other_requests [OF assms(1) _ assms(3)]
    have "\<forall>q. l = Arrived q \<longrightarrow> (q, AtEnqueue) \<in> set (pr_requests s')"
      "set (pr_requests s) \<subseteq> set (pr_requests s') \<or> cut_short [l] \<or> pr_requests s = []"
      using o False by blast+
    then show ?thesis by (intro kept) force+
  qed
qed

lemma run_served: "process_run ro rv (boot w) ls s \<Longrightarrow> served ls s"
proof (induction rule: process_run.induct)
  case (run_step ls s ev l s')
  from served_step [OF run_step.hyps(2) run_step.IH] never_returns [OF run_step.hyps(1)] show ?case by blast
qed (simp add: served_def)

lemma stopped_answered:
  assumes "process_run ro rv (boot w) ls s" "pr_main s = Over Stopped" "\<not> cut_short ls" "Arrived q \<in> set ls"
  shows "\<exists>res. Answered q res \<in> set ls"
proof -
  have "pr_requests s = []" using never_returns [OF assms(1)] assms(2) by (simp add: ending_def)
  with run_served [OF assms(1)] assms(3,4) show ?thesis by (simp add: served_def)
qed

end
