(* ===== verification/ServingGuarantees.thy ===== *)
theory ServingGuarantees
  imports Serving
begin

text \<open>
  What the journal guarantees while requests and the recovery scan run beside each other, over any
  number of crashes and restarts: an invariant of every run of the process of theory Serving. It is
  proved for any stores that meet the contracts of theory Recovery and then read off for the
  in-memory stores.
\<close>

section \<open>What was seen\<close>

text \<open>The action of the journalled request \<open>k\<close> succeeded; the scan or a request settled \<open>k\<close>.\<close>

definition landed :: "'w happening list \<Rightarrow> string \<Rightarrow> file_info \<Rightarrow> bool" where
  "landed ls k info \<longleftrightarrow> (\<exists>q. Ran q (AtAction k) (AtUpsert k info) \<in> set ls)"

definition scan_settled :: "'w happening list \<Rightarrow> string \<Rightarrow> bool" where
  "scan_settled ls k \<longleftrightarrow>
     (\<exists>v b p. Scanned (ScanMark v b) p \<in> set ls \<and> it_id (sb_intent b) = k \<and> outcome_of v \<noteq> OutcomeRetried)"

definition settled_with :: "'w happening list \<Rightarrow> string \<Rightarrow> uint64 \<Rightarrow> bool" where
  "settled_with ls k ino \<longleftrightarrow>
     (\<exists>q info p. Ran q (AtDone k info) p \<in> set ls \<and> fi_inode_id info = ino) \<or>
     (\<exists>b p. Scanned (ScanMark (SettleDone ino) b) p \<in> set ls \<and> it_id (sb_intent b) = k)"

fun keys_of :: "'w happening \<Rightarrow> string list" where
  "keys_of (Arrived q) = [rq_key q]"
| "keys_of l = []"

definition arrived_keys :: "'w happening list \<Rightarrow> string list" where
  "arrived_keys ls = concat (map keys_of ls)"

text \<open>\<open>NewIntentID\<close> draws identifiers that were never drawn before.\<close>

definition fresh_keys :: "(string \<Rightarrow> intent option) \<Rightarrow> 'w happening list \<Rightarrow> bool" where
  "fresh_keys J ls \<longleftrightarrow> distinct (arrived_keys ls) \<and> (\<forall>k \<in> set (arrived_keys ls). k \<noteq> [] \<and> J k = None)"

definition row_kept :: "(uint64 \<Rightarrow> node_record option) \<Rightarrow> 'w happening list \<Rightarrow> uint64 \<Rightarrow> bool" where
  "row_kept R ls i \<longleftrightarrow> R i \<noteq> None \<or> Removed i \<in> set ls"

definition pending_in :: "(string \<Rightarrow> intent option) \<Rightarrow> string \<Rightarrow> bool" where
  "pending_in J k \<longleftrightarrow> (\<exists>j. J k = Some j \<and> it_status j = IntentPending)"

text \<open>
  What the journal promises after the happenings \<open>ls\<close>, from a journal \<open>J0\<close> and a node table \<open>R0\<close>
  to \<open>J\<close> and \<open>R\<close>: rows are lost only by deletion; entries keep their target and are not reopened;
  a done entry was settled with an inode whose row was written; a write that landed has its row, a
  pending entry, or an entry a scan has settled.
\<close>

definition journal_kept ::
  "(string \<Rightarrow> intent option) \<Rightarrow> (uint64 \<Rightarrow> node_record option) \<Rightarrow> 'w happening list \<Rightarrow>
   (string \<Rightarrow> intent option) \<Rightarrow> (uint64 \<Rightarrow> node_record option) \<Rightarrow> bool" where
  "journal_kept J0 R0 ls J R \<longleftrightarrow>
     (\<forall>i. R0 i \<noteq> None \<longrightarrow> R i \<noteq> None \<or> Removed i \<in> set ls) \<and>
     (\<forall>k j. J0 k = Some j \<longrightarrow> (\<exists>j'. J k = Some j' \<and> same_target j j' \<and>
        (it_status j \<noteq> IntentPending \<longrightarrow> it_status j' \<noteq> IntentPending))) \<and>
     (\<forall>k j. J k = Some j \<and> it_status j = IntentDone \<longrightarrow>
        (\<exists>j0. J0 k = Some j0 \<and> it_status j0 = IntentDone) \<or>
        (\<exists>ino. settled_with ls k ino \<and> (R ino \<noteq> None \<or> Removed ino \<in> set ls))) \<and>
     (\<forall>k info. k \<noteq> [] \<and> landed ls k info \<longrightarrow>
        fi_inode_id info \<noteq> 0 \<and> (R (fi_inode_id info) \<noteq> None \<or> Removed (fi_inode_id info) \<in> set ls) \<or>
        (\<exists>j. J k = Some j \<and> it_status j = IntentPending) \<or>
        scan_settled ls k)"

lemma arrived_keys_snoc [simp]: "arrived_keys (ls @ [l]) = arrived_keys ls @ keys_of l"
  by (simp add: arrived_keys_def)

lemma fresh_keys_snoc: "fresh_keys J (ls @ [l]) \<Longrightarrow> fresh_keys J ls"
  by (auto simp: fresh_keys_def)

lemma seen_snoc:
  "landed ls k info \<Longrightarrow> landed (ls @ [l]) k info"
  "scan_settled ls k \<Longrightarrow> scan_settled (ls @ [l]) k"
  "settled_with ls k ino \<Longrightarrow> settled_with (ls @ [l]) k ino"
  "row_kept R ls i \<Longrightarrow> row_kept R (ls @ [l]) i"
  unfolding landed_def scan_settled_def settled_with_def row_kept_def set_append Un_iff by blast+

lemma landed_snoc:
  "landed (ls @ [l]) k info \<longleftrightarrow> landed ls k info \<or> (\<exists>q. l = Ran q (AtAction k) (AtUpsert k info))"
  by (auto simp: landed_def)

lemma settled_with_snoc:
  "settled_with (ls @ [l]) k ino \<longleftrightarrow> settled_with ls k ino \<or>
     (\<exists>q info p. l = Ran q (AtDone k info) p \<and> fi_inode_id info = ino) \<or>
     (\<exists>b p. l = Scanned (ScanMark (SettleDone ino) b) p \<and> it_id (sb_intent b) = k)"
  unfolding settled_with_def set_append Un_iff list.set insert_iff empty_iff by blast

section \<open>What a step does to the stores\<close>

text \<open>The four kinds of steps: an enqueue, a mark, a deletion of a row, and all others.\<close>

datatype effect = Enqueues string string | Marks "intent_status set" string | Deletes uint64 | Quiet

definition mark_set :: "verdict \<Rightarrow> intent_status set" where
  "mark_set v = (case v of SettleDone ino \<Rightarrow> {IntentDone} | SettleAborted s \<Rightarrow> {IntentAborted} | CountAttempt s \<Rightarrow> {})"

fun effect_of :: "'w happening \<Rightarrow> effect" where
  "effect_of (Ran q AtEnqueue (AtAction k)) = Enqueues (rq_key q) k"
| "effect_of (Ran q (AtAbort k e) p) = Marks {IntentAborted} k"
| "effect_of (Ran q (AtDone k info) p) = (if k = [] then Quiet else Marks {IntentDone} k)"
| "effect_of (Scanned (ScanMark v b) p) = Marks (mark_set v) (it_id (sb_intent b))"
| "effect_of (Removed i) = Deletes i"
| "effect_of l = Quiet"

context recovery
begin

definition changed :: "effect \<Rightarrow> 'w \<Rightarrow> 'w \<Rightarrow> bool" where
  "changed e w w' \<longleftrightarrow> good w' \<and>
     (case e of
        Enqueues k k' \<Rightarrow> rows w' = rows w \<and> intents w k = None \<and>
          (k' = [] \<and> intents w' = intents w \<or>
           k' = k \<and> (\<exists>j. intents w' = (intents w)(k \<mapsto> j) \<and> it_status j = IntentPending \<and> known_node_type (it_node_type j)))
      | Marks S k \<Rightarrow> rows w' = rows w \<and> touched S k (intents w) (intents w')
      | Deletes i \<Rightarrow> intents w' = intents w \<and> (\<forall>x. x \<noteq> i \<longrightarrow> rows w' x = rows w x)
      | Quiet \<Rightarrow> intents w' = intents w \<and> (\<forall>x. rows w x \<noteq> None \<longrightarrow> rows w' x \<noteq> None))"

definition untouched :: "'w \<Rightarrow> 'w \<Rightarrow> bool" where
  "untouched v v' \<longleftrightarrow> intents v' = intents v \<and> rows v' = rows v \<and> (good v \<longrightarrow> good v')"

text \<open>
  The requests the service starts: their node type is one of the table, and their actions and the
  changes others make to the storage leave the journal and the node table alone.
\<close>

definition proper :: "'w request \<Rightarrow> bool" where
  "proper q \<longleftrightarrow> known_node_type (rq_type q) \<and> key_ok (rq_key q) \<and> (\<forall>v r v'. rq_action q v = (r, v') \<longrightarrow> untouched v v')"

definition allowed :: "'w happening \<Rightarrow> bool" where
  "allowed l \<longleftrightarrow> (\<forall>q. l = Arrived q \<longrightarrow> proper q) \<and> (\<forall>f. l = StorageChanged f \<longrightarrow> (\<forall>v. untouched v (f v)))"

abbreviation scanner :: "int \<Rightarrow> int \<Rightarrow> 'w recoverer" where
  "scanner mt n \<equiv> \<lparr>rv_intents = Some iops, rv_nodes = Some nops, rv_inspector = Some stat_inode,
                   rv_batch_size = n, rv_max_tries = mt\<rparr>"

text \<open>The steps of a request.\<close>

lemma request_step_changes:
  assumes "good w" "proper q" "p = AtEnqueue \<Longrightarrow> intents w (rq_key q) = None \<and> rq_key q \<noteq> []"
    and run: "request_step (Some recorder) q p w = (p', w')" and "\<And>res. p \<noteq> AtAnswer res"
    and key: "\<And>k e. p = AtAbort k e \<Longrightarrow> k = rq_key q" "\<And>k info. p = AtDone k info \<Longrightarrow> k = [] \<or> k = rq_key q"
  shows "changed (effect_of (Ran q p p')) w w'"
proof (cases p)
  case AtEnqueue
  with run obtain k where e: "recorder_enqueue recorder (rq_key q) (rq_op q) (rq_path q) (rq_actor q) (rq_type q) w = (k, w')"
    "p' = AtAction k" by (auto split: prod.splits)
  from assms(3) AtEnqueue enqueue_cases [OF assms(1) _ _ _ e(1)] assms(2) show ?thesis
    by (auto simp: AtEnqueue e(2) changed_def proper_def)
next
  case (AtAction k)
  obtain r w1 where a: "rq_action q w = (r, w1)" by (cases "rq_action q w")
  with assms(2) have "untouched w w1" by (auto simp: proper_def)
  with AtAction a run assms(1) show ?thesis
    by (cases r) (auto simp: changed_def untouched_def)
next
  case (AtAbort k e)
  obtain r w1 where m: "is_mark_aborted iops k (err_text e) w = (r, w1)"
    by (cases "is_mark_aborted iops k (err_text e) w")
  have "key_ok k" using key(1) [OF AtAbort] assms(2) by (simp add: proper_def)
  with m AtAbort run assms(1) I.touched_aborted [OF assms(1) _ m] show ?thesis
    by (auto simp: changed_def journal_of_def intro: I.good_ops(3) dest: intent_ops_rows(3))
next
  case (AtUpsert k info)
  let ?m = "\<lparr>nm_inode_id = fi_inode_id info, nm_actor = to_node_actor (rq_actor q), nm_node_type = rq_type q\<rparr>"
  obtain u w1 where u: "ns_upsert nops ?m w = (u, w1)" by (cases "ns_upsert nops ?m w")
  have "known_node_type (nm_node_type ?m)" using assms(2) by (simp add: proper_def)
  note keep = N.upsert_keeps_dom [OF u this]
  have "good w1" "intents w1 = intents w" using u assms(1) by (auto intro: node_ops_good node_ops_intents)
  with keep AtUpsert run u assms(1) show ?thesis
    by (auto simp: changed_def table_of_def split: if_splits option.splits)
next
  case (AtDone k info)
  obtain r w1 where m: "is_mark_done iops k w = (r, w1)" by (cases "is_mark_done iops k w")
  have "k \<noteq> [] \<Longrightarrow> key_ok k" using key(2) [OF AtDone] assms(2) by (auto simp: proper_def)
  with m AtDone run assms(1) I.touched_done [OF assms(1) _ m] show ?thesis
    by (auto simp: changed_def journal_of_def intro: I.good_ops(2) dest: intent_ops_rows(2))
qed (use assms(5) in blast)

text \<open>The steps of the scan; the intents it has in hand are entries of the journal.\<close>

definition listed :: "intent \<Rightarrow> bool" where
  "listed i \<longleftrightarrow> known_node_type (it_node_type i) \<and> key_ok (it_id i)"

fun in_hand :: "scan_point \<Rightarrow> intent set" where
  "in_hand (ScanList st) = {}"
| "in_hand (ScanStat b) = set (sb_intent b # sb_rest b)"
| "in_hand (ScanUpsert ino b) = set (sb_intent b # sb_rest b)"
| "in_hand (ScanMark v b) = set (sb_intent b # sb_rest b)"
| "in_hand (ScanEnd st e) = {}"

lemma scan_step_changes:
  assumes "good w" "typed w" "\<forall>i \<in> in_hand p. listed i" "0 < n"
    and run: "recover_step (scanner mt n) c p w = (p', w')" and "\<And>st e. p \<noteq> ScanEnd st e"
  shows "changed (effect_of (Scanned p p')) w w'"
    "\<forall>i \<in> in_hand p'. listed i"
proof -
  have run': "scan_step iops (Some nops) stat_inode mt n c p w = (p', w')"
    using run by (simp add: recover_step_def)
  have "changed (effect_of (Scanned p p')) w w' \<and> (\<forall>i \<in> in_hand p'. listed i)"
  proof (cases p)
    case (ScanList st)
    obtain r w1 where l: "is_list_pending iops n w = (r, w1)" by (cases "is_list_pending iops n w")
    have same: "good w1" "intents w1 = intents w" "rows w1 = rows w"
      using l assms(1) by (auto intro: I.good_ops(5) I.list_intents intent_ops_rows(5))
    have known: "listed i" if "r = Inr is" "i \<in> set is" for i "is"
      using I.list_ok [OF assms(1,4) l [unfolded that(1)]] that(2) assms(2) I.intents_key [OF assms(1)]
      unfolding typed_def listed_def by blast
    from ScanList run' l same show ?thesis
      by (auto simp: changed_def known split: sum.splits list.splits)
  next
    case (ScanStat b)
    obtain r w1 where s: "stat_inode (it_abs_path (sb_intent b)) w = (r, w1)"
      by (cases "stat_inode (it_abs_path (sb_intent b)) w")
    from ScanStat run' s stat_inode_frame [OF s] assms(1,3) show ?thesis
      by (auto simp: changed_def split: sum.splits if_splits)
  next
    case (ScanUpsert ino b)
    let ?m = "\<lparr>nm_inode_id = ino, nm_actor = it_actor (sb_intent b), nm_node_type = it_node_type (sb_intent b)\<rparr>"
    obtain u w1 where u: "ns_upsert nops ?m w = (u, w1)" by (cases "ns_upsert nops ?m w")
    have "known_node_type (nm_node_type ?m)" using assms(3) ScanUpsert by (simp add: listed_def)
    note keep = N.upsert_keeps_dom [OF u this]
    have "good w1" "intents w1 = intents w" using u assms(1) by (auto intro: node_ops_good node_ops_intents)
    with keep ScanUpsert run' u assms(3) show ?thesis
      by (auto simp: changed_def split: option.splits)
  next
    case (ScanMark v b)
    let ?k = "it_id (sb_intent b)"
    have w': "w' = apply_verdict iops v ?k w" using ScanMark run' by simp
    have k: "key_ok ?k" using assms(3) ScanMark by (simp add: listed_def)
    have "good w' \<and> rows w' = rows w \<and> touched (mark_set v) ?k (intents w) (intents w')"
    proof (cases v)
      case (SettleDone ino)
      obtain r w1 where m: "is_mark_done iops ?k w = (r, w1)" by (cases "is_mark_done iops ?k w")
      with SettleDone w' I.touched_done [OF assms(1) k m] I.good_ops(2) [OF assms(1) m] intent_ops_rows(2) [OF m]
      show ?thesis by (simp add: apply_verdict_def mark_set_def)
    next
      case (SettleAborted s)
      obtain r w1 where m: "is_mark_aborted iops ?k s w = (r, w1)" by (cases "is_mark_aborted iops ?k s w")
      with SettleAborted w' I.touched_aborted [OF assms(1) k m] I.good_ops(3) [OF assms(1) m] intent_ops_rows(3) [OF m]
      show ?thesis by (simp add: apply_verdict_def mark_set_def)
    next
      case (CountAttempt s)
      obtain r w1 where m: "is_increment_attempt iops ?k s w = (r, w1)" by (cases "is_increment_attempt iops ?k s w")
      with CountAttempt w' I.touched_increment [OF assms(1) k m] I.good_ops(4) [OF assms(1) m] intent_ops_rows(4) [OF m]
      show ?thesis by (simp add: apply_verdict_def mark_set_def)
    qed
    moreover have "in_hand p' \<subseteq> in_hand p"
      using ScanMark run' by (auto simp: scan_next_def Let_def split: option.splits list.splits if_splits)
    ultimately show ?thesis using ScanMark assms(3) by (auto simp: changed_def)
  qed (use assms(6) in blast)
  then show "changed (effect_of (Scanned p p')) w w'" "\<forall>i \<in> in_hand p'. listed i"
    by blast+
qed

section \<open>The invariant\<close>

text \<open>
  The stores after the steps \<open>ls\<close>: no intent disappears or is reopened, no row is lost that was not
  deleted, a done intent was settled with an inode whose row was written, and a write that landed has
  a pending intent, or its row, or was settled by a scan.
\<close>

definition world_inv :: "'w \<Rightarrow> 'w happening list \<Rightarrow> 'w \<Rightarrow> bool" where
  "world_inv w0 ls w \<longleftrightarrow> good w \<and> typed w \<and>
     (\<forall>k. intents w k \<noteq> None \<longrightarrow> intents w0 k \<noteq> None \<or> k \<in> set (arrived_keys ls)) \<and>
     (\<forall>k j. intents w0 k = Some j \<longrightarrow> (\<exists>j'. intents w k = Some j' \<and> same_target j j' \<and>
        (it_status j \<noteq> IntentPending \<longrightarrow> it_status j' \<noteq> IntentPending))) \<and>
     (\<forall>i. rows w0 i \<noteq> None \<longrightarrow> row_kept (rows w) ls i) \<and>
     (\<forall>k ino. settled_with ls k ino \<longrightarrow> row_kept (rows w) ls ino) \<and>
     (\<forall>k j. intents w k = Some j \<and> it_status j = IntentDone \<longrightarrow>
        (\<exists>j0. intents w0 k = Some j0 \<and> it_status j0 = IntentDone) \<or> (\<exists>ino. settled_with ls k ino)) \<and>
     (\<forall>k info. k \<noteq> [] \<and> landed ls k info \<longrightarrow> pending_in (intents w) k \<or> scan_settled ls k \<or>
        fi_inode_id info \<noteq> 0 \<and> row_kept (rows w) ls (fi_inode_id info))"

text \<open>What holds at each program point of a request, and of the scan.\<close>

fun point_ok :: "'w \<Rightarrow> 'w happening list \<Rightarrow> 'w request \<Rightarrow> request_point \<Rightarrow> bool" where
  "point_ok w ls q AtEnqueue = (intents w (rq_key q) = None \<and> (\<forall>info. \<not> landed ls (rq_key q) info))"
| "point_ok w ls q (AtAction k) = (k = [] \<or> k = rq_key q \<and>
     (pending_in (intents w) k \<or> scan_settled ls k) \<and> (\<forall>info. \<not> landed ls k info))"
| "point_ok w ls q (AtAbort k e) = (k = rq_key q \<and> (\<forall>info. \<not> landed ls k info))"
| "point_ok w ls q (AtUpsert k info) = (k = [] \<or> k = rq_key q \<and> (\<forall>info'. landed ls k info' \<longrightarrow> info' = info))"
| "point_ok w ls q (AtDone k info) = ((k = [] \<or> k = rq_key q \<and> (\<forall>info'. landed ls k info' \<longrightarrow> info' = info)) \<and>
     fi_inode_id info \<noteq> 0 \<and> row_kept (rows w) ls (fi_inode_id info))"
| "point_ok w ls q (AtAnswer res) = True"

definition scan_ok :: "'w \<Rightarrow> 'w happening list \<Rightarrow> scan_point \<Rightarrow> bool" where
  "scan_ok w ls p \<longleftrightarrow> (\<forall>i \<in> in_hand p. listed i) \<and>
     (\<forall>ino b. p = ScanMark (SettleDone ino) b \<longrightarrow> row_kept (rows w) ls ino)"

fun guard :: "'w \<Rightarrow> 'w happening list \<Rightarrow> 'w happening \<Rightarrow> bool" where
  "guard w ls (Ran q p p') = (rq_key q \<noteq> [] \<and> rq_key q \<in> set (arrived_keys ls) \<and> point_ok w ls q p)"
| "guard w ls (Scanned p p') = scan_ok w ls p"
| "guard w ls l = True"

section \<open>The stores keep the invariant\<close>

lemma effect_deletes [simp]: "effect_of l = Deletes i \<longleftrightarrow> l = Removed i"
  by (cases l rule: effect_of.cases) auto

lemma row_kept_step:
  assumes "changed (effect_of l) w w'" "row_kept (rows w) ls i"
  shows "row_kept (rows w') (ls @ [l]) i"
proof (cases "l = Removed i")
  case False
  then have "effect_of l \<noteq> Deletes i" by simp
  with assms show ?thesis
    by (cases "effect_of l") (auto simp: changed_def row_kept_def)
qed (simp add: row_kept_def)

lemma intent_step:
  assumes "changed e w w'" "intents w k = Some j"
  shows "\<exists>j'. intents w' k = Some j' \<and> same_target j j' \<and>
    (it_status j' = it_status j \<or> (\<exists>S. e = Marks S k \<and> it_status j' \<in> S))"
proof (cases e)
  case (Marks S k')
  with assms(1) have t: "touched S k' (intents w) (intents w')" by (simp add: changed_def)
  show ?thesis
  proof (cases "k' = k")
    case True
    with touched_at [OF t assms(2)] Marks show ?thesis by blast
  next
    case False
    with touched_other [OF t] assms(2) show ?thesis by simp
  qed
qed (use assms in \<open>auto simp: changed_def\<close>)

lemma intent_back:
  assumes "changed e w w'" "intents w' k = Some j'"
  shows "(\<exists>j. intents w k = Some j) \<or> e = Enqueues k k \<and> it_status j' = IntentPending \<and> known_node_type (it_node_type j')"
proof (cases e)
  case (Marks S k')
  with assms(1) have "touched S k' (intents w) (intents w')" by (simp add: changed_def)
  from touched_dom [OF this] assms(2) show ?thesis by auto
next
  case (Enqueues k1 k2)
  with assms show ?thesis by (cases "k1 = k") (auto simp: changed_def)
qed (use assms in \<open>auto simp: changed_def\<close>)

lemma typed_step:
  assumes "changed e w w'" "typed w"
  shows "typed w'"
  unfolding typed_def
proof (intro allI impI)
  fix k j' assume j': "intents w' k = Some j'"
  from intent_back [OF assms(1) j'] show "known_node_type (it_node_type j')"
  proof
    assume "\<exists>j. intents w k = Some j"
    then obtain j where "intents w k = Some j" ..
    with intent_step [OF assms(1) this] j' assms(2) show ?thesis by (auto simp: same_target_def typed_def)
  qed blast
qed

lemma marks_done: "effect_of l = Marks S k \<Longrightarrow> IntentDone \<in> S \<Longrightarrow> \<exists>ino. settled_with (ls @ [l]) k ino"
  by (cases l rule: effect_of.cases)
    (auto simp: settled_with_snoc mark_set_def split: verdict.splits if_splits)

lemma marks_not_pending: "effect_of l = Marks S k \<Longrightarrow> IntentPending \<notin> S"
  by (cases l rule: effect_of.cases) (auto simp: mark_set_def split: verdict.splits if_splits)

lemma enqueues_arrived: "guard w ls l \<Longrightarrow> effect_of l = Enqueues k k' \<Longrightarrow> k \<noteq> [] \<and> k \<in> set (arrived_keys ls)"
  by (cases l rule: effect_of.cases) (auto split: if_splits)

lemma scan_marked:
  assumes "x \<in> mark_set v"
  shows "scan_settled (ls @ [Scanned (ScanMark v b) p]) (it_id (sb_intent b))"
proof -
  have "Scanned (ScanMark v b) p \<in> set (ls @ [Scanned (ScanMark v b) p])" by simp
  moreover have "outcome_of v \<noteq> OutcomeRetried"
    using assms by (simp add: mark_set_def outcome_of_def split: verdict.splits)
  ultimately show ?thesis unfolding scan_settled_def by blast
qed

text \<open>A pending intent stays so, or the scan settles it, or its request aborts it or is done with it.\<close>

lemma pending_step:
  assumes "changed (effect_of l) w w'" "pending_in (intents w) k"
  shows "pending_in (intents w') k \<or> scan_settled (ls @ [l]) k \<or>
    (\<exists>q e p. l = Ran q (AtAbort k e) p) \<or> (\<exists>q info p. l = Ran q (AtDone k info) p)"
proof -
  from assms(2) obtain j where j: "intents w k = Some j" "it_status j = IntentPending" by (auto simp: pending_in_def)
  from intent_step [OF assms(1) j(1)] obtain j' where j': "intents w' k = Some j'"
    "it_status j' = IntentPending \<or> (\<exists>S. effect_of l = Marks S k \<and> it_status j' \<in> S)" using j(2) by auto
  show ?thesis
  proof (cases "it_status j' = IntentPending")
    case False
    with j'(2) obtain S where S: "effect_of l = Marks S k" "S \<noteq> {}" by blast
    then show ?thesis
      by (cases l rule: effect_of.cases) (auto split: if_splits dest: scan_marked)
  qed (use j' in \<open>auto simp: pending_in_def\<close>)
qed

lemma world_inv_start:
  assumes "good w" "typed w"
  shows "world_inv w [] w"
  using assms by (auto simp: world_inv_def arrived_keys_def row_kept_def landed_def settled_with_def)

text \<open>Each conjunct of the invariant, kept by a step whose goroutine was where it should be.\<close>

lemma settled_step:
  assumes "changed (effect_of l) w w'" "guard w ls l"
    and "\<forall>k ino. settled_with ls k ino \<longrightarrow> row_kept (rows w) ls ino" "settled_with (ls @ [l]) k ino"
  shows "row_kept (rows w') (ls @ [l]) ino"
proof -
  have "row_kept (rows w) ls ino"
    using assms(2-4) unfolding settled_with_snoc by (auto simp: scan_ok_def)
  with assms(1) show ?thesis by (rule row_kept_step)
qed

lemma landed_step:
  assumes "changed (effect_of l) w w'" "guard w ls l" "k \<noteq> []" "landed (ls @ [l]) k info"
    and inv: "\<forall>k info. k \<noteq> [] \<and> landed ls k info \<longrightarrow> pending_in (intents w) k \<or> scan_settled ls k \<or>
        fi_inode_id info \<noteq> 0 \<and> row_kept (rows w) ls (fi_inode_id info)"
  shows "pending_in (intents w') k \<or> scan_settled (ls @ [l]) k \<or>
    fi_inode_id info \<noteq> 0 \<and> row_kept (rows w') (ls @ [l]) (fi_inode_id info)"
proof -
  note row = row_kept_step [OF assms(1)]
  have new: "landed ls k info \<or> (\<exists>q. l = Ran q (AtAction k) (AtUpsert k info))"
    using assms(4) by (simp add: landed_snoc)
  then have "pending_in (intents w) k \<or> scan_settled ls k \<or>
      fi_inode_id info \<noteq> 0 \<and> row_kept (rows w) ls (fi_inode_id info)"
    using assms(2,3) inv by auto
  then consider (pending) "pending_in (intents w) k" | (scan) "scan_settled ls k"
    | (row) "fi_inode_id info \<noteq> 0" "row_kept (rows w) ls (fi_inode_id info)" by blast
  then show ?thesis
  proof cases
    case pending
    from pending_step [OF assms(1) this, of ls] new assms(2,3) row show ?thesis by auto
  qed (use row seen_snoc(2) in blast)+
qed

lemma world_inv_step:
  assumes inv: "world_inv w0 ls w" and step: "changed (effect_of l) w w'" and g: "guard w ls l"
  shows "world_inv w0 (ls @ [l]) w'"
proof -
  note i = inv [unfolded world_inv_def]
  have "good w'" using step by (simp add: changed_def)
  moreover have "typed w'" using typed_step [OF step] i by blast
  moreover have "intents w0 k \<noteq> None \<or> k \<in> set (arrived_keys (ls @ [l]))" if k: "intents w' k \<noteq> None" for k
  proof -
    from k obtain j' where "intents w' k = Some j'" by blast
    from intent_back [OF step this] i enqueues_arrived [OF g] show ?thesis by auto
  qed
  moreover have "\<exists>j'. intents w' k = Some j' \<and> same_target j j' \<and>
      (it_status j \<noteq> IntentPending \<longrightarrow> it_status j' \<noteq> IntentPending)" if j: "intents w0 k = Some j" for k j
  proof -
    from i j obtain j1 where j1: "intents w k = Some j1" "same_target j j1"
      "it_status j \<noteq> IntentPending \<longrightarrow> it_status j1 \<noteq> IntentPending" by blast
    from intent_step [OF step j1(1)] obtain j2 where j2: "intents w' k = Some j2" "same_target j1 j2"
      "it_status j2 = it_status j1 \<or> (\<exists>S. effect_of l = Marks S k \<and> it_status j2 \<in> S)" by blast
    then have "it_status j1 \<noteq> IntentPending \<longrightarrow> it_status j2 \<noteq> IntentPending"
      using marks_not_pending by metis
    with j1 j2 same_target_trans show ?thesis by blast
  qed
  moreover have "row_kept (rows w') (ls @ [l]) x" if "rows w0 x \<noteq> None" for x
    using that i row_kept_step [OF step] by blast
  moreover have "row_kept (rows w') (ls @ [l]) ino" if "settled_with (ls @ [l]) k ino" for k ino
    using settled_step [OF step g _ that] i by blast
  moreover have "(\<exists>j0. intents w0 k = Some j0 \<and> it_status j0 = IntentDone) \<or> (\<exists>ino. settled_with (ls @ [l]) k ino)"
    if j': "intents w' k = Some j'" "it_status j' = IntentDone" for k j'
  proof -
    from intent_back [OF step j'(1)] j'(2) obtain j where j: "intents w k = Some j" by auto
    from intent_step [OF step j] j' consider "it_status j = IntentDone"
      | S where "effect_of l = Marks S k" "IntentDone \<in> S" by auto
    then show ?thesis
    proof cases
      case 1
      with j i have "(\<exists>j0. intents w0 k = Some j0 \<and> it_status j0 = IntentDone) \<or> (\<exists>ino. settled_with ls k ino)" by blast
      then show ?thesis using seen_snoc(3) by blast
    next
      case 2
      with marks_done show ?thesis by blast
    qed
  qed
  moreover have "pending_in (intents w') k \<or> scan_settled (ls @ [l]) k \<or>
      fi_inode_id info \<noteq> 0 \<and> row_kept (rows w') (ls @ [l]) (fi_inode_id info)"
    if "k \<noteq> []" "landed (ls @ [l]) k info" for k info
    using landed_step [OF step g that] i by blast
  ultimately show ?thesis unfolding world_inv_def by blast
qed

section \<open>The goroutines keep the invariant\<close>

text \<open>A step of another goroutine leaves a request where it should be.\<close>

lemma not_landed_step:
  assumes "guard w ls l" "\<And>q' p p'. l = Ran q' p p' \<Longrightarrow> rq_key q' \<noteq> k" "k \<noteq> []" "\<not> landed ls k info"
  shows "\<not> landed (ls @ [l]) k info"
proof
  assume "landed (ls @ [l]) k info"
  with assms(4) obtain q' where l: "l = Ran q' (AtAction k) (AtUpsert k info)" by (auto simp: landed_snoc)
  with assms(1-3) show False by auto
qed

lemma point_ok_other:
  assumes step: "changed (effect_of l) w w'" and g: "guard w ls l"
    and other: "\<And>q' p p'. l = Ran q' p p' \<Longrightarrow> rq_key q' \<noteq> rq_key q"
    and k: "rq_key q \<noteq> []" and ok: "point_ok w ls q p"
  shows "point_ok w' (ls @ [l]) q p"
proof -
  have quiet: "\<not> landed (ls @ [l]) (rq_key q) info" if "\<not> landed ls (rq_key q) info" for info
    by (rule not_landed_step [OF g _ k that]) (rule other)
  note row = row_kept_step [OF step]
  have pend: "pending_in (intents w') (rq_key q) \<or> scan_settled (ls @ [l]) (rq_key q)"
    if "pending_in (intents w) (rq_key q) \<or> scan_settled ls (rq_key q)"
    using that
  proof
    assume "pending_in (intents w) (rq_key q)"
    from pending_step [OF step this, of ls] g other k show ?thesis by auto
  qed (blast intro: seen_snoc(2))
  have none: "intents w' (rq_key q) = None" if n: "intents w (rq_key q) = None"
  proof (rule ccontr)
    assume "intents w' (rq_key q) \<noteq> None"
    then obtain j' where "intents w' (rq_key q) = Some j'" by blast
    from intent_back [OF step this] n have e: "effect_of l = Enqueues (rq_key q) (rq_key q)" by simp
    then show False using other by (cases l rule: effect_of.cases) (auto split: if_splits)
  qed
  have same: "\<forall>info'. landed (ls @ [l]) (rq_key q) info' \<longrightarrow> info' = info"
    if "\<forall>info'. landed ls (rq_key q) info' \<longrightarrow> info' = info" for info
    using that quiet by blast
  show ?thesis
    using ok
  proof (cases p)
    case AtEnqueue
    with ok none quiet show ?thesis by simp
  next
    case (AtAction x)
    with ok pend quiet show ?thesis by auto
  next
    case (AtAbort x e)
    with ok quiet show ?thesis by auto
  next
    case (AtUpsert x info)
    with ok same show ?thesis by auto
  next
    case (AtDone x info)
    with ok same row show ?thesis by auto
  qed simp
qed

text \<open>Its own step brings it to the next point.\<close>

lemma point_ok_own:
  assumes step: "changed (effect_of (Ran q p p')) w w'" and run: "request_step (Some recorder) q p w = (p', w')"
    and k: "rq_key q \<noteq> []" and type: "proper q" and ok: "point_ok w ls q p"
  shows "point_ok w' (ls @ [Ran q p p']) q p'"
proof (cases p)
  case AtEnqueue
  with run obtain x where x: "p' = AtAction x" by (auto split: prod.splits)
  with step AtEnqueue ok k show ?thesis by (auto simp: changed_def pending_in_def landed_snoc)
next
  case (AtAction x)
  obtain r w1 where a: "rq_action q w = (r, w1)" by (cases "rq_action q w")
  with type have "intents w1 = intents w" by (auto simp: proper_def untouched_def)
  with AtAction a run ok show ?thesis by (cases r) (auto simp: landed_snoc)
next
  case (AtAbort x e)
  with run show ?thesis by auto
next
  case (AtUpsert x info)
  let ?m = "\<lparr>nm_inode_id = fi_inode_id info, nm_actor = to_node_actor (rq_actor q), nm_node_type = rq_type q\<rparr>"
  obtain u w1 where u: "ns_upsert nops ?m w = (u, w1)" by (cases "ns_upsert nops ?m w")
  have t: "known_node_type (nm_node_type ?m)" using type by (simp add: proper_def)
  show ?thesis
  proof (cases "fi_inode_id info \<noteq> 0 \<and> u = None")
    case True
    with u N.upsert_ok [of ?m w w1] t have "rows w1 (fi_inode_id info) \<noteq> None" by simp
    moreover have "p' = AtDone x info" "w' = w1" using AtUpsert run u True by (auto simp: table_of_def)
    ultimately show ?thesis using True AtUpsert ok by (auto simp: landed_snoc row_kept_def)
  next
    case False
    with AtUpsert run u show ?thesis by (auto simp: table_of_def split: if_splits option.splits)
  qed
next
  case (AtDone x info)
  with run show ?thesis by auto
next
  case (AtAnswer res)
  with run show ?thesis by auto
qed

lemma scan_ok_other: "changed (effect_of l) w w' \<Longrightarrow> scan_ok w ls p \<Longrightarrow> scan_ok w' (ls @ [l]) p"
  using row_kept_step by (auto simp: scan_ok_def)

lemma scan_ok_own:
  assumes "good w" "typed w" "scan_ok w ls p" "0 < n" "\<And>st e. p \<noteq> ScanEnd st e"
    and run: "recover_step (scanner mt n) c p w = (p', w')"
  shows "scan_ok w' (ls @ [Scanned p p']) p'"
proof -
  have hand: "\<forall>i \<in> in_hand p. listed i" using assms(3) by (simp add: scan_ok_def)
  note changes = scan_step_changes [OF assms(1,2) hand assms(4) run assms(5)]
  have run': "scan_step iops (Some nops) stat_inode mt n c p w = (p', w')"
    using run by (simp add: recover_step_def)
  have "row_kept (rows w') (ls @ [Scanned p p']) ino" if p': "p' = ScanMark (SettleDone ino) b" for ino b
  proof (cases p)
    case (ScanUpsert ino' b')
    let ?m = "\<lparr>nm_inode_id = ino', nm_actor = it_actor (sb_intent b'), nm_node_type = it_node_type (sb_intent b')\<rparr>"
    obtain u w1 where u: "ns_upsert nops ?m w = (u, w1)" by (cases "ns_upsert nops ?m w")
    have t: "known_node_type (nm_node_type ?m)" using hand ScanUpsert by (simp add: listed_def)
    from ScanUpsert run' p' u have "u = None" "w' = w1" "ino' = ino"
      by (auto simp: retry_verdict_def split: option.splits if_splits)
    with N.upsert_ok [of ?m w w1] u t show ?thesis by (simp add: row_kept_def)
  next
    case (ScanStat b')
    with run' p' show ?thesis by (auto simp: retry_verdict_def split: prod.splits sum.splits if_splits)
  next
    case (ScanMark v b')
    with run' p' show ?thesis by (auto simp: scan_next_def Let_def split: option.splits list.splits if_splits)
  qed (use run' p' assms(5) in \<open>auto split: prod.splits sum.splits list.splits\<close>)
  with changes(2) show ?thesis by (simp add: scan_ok_def)
qed

section \<open>The process keeps the invariant\<close>

definition request_ok :: "'w \<Rightarrow> 'w happening list \<Rightarrow> 'w request \<times> request_point \<Rightarrow> bool" where
  "request_ok w ls x \<longleftrightarrow> proper (fst x) \<and> rq_key (fst x) \<noteq> [] \<and> rq_key (fst x) \<in> set (arrived_keys ls) \<and>
     point_ok w ls (fst x) (snd x)"

definition process_inv :: "'w \<Rightarrow> 'w happening list \<Rightarrow> 'w process \<Rightarrow> bool" where
  "process_inv w0 ls s \<longleftrightarrow> world_inv w0 ls (pr_world s) \<and>
     distinct (map (rq_key \<circ> fst) (pr_requests s)) \<and>
     (\<forall>x \<in> set (pr_requests s). request_ok (pr_world s) ls x) \<and>
     (\<forall>p. pr_scan s = Some p \<longrightarrow> scan_ok (pr_world s) ls p) \<and>
     (\<forall>k info. k \<noteq> [] \<and> landed ls k info \<longrightarrow> k \<in> set (arrived_keys ls))"

lemma process_invD:
  assumes "process_inv w0 ls s"
  shows "world_inv w0 ls (pr_world s)" "distinct (map (rq_key \<circ> fst) (pr_requests s))"
    "x \<in> set (pr_requests s) \<Longrightarrow> request_ok (pr_world s) ls x"
    "pr_scan s = Some p \<Longrightarrow> scan_ok (pr_world s) ls p"
    "k \<noteq> [] \<Longrightarrow> landed ls k info \<Longrightarrow> k \<in> set (arrived_keys ls)"
  using assms unfolding process_inv_def by blast+

lemma process_invI:
  assumes inv: "process_inv w0 ls s" and g: "guard (pr_world s) ls l"
    and step: "changed (effect_of l) (pr_world s) (pr_world s')"
    and "distinct (map (rq_key \<circ> fst) (pr_requests s'))"
    and "\<And>x. x \<in> set (pr_requests s') \<Longrightarrow> request_ok (pr_world s') (ls @ [l]) x"
    and "\<And>p. pr_scan s' = Some p \<Longrightarrow> scan_ok (pr_world s') (ls @ [l]) p"
  shows "process_inv w0 (ls @ [l]) s'"
proof -
  have "k \<in> set (arrived_keys (ls @ [l]))" if k: "k \<noteq> []" and "landed (ls @ [l]) k info" for k info
  proof -
    from that(2) consider "landed ls k info" | q where "l = Ran q (AtAction k) (AtUpsert k info)"
      by (auto simp: landed_snoc)
    then show ?thesis
    proof cases
      case 1
      with k inv have "k \<in> set (arrived_keys ls)" unfolding process_inv_def by blast
      then show ?thesis by simp
    next
      case 2
      with g k show ?thesis by auto
    qed
  qed
  moreover have "world_inv w0 (ls @ [l]) (pr_world s')"
    by (rule world_inv_step [OF _ step g]) (use inv in \<open>simp add: process_inv_def\<close>)
  ultimately show ?thesis using assms(4-6) unfolding process_inv_def by blast
qed

lemma requests_others:
  assumes "changed (effect_of l) w w'" "guard w ls l" "request_ok w ls x"
    and "\<And>q' p p'. l = Ran q' p p' \<Longrightarrow> rq_key q' \<noteq> rq_key (fst x)"
  shows "request_ok w' (ls @ [l]) x"
  using assms(3) point_ok_other [OF assms(1,2,4)] by (simp add: request_ok_def)

text \<open>Steps that touch no store and end requests or goroutines at most.\<close>

lemma inv_world: "process_inv w0 ls s \<Longrightarrow> good (pr_world s) \<and> typed (pr_world s)"
  by (simp add: process_inv_def world_inv_def)

lemma changed_self: "good w \<Longrightarrow> changed Quiet w w"
  by (simp add: changed_def)

lemma inv_lifecycle:
  assumes inv: "process_inv w0 ls s" and l: "effect_of l = Quiet" "\<And>q p p'. l \<noteq> Ran q p p'" "\<And>p p'. l \<noteq> Scanned p p'"
    and "pr_world s' = pr_world s" "distinct (map (rq_key \<circ> fst) (pr_requests s'))"
    and "set (pr_requests s') \<subseteq> set (pr_requests s)"
    and "pr_scan s' = pr_scan s \<or> pr_scan s' = None \<or> pr_scan s' = Some (ScanList zero_stats)"
  shows "process_inv w0 (ls @ [l]) s'"
proof -
  have g: "guard (pr_world s) ls l" using l(2,3) by (cases l) auto
  have c: "changed (effect_of l) (pr_world s) (pr_world s')"
    using inv_world [OF inv] changed_self l(1) assms(5) by simp
  show ?thesis
  proof (rule process_invI [OF inv g c assms(6)])
    fix x assume "x \<in> set (pr_requests s')"
    with assms(7) have "request_ok (pr_world s) ls x" by (intro process_invD(3) [OF inv]) blast
    from requests_others [OF c g this] l(2) show "request_ok (pr_world s') (ls @ [l]) x" by blast
  next
    fix p assume "pr_scan s' = Some p"
    with assms(8) have "pr_scan s = Some p \<or> p = ScanList zero_stats" by auto
    with process_invD(4) [OF inv] have "scan_ok (pr_world s) ls p" by (auto simp: scan_ok_def)
    with c show "scan_ok (pr_world s') (ls @ [l]) p" by (rule scan_ok_other)
  qed
qed

text \<open>Steps of the world around the journal.\<close>

lemma inv_world_step:
  assumes inv: "process_inv w0 ls s" and c: "changed (effect_of l) (pr_world s) w'"
    and l: "\<And>q p p'. l \<noteq> Ran q p p'" "\<And>p p'. l \<noteq> Scanned p p'"
  shows "process_inv w0 (ls @ [l]) (s\<lparr>pr_world := w'\<rparr>)"
proof -
  have g: "guard (pr_world s) ls l" using l by (cases l) auto
  note i = process_invD [OF inv]
  show ?thesis
  proof (rule process_invI [OF inv g])
    fix x assume "x \<in> set (pr_requests (s\<lparr>pr_world := w'\<rparr>))"
    then have "x \<in> set (pr_requests s)" by simp
    then have "request_ok (pr_world s) ls x" by (rule i(3))
    from requests_others [OF c g this] l(1) show "request_ok (pr_world (s\<lparr>pr_world := w'\<rparr>)) (ls @ [l]) x" by simp
  next
    fix p assume "pr_scan (s\<lparr>pr_world := w'\<rparr>) = Some p"
    then have "scan_ok (pr_world s) ls p" by (intro i(4)) simp
    with c show "scan_ok (pr_world (s\<lparr>pr_world := w'\<rparr>)) (ls @ [l]) p" by (simp add: scan_ok_other)
  qed (use c i(2) in simp_all)
qed

lemma inv_arrive:
  assumes inv: "process_inv w0 ls s" and "proper q" and fresh: "fresh_keys (intents w0) (ls @ [Arrived q])"
  shows "process_inv w0 (ls @ [Arrived q]) (s\<lparr>pr_requests := pr_requests s @ [(q, AtEnqueue)]\<rparr>)"
    (is "process_inv w0 ?ls ?s")
proof -
  note i = process_invD [OF inv]
  have key: "rq_key q \<noteq> []" "rq_key q \<notin> set (arrived_keys ls)" "intents w0 (rq_key q) = None"
    using fresh by (auto simp: fresh_keys_def)
  have none: "intents (pr_world s) (rq_key q) = None" using i(1) key(2,3) unfolding world_inv_def by blast
  have "\<not> landed ls (rq_key q) info" for info using i(5) key(1,2) by blast
  then have land: "\<not> landed ?ls (rq_key q) info" for info by (simp add: landed_snoc)
  have c: "changed (effect_of (Arrived q)) (pr_world s) (pr_world ?s)"
    using inv_world [OF inv] changed_self by simp
  show ?thesis
  proof (rule process_invI [OF inv _ c])
    show "guard (pr_world s) ls (Arrived q)" by simp
    have "rq_key q \<noteq> rq_key (fst x)" if "x \<in> set (pr_requests s)" for x
    proof -
      from that have "request_ok (pr_world s) ls x" by (rule i(3))
      with key(2) show ?thesis by (auto simp: request_ok_def)
    qed
    with i(2) show "distinct (map (rq_key \<circ> fst) (pr_requests ?s))" by force
  next
    fix x assume "x \<in> set (pr_requests ?s)"
    then consider "x \<in> set (pr_requests s)" | "x = (q, AtEnqueue)" by auto
    then show "request_ok (pr_world ?s) ?ls x"
    proof cases
      case 1
      then have "request_ok (pr_world s) ls x" by (rule i(3))
      from requests_others [OF c _ this] show ?thesis by simp
    next
      case 2
      with key none land assms(2) show ?thesis by (simp add: request_ok_def)
    qed
  next
    fix p assume "pr_scan ?s = Some p"
    then have "scan_ok (pr_world s) ls p" by (intro i(4)) simp
    with c show "scan_ok (pr_world ?s) ?ls p" by (rule scan_ok_other)
  qed
qed

text \<open>A step of a request and a step of the scan.\<close>

lemma inv_request:
  assumes inv: "process_inv w0 ls s" and i: "i < length (pr_requests s)" "pr_requests s ! i = (q, p)"
    and p: "\<And>res. p \<noteq> AtAnswer res" and run: "request_step (Some recorder) q p (pr_world s) = (p', w')"
  shows "process_inv w0 (ls @ [Ran q p p']) (s\<lparr>pr_world := w', pr_requests := (pr_requests s)[i := (q, p')]\<rparr>)"
    (is "process_inv w0 ?ls ?s")
proof -
  note d = process_invD [OF inv]
  have "(q, p) \<in> set (pr_requests s)" using i nth_mem by metis
  from d(3) [OF this] have q: "proper q" "rq_key q \<noteq> []" "rq_key q \<in> set (arrived_keys ls)"
    "point_ok (pr_world s) ls q p" by (simp_all add: request_ok_def)
  have "good (pr_world s)" using inv_world [OF inv] by blast
  moreover have "p = AtEnqueue \<Longrightarrow> intents (pr_world s) (rq_key q) = None \<and> rq_key q \<noteq> []" using q by auto
  moreover have "p = AtAbort k e \<Longrightarrow> k = rq_key q" "p = AtDone k info \<Longrightarrow> k = [] \<or> k = rq_key q" for k e info
    using q(4) by auto
  ultimately have c: "changed (effect_of (Ran q p p')) (pr_world s) w'"
    by (intro request_step_changes [OF _ q(1) _ run p])
  have g: "guard (pr_world s) ls (Ran q p p')" using q by simp
  have c': "changed (effect_of (Ran q p p')) (pr_world s) (pr_world ?s)" using c by simp
  have keys: "map (rq_key \<circ> fst) (pr_requests ?s) = map (rq_key \<circ> fst) (pr_requests s)"
    using i by (simp add: map_update list_update_same_conv)
  show ?thesis
  proof (rule process_invI [OF inv g c'])
    show "distinct (map (rq_key \<circ> fst) (pr_requests ?s))" using d(2) keys by simp
  next
    fix x assume "x \<in> set (pr_requests ?s)"
    then obtain j where j: "j < length (pr_requests s)" "x = (pr_requests s)[i := (q, p')] ! j"
      by (auto simp: in_set_conv_nth)
    show "request_ok (pr_world ?s) ?ls x"
    proof (cases "j = i")
      case True
      with i j have "x = (q, p')" by simp
      with q point_ok_own [OF c run q(2,1,4)] show ?thesis by (simp add: request_ok_def)
    next
      case False
      with j have x: "x = pr_requests s ! j" by simp
      with j(1) have "x \<in> set (pr_requests s)" by simp
      then have "request_ok (pr_world s) ls x" by (rule d(3))
      moreover have "rq_key q \<noteq> rq_key (fst x)"
        using nth_eq_iff_index_eq [OF d(2), of i j] i j(1) x False by simp
      ultimately show ?thesis by (intro requests_others [OF c' g]) auto
    qed
  next
    fix p1 assume "pr_scan ?s = Some p1"
    then have "scan_ok (pr_world s) ls p1" by (intro d(4)) simp
    with c' show "scan_ok (pr_world ?s) ?ls p1" by (rule scan_ok_other)
  qed
qed

lemma inv_scan:
  assumes inv: "process_inv w0 ls s" and p: "pr_scan s = Some p" "\<And>st e. p \<noteq> ScanEnd st e" and "0 < n"
    and run: "recover_step (scanner mt n) x p (pr_world s) = (p', w')"
  shows "process_inv w0 (ls @ [Scanned p p']) (s\<lparr>pr_world := w', pr_scan := Some p'\<rparr>)"
    (is "process_inv w0 ?ls ?s")
proof -
  note d = process_invD [OF inv]
  have ok: "scan_ok (pr_world s) ls p" using p(1) by (rule d(4))
  have gt: "good (pr_world s)" "typed (pr_world s)" using inv_world [OF inv] by blast+
  have c: "changed (effect_of (Scanned p p')) (pr_world s) (pr_world ?s)"
    using scan_step_changes(1) [OF gt _ assms(4) run p(2)] ok by (simp add: scan_ok_def)
  have g: "guard (pr_world s) ls (Scanned p p')" using ok by simp
  show ?thesis
  proof (rule process_invI [OF inv g c])
    fix r assume "r \<in> set (pr_requests ?s)"
    then have "request_ok (pr_world s) ls r" by (intro d(3)) simp
    then show "request_ok (pr_world ?s) ?ls r" by (intro requests_others [OF c g]) auto
  next
    fix p1 assume "pr_scan ?s = Some p1"
    then have "p1 = p'" by simp
    with scan_ok_own [OF gt ok assms(4) p(2) run] show "scan_ok (pr_world ?s) ?ls p1" by simp
  qed (use d(2) in simp)
qed

lemma distinct_without:
  assumes "distinct (map f xs)"
  shows "distinct (map f (take i xs @ drop (Suc i) xs))"
proof (cases "i < length xs")
  case True
  then have "xs = take i xs @ xs ! i # drop (Suc i) xs" by (rule id_take_nth_drop)
  with assms have "distinct (map f (take i xs @ xs ! i # drop (Suc i) xs))" by simp
  then show ?thesis by auto
qed (use assms in simp)

lemma inv_step:
  assumes inv: "process_inv w0 ls s" and n: "0 < n"
    and next_s: "process_next (Some recorder) (scanner mt n) ev s = Some (l, s')"
    and l: "allowed l" "fresh_keys (intents w0) (ls @ [l])"
  shows "process_inv w0 (ls @ [l]) s'"
proof -
  note life = inv_lifecycle [OF inv]
  note dist = process_invD(2) [OF inv]
  show ?thesis
  proof (cases ev)
    case (EvRequest i)
    obtain q p where qp: "pr_requests s ! i = (q, p)" by (cases "pr_requests s ! i")
    from EvRequest next_s have i: "i < length (pr_requests s)" by (auto split: if_splits)
    show ?thesis
    proof (cases "\<exists>res. p = AtAnswer res")
      case True
      then obtain res where p: "p = AtAnswer res" by blast
      let ?rs = "take i (pr_requests s) @ drop (Suc i) (pr_requests s)"
      have l': "l = Answered q res" "s' = s\<lparr>pr_requests := ?rs\<rparr>" using EvRequest next_s qp i p by auto
      have "set ?rs \<subseteq> set (pr_requests s)" by (auto dest: in_set_takeD in_set_dropD)
      moreover have "distinct (map (rq_key \<circ> fst) ?rs)" using dist by (rule distinct_without)
      ultimately show ?thesis unfolding l' by (intro life) simp_all
    next
      case False
      obtain p' w' where run: "request_step (Some recorder) q p (pr_world s) = (p', w')"
        by (cases "request_step (Some recorder) q p (pr_world s)")
      with EvRequest next_s qp i False have l': "l = Ran q p p'"
        "s' = s\<lparr>pr_world := w', pr_requests := (pr_requests s)[i := (q, p')]\<rparr>"
        by (auto split: request_point.splits)
      show ?thesis unfolding l' by (rule inv_request [OF inv i qp _ run]) (use False in blast)
    qed
  next
    case (EvScan x)
    then obtain p where p: "pr_scan s = Some p" "\<And>st e. p \<noteq> ScanEnd st e"
      using next_s by (auto split: option.splits scan_point.splits)
    obtain p' w' where run: "recover_step (scanner mt n) x p (pr_world s) = (p', w')"
      by (cases "recover_step (scanner mt n) x p (pr_world s)")
    with EvScan next_s p have l': "l = Scanned p p'" "s' = s\<lparr>pr_world := w', pr_scan := Some p'\<rparr>"
      by (auto split: scan_point.splits)
    show ?thesis unfolding l' by (rule inv_scan [OF inv p n run])
  next
    case (EvArrive q)
    with next_s have l': "l = Arrived q" "s' = s\<lparr>pr_requests := pr_requests s @ [(q, AtEnqueue)]\<rparr>"
      by (auto split: if_splits)
    from l(1) l'(1) have "proper q" by (simp add: allowed_def)
    from inv_arrive [OF inv this] l(2) show ?thesis unfolding l' by simp
  next
    case (EvDelete m)
    obtain r w' where m: "ns_mark_deleted nops m (pr_world s) = (r, w')" by (cases "ns_mark_deleted nops m (pr_world s)")
    have "rows w' x = rows (pr_world s) x" if "x \<noteq> nm_inode_id m" for x
      using that m N.mark_deleted_ok [of m "pr_world s" w'] N.mark_deleted_err [of m "pr_world s" _ w'] by (cases r) auto
    then have c: "changed (Deletes (nm_inode_id m)) (pr_world s) w'"
      using m inv_world [OF inv] by (auto simp: changed_def intro: node_ops_good node_ops_intents)
    from EvDelete next_s m have "l = Removed (nm_inode_id m)" "s' = s\<lparr>pr_world := w'\<rparr>"
      by (auto simp: table_of_def split: if_splits)
    with inv_world_step [OF inv, of l w'] c show ?thesis by simp
  next
    case (EvStorage f)
    with next_s have l': "l = StorageChanged f" "s' = s\<lparr>pr_world := f (pr_world s)\<rparr>" by auto
    with l(1) have "untouched (pr_world s) (f (pr_world s))" by (simp add: allowed_def)
    then have "changed (effect_of l) (pr_world s) (f (pr_world s))"
      using inv_world [OF inv] l' by (simp add: changed_def untouched_def)
    with inv_world_step [OF inv, of l] l' show ?thesis by simp
  qed (use next_s dist in \<open>auto simp: main_to_def leave_def boot_def intro!: life split: if_splits option.splits
      list.splits main_point.splits serve_point.splits\<close>)
qed

lemma run_inv:
  assumes "process_run (Some recorder) (scanner mt n) (boot w0) ls s" "good w0" "typed w0" "0 < n"
    and "\<forall>l \<in> set ls. allowed l" "fresh_keys (intents w0) ls"
  shows "process_inv w0 ls s"
  using assms(1,5,6)
proof (induction rule: process_run.induct)
  case run_start
  from world_inv_start [OF assms(2,3)] show ?case
    by (simp add: process_inv_def boot_def scan_ok_def landed_def)
next
  case (run_step ls s ev l s')
  then have "process_inv w0 ls s" using fresh_keys_snoc [OF run_step.prems(2)] by simp
  from inv_step [OF this assms(4) run_step.hyps(2)] run_step.prems show ?case by simp
qed

lemma world_inv_kept:
  assumes "world_inv w0 ls w"
  shows "journal_kept (intents w0) (rows w0) ls (intents w) (rows w)"
proof -
  note inv = assms [unfolded world_inv_def row_kept_def pending_in_def]
  show ?thesis
    unfolding journal_kept_def
  proof (intro conjI allI impI; (elim conjE)?)
    fix i assume "rows w0 i \<noteq> None"
    with inv show "rows w i \<noteq> None \<or> Removed i \<in> set ls" by blast
  next
    fix k j assume "intents w0 k = Some j"
    with inv show "\<exists>j'. intents w k = Some j' \<and> same_target j j' \<and>
       (it_status j \<noteq> IntentPending \<longrightarrow> it_status j' \<noteq> IntentPending)" by blast
  next
    fix k j assume "intents w k = Some j" "it_status j = IntentDone"
    with inv show "(\<exists>j0. intents w0 k = Some j0 \<and> it_status j0 = IntentDone) \<or>
       (\<exists>ino. settled_with ls k ino \<and> (rows w ino \<noteq> None \<or> Removed ino \<in> set ls))" by blast
  next
    fix k info assume "k \<noteq> []" "landed ls k info"
    with inv show "fi_inode_id info \<noteq> 0 \<and> (rows w (fi_inode_id info) \<noteq> None \<or> Removed (fi_inode_id info) \<in> set ls) \<or>
       (\<exists>j. intents w k = Some j \<and> it_status j = IntentPending) \<or> scan_settled ls k" by blast
  qed
qed

lemma run_kept:
  assumes "process_run (Some recorder) (scanner mt n) (boot w0) ls s" "good w0" "typed w0" "0 < n"
    and "\<forall>l \<in> set ls. allowed l" "fresh_keys (intents w0) ls"
  shows "journal_kept (intents w0) (rows w0) ls (intents (pr_world s)) (rows (pr_world s))"
  using world_inv_kept run_inv [OF assms] by (simp add: process_inv_def)

end

section \<open>The calls of the client\<close>

text \<open>
  The journalled calls of the client change the storage and look rows up, so they keep every relation
  that these two keep.
\<close>

locale client_tables = frame "\<lambda>w. True" rel
  for rel :: "'x world \<Rightarrow> 'x world \<Rightarrow> bool" +
  fixes c :: "'x fs_client"
  assumes storage_kept: "rel w (w\<lparr>w_os := s\<rparr>)"
    and lookup_kept: "fc_store c = Some ns \<Longrightarrow> ns_lookup ns ids w = (r, w') \<Longrightarrow> rel w w'"
begin

lemma keeps_storage: "keeps (on_os f)"
  by (rule keepsI) (auto simp: on_os_def storage_kept split: prod.splits)

lemma keeps_lookup: "fc_store c = Some ns \<Longrightarrow> keeps (ns_lookup ns ids)"
  by (rule keepsI) (simp add: lookup_kept)

lemma keeps_enriched: "keeps (build_enriched_file_info c a p)"
  unfolding build_enriched_file_info_def build_file_info_def enrich_file_info_def fill_inode_def inode_from_path_def
    fill_git_def is_git_folder_path_def fill_trash_def read_trash_meta_def Let_def
  by (intro keeps_rules keeps_storage keeps_lookup; assumption)

lemma keeps_create_file: "keeps (client_create_file c req)"
  unfolding client_create_file_def Let_def
  by (intro keeps_rules keeps_storage keeps_enriched; assumption)

lemma keeps_request: "keeps (rq_action (request_of c k call))"
  by (cases call)
    (auto simp: client_create_folder_def client_create_notebook_def client_write_file_def
      intro!: keeps_rules keeps_storage keeps_enriched keeps_create_file)

lemma request_kept: "rq_action (request_of c k call) v = (r, v') \<Longrightarrow> rel v v'"
  using keepsD [OF keeps_request] by blast

end

text \<open>The steps of the server: its requests are calls of the client, and others change the storage only.\<close>

definition service_step :: "'x fs_client \<Rightarrow> 'x world happening \<Rightarrow> bool" where
  "service_step c l \<longleftrightarrow> (\<forall>q. l = Arrived q \<longrightarrow> (\<exists>k call. q = request_of c k call)) \<and>
     (\<forall>f. l = StorageChanged f \<longrightarrow> (\<exists>g. f = w_os_update g))"

lemma request_of_type: "known_node_type (rq_type (request_of c k call))"
  by (cases call) simp_all

section \<open>The service with the in-memory stores\<close>

text \<open>There the calls leave both tables alone.\<close>

lemma local_store_tables: "local_store c \<Longrightarrow> client_tables (\<lambda>w w'. w_db w' = w_db w) c"
  by unfold_locales (auto simp: local_store_def mem_lookup_def)

interpretation sample_tables: client_tables "\<lambda>w w'. w_db w' = w_db w" sample_client
  by (rule local_store_tables) (simp add: local_store_def sample_client_def)

lemma service_step_allowed:
  assumes "local_store c" "service_step c l"
  shows "mem_world.allowed l"
proof -
  have "mem_world.proper (request_of c k call)" for k call
  proof -
    have "mem_world.untouched v v'" if "rq_action (request_of c k call) v = (r, v')" for v r v'
      using client_tables.request_kept [OF local_store_tables [OF assms(1)] that] by (simp add: mem_world.untouched_def)
    then show ?thesis by (simp add: mem_world.proper_def request_of_type)
  qed
  with assms(2) show ?thesis by (auto simp: mem_world.allowed_def service_step_def mem_world.untouched_def)
qed

abbreviation server_recoverer :: "mem_world recoverer" where
  "server_recoverer \<equiv> new_recoverer (Some world_intents) (Some world_nodes) (Some stat_inode)"

lemma server_recoverer: "server_recoverer = mem_world.scanner 5 200"
  by (simp add: new_recoverer_def default_recovery_batch_def default_recovery_max_tries_def)

text \<open>
  C4. Requests that create or write files run beside the recovery scan, among deletions, changes of
  the storage by others, signals, shutdowns, crashes and restarts, in any order. At every moment of
  every such run: a row is there unless its inode was deleted; no journal entry has disappeared,
  changed its target or been reopened; an entry is done only if it was settled with an inode, whose
  row was written; and a write that landed has its row, or its entry is still pending for the next
  scan, or a scan has settled it.
\<close>

theorem journal_beside_recovery:
  assumes "process_run world_recorder server_recoverer (boot w) ls s"
    and "world_ok w" "typed_intents w" "local_store c"
    and "\<forall>l \<in> set ls. service_step c l" "fresh_keys (world_intent w) ls"
  shows "(\<forall>i. world_rows w i \<noteq> None \<longrightarrow> world_rows (pr_world s) i \<noteq> None \<or> Removed i \<in> set ls) \<and>
    (\<forall>k j. world_intent w k = Some j \<longrightarrow> (\<exists>j'. world_intent (pr_world s) k = Some j' \<and> same_target j j' \<and>
       (it_status j \<noteq> IntentPending \<longrightarrow> it_status j' \<noteq> IntentPending))) \<and>
    (\<forall>k j. world_intent (pr_world s) k = Some j \<and> it_status j = IntentDone \<longrightarrow>
       (\<exists>j0. world_intent w k = Some j0 \<and> it_status j0 = IntentDone) \<or>
       (\<exists>ino. settled_with ls k ino \<and> (world_rows (pr_world s) ino \<noteq> None \<or> Removed ino \<in> set ls))) \<and>
    (\<forall>k info. k \<noteq> [] \<and> landed ls k info \<longrightarrow>
       fi_inode_id info \<noteq> 0 \<and> (world_rows (pr_world s) (fi_inode_id info) \<noteq> None \<or> Removed (fi_inode_id info) \<in> set ls) \<or>
       (\<exists>j. world_intent (pr_world s) k = Some j \<and> it_status j = IntentPending) \<or>
       scan_settled ls k)"
proof -
  have "\<forall>l \<in> set ls. mem_world.allowed l" using service_step_allowed [OF assms(4)] assms(5) by blast
  from mem_world.run_kept [OF assms(1) [unfolded world_recorder server_recoverer] assms(2)
      assms(3) [unfolded typed_intents] _ this assms(6)]
  show ?thesis by (simp add: journal_kept_def)
qed

section \<open>A scan beside a request\<close>

text \<open>
  A file is created. The scan lists the new entry and does not find the file, which is not written
  yet; then it is written, and the scan, which has looked already, aborts the entry.
\<close>

abbreviation "new_file \<equiv> ''/m/a/w/users/u/new''"

definition sample_request :: "mem_world request" where
  "sample_request = request_of sample_client ''k''
     (CreatesFile \<lparr>cf_actor = sample_actor, cf_path = new_file, cf_content = ''hi'', cf_overwrite = False\<rparr>)"

definition overlapping :: "mem_world event list" where
  "overlapping =
     [EvBuilt None, EvArrive sample_request, EvRequest 0, EvScan None, EvScan None, EvRequest 0, EvScan None]"

definition overlapped :: "mem_world event list \<Rightarrow> (mem_world happening list \<times> mem_world process) option" where
  "overlapped evs = play world_recorder server_recoverer (overlapping @ evs) (boot sample_world)"

lemma overlapped_steps:
  assumes "overlapped evs = Some (ls, s)" "set evs \<subseteq> {EvKill, EvRequest 0}"
  shows "process_run world_recorder server_recoverer (boot sample_world) ls s" "\<forall>l \<in> set ls. service_step sample_client l"
    "Removed i \<notin> set ls"
proof -
  note p = assms(1) [unfolded overlapped_def]
  from played_run [OF p] show "process_run world_recorder server_recoverer (boot sample_world) ls s" .
  have "EvArrive q \<in> set (overlapping @ evs) \<Longrightarrow> q = sample_request" "EvStorage f \<notin> set (overlapping @ evs)"
    "EvDelete m \<notin> set (overlapping @ evs)" for q f m
    using assms(2) by (auto simp: overlapping_def)
  with played_events [OF p] have "Arrived q \<in> set ls \<Longrightarrow> q = sample_request" "StorageChanged f \<notin> set ls"
    "Removed i \<notin> set ls" for q f i
    by blast+
  then show "\<forall>l \<in> set ls. service_step sample_client l"
    "Removed i \<notin> set ls"
    unfolding service_step_def sample_request_def by blast+
qed

text \<open>The overlapping run, store by store.\<close>

definition new_intent :: intent where
  "new_intent = (sample_intent ''k'' new_file)\<lparr>it_op := IntentOpCreateFile\<rparr>"

definition new_journal :: "intent \<Rightarrow> mem_intents" where
  "new_journal i = \<lparr>mi_seq = 1, mi_order = [(''k'', 1)], mi_intents = [(''k'', i)], mi_enqueue_err = None\<rparr>"

definition enqueued_world :: mem_world where
  "enqueued_world = \<lparr>w_os = sample_fs [], w_db = ([], new_journal new_intent)\<rparr>"

lemma sample_request_fields:
  "rq_key sample_request = ''k''" "rq_op sample_request = IntentOpCreateFile" "rq_path sample_request = new_file"
  "rq_actor sample_request = sample_actor" "rq_type sample_request = NodeTypeFile" "rq_action sample_request = sample_create"
  by (simp_all add: sample_request_def sample_create_def)

lemma run_enqueue:
  "recorder_enqueue mem_world.recorder ''k'' IntentOpCreateFile new_file sample_actor NodeTypeFile sample_world = (''k'', enqueued_world)"
  by (simp add: recorder_enqueue_def Let_def on_intents_def on_db_def mem_enqueue_def sample_world_def new_mem_intents_def
      enqueued_world_def new_journal_def new_intent_def sample_intent_def)

lemma run_list: "is_list_pending world_intents 200 enqueued_world = (Inr [new_intent], enqueued_world)"
  by (simp add: mem_list_pending_def mem_pending_def enqueued_world_def new_journal_def new_intent_def sample_intent_def)

lemma run_stat: "stat_inode new_file enqueued_world = (Inr (0, False), enqueued_world)"
proof -
  have "on_disk enqueued_world new_file = None" "fs_lookup (w_os enqueued_world) new_file \<noteq> Inl ENOTDIR"
    "fs_faults (w_os enqueued_world) = []" "fs_has_stat (w_os enqueued_world)" by code_simp+
  with stat_inode_answering [of enqueued_world new_file] show ?thesis by simp
qed

lemma run_create:
  obtains info w where "sample_create enqueued_world = (Inr info, w)" "fi_inode_id info = 9"
    "w_db w = ([], new_journal new_intent)" "on_disk w new_file = Some 9"
proof -
  obtain res w where run: "sample_create enqueued_world = (res, w)" by (cases "sample_create enqueued_world")
  have "map_sum (\<lambda>_. ()) fi_inode_id (fst (sample_create enqueued_world)) = Inr 9" by code_simp
  with run obtain info where "res = Inr info" "fi_inode_id info = 9" by (cases res) auto
  moreover have "on_disk (snd (sample_create enqueued_world)) new_file = Some 9" by code_simp
  moreover have "w_db w = w_db enqueued_world"
    using sample_tables.keepsD [OF sample_tables.keeps_create_file _ run [unfolded sample_create_def]] by simp
  ultimately show thesis using that run by (simp add: enqueued_world_def)
qed

definition aborted_world :: "mem_world \<Rightarrow> mem_world" where
  "aborted_world w = w\<lparr>w_db := ([], new_journal (new_intent
     \<lparr>it_status := IntentAborted, it_last_error := ''target path absent on storage''\<rparr>))\<rparr>"

lemma run_abort:
  "w_db w = ([], new_journal new_intent) \<Longrightarrow>
   is_mark_aborted world_intents ''k'' ''target path absent on storage'' w = (None, aborted_world w)"
  by (simp add: mem_mark_aborted_def mem_modify_def mem_get_def new_journal_def aborted_world_def)

lemma overlapped_killed:
  obtains ls s info where "overlapped [EvKill] = Some (ls, s)" "arrived_keys ls = [''k'']" "landed ls ''k'' info"
    "fi_inode_id info = 9" "pr_main s = Killed" "on_disk (pr_world s) new_file = Some 9" "fst (w_db (pr_world s)) = []"
    "snd (w_db (pr_world s)) = new_journal (new_intent
       \<lparr>it_status := IntentAborted, it_last_error := ''target path absent on storage''\<rparr>)"
proof -
  obtain info w where c: "sample_create enqueued_world = (Inr info, w)" "fi_inode_id info = 9"
    "w_db w = ([], new_journal new_intent)" "on_disk w new_file = Some 9" by (rule run_create)
  have disk: "on_disk (aborted_world w) new_file = Some 9" using c(4) by (simp add: on_disk_def aborted_world_def)
  have db: "w_db (aborted_world w) = ([], new_journal (new_intent
      \<lparr>it_status := IntentAborted, it_last_error := ''target path absent on storage''\<rparr>))" by (simp add: aborted_world_def)
  have i: "it_id new_intent = ''k''" "it_abs_path new_intent = new_file"
    by (simp_all add: new_intent_def sample_intent_def)
  note defs = overlapped_def overlapping_def boot_def main_to_def leave_def recover_step_def server_recoverer
    world_recorder sample_request_fields run_enqueue run_list run_stat c(1) run_abort [OF c(3)] i
    scan_next_def outcome_of_def apply_verdict_def Let_def arrived_keys_def landed_def
  show thesis
    by (rule that [of _ _ info])
      (simp_all add: defs c(2) del: world_store_simps, simp_all add: sample_request_fields disk db)
qed

lemma killed_run_ends:
  obtains ls s info where "process_run world_recorder server_recoverer (boot sample_world) ls s"
    "\<forall>l \<in> set ls. service_step sample_client l" "fresh_keys (world_intent sample_world) ls"
    "landed ls ''k'' info" "fi_inode_id info = 9" "pr_main s = Killed" "on_disk (pr_world s) new_file = Some 9"
    "world_rows (pr_world s) 9 = None" "map_option it_status (world_intent (pr_world s) ''k'') = Some IntentAborted"
    "mem_pending (snd (w_db (pr_world s))) = []" "Removed 9 \<notin> set ls"
proof -
  obtain ls s info where o: "overlapped [EvKill] = Some (ls, s)" "arrived_keys ls = [''k'']" "landed ls ''k'' info"
    "fi_inode_id info = 9" "pr_main s = Killed" "on_disk (pr_world s) new_file = Some 9" "fst (w_db (pr_world s)) = []"
    "snd (w_db (pr_world s)) = new_journal (new_intent
       \<lparr>it_status := IntentAborted, it_last_error := ''target path absent on storage''\<rparr>)"
    by (rule overlapped_killed)
  have "fresh_keys (world_intent sample_world) ls" using o(2)
    by (simp add: fresh_keys_def sample_world_def new_mem_intents_def mem_get_def)
  with overlapped_steps [OF o(1)] o show thesis
    by (intro that [of ls s info]) (simp_all add: new_journal_def mem_get_def mem_pending_def)
qed

lemma sample_world_empty: "world_intent sample_world k = None"
  by (simp add: sample_world_def new_mem_intents_def mem_get_def)

theorem journal_beside_recovery_witness:
  "\<exists>ls s info. process_run world_recorder server_recoverer (boot sample_world) ls s \<and>
    landed ls ''k'' info \<and> world_rows (pr_world s) (fi_inode_id info) = None \<and> scan_settled ls ''k''"
proof -
  obtain ls s info where r: "process_run world_recorder server_recoverer (boot sample_world) ls s"
    "\<forall>l \<in> set ls. service_step sample_client l" "fresh_keys (world_intent sample_world) ls"
    "landed ls ''k'' info" "fi_inode_id info = 9" "world_rows (pr_world s) 9 = None"
    "map_option it_status (world_intent (pr_world s) ''k'') = Some IntentAborted"
    "Removed 9 \<notin> set ls"
    by (rule killed_run_ends)
  have typed: "typed_intents sample_world" by (simp add: typed_intents_def sample_world_empty)
  have local: "local_store sample_client" by (simp add: local_store_def sample_client_def)
  from journal_beside_recovery [OF r(1) sample_world_ok typed local r(2,3)] r(4)
  have "fi_inode_id info \<noteq> 0 \<and> (world_rows (pr_world s) (fi_inode_id info) \<noteq> None \<or> Removed (fi_inode_id info) \<in> set ls) \<or>
       (\<exists>j. world_intent (pr_world s) ''k'' = Some j \<and> it_status j = IntentPending) \<or> scan_settled ls ''k''" by blast
  with r(4-8) have "scan_settled ls ''k''" by auto
  with r(1,4,5,6) show ?thesis by metis
qed

text \<open>
  C7. The scan runs beside the requests, although the comment in \<open>main.go\<close> says that it is done before
  traffic is served. There is a run from a sound state in which a file is written, the process is then
  killed, and the file is on the storage without a row in the node table while its journal entry is
  aborted: the scan after the restart finds nothing to do, so the row is never written.
\<close>

theorem recovery_hides_a_landed_write:
  "\<exists>ls s info. process_run world_recorder server_recoverer (boot sample_world) ls s \<and>
    list_all (service_step sample_client) ls \<and> fresh_keys (world_intent sample_world) ls \<and>
    landed ls ''k'' info \<and> pr_main s = Killed \<and>
    on_disk (pr_world s) new_file = Some (fi_inode_id info) \<and> world_rows (pr_world s) (fi_inode_id info) = None \<and>
    map_option it_status (world_intent (pr_world s) ''k'') = Some IntentAborted \<and>
    recover world_recoverer (\<lambda>_. None) (pr_world s) = Some (zero_stats, None, pr_world s)"
proof -
  obtain ls s info where r: "process_run world_recorder server_recoverer (boot sample_world) ls s"
    "\<forall>l \<in> set ls. service_step sample_client l" "fresh_keys (world_intent sample_world) ls"
    "landed ls ''k'' info" "fi_inode_id info = 9" "pr_main s = Killed" "on_disk (pr_world s) new_file = Some 9"
    "world_rows (pr_world s) 9 = None" "map_option it_status (world_intent (pr_world s) ''k'') = Some IntentAborted"
    "mem_pending (snd (w_db (pr_world s))) = []" "Removed 9 \<notin> set ls"
    by (rule killed_run_ends)
  have "mem_list_pending 200 (snd (w_db (pr_world s))) = (Inr [], snd (w_db (pr_world s)))"
    by (simp add: mem_list_pending_def r(10))
  then have "is_list_pending world_intents 200 (pr_world s) = (Inr [], pr_world s)" by simp
  then have "recover world_recoverer (\<lambda>_. None) (pr_world s) = Some (zero_stats, None, pr_world s)"
    unfolding recover_world by (subst recover_loop.simps) (simp del: world_store_simps)
  with r show ?thesis by (intro exI [of _ ls] exI [of _ s] exI [of _ info]) (simp add: list_all_iff)
qed

end
