(* ===== verification/MysqlJournal.thy ===== *)
theory MysqlJournal
  imports MysqlGuarantees ServingGuarantees
begin

text \<open>
  The intent store on MySQL keeps the contract of the port \<open>IntentStore\<close>, so that what theories
  Recovery and ServingGuarantees show for any journal holds for the tables the server runs on:
  \<open>ws_file_intent\<close> and \<open>ws_file_node\<close> in one database. The locale \<open>mysql_tables\<close> states what is
  asked of the database; an engine with a list of rows per table keeps it.
\<close>

section \<open>The rows of the journal\<close>

text \<open>An identifier that the collation compares exactly, as the hexadecimal ones of \<open>NewIntentID\<close> are.\<close>

definition intent_key :: "string \<Rightarrow> bool" where
  "intent_key k \<longleftrightarrow> k \<noteq> [] \<and> drop_pad k = k"

definition intent_view :: "('w \<Rightarrow> sql_value \<Rightarrow> sql_row option) \<Rightarrow> 'w \<Rightarrow> string \<Rightarrow> intent option" where
  "intent_view tab w k = map_option intent_from_row (tab w (SqlText k))"

text \<open>What the program keeps of its rows, and the schema of the column \<open>attempts\<close>.\<close>

definition stored_intent :: "sql_value \<Rightarrow> sql_row \<Rightarrow> bool" where
  "stored_intent v r \<longleftrightarrow> (\<exists>k. v = SqlText k \<and> intent_key k) \<and>
     (\<exists>st. column r ''status'' = SqlText (intent_status_text st)) \<and> (\<exists>n. column r ''attempts'' = SqlInt n)"

definition intents_good :: "('w \<Rightarrow> sql_value \<Rightarrow> sql_row option) \<Rightarrow> 'w \<Rightarrow> bool" where
  "intents_good tab w \<longleftrightarrow> finite (dom (tab w)) \<and> (\<forall>v r. tab w v = Some r \<longrightarrow> stored_intent v r)"

lemma file_intent_table_simps [simp]:
  "tb_key file_intent_table = ''intent_id''" "tb_soft_delete file_intent_table = False"
  by (simp_all add: file_intent_table_def)

lemma intent_from_row_cong: "column r = column r' \<Longrightarrow> intent_from_row r = intent_from_row r'"
  by (simp add: intent_from_row_def)

lemma stored_intent_cong: "column r = column r' \<Longrightarrow> stored_intent v r = stored_intent v r'"
  by (simp add: stored_intent_def)

lemma status_text_pad [simp]: "drop_pad (intent_status_text st) = intent_status_text st"
  by (cases st) (simp_all add: drop_pad_def)

lemma status_text_inj [simp]: "intent_status_text a = intent_status_text b \<longleftrightarrow> a = b"
  by (metis intent_text_round_trip(2))

text \<open>The three updates, on the row they select.\<close>

abbreviation done_ups :: "(string \<times> sql_expr) list" where
  "done_ups \<equiv> [(''status'', SqlVal (SqlText (intent_status_text IntentDone))), (''updated_at'', CurrentTimestamp)]"

abbreviation aborted_ups :: "string \<Rightarrow> (string \<times> sql_expr) list" where
  "aborted_ups s \<equiv> [(''status'', SqlVal (SqlText (intent_status_text IntentAborted))),
     (''last_error'', SqlVal (SqlText (truncate_error s))), (''updated_at'', CurrentTimestamp)]"

abbreviation attempt_ups :: "string \<Rightarrow> (string \<times> sql_expr) list" where
  "attempt_ups s \<equiv> [(''attempts'', ColumnPlusOne ''attempts''),
     (''last_error'', SqlVal (SqlText (truncate_error s))), (''updated_at'', CurrentTimestamp)]"

lemma status_texts: "\<exists>st. ''done'' = intent_status_text st" "\<exists>st. ''aborted'' = intent_status_text st"
    "\<exists>st. ''pending'' = intent_status_text st"
  by (rule exI [of _ IntentDone], simp) (rule exI [of _ IntentAborted], simp, rule exI [of _ IntentPending], simp)

lemma assigned_intent:
  assumes "stored_intent v r"
  shows "intent_from_row (sql_assign now done_ups r) = intent_from_row r\<lparr>it_status := IntentDone\<rparr>"
    "intent_from_row (sql_assign now (aborted_ups s) r) =
       intent_from_row r\<lparr>it_status := IntentAborted, it_last_error := truncate_error s\<rparr>"
    "intent_from_row (sql_assign now (attempt_ups s) r) =
       intent_from_row r\<lparr>it_attempts := it_attempts (intent_from_row r) + 1, it_last_error := truncate_error s\<rparr>"
    "stored_intent v (sql_assign now done_ups r)" "stored_intent v (sql_assign now (aborted_ups s) r)"
    "stored_intent v (sql_assign now (attempt_ups s) r)"
  using assms
  by (auto simp: intent_from_row_def sql_assign_def stored_intent_def Let_def intent_status_of_def status_texts)

section \<open>The methods\<close>

locale intent_table = gorm db file_intent_table tab
  for db :: "'w gorm_db" and tab :: "'w \<Rightarrow> sql_value \<Rightarrow> sql_row option"
begin

lemma selected_intent:
  assumes "intents_good tab w" "tab w (SqlText k') = Some r" "intent_key k"
  shows "selected file_intent_table [ColumnIs ''intent_id'' (SqlText k)] r \<longleftrightarrow> k' = k"
proof -
  have "column r ''intent_id'' = SqlText k'" using keyed [OF assms(2)] by simp
  moreover have "intent_key k'" using assms(1,2) by (auto simp: intents_good_def stored_intent_def)
  ultimately show ?thesis using assms(3) by (auto simp: selected_def intent_key_def)
qed

text \<open>An update keeps the invariant if the assignments do, and changes the intent it names.\<close>

lemma update_good:
  assumes "intents_good tab w" "db_updates db file_intent_table conds ups w = (r, w')" "''intent_id'' \<notin> fst ` set ups"
    and "\<And>v r now. stored_intent v r \<Longrightarrow> stored_intent v (sql_assign now ups r)"
  shows "intents_good tab w'"
proof (cases r)
  case (Some e)
  with failed(2) assms(1,2) show ?thesis by (auto simp: intents_good_def)
next
  case None
  with updates_ok [of conds ups w w'] assms(2,3) obtain now f where
    f: "tab w' = (\<lambda>k. map_option f (tab w k))"
      "\<And>k r. tab w k = Some r \<Longrightarrow> column (f r) = column (if selected file_intent_table conds r then sql_assign now ups r else r)"
    by auto
  have "dom (tab w') = dom (tab w)" by (auto simp: f(1))
  moreover have "stored_intent v r'" if "tab w' v = Some r'" for v r'
  proof -
    from that f(1) obtain r where r: "tab w v = Some r" "r' = f r" by auto
    with assms(1) have "stored_intent v r" by (auto simp: intents_good_def)
    with assms(4) stored_intent_cong [OF f(2) [OF r(1)]] r(2) show ?thesis by simp
  qed
  ultimately show ?thesis using assms(1) by (simp add: intents_good_def)
qed

lemma update_view:
  assumes "intents_good tab w" "intent_key k" "''intent_id'' \<notin> fst ` set ups"
    and "db_updates db file_intent_table [ColumnIs ''intent_id'' (SqlText k)] ups w = (None, w')"
    and g: "\<And>v r now. stored_intent v r \<Longrightarrow> intent_from_row (sql_assign now ups r) = g (intent_from_row r)"
  shows "intent_view tab w' = (intent_view tab w)(k := map_option g (intent_view tab w k))"
proof
  fix x
  let ?conds = "[ColumnIs ''intent_id'' (SqlText k)]"
  from updates_ok [OF assms(4)] assms(3) obtain now f where
    f: "tab w' = (\<lambda>k. map_option f (tab w k))"
      "\<And>k r. tab w k = Some r \<Longrightarrow> column (f r) = column (if selected file_intent_table ?conds r then sql_assign now ups r else r)"
    by auto
  show "intent_view tab w' x = ((intent_view tab w)(k := map_option g (intent_view tab w k))) x"
  proof (cases "tab w (SqlText x)")
    case None
    then show ?thesis by (auto simp: intent_view_def f(1))
  next
    case (Some r)
    with assms(1) have "stored_intent (SqlText x) r" by (auto simp: intents_good_def)
    moreover have "selected file_intent_table ?conds r \<longleftrightarrow> x = k" by (rule selected_intent [OF assms(1) Some assms(2)])
    ultimately show ?thesis
      using intent_from_row_cong [OF f(2) [OF Some]] g Some by (auto simp: intent_view_def f(1))
  qed
qed

lemma update_error:
  "db_updates db file_intent_table conds ups w = (Some e, w') \<Longrightarrow> intent_view tab w' = intent_view tab w"
  by (drule failed(2)) (simp add: intent_view_def fun_eq_iff)

text \<open>An enqueue inserts the row of the intent, or resets one that is there to pending.\<close>

definition again_ups :: "intent \<Rightarrow> (string \<times> sql_expr) list" where
  "again_ups i =
     (let row = file_intent_row i; again = (\<lambda>c. (c, SqlVal (column row c)))
      in [again ''op'', again ''abs_path'', again ''node_type'',
          (''status'', SqlVal (SqlText (intent_status_text IntentPending))), (''last_error'', SqlVal (SqlText [])),
          (''updated_at'', CurrentTimestamp)])"

lemma enqueue_create:
  "it_id i \<noteq> [] \<Longrightarrow> mysql_enqueue db i w = db_create db file_intent_table (file_intent_row i) (again_ups i) w"
  by (simp add: mysql_enqueue_def again_ups_def Let_def)

lemma intent_row_columns:
  "column (file_intent_row i) ''intent_id'' = SqlText (it_id i)"
  "column (file_intent_row i) ''status'' = SqlText (intent_status_text IntentPending)"
  "column (file_intent_row i) ''attempts'' = SqlInt 0"
  "fst ` set (file_intent_row i) = {''intent_id'', ''op'', ''abs_path'', ''owner_uin'', ''uin'', ''app_id'',
     ''workspace_id'', ''node_type'', ''status'', ''attempts'', ''last_error''}"
  by (auto simp: file_intent_row_def column_def Let_def)

lemma enqueued_row:
  assumes "\<forall>c \<in> fst ` set (file_intent_row i). column r c = column (file_intent_row i) c" "intent_key (it_id i)"
  shows "intent_from_row r = intent_from_row (file_intent_row i)" "stored_intent (SqlText (it_id i)) r"
  using assms unfolding intent_row_columns(4)
  by (auto simp: intent_from_row_def stored_intent_def intent_row_columns(1-3) Let_def status_texts)

lemma enqueued_intent:
  "same_target i (intent_from_row (file_intent_row i))" "it_status (intent_from_row (file_intent_row i)) = IntentPending"
  "it_attempts (intent_from_row (file_intent_row i)) = 0"
proof -
  show "same_target i (intent_from_row (file_intent_row i))"
  proof (cases "known_node_type (it_node_type i)")
    case True
    from intent_row_round_trip [OF this] show ?thesis by simp
  next
    case False
    then show ?thesis
      by (auto simp: same_target_def intent_from_row_def file_intent_row_def column_def Let_def new_node_actor_def)
  qed
qed (simp_all add: intent_from_row_def intent_row_columns Let_def intent_status_of_def)

lemma enqueue_good:
  assumes "intents_good tab w" "intent_key (it_id i)" "mysql_enqueue db i w = (r, w')"
  shows "intents_good tab w'"
proof -
  let ?v = "SqlText (it_id i)"
  have run: "db_create db file_intent_table (file_intent_row i) (again_ups i) w = (r, w')"
    using assms(2,3) enqueue_create [of i w] by (simp add: intent_key_def)
  have exact: "exact_value (column (file_intent_row i) (tb_key file_intent_table))"
    using assms(2) by (simp add: intent_row_columns intent_key_def)
  show ?thesis
  proof (cases r)
    case (Some e)
    with failed(1) run assms(1) show ?thesis by (auto simp: intents_good_def)
  next
    case None
    note run = run [unfolded None]
    have "\<exists>x. tab w' = (tab w)(?v \<mapsto> x) \<and> stored_intent ?v x"
    proof (cases "tab w ?v")
      case None
      then have "tab w (column (file_intent_row i) (tb_key file_intent_table)) = None" by (simp add: intent_row_columns)
      from create_new [OF run exact this] enqueued_row(2) [OF _ assms(2)] show ?thesis by (auto simp: intent_row_columns(1))
    next
      case (Some x)
      then have "tab w (column (file_intent_row i) (tb_key file_intent_table)) = Some x" by (simp add: intent_row_columns)
      moreover have "tb_key file_intent_table \<notin> fst ` set (again_ups i)" by (simp add: again_ups_def Let_def)
      ultimately obtain x' now where x': "tab w' = (tab w)(?v \<mapsto> x')" "column x' = column (sql_assign now (again_ups i) x)"
        using create_old [OF run exact] by (auto simp: intent_row_columns(1))
      have "stored_intent ?v x" using assms(1) Some by (simp add: intents_good_def)
      then have "stored_intent ?v (sql_assign now (again_ups i) x)"
        by (auto simp: stored_intent_def sql_assign_def again_ups_def Let_def intro: exI [of _ IntentPending])
      with x' stored_intent_cong [OF x'(2)] show ?thesis by blast
    qed
    with assms(1) show ?thesis by (auto simp: intents_good_def split: if_splits)
  qed
qed

text \<open>A listing: the pending rows, as many as the limit allows.\<close>

lemma pending_selected:
  assumes "stored_intent v r"
  shows "selected file_intent_table [ColumnIs ''status'' (SqlText (intent_status_text IntentPending))] r \<longleftrightarrow>
    it_status (intent_from_row r) = IntentPending"
proof -
  from assms obtain st where "column r ''status'' = SqlText (intent_status_text st)" by (auto simp: stored_intent_def)
  then show ?thesis by (simp add: selected_def intent_from_row_def Let_def del: intent_status_text.simps)
qed

lemma list_pending_ok:
  assumes good: "intents_good tab w" and n: "0 < n" and run: "mysql_list_pending db n w = (Inr xs, w')"
  shows "distinct (map it_id xs) \<and> length xs \<le> nat n \<and>
    (\<forall>x \<in> set xs. intent_view tab w (it_id x) = Some x \<and> it_status x = IntentPending) \<and>
    (length xs < nat n \<longrightarrow> (\<forall>k j. intent_view tab w k = Some j \<and> it_status j = IntentPending \<longrightarrow> j \<in> set xs))"
proof -
  let ?conds = "[ColumnIs ''status'' (SqlText (intent_status_text IntentPending))]"
  from run n obtain rs where find: "db_find db file_intent_table ?conds (Ascending ''id'') n w = (Inr rs, w')"
    and xs: "xs = map intent_from_row rs"
    by (auto simp: mysql_list_pending_def Let_def simp del: intent_status_text.simps split: prod.splits sum.splits)
  from find_limited [OF find n] obtain ks where ks: "distinct ks" "map Some rs = map (tab w) ks" "length ks \<le> nat n"
    "set ks \<subseteq> {k. \<exists>r. tab w k = Some r \<and> selected file_intent_table ?conds r}"
    "length ks < nat n \<longrightarrow> set ks = {k. \<exists>r. tab w k = Some r \<and> selected file_intent_table ?conds r}" by blast
  have rs: "rs = map (\<lambda>k. the (tab w k)) ks" using arg_cong [OF ks(2), of "map the"] by (simp add: o_def)
  let ?x = "\<lambda>k. intent_from_row (the (tab w k))"
  have entry: "k = SqlText (it_id (?x k)) \<and> intent_view tab w (it_id (?x k)) = Some (?x k) \<and> it_status (?x k) = IntentPending"
    if k: "k \<in> set ks" for k
  proof -
    from k ks(4) obtain r where r: "tab w k = Some r" "selected file_intent_table ?conds r" by blast
    have s: "stored_intent k r" using good r(1) by (auto simp: intents_good_def)
    have "column r ''intent_id'' = k" using keyed [OF r(1)] by simp
    with s have "k = SqlText (it_id (intent_from_row r))"
      by (auto simp: stored_intent_def intent_from_row_def Let_def)
    moreover have "it_status (intent_from_row r) = IntentPending" using pending_selected [OF s] r(2) by blast
    ultimately show ?thesis using r(1) by (simp add: intent_view_def)
  qed
  have xs': "xs = map ?x ks" by (simp add: xs rs)
  have "distinct (map it_id xs)"
    using ks(1) entry unfolding xs' by (auto simp: distinct_map inj_on_def o_def) metis
  moreover have "length xs \<le> nat n" using ks(3) by (simp add: xs')
  moreover have "\<forall>x \<in> set xs. intent_view tab w (it_id x) = Some x \<and> it_status x = IntentPending"
    using entry by (auto simp: xs')
  moreover have "j \<in> set xs" if "length xs < nat n" "intent_view tab w k = Some j" "it_status j = IntentPending" for k j
  proof -
    from that(2) obtain r where r: "tab w (SqlText k) = Some r" "j = intent_from_row r" by (auto simp: intent_view_def)
    have "stored_intent (SqlText k) r" using good r(1) by (auto simp: intents_good_def)
    with pending_selected that(3) r(2) have "selected file_intent_table ?conds r" by blast
    with ks(5) that(1) r(1) have "SqlText k \<in> set ks" by (auto simp: xs')
    with r show ?thesis by (auto simp: xs' intro!: image_eqI [of _ _ "SqlText k"])
  qed
  ultimately show ?thesis by blast
qed

lemma mysql_intent_store_contract:
  "intent_store (mysql_intent_store db) (intent_view tab) (intents_good tab) intent_key"
proof (unfold_locales, goal_cases)
  case (1 w i w')
  have key: "it_id i \<noteq> []" "drop_pad (it_id i) = it_id i" using 1(2) by (simp_all add: intent_key_def)
  with 1(3) have run: "db_create db file_intent_table (file_intent_row i) (again_ups i) w = (None, w')"
    by (simp add: mysql_intent_store_def enqueue_create)
  have none: "tab w (column (file_intent_row i) (tb_key file_intent_table)) = None"
    using 1(4) by (simp add: intent_view_def intent_row_columns)
  from create_new [OF run _ none] key obtain r where r: "tab w' = (tab w)(SqlText (it_id i) \<mapsto> r)"
    "\<forall>c \<in> fst ` set (file_intent_row i). column r c = column (file_intent_row i) c"
    by (auto simp: intent_row_columns(1))
  have "intent_view tab w' = (intent_view tab w)(it_id i \<mapsto> intent_from_row (file_intent_row i))"
    using enqueued_row(1) [OF r(2) 1(2)] by (auto simp: intent_view_def r(1) fun_eq_iff)
  with enqueued_intent show ?case by blast
next
  case (2 w i e w')
  then have "tab w' = tab w"
    using failed(1) by (cases "it_id i = []") (auto simp: mysql_intent_store_def mysql_enqueue_def Let_def)
  then show ?case by (simp add: intent_view_def fun_eq_iff)
next
  case (3 w k w')
  then show ?case
    by (intro update_view [OF 3(1,2) _ _ assigned_intent(1)]) (simp_all add: mysql_intent_store_def mysql_mark_done_def)
next
  case (4 w k e w')
  then show ?case using update_error by (simp add: mysql_intent_store_def mysql_mark_done_def)
next
  case (5 w k s w')
  then have "intent_view tab w' = (intent_view tab w)(k := map_option
      (\<lambda>j. j\<lparr>it_status := IntentAborted, it_last_error := truncate_error s\<rparr>) (intent_view tab w k))"
    by (intro update_view [OF 5(1,2) _ _ assigned_intent(2)]) (simp_all add: mysql_intent_store_def mysql_mark_aborted_def)
  then show ?case by blast
next
  case (6 w k s e w')
  then show ?case using update_error by (simp add: mysql_intent_store_def mysql_mark_aborted_def)
next
  case (7 w k s w')
  then have "intent_view tab w' = (intent_view tab w)(k := map_option
      (\<lambda>j. j\<lparr>it_attempts := it_attempts j + 1, it_last_error := truncate_error s\<rparr>) (intent_view tab w k))"
    by (intro update_view [OF 7(1,2) _ _ assigned_intent(3)])
      (simp_all add: mysql_intent_store_def mysql_increment_attempt_def)
  then show ?case by blast
next
  case (8 w k s e w')
  then show ?case using update_error by (simp add: mysql_intent_store_def mysql_increment_attempt_def)
next
  case (9 w n xs w')
  then have "mysql_list_pending db n w = (Inr xs, w')" by (simp add: mysql_intent_store_def)
  from list_pending_ok [OF 9(1,2) this] show ?case .
next
  case (10 w n lr w')
  then have "tab w' = tab w"
    using asked(1) by (auto simp: mysql_intent_store_def mysql_list_pending_def Let_def split: prod.splits sum.splits)
  then show ?case by (simp add: intent_view_def fun_eq_iff)
next
  case (11 w i r1 w1)
  then have "mysql_enqueue db i w = (r1, w1)" by (simp add: mysql_intent_store_def)
  from enqueue_good [OF 11(1,2) this] show ?case .
next
  case (12 w k r1 w1)
  then have "db_updates db file_intent_table [ColumnIs ''intent_id'' (SqlText k)] done_ups w = (r1, w1)"
    by (simp add: mysql_intent_store_def mysql_mark_done_def)
  from update_good [OF 12(1) this _ assigned_intent(4)] show ?case by simp
next
  case (13 w k s r1 w1)
  then have "db_updates db file_intent_table [ColumnIs ''intent_id'' (SqlText k)] (aborted_ups s) w = (r1, w1)"
    by (simp add: mysql_intent_store_def mysql_mark_aborted_def)
  from update_good [OF 13(1) this _ assigned_intent(5)] show ?case by simp
next
  case (14 w k s r1 w1)
  then have "db_updates db file_intent_table [ColumnIs ''intent_id'' (SqlText k)] (attempt_ups s) w = (r1, w1)"
    by (simp add: mysql_intent_store_def mysql_increment_attempt_def)
  from update_good [OF 14(1) this _ assigned_intent(6)] show ?case by simp
next
  case (15 w n lr w1)
  then have "tab w1 = tab w"
    using asked(1) by (auto simp: mysql_intent_store_def mysql_list_pending_def Let_def split: prod.splits sum.splits)
  with 15(1) show ?case by (simp add: intents_good_def)
next
  case (16 w)
  have "SqlText ` dom (intent_view tab w) \<subseteq> dom (tab w)" by (auto simp: intent_view_def)
  with 16 have "finite (SqlText ` dom (intent_view tab w))" by (auto simp: intents_good_def intro: finite_subset)
  then show ?case by (rule finite_imageD) (simp add: inj_on_def)
next
  case (17 w k j)
  then obtain r where r: "tab w (SqlText k) = Some r" "j = intent_from_row r" by (auto simp: intent_view_def)
  with keyed [OF r(1)] show ?case by (simp add: intent_from_row_def Let_def)
next
  case (18 w k j)
  then show ?case by (auto simp: intent_view_def intents_good_def stored_intent_def)
qed

end

sublocale intent_table < intents: intent_store "mysql_intent_store db" "intent_view tab" "intents_good tab" intent_key
  by (rule mysql_intent_store_contract)

interpretation stored_intents: intent_table stored_db "stored_tab file_intent_table"
  by (simp add: intent_table_def stored_db_laws)

section \<open>Both tables\<close>

text \<open>
  One database holds the journal and the node table; the calls on one table leave the other alone,
  and none of them touches the storage.
\<close>

locale mysql_tables = J: intent_table db itab + N: node_table db ntab
  for db :: "'x world gorm_db" and itab ntab :: "'x world \<Rightarrow> sql_value \<Rightarrow> sql_row option" +
  assumes intents_apart:
      "db_create db file_intent_table new ups w = (r, w') \<Longrightarrow> ntab w' = ntab w \<and> w_os w' = w_os w"
      "db_updates db file_intent_table conds ups w = (r, w') \<Longrightarrow> ntab w' = ntab w \<and> w_os w' = w_os w"
      "db_find db file_intent_table conds order limit w = (fr, w') \<Longrightarrow> ntab w' = ntab w \<and> w_os w' = w_os w"
    and nodes_apart:
      "db_create db file_node_table new ups w = (r, w') \<Longrightarrow> itab w' = itab w \<and> w_os w' = w_os w"
      "db_updates db file_node_table conds ups w = (r, w') \<Longrightarrow> itab w' = itab w \<and> w_os w' = w_os w"
      "db_find db file_node_table conds order limit w = (fr, w') \<Longrightarrow> itab w' = itab w \<and> w_os w' = w_os w"
    and tables_in_db: "w_db w' = w_db w \<Longrightarrow> itab w' = itab w \<and> ntab w' = ntab w"
begin

lemma intent_calls_apart:
  "is_enqueue (mysql_intent_store db) i w = (r, w') \<Longrightarrow> ntab w' = ntab w \<and> w_os w' = w_os w"
  "is_mark_done (mysql_intent_store db) k w = (r, w') \<Longrightarrow> ntab w' = ntab w \<and> w_os w' = w_os w"
  "is_mark_aborted (mysql_intent_store db) k s w = (r, w') \<Longrightarrow> ntab w' = ntab w \<and> w_os w' = w_os w"
  "is_increment_attempt (mysql_intent_store db) k s w = (r, w') \<Longrightarrow> ntab w' = ntab w \<and> w_os w' = w_os w"
  "is_list_pending (mysql_intent_store db) n w = (lr, w') \<Longrightarrow> ntab w' = ntab w \<and> w_os w' = w_os w"
  using intents_apart
  by (auto simp: mysql_intent_store_def mysql_enqueue_def mysql_mark_done_def mysql_mark_aborted_def
      mysql_increment_attempt_def mysql_list_pending_def Let_def simp del: intent_status_text.simps
      split: if_splits prod.splits sum.splits)

lemma node_calls_apart:
  "ns_upsert (mysql_node_store db) m w = (r, w') \<Longrightarrow> itab w' = itab w \<and> w_os w' = w_os w"
  "ns_mark_deleted (mysql_node_store db) m w = (r, w') \<Longrightarrow> itab w' = itab w \<and> w_os w' = w_os w"
  "ns_lookup (mysql_node_store db) ids w = (lr, w') \<Longrightarrow> itab w' = itab w \<and> ntab w' = ntab w \<and> w_os w' = w_os w"
  using nodes_apart N.asked(1)
  by (auto simp: mysql_node_store_def mysql_upsert_def mysql_mark_deleted_def mysql_lookup_def
      split: if_splits prod.splits sum.splits)

text \<open>What the views read of the world.\<close>

lemma views_in_tables:
  "itab w' = itab w \<Longrightarrow> intent_view itab w' = intent_view itab w"
  "itab w' = itab w \<Longrightarrow> intents_good itab w' = intents_good itab w"
  "ntab w' = ntab w \<Longrightarrow> node_view ntab w' = node_view ntab w"
  "w_os w' = w_os w \<Longrightarrow> on_disk w' = on_disk w"
proof -
  assume "itab w' = itab w"
  then show "intent_view itab w' = intent_view itab w"
    by (intro ext) (simp add: intent_view_def)
next
  assume "itab w' = itab w"
  then show "intents_good itab w' = intents_good itab w" by (simp add: intents_good_def)
next
  assume "ntab w' = ntab w"
  then show "node_view ntab w' = node_view ntab w"
    by (intro ext) (simp add: node_view_def)
next
  assume "w_os w' = w_os w"
  then show "on_disk w' = on_disk w"
    by (intro ext) (simp add: on_disk_def)
qed

lemma stat_inode_kept:
  assumes "stat_inode p w = (sr, w')"
  shows "itab w' = itab w" "ntab w' = ntab w" "on_disk w' = on_disk w"
proof -
  note r = stat_inode_result [OF assms]
  then have "w_db w' = w_db w" by blast
  from tables_in_db [OF this] show "itab w' = itab w" "ntab w' = ntab w" by blast+
  from r have "fs_same (w_os w) (w_os w')" by blast
  then have "fs_lookup (w_os w') = fs_lookup (w_os w)" by (rule fs_sameD(6))
  then show "on_disk w' = on_disk w" by (intro ext) (simp add: on_disk_def)
qed

lemma mysql_recovery_contract:
  "recovery (mysql_intent_store db) (intent_view itab) (intents_good itab) intent_key
     (mysql_node_store db) (node_view ntab) stat_inode on_disk"
proof (intro_locales, unfold_locales, goal_cases)
  case (10 p w sr w')
  note kept = stat_inode_kept [OF 10]
  show ?case using views_in_tables(1,2) [OF kept(1)] views_in_tables(3) [OF kept(2)] kept(3) by simp
next
  case (11 p w ino ex w')
  then show ?case using stat_inode_result by blast
qed (auto dest!: intent_calls_apart node_calls_apart intro!: views_in_tables(1,3,4) simp: intents_good_def)

end

sublocale mysql_tables < recovery "mysql_intent_store db" "intent_view itab" "intents_good itab" intent_key
    "mysql_node_store db" "node_view ntab" stat_inode on_disk
  by (rule mysql_recovery_contract)

text \<open>The journalled calls of the client leave both tables alone.\<close>

context mysql_tables
begin

lemma tables_frame:
  assumes "fc_store c = Some (mysql_node_store db)"
  shows "client_tables (\<lambda>w w'. itab w' = itab w \<and> ntab w' = ntab w) c"
proof (unfold_locales, goal_cases)
  case (3 w s)
  show ?case by (rule tables_in_db) simp
next
  case (4 ns ids w r w')
  with assms node_calls_apart(3) show ?case by simp
qed simp_all

lemma mysql_service_allowed:
  assumes "fc_store c = Some (mysql_node_store db)" "service_step c l" "list_all intent_key (keys_of l)"
  shows "allowed l"
proof -
  have kept: "untouched v v'" if "itab v' = itab v \<and> ntab v' = ntab v" for v v'
  proof -
    from that have i: "itab v' = itab v" and n: "ntab v' = ntab v" by blast+
    show ?thesis unfolding untouched_def views_in_tables(1,2) [OF i] views_in_tables(3) [OF n] by blast
  qed
  have act: "untouched v v'" if "rq_action (request_of c k call) v = (r, v')" for k call v r v'
    by (rule kept, rule client_tables.request_kept [OF tables_frame [OF assms(1)] that])
  have "proper (request_of c k call)" if "intent_key (rq_key (request_of c k call))" for k call
    unfolding proper_def by (intro conjI allI impI request_of_type that) (rule act)
  moreover have "untouched v (w_os_update g v)" for g v
    by (rule kept, rule tables_in_db) simp
  ultimately show ?thesis using assms(2,3) by (auto simp: allowed_def service_step_def)
qed

lemma served_over_tables:
  assumes "process_run (Some recorder) (scanner mt n) (boot w) ls s" "0 < n"
    and "intents_good itab w" "typed w" "fc_store c = Some (mysql_node_store db)"
    and "list_all (service_step c) ls" "list_all intent_key (arrived_keys ls)" "fresh_keys (intent_view itab w) ls"
  shows "journal_kept (intent_view itab w) (node_view ntab w) ls
    (intent_view itab (pr_world s)) (node_view ntab (pr_world s))"
proof -
  have "list_all intent_key (keys_of l)" if "l \<in> set ls" for l
    using that assms(7) by (auto simp: arrived_keys_def list_all_iff)
  then have "\<forall>l \<in> set ls. allowed l"
    using assms(6) mysql_service_allowed [OF assms(5)] by (auto simp: list_all_iff)
  from run_kept [OF assms(1,3,4,2) this assms(8)] show ?thesis .
qed

end

section \<open>An engine with both tables\<close>

text \<open>The engine of theory Gorm, once per table name.\<close>

definition at_table :: "sql_table \<Rightarrow> (stored \<Rightarrow> 'r \<times> stored) \<Rightarrow> (string \<Rightarrow> stored) world \<Rightarrow> 'r \<times> (string \<Rightarrow> stored) world" where
  "at_table tb f = on_db (\<lambda>d. case f (d (tb_name tb)) of (r, t) \<Rightarrow> (r, d(tb_name tb := t)))"

definition shared_db :: "(string \<Rightarrow> stored) world gorm_db" where
  "shared_db =
     \<lparr>db_create = (\<lambda>tb new ups. at_table tb (db_create stored_db tb new ups)),
      db_updates = (\<lambda>tb conds ups. at_table tb (db_updates stored_db tb conds ups)),
      db_find = (\<lambda>tb conds order limit. at_table tb (db_find stored_db tb conds order limit)),
      db_first = (\<lambda>tb conds order. at_table tb (db_first stored_db tb conds order))\<rparr>"

definition shared_tab :: "sql_table \<Rightarrow> (string \<Rightarrow> stored) world \<Rightarrow> sql_value \<Rightarrow> sql_row option" where
  "shared_tab tb w = stored_tab tb (w_db w (tb_name tb))"

lemma at_table_iff [simp]:
  "at_table tb f w = (r, w') \<longleftrightarrow> (\<exists>t. f (w_db w (tb_name tb)) = (r, t) \<and> w' = w\<lparr>w_db := (w_db w)(tb_name tb := t)\<rparr>)"
  by (auto simp: at_table_def on_db_def split: prod.splits)

lemma shared_calls [simp]:
  "db_create shared_db tb new ups = at_table tb (db_create stored_db tb new ups)"
  "db_updates shared_db tb conds ups = at_table tb (db_updates stored_db tb conds ups)"
  "db_find shared_db tb conds order limit = at_table tb (db_find stored_db tb conds order limit)"
  "db_first shared_db tb conds order = at_table tb (db_first stored_db tb conds order)"
  by (simp_all add: shared_db_def)

lemma shared_db_laws: "gorm shared_db tb (shared_tab tb)"
proof (unfold_locales, goal_cases)
  case (1 new ups w w')
  then show ?case using stored.create_new [of tb new ups "w_db w (tb_name tb)"] by (auto simp: shared_tab_def)
next
  case (2 new ups w w' r)
  then show ?case using stored.create_old [of tb new ups "w_db w (tb_name tb)"] by (auto simp: shared_tab_def)
next
  case (3 conds ups w w')
  then obtain t where t: "db_updates stored_db tb conds ups (w_db w (tb_name tb)) = (None, t)"
    "shared_tab tb w' = stored_tab tb t" by (auto simp: shared_tab_def)
  from stored.updates_ok [OF t(1) 3(2)] show ?case unfolding t(2) by (simp only: shared_tab_def)
next
  case (4 conds order limit w rs w')
  then show ?case using stored.find_ok [of tb conds order limit "w_db w (tb_name tb)" rs] by (auto simp: shared_tab_def)
next
  case (5 conds order w r w')
  then show ?case using stored.first_ok [of tb conds order "w_db w (tb_name tb)" r] by (auto simp: shared_tab_def)
next
  case (6 new ups w e w')
  then show ?case using stored.failed(1) [of tb new ups "w_db w (tb_name tb)" e] by (auto simp: shared_tab_def)
next
  case (7 conds ups w e w')
  then show ?case using stored.failed(2) [of tb conds ups "w_db w (tb_name tb)" e] by (auto simp: shared_tab_def)
next
  case (8 conds order limit w fr w')
  then show ?case using stored.asked(1) [of tb conds order limit "w_db w (tb_name tb)" fr] by (auto simp: shared_tab_def)
next
  case (9 conds order w r1 w')
  then show ?case using stored.asked(2) [of tb conds order "w_db w (tb_name tb)" r1] by (auto simp: shared_tab_def)
next
  case (10 w k r)
  then show ?case using stored.keyed by (simp add: shared_tab_def)
next
  case (11 conds order limit w rs w')
  then show ?case using stored.find_limited [of tb conds order limit "w_db w (tb_name tb)" rs] by (auto simp: shared_tab_def)
qed

lemma database_table_names: "tb_name file_intent_table = ''ws_file_intent''" "tb_name file_node_table = ''ws_file_node''"
  by (simp_all add: file_intent_table_def file_node_table_def)

interpretation shared: mysql_tables shared_db "shared_tab file_intent_table" "shared_tab file_node_table"
proof (intro_locales)
  show "gorm shared_db file_intent_table (shared_tab file_intent_table)"
    "gorm shared_db file_node_table (shared_tab file_node_table)" by (rule shared_db_laws)+
  show "mysql_tables_axioms shared_db (shared_tab file_intent_table) (shared_tab file_node_table)"
    by unfold_locales (auto simp: shared_tab_def database_table_names)
qed

section \<open>The server on its two tables\<close>

text \<open>
  C39. What the journal guarantees holds for the tables the server runs on. Take any database that
  keeps the laws of gorm for \<open>ws_file_intent\<close> and \<open>ws_file_node\<close> and does not let the calls on one
  table touch the other, and the stores that the start-up opens on it. Then in every run of the
  process, with requests beside the recovery scan, deletions, changes of the storage by others,
  crashes and restarts in any order, the rows and the journal entries as read from the tables are
  kept as the journal promises.
\<close>

theorem mysql_journal_beside_recovery:
  assumes "mysql_tables db itab ntab" "my_dsn cfg \<noteq> []" "open_db cfg = Inr db"
    and "new_optional_file_node_store open_db cfg = Inr nodes"
    and "new_optional_file_intent_store open_db cfg = Inr intents"
    and "process_run (new_node_recorder nodes intents) (new_recoverer intents nodes (Some stat_inode)) (boot w) ls s"
    and "intents_good itab w" "\<forall>k j. intent_view itab w k = Some j \<longrightarrow> known_node_type (it_node_type j)"
    and "fc_store c = nodes" "list_all (service_step c) ls"
    and "list_all intent_key (arrived_keys ls)" "fresh_keys (intent_view itab w) ls"
  shows "journal_kept (intent_view itab w) (node_view ntab w) ls
    (intent_view itab (pr_world s)) (node_view ntab (pr_world s))"
proof -
  have stores: "nodes = Some (mysql_node_store db)" "intents = Some (mysql_intent_store db)"
    using assms(2-5) by (simp_all add: new_optional_file_node_store_def new_optional_file_intent_store_def)
  note r = recovery.typed_def [OF mysql_tables.mysql_recovery_contract [OF assms(1)]]
  show ?thesis
    by (rule mysql_tables.served_over_tables [OF assms(1) _ _ assms(7) _ _ assms(10-12), where mt = 5 and n = 200])
      (use assms(6,8,9) in \<open>simp_all add: r stores new_node_recorder_def new_recoverer_def
        default_recovery_batch_def default_recovery_max_tries_def\<close>)
qed

text \<open>A run on the engine: a file is created and the process is killed before its row is written.\<close>

definition shared_client :: "(string \<Rightarrow> stored) fs_client" where
  "shared_client = \<lparr>fc_store = Some (mysql_node_store shared_db), fc_mount_root = ''/m''\<rparr>"

definition empty_tables :: "(string \<Rightarrow> stored) world" where
  "empty_tables = \<lparr>w_os = sample_fs [], w_db = (\<lambda>t. [])\<rparr>"

definition shared_request :: "(string \<Rightarrow> stored) world request" where
  "shared_request = request_of shared_client ''k''
     (CreatesFile \<lparr>cf_actor = sample_actor, cf_path = new_file, cf_content = ''hi'', cf_overwrite = False\<rparr>)"

abbreviation shared_recorder :: "(string \<Rightarrow> stored) world node_recorder" where
  "shared_recorder \<equiv> \<lparr>rec_nodes = Some (mysql_node_store shared_db), rec_intents = Some (mysql_intent_store shared_db)\<rparr>"

definition written_down :: "(string \<Rightarrow> stored) world" where
  "written_down = snd (recorder_enqueue shared_recorder ''k'' IntentOpCreateFile new_file sample_actor NodeTypeFile empty_tables)"

lemma shared_enqueue:
  "recorder_enqueue shared_recorder ''k'' IntentOpCreateFile new_file sample_actor NodeTypeFile empty_tables = (''k'', written_down)"
proof -
  have "fst (recorder_enqueue shared_recorder ''k'' IntentOpCreateFile new_file sample_actor NodeTypeFile empty_tables) = ''k''"
    by code_simp
  then show ?thesis by (simp add: written_down_def prod_eq_iff)
qed

lemma shared_create:
  "map_sum (\<lambda>_. ()) fi_inode_id (fst (rq_action shared_request written_down)) = Inr 9"
  by code_simp

definition killed_early :: "((string \<Rightarrow> stored) world happening list \<times> (string \<Rightarrow> stored) world process) option" where
  "killed_early = play (Some shared_recorder) (shared.scanner 5 200)
     [EvBuilt None, EvArrive shared_request, EvRequest 0, EvRequest 0, EvKill] (boot empty_tables)"

lemma shared_request_fields:
  "rq_key shared_request = ''k''" "rq_op shared_request = IntentOpCreateFile" "rq_path shared_request = new_file"
  "rq_actor shared_request = sample_actor" "rq_type shared_request = NodeTypeFile"
  by (simp_all add: shared_request_def)

lemma killed_early_ends:
  obtains ls s info where "killed_early = Some (ls, s)" "arrived_keys ls = [''k'']" "landed ls ''k'' info"
    "fi_inode_id info = 9" "pr_main s = Killed" "Removed 9 \<notin> set ls" "list_all (service_step shared_client) ls"
    "\<not> scan_settled ls ''k''"
proof -
  obtain res w where c: "rq_action shared_request written_down = (res, w)" by (cases "rq_action shared_request written_down")
  with shared_create obtain info where info: "res = Inr info" "fi_inode_id info = 9" by (cases res) auto
  have step: "\<exists>k call. shared_request = request_of shared_client k call" unfolding shared_request_def by blast
  show thesis
    by (rule that [of _ _ info])
      (simp_all add: killed_early_def boot_def main_to_def leave_def shared_request_fields shared_enqueue c info
        arrived_keys_def landed_def scan_settled_def,
       simp_all add: shared_request_fields service_step_def step)
qed

theorem mysql_journal_beside_recovery_witness:
  "\<exists>ls s info. process_run (Some shared_recorder) (shared.scanner 5 200) (boot empty_tables) ls s \<and>
    landed ls ''k'' info \<and> pr_main s = Killed \<and>
    (node_view (shared_tab file_node_table) (pr_world s) (fi_inode_id info) \<noteq> None \<or>
     (\<exists>j. intent_view (shared_tab file_intent_table) (pr_world s) ''k'' = Some j \<and> it_status j = IntentPending))"
proof -
  obtain ls s info where r: "killed_early = Some (ls, s)" "arrived_keys ls = [''k'']" "landed ls ''k'' info"
    "fi_inode_id info = 9" "pr_main s = Killed" "Removed 9 \<notin> set ls" "list_all (service_step shared_client) ls"
    "\<not> scan_settled ls ''k''" by (rule killed_early_ends)
  note run = played_run [OF r(1) [unfolded killed_early_def]]
  let ?cfg = "\<lparr>my_dsn = ''d'', my_max_open_conns = 0, my_max_idle_conns = 0, my_conn_max_lifetime = 0\<rparr>"
  have empty: "intent_view (shared_tab file_intent_table) empty_tables k = None" "intents_good (shared_tab file_intent_table) empty_tables" for k
    by (simp_all add: intent_view_def intents_good_def shared_tab_def stored_tab_def empty_tables_def dom_def)
  have "journal_kept (intent_view (shared_tab file_intent_table) empty_tables) (node_view (shared_tab file_node_table) empty_tables) ls
    (intent_view (shared_tab file_intent_table) (pr_world s)) (node_view (shared_tab file_node_table) (pr_world s))"
    by (rule mysql_journal_beside_recovery [OF shared.mysql_tables_axioms, of ?cfg "\<lambda>_. Inr shared_db"
          "Some (mysql_node_store shared_db)" "Some (mysql_intent_store shared_db)" _ _ _ shared_client])
      (use run r(2,7) in \<open>simp_all add: empty new_optional_file_node_store_def new_optional_file_intent_store_def
        new_node_recorder_def new_recoverer_def default_recovery_batch_def default_recovery_max_tries_def
        shared_client_def intent_key_def drop_pad_def fresh_keys_def\<close>)
  then have "''k'' \<noteq> [] \<and> landed ls ''k'' info \<Longrightarrow>
      fi_inode_id info \<noteq> 0 \<and> (node_view (shared_tab file_node_table) (pr_world s) (fi_inode_id info) \<noteq> None \<or>
        Removed (fi_inode_id info) \<in> set ls) \<or>
      (\<exists>j. intent_view (shared_tab file_intent_table) (pr_world s) ''k'' = Some j \<and> it_status j = IntentPending) \<or>
      scan_settled ls ''k''"
    unfolding journal_kept_def by blast
  then have "node_view (shared_tab file_node_table) (pr_world s) (fi_inode_id info) \<noteq> None \<or>
     (\<exists>j. intent_view (shared_tab file_intent_table) (pr_world s) ''k'' = Some j \<and> it_status j = IntentPending)"
    using r(3,6,8) unfolding r(4) by blast
  with run r(3,5) show ?thesis by blast
qed

end
