(* ===== verification/Spec2Isabelle.thy ===== *)
theory Spec2Isabelle
  imports Durability Repositories CloneRuns RecycleBin GatewayRuns HttpRuns Routes MysqlJournal
begin

text \<open>
  A model of \<open>workspace-service\<close>, the backend of a multi-tenant notebook workspace, and the
  theorems that make it correct. All paths below are under \<open>src/internal\<close> unless they start with
  \<open>src/\<close>.

  \<^bold>\<open>The program.\<close> An HTTP server offers file, git and Jupyter endpoints. The file endpoints work on
  a mounted file system below \<open>mount/app/workspace/users/uin\<close>; creating and writing is journalled in a
  table of intents, and a scan after a restart settles what a crash left pending. The git
  endpoints drive the library go-git on directories of the same mount, with a registry of clone
  jobs that run beside the requests. The Jupyter endpoints are relayed to a gateway, over a client
  with retries, a wrapper that keeps a table of sessions, and bridges for WebSockets. Tables are in
  MySQL or in memory.

  \<^bold>\<open>Foundations.\<close>
  \<^item> \<open>Prelude\<close>: lemmas on lists and maps, and the collections of simplification rules.
  \<^item> \<open>GoStrings\<close>, \<open>GoPath\<close>, \<open>GoErrors\<close>, \<open>GoTime\<close>, \<open>Base64\<close>, \<open>Urls\<close>: what the code uses of
    \<open>strings\<close>, \<open>path/filepath\<close>, \<open>errors\<close> and \<open>fmt\<close>, \<open>time\<close>, \<open>encoding/base64\<close> and \<open>net/url\<close>. A string
    is a list of bytes; an error is the sentinels it wraps and its text.
  \<^item> \<open>Json\<close>, \<open>JsonDocs\<close>, \<open>JsonStructs\<close>: \<open>encoding/json\<close>, parsing with fuel (the length of the text,
    which \<open>json_fuel_le\<close> shows to be enough), writing, the round trip, and decoding into structs.
  \<^item> \<open>Http\<close>: header maps, requests, replies and the context values of \<open>src/pkg/ctxmeta\<close>.

  \<^bold>\<open>Files.\<close>
  \<^item> \<open>Identity\<close> (\<open>domain/identity/context.go\<close>): the caller, and the resolution of request paths.
  \<^item> \<open>FileDomain\<close>, \<open>FsDomain\<close> (\<open>domain/file\<close>, \<open>domain/fs\<close>): rows, intents and their life cycle, the
    storage port \<open>WorkspaceFS\<close>. \<open>Notebook\<close>: the empty notebook.
  \<^item> \<open>Stores\<close>: the ports \<open>NodeStore\<close> and \<open>IntentStore\<close> as records of methods, and their contracts as
    the locales \<open>node_store\<close> and \<open>intent_store\<close>. \<open>MemoryStores\<close> (\<open>infra/persistence/memory\<close>) and
    \<open>MysqlStores\<close> (\<open>infra/persistence/mysql\<close>) provide them; \<open>Gorm\<close> states what the latter rely on
    (locale \<open>gorm\<close>) and shows that an engine of stored rows keeps it.
  \<^item> \<open>Journal\<close> (\<open>usecase/fs/recorder.go\<close>), \<open>Recovery\<close> (\<open>usecase/fs/recovery.go\<close>): the write-ahead
    journal and the scan, with the locales \<open>journal\<close> and those of the scan.
  \<^item> \<open>Posix\<close>: the system calls \<open>infra/fs\<close> makes, over a tree of files and directories with inodes. A
    schedule of faults says which call fails and after how many bytes, so that a theorem about all
    schedules is about every partial failure. \<open>AtomicWrite\<close>: the temporary file and the rename.
  \<^item> \<open>MountFS\<close> (\<open>infra/fs\<close>): the storage client, one definition per method. \<open>ClientFrame\<close>: the locales
    \<open>client_reads\<close> and \<open>client_frame\<close>, which reduce a frame property of all methods to one per
    system call. \<open>MemoryWorld\<close>, \<open>Examples\<close>: the file system with the in-memory tables.
  \<^item> \<open>FileService\<close> (\<open>usecase/fs\<close>): every method of the file service.

  \<^bold>\<open>Git.\<close>
  \<^item> \<open>GitDomain\<close>, \<open>GitService\<close> (\<open>domain/git\<close>, \<open>usecase/git\<close>): the port and the service.
  \<^item> \<open>CloneJobs\<close> (\<open>usecase/git/git_folder.go\<close>, \<open>clone_jobs.go\<close>): the registry, and a clone as a thread
    whose program points are the steps other goroutines can see; \<open>CloneRuns\<close> has its runs.
  \<^item> \<open>IdentityFS\<close>, \<open>GitClient\<close> (\<open>infra/git\<close>): the worktree wrapper and the client. The library go-git is
    the record \<open>go_git\<close> of functions, an argument of the client. \<open>GitExamples\<close>: an instance of it.

  \<^bold>\<open>Gateway.\<close>
  \<^item> \<open>GatewayDomain\<close>, \<open>Sessions\<close> (\<open>domain/gateway\<close>, \<open>domain/session\<close>, the in-memory session table): the
    models with their JSON, the port, the rows and the locale \<open>session_store\<close>.
  \<^item> \<open>PersistingGateway\<close>, \<open>GatewayClient\<close>, \<open>GatewayProxy\<close> (\<open>infra/gateway\<close>): the wrapper, the client over
    a network that is an argument, the HTTP relay, and the WebSocket bridge as a step relation of two
    interleaved pumps. The back-off counts attempts, so the retry loop needs no fuel.

  \<^bold>\<open>HTTP.\<close>
  \<^item> \<open>RequestBinding\<close> (\<open>adapter/http/req\<close>), \<open>Handlers\<close>, \<open>FileHandlers\<close>, \<open>GitHandlers\<close>, \<open>GatewayHandlers\<close>
    (\<open>adapter/http/handler\<close>, \<open>response\<close>, \<open>middleware\<close>), \<open>Router\<close> (\<open>adapter/http/router\<close>): bodies and
    identity, one definition per endpoint, the status of every error, the route table. A handler
    returns \<open>None\<close> when it never answers, which only a walk that does not end can cause.
  \<^item> \<open>Config\<close> (\<open>config\<close>, \<open>infra/logger\<close>), \<open>Startup\<close> (\<open>src/cmd/server/main.go\<close>): settings, and how the
    parts are put together.
  \<^item> \<open>Serving\<close>: the running process of \<open>main.go\<close>, with the main goroutine, the one that serves, the one
    that recovers and one for each journalled request. The recorder and the scan are cut there into
    the steps between which others can run (\<open>request_step\<close>, \<open>scan_step\<close>), and run alone they are
    \<open>recorder_run\<close> and \<open>recover_loop\<close> (\<open>request_alone\<close>, \<open>scan_is_recover_loop\<close>). An event says who moves,
    \<open>process_next\<close> is the step, and a run is any list of events, crashes and restarts among them.

  \<^bold>\<open>What is shown.\<close>
  \<^item> \<open>Durability\<close>: the journal tells the truth, a crash followed by a scan leaves rows and files in
    agreement, the scan ends and settles everything, and the one case in which it spins.
  \<^item> \<open>ServingGuarantees\<close>: what the journal guarantees under every interleaving of requests, scan,
    crashes and restarts, proved in the locale \<open>recovery\<close> and read off for the in-memory stores
    here and for the MySQL tables in \<open>MysqlJournal\<close>, and the run in which a scan beside a request hides a file; \<open>Serving\<close> also shows that a process that
    stops has answered every request.
  \<^item> \<open>Isolation\<close>, \<open>Confinement\<close>: paths resolve below the caller's root and no request changes anything
    elsewhere, and the two ways around it; \<open>Endpoints\<close>, \<open>HttpGuarantees\<close> carry it to whole requests.
  \<^item> \<open>Storage\<close>, \<open>RecycleBin\<close>: writes are all or nothing, contents are read back, deletion, copying,
    and deletion with restore, under all schedules of faults.
  \<^item> \<open>Repositories\<close>, \<open>CloneJobs\<close>: the metadata directory mirrors the worktree, what commit, push and
    delete do, and the invariant and the termination of clone jobs under every schedule.
  \<^item> \<open>GatewayGuarantees\<close>: the session table is a replay of the gateway's answers, retries are bounded,
    ids and headers on the wire, frames relayed in order. \<open>GatewayRuns\<close> and \<open>HttpRuns\<close> have the
    concrete runs.
  \<^item> \<open>HttpGuarantees\<close>, \<open>Envelopes\<close>, \<open>Routes\<close>: the identity of a request, the status and the shape of every
    reply, write and read over HTTP, the route table. \<open>MysqlGuarantees\<close>: the two node stores agree.
    \<open>MysqlJournal\<close>: the two tables together keep the contracts of the journal and of the scan.

  \<^bold>\<open>Bounds and partiality.\<close> Inodes are 64-bit words, sizes and Go's \<open>int\<close> are unbounded integers
  (file sizes stay far below their width). Directory walks, the copy of a directory and the scan of
  the recovery may run forever and are \<open>partial_function\<close>s in the option monad; where they end, that is
  proved.

  \<^bold>\<open>Not modelled.\<close> Permission bits, symbolic links and the content of log lines; the libraries gorm,
  go-git, gin's matching of paths, viper, zap and the TLS stack beyond the calls above, which are
  parameters; the interleaving of requests that are not journalled (of those, the process of theory
  Serving knows the deletion of a row and any change of the storage; clone jobs and the bridge have
  their own step relations); the constants of \<open>testutil\<close>, which only tests use.
\<close>

end
